(* ===== verification/Prelude.thy ===== *)
theory Prelude
  imports Main "HOL-Library.Word" "HOL-Library.Monad_Syntax"
begin

text \<open>
  The prelude holds what every component theory shares and nothing of the service itself:
  the effect type of the model (a computation over a state that either returns or throws, and
  keeps what it wrote before it threw, as a JavaScript method does), its proof rules, the text
  functions of JavaScript the sources call, decimal numerals, tables as lists of rows, and the
  generic state machine whose invariant theorem the component machines instantiate.
\<close>

section \<open>Proof collections\<close>

named_theorems io_simps \<open>unfolding rules of the effect combinators\<close>
named_theorems keeps_rules \<open>introduction rules for \<open>keeps\<close>: a computation keeps a state predicate\<close>

section \<open>Computations that read, write and throw\<close>

text \<open>
  An \<^verbatim>\<open>async\<close> method of the service is a function from the state to its outcome and the state
  it leaves: \<open>Inl e\<close> is an exception \<open>e\<close>, \<open>Inr x\<close> the value returned. A throw does not undo
  earlier writes; only \<open>atomically\<close>, a database transaction, does. It gives the whole state back,
  counters of sequences and draws of random values included; a database does not reuse those, and
  nothing below distinguishes an identifier that was never given from one that was given back.
\<close>

type_synonym ('s, 'e, 'a) io = "'s \<Rightarrow> ('e + 'a) \<times> 's"

definition returns :: "'a \<Rightarrow> ('s, 'e, 'a) io" where
  "returns x = (\<lambda>s. (Inr x, s))"

definition throws :: "'e \<Rightarrow> ('s, 'e, 'a) io" where
  "throws e = (\<lambda>s. (Inl e, s))"

definition andThen :: "('s, 'e, 'a) io \<Rightarrow> ('a \<Rightarrow> ('s, 'e, 'b) io) \<Rightarrow> ('s, 'e, 'b) io" where
  "andThen m f = (\<lambda>s. case m s of (Inl e, t) \<Rightarrow> (Inl e, t) | (Inr x, t) \<Rightarrow> f x t)"

definition catches :: "('s, 'e, 'a) io \<Rightarrow> ('e \<Rightarrow> ('s, 'e, 'a) io) \<Rightarrow> ('s, 'e, 'a) io" where
  "catches m h = (\<lambda>s. case m s of (Inl e, t) \<Rightarrow> h e t | (Inr x, t) \<Rightarrow> (Inr x, t))"

definition reads :: "('s \<Rightarrow> 'a) \<Rightarrow> ('s, 'e, 'a) io" where
  "reads f = (\<lambda>s. (Inr (f s), s))"

definition writes :: "('s \<Rightarrow> 's) \<Rightarrow> ('s, 'e, unit) io" where
  "writes f = (\<lambda>s. (Inr (), f s))"

definition atomically :: "('s, 'e, 'a) io \<Rightarrow> ('s, 'e, 'a) io" where
  "atomically m = (\<lambda>s. case m s of (Inl e, t) \<Rightarrow> (Inl e, s) | (Inr x, t) \<Rightarrow> (Inr x, t))"

definition lifted :: "'e + 'a \<Rightarrow> ('s, 'e, 'a) io" where
  "lifted r = (\<lambda>s. (r, s))"

lemma returns_run [simp, io_simps]: "returns x s = (Inr x, s)"
  by (simp add: returns_def)

lemma throws_run [simp, io_simps]: "throws e s = (Inl e, s)"
  by (simp add: throws_def)

lemma reads_run [simp, io_simps]: "reads f s = (Inr (f s), s)"
  by (simp add: reads_def)

lemma writes_run [simp, io_simps]: "writes f s = (Inr (), f s)"
  by (simp add: writes_def)

lemma lifted_run [simp, io_simps]: "lifted r s = (r, s)"
  by (simp add: lifted_def)

lemma andThen_run [io_simps]:
  "andThen m f s = (case m s of (Inl e, t) \<Rightarrow> (Inl e, t) | (Inr x, t) \<Rightarrow> f x t)"
  by (simp add: andThen_def)

lemma catches_run [io_simps]:
  "catches m h s = (case m s of (Inl e, t) \<Rightarrow> h e t | (Inr x, t) \<Rightarrow> (Inr x, t))"
  by (simp add: catches_def)

lemma atomically_run [io_simps]:
  "atomically m s = (case m s of (Inl e, t) \<Rightarrow> (Inl e, s) | (Inr x, t) \<Rightarrow> (Inr x, t))"
  by (simp add: atomically_def)

text \<open>The monad laws, used to fold straight-line prefixes of a method away.\<close>

lemma andThen_returns [simp]: "andThen (returns x) f = f x"
  by (simp add: andThen_def returns_def)

lemma andThen_throws [simp]: "andThen (throws e) f = throws e"
  by (simp add: andThen_def throws_def fun_eq_iff)

lemma andThen_reads [simp]: "andThen (reads g) f s = f (g s) s"
  by (simp add: andThen_def)

lemma andThen_writes [simp]: "andThen (writes g) f s = f () (g s)"
  by (simp add: andThen_def)

lemma andThen_assoc: "andThen (andThen m f) g = andThen m (\<lambda>x. andThen (f x) g)"
  by (auto simp: andThen_def fun_eq_iff split: prod.splits sum.splits)

text \<open>Inversion of a run: what a returned value or an exception says about the parts.\<close>

lemma andThen_Inr:
  "andThen m f s = (Inr y, t) \<longleftrightarrow> (\<exists>x u. m s = (Inr x, u) \<and> f x u = (Inr y, t))"
  by (auto simp: andThen_def split: prod.splits sum.splits)

lemma andThen_InrE:
  assumes "andThen m f s = (Inr y, t)"
  obtains x u where "m s = (Inr x, u)" and "f x u = (Inr y, t)"
  using assms by (auto simp: andThen_Inr)

lemma andThen_Inl:
  "andThen m f s = (Inl e, t) \<longleftrightarrow>
     m s = (Inl e, t) \<or> (\<exists>x u. m s = (Inr x, u) \<and> f x u = (Inl e, t))"
  by (auto simp: andThen_def split: prod.splits sum.splits)

lemma run_fst: "fst x = r \<Longrightarrow> x = (r, snd x)"
  by (simp add: prod_eq_iff)

lemma returned: "\<not> isl (fst r) \<Longrightarrow> \<exists>x t. r = (Inr x, t)"
  by (cases r; cases "fst r") auto

lemma atomically_Inr: "atomically m s = (Inr y, t) \<longleftrightarrow> m s = (Inr y, t)"
  by (auto simp: atomically_def split: prod.splits sum.splits)

lemma atomically_Inl: "atomically m s = (Inl e, t) \<longleftrightarrow> t = s \<and> (\<exists>u. m s = (Inl e, u))"
  by (auto simp: atomically_def split: prod.splits sum.splits)

section \<open>Computations that keep a state predicate\<close>

definition keeps :: "('s \<Rightarrow> bool) \<Rightarrow> ('s, 'e, 'a) io \<Rightarrow> bool" where
  "keeps I m \<longleftrightarrow> (\<forall>s. I s \<longrightarrow> I (snd (m s)))"

lemma keepsI: "(\<And>s. I s \<Longrightarrow> I (snd (m s))) \<Longrightarrow> keeps I m"
  by (simp add: keeps_def)

lemma keepsD: "keeps I m \<Longrightarrow> I s \<Longrightarrow> I (snd (m s))"
  by (simp add: keeps_def)

lemma keeps_run: "keeps I m \<Longrightarrow> I s \<Longrightarrow> m s = (r, t) \<Longrightarrow> I t"
  by (drule (1) keepsD) simp

lemma keeps_returns [keeps_rules]: "keeps I (returns x)"
  by (simp add: keeps_def)

lemma keeps_throws [keeps_rules]: "keeps I (throws e)"
  by (simp add: keeps_def)

lemma keeps_reads [keeps_rules]: "keeps I (reads f)"
  by (simp add: keeps_def)

lemma keeps_lifted [keeps_rules]: "keeps I (lifted r)"
  by (simp add: keeps_def)

lemma keeps_writes: "(\<And>s. I s \<Longrightarrow> I (f s)) \<Longrightarrow> keeps I (writes f)"
  by (simp add: keeps_def)

lemma keeps_andThen [keeps_rules]:
  "keeps I m \<Longrightarrow> (\<And>x. keeps I (f x)) \<Longrightarrow> keeps I (andThen m f)"
  by (fastforce simp: keeps_def andThen_def split: prod.splits sum.splits)

lemma keeps_catches [keeps_rules]:
  "keeps I m \<Longrightarrow> (\<And>e. keeps I (h e)) \<Longrightarrow> keeps I (catches m h)"
  by (fastforce simp: keeps_def catches_def split: prod.splits sum.splits)

lemma keeps_atomically [keeps_rules]: "keeps I m \<Longrightarrow> keeps I (atomically m)"
  by (fastforce simp: keeps_def atomically_def split: prod.splits sum.splits)

lemma keeps_if [keeps_rules]:
  "(b \<Longrightarrow> keeps I m) \<Longrightarrow> (\<not> b \<Longrightarrow> keeps I n) \<Longrightarrow> keeps I (if b then m else n)"
  by simp

lemma keeps_case_option [keeps_rules]:
  "(x = None \<Longrightarrow> keeps I m) \<Longrightarrow> (\<And>y. x = Some y \<Longrightarrow> keeps I (f y)) \<Longrightarrow>
   keeps I (case x of None \<Rightarrow> m | Some y \<Rightarrow> f y)"
  by (cases x) simp_all

lemma keeps_case_sum [keeps_rules]:
  "(\<And>y. x = Inl y \<Longrightarrow> keeps I (f y)) \<Longrightarrow> (\<And>y. x = Inr y \<Longrightarrow> keeps I (g y)) \<Longrightarrow>
   keeps I (case x of Inl y \<Rightarrow> f y | Inr y \<Rightarrow> g y)"
  by (cases x) simp_all

lemma keeps_case_prod [keeps_rules]:
  "(\<And>a b. p = (a, b) \<Longrightarrow> keeps I (f a b)) \<Longrightarrow> keeps I (case p of (a, b) \<Rightarrow> f a b)"
  by (cases p) simp

lemma keeps_Let [keeps_rules]: "(\<And>x. x = v \<Longrightarrow> keeps I (f x)) \<Longrightarrow> keeps I (Let v f)"
  by simp

lemma keeps_conj: "keeps I m \<Longrightarrow> keeps J m \<Longrightarrow> keeps (\<lambda>s. I s \<and> J s) m"
  by (simp add: keeps_def)

section \<open>Objects and maps, as JavaScript has them\<close>

text \<open>\<^verbatim>\<open>Map.set\<close> and the assignment of a member: a key that is there keeps its place.\<close>

fun map_set :: "'k \<Rightarrow> 'v \<Rightarrow> ('k \<times> 'v) list \<Rightarrow> ('k \<times> 'v) list" where
  "map_set k v [] = [(k, v)]"
| "map_set k v ((j, u) # m) = (if j = k then (j, v) # m else (j, u) # map_set k v m)"

lemma map_set_fst: "map fst (map_set k v m) = (if k \<in> fst ` set m then map fst m else map fst m @ [k])"
  by (induction k v m rule: map_set.induct) auto

lemma map_set_mem: "(k', v') \<in> set (map_set k v m) \<Longrightarrow> (k', v') \<in> set m \<or> k' = k \<and> v' = v"
  by (induction k v m rule: map_set.induct) (auto split: if_splits)

lemma map_of_map_set: "map_of (map_set k v m) = (map_of m)(k \<mapsto> v)"
  by (induction k v m rule: map_set.induct) auto

section \<open>Text, as JavaScript has it\<close>

text \<open>
  A \<open>char\<close> is a code point up to \<^verbatim>\<open>U+00FF\<close>, so a \<open>string\<close> is a JavaScript string over that
  range. White space, lower and upper case are those of \<^verbatim>\<open>String.prototype.trim\<close>,
  \<^verbatim>\<open>toLowerCase\<close> and \<^verbatim>\<open>toUpperCase\<close> there; the two characters whose capital lies beyond the
  range (\<^verbatim>\<open>U+00B5\<close>, \<^verbatim>\<open>U+00FF\<close>) stay as they are.
\<close>

abbreviation code_of :: "char \<Rightarrow> nat" where
  "code_of c \<equiv> of_char c"

definition js_space :: "char \<Rightarrow> bool" where
  "js_space c \<longleftrightarrow> code_of c \<in> {9, 10, 11, 12, 13, 32, 160}"

definition js_trim :: "string \<Rightarrow> string" where
  "js_trim s = rev (dropWhile js_space (rev (dropWhile js_space s)))"

definition js_lower_char :: "char \<Rightarrow> char" where
  "js_lower_char c =
     (let n = code_of c in
      if 65 \<le> n \<and> n \<le> 90 \<or> 192 \<le> n \<and> n \<le> 222 \<and> n \<noteq> 215 then char_of (n + 32) else c)"

definition js_toLowerCase :: "string \<Rightarrow> string" where
  "js_toLowerCase s = map js_lower_char s"

definition js_upper_char :: "char \<Rightarrow> string" where
  "js_upper_char c =
     (let n = code_of c in
      if n = 223 then ''SS''
      else if 97 \<le> n \<and> n \<le> 122 \<or> 224 \<le> n \<and> n \<le> 254 \<and> n \<noteq> 247 then [char_of (n - 32)]
      else [c])"

definition js_toUpperCase :: "string \<Rightarrow> string" where
  "js_toUpperCase s = concat (map js_upper_char s)"

fun js_split :: "char \<Rightarrow> string \<Rightarrow> string list" where
  "js_split c [] = [[]]"
| "js_split c (x # xs) =
     (if x = c then [] # js_split c xs
      else (case js_split c xs of [] \<Rightarrow> [[x]] | y # ys \<Rightarrow> (x # y) # ys))"

fun js_join :: "string \<Rightarrow> string list \<Rightarrow> string" where
  "js_join sep [] = []"
| "js_join sep [x] = x"
| "js_join sep (x # y # zs) = x @ sep @ js_join sep (y # zs)"

definition js_startsWith :: "string \<Rightarrow> string \<Rightarrow> bool" where
  "js_startsWith s p \<longleftrightarrow> take (length p) s = p"

definition js_includes :: "string \<Rightarrow> string \<Rightarrow> bool" where
  "js_includes s p \<longleftrightarrow> list_ex (\<lambda>i. js_startsWith (drop i s) p) [0..<Suc (length s)]"

definition js_endsWith :: "string \<Rightarrow> string \<Rightarrow> bool" where
  "js_endsWith s p \<longleftrightarrow> length p \<le> length s \<and> drop (length s - length p) s = p"

definition is_digit :: "char \<Rightarrow> bool" where
  "is_digit c \<longleftrightarrow> 48 \<le> code_of c \<and> code_of c \<le> 57"

definition is_lower :: "char \<Rightarrow> bool" where
  "is_lower c \<longleftrightarrow> 97 \<le> code_of c \<and> code_of c \<le> 122"

definition is_upper :: "char \<Rightarrow> bool" where
  "is_upper c \<longleftrightarrow> 65 \<le> code_of c \<and> code_of c \<le> 90"

lemma js_trim_Nil [simp]: "js_trim [] = []"
  by (simp add: js_trim_def)

lemma js_toLowerCase_append [simp]: "js_toLowerCase (a @ b) = js_toLowerCase a @ js_toLowerCase b"
  by (simp add: js_toLowerCase_def)

lemma length_js_toLowerCase [simp]: "length (js_toLowerCase s) = length s"
  by (simp add: js_toLowerCase_def)

lemma js_lower_char_idem [simp]: "js_lower_char (js_lower_char c) = js_lower_char c"
  by (auto simp: js_lower_char_def Let_def)

lemma js_toLowerCase_idem [simp]: "js_toLowerCase (js_toLowerCase s) = js_toLowerCase s"
  by (simp add: js_toLowerCase_def)

lemma js_space_lower [simp]: "js_space (js_lower_char c) = js_space c"
  by (auto simp: js_lower_char_def js_space_def Let_def)

lemma dropWhile_map_stable:
  "(\<And>x. P (f x) = P x) \<Longrightarrow> dropWhile P (map f xs) = map f (dropWhile P xs)"
  by (induction xs) auto

lemma js_trim_toLowerCase: "js_trim (js_toLowerCase s) = js_toLowerCase (js_trim s)"
  by (simp add: js_trim_def js_toLowerCase_def dropWhile_map_stable rev_map)

lemma dropWhile_idem [simp]: "dropWhile P (dropWhile P xs) = dropWhile P xs"
  by (induction xs) auto

lemma dropWhile_rev_dropWhile:
  "dropWhile P (rev (dropWhile P (rev (dropWhile P xs)))) = rev (dropWhile P (rev (dropWhile P xs)))"
proof (cases "dropWhile P xs")
  case Nil
  show ?thesis unfolding Nil by simp
next
  case (Cons y ys)
  then have "\<not> P y"
    by (metis dropWhile_eq_Cons_conv)
  have "rev (dropWhile P (rev (y # ys))) = y # rev (dropWhile P (rev ys))"
    using \<open>\<not> P y\<close> by (auto simp: dropWhile_append dropWhile_eq_Nil_conv [THEN iffD2])
  then show ?thesis using Cons \<open>\<not> P y\<close> by auto
qed

lemma js_trim_idem [simp]: "js_trim (js_trim s) = js_trim s"
proof -
  let ?t = "rev (dropWhile js_space (rev (dropWhile js_space s)))"
  have "dropWhile js_space ?t = ?t"
    by (rule dropWhile_rev_dropWhile)
  then show ?thesis
    by (simp add: js_trim_def)
qed

lemma js_split_not_Nil [simp]: "js_split c s \<noteq> []"
  by (cases s) (auto split: list.splits)

lemma js_split_no_sep: "p \<in> set (js_split c s) \<Longrightarrow> c \<notin> set p"
proof (induction s arbitrary: p)
  case Nil
  then show ?case by simp
next
  case (Cons x xs)
  then show ?case
    by (cases "js_split c xs") (auto split: if_splits)
qed

lemma js_join_split: "js_join [c] (js_split c s) = s"
proof (induction s)
  case Nil
  show ?case by simp
next
  case (Cons x xs)
  obtain y ys where split: "js_split c xs = y # ys"
    by (cases "js_split c xs") auto
  then show ?case
    using Cons by (cases ys) auto
qed

section \<open>Decimal numerals\<close>

definition digit_char :: "nat \<Rightarrow> char" where
  "digit_char n = char_of (48 + n)"

fun decimal :: "nat \<Rightarrow> string" where
  "decimal n = (if n < 10 then [digit_char n] else decimal (n div 10) @ [digit_char (n mod 10)])"

declare decimal.simps [simp del]

definition digits_value :: "string \<Rightarrow> nat" where
  "digits_value s = foldl (\<lambda>a c. 10 * a + (code_of c - 48)) 0 s"

definition js_Number :: "string \<Rightarrow> nat option" where
  "js_Number s =
     (let t = js_trim s in
      if t = [] then Some 0 else if list_all is_digit t then Some (digits_value t) else None)"

lemma is_digit_digit_char [simp]: "n < 10 \<Longrightarrow> is_digit (digit_char n)"
  by (simp add: is_digit_def digit_char_def)

lemma code_of_digit_char [simp]: "n < 10 \<Longrightarrow> code_of (digit_char n) = 48 + n"
  by (simp add: digit_char_def)

lemma decimal_not_Nil [simp]: "decimal n \<noteq> []"
  by (subst decimal.simps) simp

lemma decimal_digits: "list_all is_digit (decimal n)"
proof (induction n rule: decimal.induct)
  case (1 n)
  then show ?case
    by (cases "n < 10") (simp_all add: decimal.simps [of n])
qed

lemma digits_value_snoc: "digits_value (s @ [c]) = 10 * digits_value s + (code_of c - 48)"
  by (simp add: digits_value_def)

lemma digits_value_decimal [simp]: "digits_value (decimal n) = n"
proof (induction n rule: decimal.induct)
  case (1 n)
  show ?case
  proof (cases "n < 10")
    case True
    then show ?thesis
      by (simp add: decimal.simps [of n] digits_value_def)
  next
    case False
    with "1" show ?thesis
      by (simp add: decimal.simps [of n] digits_value_snoc)
  qed
qed

lemma decimal_inj: "decimal m = decimal n \<Longrightarrow> m = n"
  by (metis digits_value_decimal)

lemma length_decimal: "0 < k \<Longrightarrow> n < 10 ^ k \<Longrightarrow> length (decimal n) \<le> k"
proof (induction n arbitrary: k rule: decimal.induct)
  case (1 n)
  show ?case
  proof (cases "n < 10")
    case True
    with "1.prems" show ?thesis by (simp add: decimal.simps [of n])
  next
    case False
    with "1.prems" have "k > 1"
      by (cases k) (auto simp: numeral_eq_Suc intro: ccontr)
    with "1.prems" have "n div 10 < 10 ^ (k - 1)"
      by (simp add: div_less_iff_less_mult power_eq_if mult.commute)
    with False \<open>k > 1\<close> have "length (decimal (n div 10)) \<le> k - 1"
      by (intro "1.IH") auto
    with False \<open>k > 1\<close> show ?thesis by (simp add: decimal.simps [of n])
  qed
qed

lemma digit_not_space: "is_digit c \<Longrightarrow> \<not> js_space c"
  by (auto simp: is_digit_def js_space_def)

lemma dropWhile_none: "list_all (\<lambda>x. \<not> P x) xs \<Longrightarrow> dropWhile P xs = xs"
  by (cases xs) auto

lemma js_trim_digits: "list_all is_digit s \<Longrightarrow> js_trim s = s"
  by (simp add: js_trim_def dropWhile_none list_all_iff digit_not_space)

lemma js_Number_decimal [simp]: "js_Number (decimal n) = Some n"
  by (simp add: js_Number_def js_trim_digits decimal_digits)

section \<open>Tables\<close>

text \<open>
  A database table is the list of its rows in the order they were inserted. The statements the
  adapters issue are \<open>find\<close> (a \<^verbatim>\<open>SELECT\<close> of one row), \<open>filter\<close> (a \<^verbatim>\<open>SELECT\<close> of many),
  \<open>update_where\<close>, \<open>delete_where\<close> and appending a row.
\<close>

definition update_where :: "('r \<Rightarrow> bool) \<Rightarrow> ('r \<Rightarrow> 'r) \<Rightarrow> 'r list \<Rightarrow> 'r list" where
  "update_where P f rows = map (\<lambda>r. if P r then f r else r) rows"

definition delete_where :: "('r \<Rightarrow> bool) \<Rightarrow> 'r list \<Rightarrow> 'r list" where
  "delete_where P rows = filter (\<lambda>r. \<not> P r) rows"

definition affected :: "('r \<Rightarrow> bool) \<Rightarrow> 'r list \<Rightarrow> nat" where
  "affected P rows = length (filter P rows)"

lemma update_where_simps [simp]:
  "update_where P f [] = []"
  "update_where P f (r # rs) = (if P r then f r else r) # update_where P f rs"
  "update_where P f (rs @ qs) = update_where P f rs @ update_where P f qs"
  by (simp_all add: update_where_def)

lemma delete_where_simps [simp]:
  "delete_where P [] = []"
  "delete_where P (r # rs) = (if P r then delete_where P rs else r # delete_where P rs)"
  "delete_where P (rs @ qs) = delete_where P rs @ delete_where P qs"
  by (simp_all add: delete_where_def)

lemma set_update_where: "set (update_where P f rows) = (\<lambda>r. if P r then f r else r) ` set rows"
  by (simp add: update_where_def)

lemma set_delete_where [simp]: "set (delete_where P rows) = {r \<in> set rows. \<not> P r}"
  by (simp add: delete_where_def)

lemma map_update_where_key:
  "(\<And>r. k (f r) = k r) \<Longrightarrow> map k (update_where P f rows) = map k rows"
  by (simp add: update_where_def)

lemma distinct_delete_where: "distinct (map k rows) \<Longrightarrow> distinct (map k (delete_where P rows))"
  by (simp add: delete_where_def distinct_map_filter)

lemma find_append:
  "find P (xs @ ys) = (case find P xs of None \<Rightarrow> find P ys | Some x \<Rightarrow> Some x)"
  by (induction xs) auto

lemma find_Some_mem: "find P rows = Some r \<Longrightarrow> r \<in> set rows \<and> P r"
  by (induction rows) (auto split: if_splits)

lemma find_by_key:
  "distinct (map k rows) \<Longrightarrow> r \<in> set rows \<Longrightarrow> find (\<lambda>x. k x = k r) rows = Some r"
  by (induction rows) (auto simp: image_iff)

lemma find_key_Some_iff:
  "distinct (map k rows) \<Longrightarrow> find (\<lambda>x. k x = v) rows = Some r \<longleftrightarrow> r \<in> set rows \<and> k r = v"
  using find_by_key find_Some_mem by fastforce

lemma find_key_Some_iff_cases:
  "distinct (map k rows) \<Longrightarrow>
   find (\<lambda>x. k x = v) rows = Some r \<Longrightarrow> q \<in> set rows \<Longrightarrow> k q = v \<Longrightarrow> q = r"
  by (simp add: find_key_Some_iff) (metis (no_types, lifting) inj_on_def distinct_map)

lemma key_unique:
  "distinct (map k rows) \<Longrightarrow> q \<in> set rows \<Longrightarrow> r \<in> set rows \<Longrightarrow> k q = k r \<Longrightarrow> q = r"
  by (metis (no_types, lifting) inj_on_def distinct_map)

lemma find_update_where_key:
  "(\<And>r. k (f r) = k r) \<Longrightarrow>
   find (\<lambda>x. k x = v) (update_where P f rows) =
     map_option (\<lambda>r. if P r then f r else r) (find (\<lambda>x. k x = v) rows)"
  by (induction rows) auto

lemma find_update_where_other:
  "(\<And>r. k (f r) = k r) \<Longrightarrow> u \<noteq> v \<Longrightarrow>
   find (\<lambda>x. k x = u) (update_where (\<lambda>r. k r = v) f rows) = find (\<lambda>x. k x = u) rows"
  by (induction rows) auto

lemma find_delete_where_key:
  "u \<noteq> v \<Longrightarrow> find (\<lambda>x. k x = u) (delete_where (\<lambda>r. k r = v) rows) = find (\<lambda>x. k x = u) rows"
  by (induction rows) auto

lemma find_delete_where_keyed:
  "distinct (map k rows) \<Longrightarrow> find (\<lambda>x. k x = v) (delete_where P rows) =
     (case find (\<lambda>x. k x = v) rows of None \<Rightarrow> None | Some r \<Rightarrow> if P r then None else Some r)"
proof (induction rows)
  case Nil
  then show ?case by simp
next
  case (Cons r rows)
  show ?case
  proof (cases "k r = v")
    case True
    with Cons.prems have "find (\<lambda>x. k x = v) rows = None"
      by (auto simp: find_None_iff image_iff)
    with True Cons show ?thesis by simp
  next
    case False
    with Cons show ?thesis by simp
  qed
qed

lemma find_delete_where_None:
  "find P rows = None \<Longrightarrow> find P (delete_where Q rows) = None"
  by (auto simp: find_None_iff)

lemma find_delete_where_other:
  "find P rows = Some r \<Longrightarrow> \<not> Q r \<Longrightarrow> (\<And>x. x \<in> set rows \<Longrightarrow> P x \<Longrightarrow> x = r) \<Longrightarrow>
   find P (delete_where Q rows) = Some r"
  by (induction rows) (auto split: if_splits)

lemma affected_pos_iff: "0 < affected P rows \<longleftrightarrow> (\<exists>r \<in> set rows. P r)"
  by (auto simp: affected_def filter_empty_conv)

lemma affected_key:
  "distinct (map k rows) \<Longrightarrow> affected (\<lambda>x. k x = v \<and> P x) rows =
     (case find (\<lambda>x. k x = v) rows of None \<Rightarrow> 0 | Some r \<Rightarrow> if P r then 1 else 0)"
proof (induction rows)
  case Nil
  then show ?case by (simp add: affected_def)
next
  case (Cons r rows)
  show ?case
  proof (cases "k r = v")
    case True
    with Cons.prems have "filter (\<lambda>x. k x = v \<and> P x) rows = []"
      by (auto simp: filter_empty_conv image_iff)
    with True show ?thesis by (simp add: affected_def)
  next
    case False
    with Cons show ?thesis by (simp add: affected_def)
  qed
qed

section \<open>State machines\<close>

text \<open>
  The states a component can be in: those reached from a start state by its steps. A predicate
  that holds at the start and that every step keeps holds in all of them.
\<close>

inductive reaches :: "('s \<Rightarrow> bool) \<Rightarrow> ('s \<Rightarrow> 's \<Rightarrow> bool) \<Rightarrow> 's \<Rightarrow> bool"
  for start :: "'s \<Rightarrow> bool" and step :: "'s \<Rightarrow> 's \<Rightarrow> bool" where
  at_start: "start s \<Longrightarrow> reaches start step s"
| by_step: "reaches start step s \<Longrightarrow> step s t \<Longrightarrow> reaches start step t"

locale invariant_machine =
  fixes start :: "'s \<Rightarrow> bool"
    and step :: "'s \<Rightarrow> 's \<Rightarrow> bool"
    and inv :: "'s \<Rightarrow> bool"
  assumes inv_start: "start s \<Longrightarrow> inv s"
    and inv_step: "inv s \<Longrightarrow> step s t \<Longrightarrow> inv t"
begin

lemma inv_reaches: "reaches start step s \<Longrightarrow> inv s"
  by (induction rule: reaches.induct) (auto intro: inv_start inv_step)

lemma inv_steps: "step\<^sup>*\<^sup>* s t \<Longrightarrow> inv s \<Longrightarrow> inv t"
  by (induction rule: rtranclp_induct) (auto intro: inv_step)

end

text \<open>
  Several parts of the service hand out things that may be used once: a refresh token, a
  two-factor challenge, an authenticator step, a passkey challenge. Each has a statement that
  tries to spend it and reports whether it did. The contract below is what such a statement
  promises; its consequence is that a key is spent at most once in any run in which the
  statement and the environment's other steps follow each other in any order.
\<close>

inductive spend_run ::
  "('a \<Rightarrow> 's \<Rightarrow> bool \<times> 's) \<Rightarrow> ('a \<Rightarrow> 'k) \<Rightarrow> ('s \<Rightarrow> 's \<Rightarrow> bool) \<Rightarrow> 'k \<Rightarrow> 's \<Rightarrow> nat \<Rightarrow> 's \<Rightarrow> bool"
  for spend :: "'a \<Rightarrow> 's \<Rightarrow> bool \<times> 's" and key :: "'a \<Rightarrow> 'k" and other :: "'s \<Rightarrow> 's \<Rightarrow> bool" and k :: 'k and s :: 's where
  run_start: "spend_run spend key other k s 0 s"
| run_spend: "spend_run spend key other k s n t \<Longrightarrow> spend a t = (won, u) \<Longrightarrow>
     spend_run spend key other k s (if won \<and> key a = k then Suc n else n) u"
| run_other: "spend_run spend key other k s n t \<Longrightarrow> other t u \<Longrightarrow> spend_run spend key other k s n u"

locale one_shot =
  fixes spend :: "'a \<Rightarrow> 's \<Rightarrow> bool \<times> 's"
    and key :: "'a \<Rightarrow> 'k"
    and other :: "'s \<Rightarrow> 's \<Rightarrow> bool"
    and spent :: "'k \<Rightarrow> 's \<Rightarrow> bool"
    and good :: "'s \<Rightarrow> bool"
  assumes spend_good: "good s \<Longrightarrow> spend a s = (won, t) \<Longrightarrow> good t"
    and other_good: "good s \<Longrightarrow> other s t \<Longrightarrow> good t"
    and spend_wins: "good s \<Longrightarrow> spend a s = (True, t) \<Longrightarrow> \<not> spent (key a) s \<and> spent (key a) t"
    and spend_keeps: "good s \<Longrightarrow> spent k s \<Longrightarrow> spend a s = (won, t) \<Longrightarrow> spent k t"
    and other_keeps: "good s \<Longrightarrow> spent k s \<Longrightarrow> other s t \<Longrightarrow> spent k t"
begin

lemma spent_loses: "good s \<Longrightarrow> spent (key a) s \<Longrightarrow> spend a s = (won, t) \<Longrightarrow> \<not> won"
  using spend_wins [of s a t] by auto

lemma run_good: "spend_run spend key other k s n t \<Longrightarrow> good s \<Longrightarrow> good t"
  by (induction rule: spend_run.induct) (auto intro: spend_good other_good)

lemma run_counts: "spend_run spend key other k s n t \<Longrightarrow> good s \<Longrightarrow> n \<le> 1 \<and> (n = 1 \<longrightarrow> spent k t)"
proof (induction rule: spend_run.induct)
  case run_start
  show ?case by simp
next
  case (run_spend n t a won u)
  have "good t" using run_good [OF run_spend(1,4)] .
  show ?case
  proof (cases "won \<and> key a = k")
    case True
    with run_spend have "spend a t = (True, u)" by simp
    from spend_wins [OF \<open>good t\<close> this] True have "\<not> spent k t" and "spent k u" by simp_all
    with run_spend True show ?thesis by (cases n) auto
  next
    case False
    with run_spend \<open>good t\<close> show ?thesis by (auto intro: spend_keeps)
  qed
next
  case (run_other n t u)
  then show ?case using run_good [OF run_other(1,4)] by (auto intro: other_keeps)
qed

lemma at_most_once: "spend_run spend key other k s n t \<Longrightarrow> good s \<Longrightarrow> n \<le> 1"
  using run_counts by blast

lemma spent_stays: "spend_run spend key other k s n t \<Longrightarrow> good s \<Longrightarrow> spent k s \<Longrightarrow> n = 0 \<and> spent k t"
proof (induction rule: spend_run.induct)
  case run_start
  then show ?case by simp
next
  case (run_spend n t a won u)
  have "good t" using run_good [OF run_spend(1,4)] .
  with run_spend show ?case using spent_loses [of t a won u] spend_keeps [of t k a won u] by auto
next
  case (run_other n t u)
  then show ?case using run_good [OF run_other(1,4)] by (auto intro: other_keeps)
qed

end

end
