(* ===== verification/Domain.thy ===== *)
theory Domain
  imports Prelude
begin

text \<open>
  The domain layer (\<^verbatim>\<open>src/src/domain\<close>): roles and principal kinds, the e-mail rule, which client
  may renew a session, who must use a second factor, what a merchant's standing allows, and the
  exceptions the service throws. Everything here is pure.
\<close>

section \<open>Exceptions\<close>

text \<open>
  One constructor per exception class the sources throw. The text argument of an HTTP exception
  is the \<^verbatim>\<open>error\<close> code of its body where the source gives one and its message otherwise, without
  the parts the source interpolates into the message. \<open>QueryFailed\<close> is TypeORM's
  \<^verbatim>\<open>QueryFailedError\<close> with the driver's SQL state; \<open>HttpException\<close> is one of a framework's classes, with its
  status; \<open>PlainError\<close> is JavaScript's \<^verbatim>\<open>Error\<close>.
\<close>

datatype FleetFailureKind = Refused | Fault | Unknown

record FleetFailure =
  ff_kind :: FleetFailureKind
  ff_code :: string
  ff_message :: string

datatype failure =
    BadRequestException string
  | UnauthorizedException string
  | ForbiddenException string
  | NotFoundException string
  | ConflictException string
  | UnprocessableEntityException string
  | BadGatewayException string
  | ServiceUnavailableException string
  | SignInDelayedError int
  | RecordConflictError string
  | MissingReferenceError string
  | ClientMismatchError "string option"
  | FleetRegistryError FleetFailure
  | QueryFailed string
  | RpcException string
  | HttpException nat string
  | PlainError string

definition definitelyDidNothing :: "FleetFailure \<Rightarrow> bool" where
  "definitelyDidNothing f \<longleftrightarrow> ff_kind f \<noteq> Unknown"

definition isFault :: "FleetFailure \<Rightarrow> bool" where
  "isFault f \<longleftrightarrow> ff_kind f = Fault"

definition isUniqueViolation :: "failure \<Rightarrow> bool" where
  "isUniqueViolation e \<longleftrightarrow> e = QueryFailed ''23505''"

definition isForeignKeyViolation :: "failure \<Rightarrow> bool" where
  "isForeignKeyViolation e \<longleftrightarrow> e = QueryFailed ''23503''"

section \<open>Roles and principals\<close>

datatype UserRole = Customer | Seller | Courier | Admin

datatype PrincipalKind =
    PRINCIPAL_KIND_UNSPECIFIED
  | PRINCIPAL_KIND_CUSTOMER
  | PRINCIPAL_KIND_MERCHANT
  | PRINCIPAL_KIND_DRIVER
  | PRINCIPAL_KIND_STAFF
  | PRINCIPAL_KIND_SERVICE

fun role_text :: "UserRole \<Rightarrow> string" where
  "role_text Customer = ''customer''"
| "role_text Seller = ''seller''"
| "role_text Courier = ''courier''"
| "role_text Admin = ''admin''"

fun principalKindForRole :: "UserRole \<Rightarrow> PrincipalKind" where
  "principalKindForRole Customer = PRINCIPAL_KIND_CUSTOMER"
| "principalKindForRole Seller = PRINCIPAL_KIND_MERCHANT"
| "principalKindForRole Courier = PRINCIPAL_KIND_DRIVER"
| "principalKindForRole Admin = PRINCIPAL_KIND_STAFF"

definition requiresTwoFactor :: "UserRole \<Rightarrow> bool" where
  "requiresTwoFactor role \<longleftrightarrow> role = Admin"

lemma role_text_inj: "role_text r = role_text q \<longleftrightarrow> r = q"
  by (cases r; cases q) simp_all

lemma role_text_admin: "role_text r = ''admin'' \<longleftrightarrow> r = Admin"
  by (cases r) simp_all

lemma principalKindForRole_inj: "principalKindForRole r = principalKindForRole q \<longleftrightarrow> r = q"
  by (cases r; cases q) simp_all

section \<open>E-mail addresses\<close>

definition normalisedEmail :: "string \<Rightarrow> string" where
  "normalisedEmail email = js_toLowerCase (js_trim email)"

lemma normalisedEmail_idem [simp]: "normalisedEmail (normalisedEmail e) = normalisedEmail e"
  by (simp add: normalisedEmail_def js_trim_toLowerCase)

lemma js_toLowerCase_normalisedEmail [simp]: "js_toLowerCase (normalisedEmail e) = normalisedEmail e"
  by (simp add: normalisedEmail_def)

section \<open>Clients\<close>

datatype RequestClient = Named string | Unnamed

datatype SessionClientDecision = Continue | Bind | Mismatch

definition sessionClientDecision :: "string option \<Rightarrow> RequestClient \<Rightarrow> SessionClientDecision" where
  "sessionClientDecision sessionClient request =
     (case sessionClient of
        None \<Rightarrow> (case request of Named _ \<Rightarrow> Bind | Unnamed \<Rightarrow> Continue)
      | Some c \<Rightarrow> (case request of Named n \<Rightarrow> if n = c then Continue else Mismatch | Unnamed \<Rightarrow> Mismatch))"

definition checkedClient :: "RequestClient option \<Rightarrow> failure + RequestClient" where
  "checkedClient client =
     (case client of
        None \<Rightarrow> Inl (PlainError ''a session was started or renewed on a route that does not check its client'')
      | Some c \<Rightarrow> Inr c)"

definition clientNameOf :: "RequestClient \<Rightarrow> string option" where
  "clientNameOf client = (case client of Named n \<Rightarrow> Some n | Unnamed \<Rightarrow> None)"

lemma sessionClientDecision_mismatch_iff:
  "sessionClientDecision sc r = Mismatch \<longleftrightarrow> sc \<noteq> None \<and> clientNameOf r \<noteq> sc"
  by (auto simp: sessionClientDecision_def clientNameOf_def split: option.splits RequestClient.splits)

lemma sessionClientDecision_bind_iff:
  "sessionClientDecision sc r = Bind \<longleftrightarrow> sc = None \<and> clientNameOf r \<noteq> None"
  by (auto simp: sessionClientDecision_def clientNameOf_def split: option.splits RequestClient.splits)

lemma checkedClient_simps [simp]:
  "checkedClient (Some c) = Inr c"
  "checkedClient None = Inl (PlainError ''a session was started or renewed on a route that does not check its client'')"
  by (simp_all add: checkedClient_def)

section \<open>What a merchant's standing allows\<close>

datatype MerchantStatus = MPending | MVerified | MActive | MSuspended

definition maySell :: "MerchantStatus \<Rightarrow> bool" where
  "maySell status \<longleftrightarrow> status \<in> {MVerified, MActive}"

section \<open>Passkey limits\<close>

definition PASSKEYS_PER_ACCOUNT :: nat where "PASSKEYS_PER_ACCOUNT = 10"
definition REGISTRATION_CHALLENGE_SECONDS :: int where "REGISTRATION_CHALLENGE_SECONDS = 300"
definition SIGN_IN_CHALLENGE_SECONDS :: int where "SIGN_IN_CHALLENGE_SECONDS = 120"

end
