(* ===== verification/Totp.thy ===== *)
theory Totp
  imports Domain
begin

text \<open>
  The authenticator codes (\<^verbatim>\<open>src/src/infrastructure/crypto/totp.ts\<close>): base32 secrets, the HOTP
  truncation and the three-step acceptance window. JavaScript's bitwise operators work on 32-bit
  integers, so the accumulators are \<open>32 word\<close>s and \<^verbatim>\<open><<\<close> drops what leaves the word. HMAC-SHA-1 and
  the random bytes are Node's, and are parameters.
\<close>

unbundle bit_operations_syntax

type_synonym byte = "8 word"

section \<open>Base32\<close>

definition BASE32_ALPHABET :: string where
  "BASE32_ALPHABET = ''ABCDEFGHIJKLMNOPQRSTUVWXYZ234567''"

definition base32_symbol :: "32 word \<Rightarrow> char" where
  "base32_symbol v = BASE32_ALPHABET ! unat (v AND 31)"

text \<open>The inner \<^verbatim>\<open>while (bits >= 5)\<close> of the encoder.\<close>

fun encode_emit :: "nat \<Rightarrow> 32 word \<Rightarrow> string \<Rightarrow> nat \<times> string" where
  "encode_emit bits value out =
     (if bits \<ge> 5 then encode_emit (bits - 5) value (out @ [base32_symbol (drop_bit (bits - 5) value)])
      else (bits, out))"

declare encode_emit.simps [simp del]

fun encode_bytes :: "byte list \<Rightarrow> nat \<Rightarrow> 32 word \<Rightarrow> string \<Rightarrow> nat \<times> 32 word \<times> string" where
  "encode_bytes [] bits value out = (bits, value, out)"
| "encode_bytes (b # bs) bits value out =
     (let value' = push_bit 8 value OR ucast b; (bits', out') = encode_emit (bits + 8) value' out
      in encode_bytes bs bits' value' out')"

definition base32Encode :: "byte list \<Rightarrow> string" where
  "base32Encode bytes =
     (let (bits, value, out) = encode_bytes bytes 0 0 []
      in if bits > 0 then out @ [base32_symbol (push_bit (5 - bits) value)] else out)"

fun index_of :: "char \<Rightarrow> string \<Rightarrow> nat option" where
  "index_of c [] = None"
| "index_of c (x # xs) = (if x = c then Some 0 else map_option Suc (index_of c xs))"

fun decode_chars :: "string \<Rightarrow> nat \<Rightarrow> 32 word \<Rightarrow> byte list \<Rightarrow> failure + byte list" where
  "decode_chars [] bits value out = Inr out"
| "decode_chars (c # cs) bits value out =
     (case index_of c BASE32_ALPHABET of
        None \<Rightarrow> Inl (PlainError ''the stored two-factor secret is not valid base32'')
      | Some i \<Rightarrow>
          (let value' = push_bit 5 value OR of_nat i; bits' = bits + 5
           in if bits' \<ge> 8
              then decode_chars cs (bits' - 8) value' (out @ [ucast (drop_bit (bits' - 8) value' AND 255)])
              else decode_chars cs bits' value' out))"

definition base32Decode :: "string \<Rightarrow> failure + byte list" where
  "base32Decode encoded =
     (let cleaned = filter (\<lambda>c. \<not> js_space c)
                      (rev (dropWhile (\<lambda>c. c = CHR ''='') (rev (js_toUpperCase encoded))))
      in decode_chars cleaned 0 0 [])"

definition generateSecret :: "byte list \<Rightarrow> string" where
  "generateSecret random20 = base32Encode random20"

section \<open>Codes\<close>

definition DIGITS :: nat where "DIGITS = 6"
definition PERIOD_SECONDS :: int where "PERIOD_SECONDS = 30"
definition WINDOW_STEPS :: int where "WINDOW_STEPS = 1"

definition writeUInt32BE :: "nat \<Rightarrow> byte list" where
  "writeUInt32BE v = [of_nat (v div 2 ^ 24), of_nat (v div 2 ^ 16), of_nat (v div 2 ^ 8), of_nat v]"

text \<open>Reading past a \<^verbatim>\<open>Buffer\<close>'s end is \<^verbatim>\<open>undefined\<close>, which the bitwise operators read as 0.\<close>

definition byte_at :: "byte list \<Rightarrow> nat \<Rightarrow> 32 word" where
  "byte_at d i = (if i < length d then ucast (d ! i) else 0)"

definition truncated :: "byte list \<Rightarrow> 32 word" where
  "truncated digest =
     (let offset = (if digest = [] then 0 else unat (ucast (last digest) AND (0x0f :: 32 word)))
      in push_bit 24 (byte_at digest offset AND 0x7f)
         OR push_bit 16 (byte_at digest (offset + 1) AND 0xff)
         OR push_bit 8 (byte_at digest (offset + 2) AND 0xff)
         OR (byte_at digest (offset + 3) AND 0xff))"

definition padStart :: "nat \<Rightarrow> char \<Rightarrow> string \<Rightarrow> string" where
  "padStart n c s = replicate (n - length s) c @ s"

definition codeAt :: "(byte list \<Rightarrow> byte list \<Rightarrow> byte list) \<Rightarrow> string \<Rightarrow> int \<Rightarrow> failure + string" where
  "codeAt hmac secret counter =
     (case base32Decode secret of
        Inl e \<Rightarrow> Inl e
      | Inr key \<Rightarrow>
          if counter < 0 \<or> 2 ^ 64 \<le> counter then Inl (PlainError ''ERR_OUT_OF_RANGE'')
          else
            (let buffer = writeUInt32BE (nat (counter div 2 ^ 32)) @ writeUInt32BE (nat (counter mod 2 ^ 32));
                 binary = truncated (hmac key buffer)
             in Inr (padStart DIGITS (CHR ''0'') (decimal (unat binary mod 10 ^ DIGITS)))))"

definition six_digits :: "string \<Rightarrow> bool" where
  "six_digits s \<longleftrightarrow> length s = 6 \<and> list_all is_digit s"

fun match_steps :: "(byte list \<Rightarrow> byte list \<Rightarrow> byte list) \<Rightarrow> string \<Rightarrow> string \<Rightarrow> int list \<Rightarrow> int option \<Rightarrow> failure + int option" where
  "match_steps hmac secret candidate [] matched = Inr matched"
| "match_steps hmac secret candidate (s # ss) matched =
     (case codeAt hmac secret s of
        Inl e \<Rightarrow> Inl e
      | Inr actual \<Rightarrow> match_steps hmac secret candidate ss (if actual = candidate then Some s else matched))"

definition acceptedStep :: "(byte list \<Rightarrow> byte list \<Rightarrow> byte list) \<Rightarrow> string \<Rightarrow> string \<Rightarrow> int \<Rightarrow> failure + int option" where
  "acceptedStep hmac secret code atMs =
     (let candidate = js_trim code in
      if \<not> six_digits candidate then Inr None
      else
        (let step = atMs div (1000 * PERIOD_SECONDS)
         in match_steps hmac secret candidate (map (\<lambda>offset. step + offset) [-WINDOW_STEPS..WINDOW_STEPS]) None))"

definition verifyCode :: "(byte list \<Rightarrow> byte list \<Rightarrow> byte list) \<Rightarrow> string \<Rightarrow> string \<Rightarrow> int \<Rightarrow> failure + bool" where
  "verifyCode hmac secret code atMs =
     (case acceptedStep hmac secret code atMs of Inl e \<Rightarrow> Inl e | Inr r \<Rightarrow> Inr (r \<noteq> None))"

definition hex_digit :: "nat \<Rightarrow> char" where
  "hex_digit n = ''0123456789ABCDEF'' ! n"

definition percent :: "nat \<Rightarrow> string" where
  "percent n = CHR ''%'' # [hex_digit (n div 16), hex_digit (n mod 16)]"

definition encodeURIComponent :: "string \<Rightarrow> string" where
  "encodeURIComponent s =
     concat (map (\<lambda>c. let n = code_of c in
        if is_digit c \<or> is_lower c \<or> is_upper c \<or> c \<in> set ''-_.!~*()'' \<or> n = 39 then [c]
        else if n < 128 then percent n
        else percent (192 + n div 64) @ percent (128 + n mod 64)) s)"

definition otpauthUrl :: "string \<Rightarrow> string \<Rightarrow> string" where
  "otpauthUrl email secret =
     ''otpauth://totp/'' @ encodeURIComponent (''Kinetix:'' @ email) @ ''?secret='' @ secret @
     ''&issuer=Kinetix&algorithm=SHA1&digits='' @ decimal DIGITS @ ''&period='' @ decimal (nat PERIOD_SECONDS)"

section \<open>Words as runs of bits\<close>

text \<open>
  Both loops move bits between symbols of five and bytes of eight through a word. The proofs read
  the low \<open>n\<close> bits of the accumulator, most significant first, as a list: shifting in appends,
  shifting out takes from the front.
\<close>

definition bits_of :: "nat \<Rightarrow> 'a::len word \<Rightarrow> bool list" where
  "bits_of n w = map (bit w) (rev [0..<n])"

lemma length_bits_of [simp]: "length (bits_of n w) = n"
  by (simp add: bits_of_def)

lemma bits_of_0 [simp]: "bits_of 0 w = []"
  by (simp add: bits_of_def)

lemma nth_bits_of: "i < n \<Longrightarrow> bits_of n w ! i = bit w (n - Suc i)"
  by (simp add: bits_of_def rev_nth)

lemma bits_of_eqI: "(\<And>i. i < n \<Longrightarrow> bit v i = bit w i) \<Longrightarrow> bits_of n v = bits_of n w"
  by (simp add: bits_of_def)

lemma bits_of_eqD: "bits_of n v = bits_of n w \<Longrightarrow> i < n \<Longrightarrow> bit v i = bit w i"
proof -
  assume eq: "bits_of n v = bits_of n w" and i: "i < n"
  have "bits_of n v ! (n - Suc i) = bits_of n w ! (n - Suc i)"
    using eq by simp
  with i show "bit v i = bit w i"
    by (simp add: nth_bits_of)
qed

lemma bits_of_push:
  fixes v x :: "'a::len word"
  assumes "n + k \<le> LENGTH('a)" and "\<And>i. k \<le> i \<Longrightarrow> \<not> bit x i"
  shows "bits_of (n + k) (push_bit k v OR x) = bits_of n v @ bits_of k x"
proof (rule nth_equalityI)
  show "length (bits_of (n + k) (push_bit k v OR x)) = length (bits_of n v @ bits_of k x)"
    by simp
next
  fix i assume "i < length (bits_of (n + k) (push_bit k v OR x))"
  then have i: "i < n + k" by simp
  show "bits_of (n + k) (push_bit k v OR x) ! i = (bits_of n v @ bits_of k x) ! i"
  proof (cases "i < n")
    case True
    then have "n + k - Suc i = (n - Suc i) + k" by simp
    moreover from this True assms(1) have "(n - Suc i) + k < LENGTH('a)" by linarith
    moreover have "k \<le> n + k - Suc i" using True by linarith
    ultimately show ?thesis
      using True assms i by (simp add: nth_append nth_bits_of bit_or_iff bit_push_bit_iff)
  next
    case False
    then have "\<not> k \<le> n + k - Suc i" and "k - Suc (i - n) = n + k - Suc i"
      using i by linarith+
    with False i show ?thesis
      by (simp add: nth_append nth_bits_of bit_or_iff bit_push_bit_iff)
  qed
qed

lemma bits_of_take: "j \<le> n \<Longrightarrow> bits_of j (drop_bit (n - j) w) = take j (bits_of n w)"
  by (rule nth_equalityI) (auto simp: nth_bits_of bit_drop_bit_eq)

lemma bits_of_drop: "j \<le> n \<Longrightarrow> bits_of (n - j) w = drop j (bits_of n w)"
  by (rule nth_equalityI) (auto simp: nth_bits_of)

lemma bits_of_split:
  "j \<le> n \<Longrightarrow> bits_of n w = bits_of j (drop_bit (n - j) w) @ bits_of (n - j) w"
  by (simp add: bits_of_take bits_of_drop)

lemma mask_31: "(31 :: 32 word) = mask 5"
  by (simp add: mask_eq_exp_minus_1)

lemma mask_255: "(255 :: 32 word) = mask 8"
  by (simp add: mask_eq_exp_minus_1)

lemma bits_of_mask: "bits_of n (w AND mask n) = bits_of n w"
  by (rule bits_of_eqI) (auto simp: bit_and_iff bit_mask_iff dest: bit_imp_le_length)

lemma unat_and_31_less: "unat ((v :: 32 word) AND 31) < 32"
proof -
  have "v AND 31 \<le> 31" by (rule word_and_le1)
  then show ?thesis by (simp add: word_le_nat_alt)
qed

section \<open>The alphabet\<close>

lemma length_alphabet [simp]: "length BASE32_ALPHABET = 32"
  by (simp add: BASE32_ALPHABET_def)

lemma distinct_alphabet: "distinct BASE32_ALPHABET"
  by (simp add: BASE32_ALPHABET_def)

lemma index_of_nth: "distinct xs \<Longrightarrow> i < length xs \<Longrightarrow> index_of (xs ! i) xs = Some i"
  by (induction xs arbitrary: i) (auto simp: nth_Cons split: nat.splits)

lemma index_of_Some: "index_of c xs = Some i \<Longrightarrow> i < length xs \<and> xs ! i = c"
  by (induction xs arbitrary: i) (auto split: if_splits)

lemma index_of_symbol: "index_of (base32_symbol v) BASE32_ALPHABET = Some (unat (v AND 31))"
  unfolding base32_symbol_def by (rule index_of_nth) (simp_all add: distinct_alphabet unat_and_31_less)

text \<open>The bits a base32 text stands for.\<close>

definition symbol_bits :: "char \<Rightarrow> bool list" where
  "symbol_bits c = bits_of 5 (of_nat (the (index_of c BASE32_ALPHABET)) :: 32 word)"

definition text_bits :: "string \<Rightarrow> bool list" where
  "text_bits s = concat (map symbol_bits s)"

lemma text_bits_simps [simp]:
  "text_bits [] = []"
  "text_bits (c # s) = symbol_bits c @ text_bits s"
  "text_bits (s @ t) = text_bits s @ text_bits t"
  by (simp_all add: text_bits_def)

lemma symbol_bits_symbol [simp]: "symbol_bits (base32_symbol v) = bits_of 5 v"
  by (simp add: symbol_bits_def index_of_symbol mask_31 bits_of_mask)

definition base32_text :: "string \<Rightarrow> bool" where
  "base32_text s \<longleftrightarrow> set s \<subseteq> set BASE32_ALPHABET"

lemma base32_symbol_mem: "base32_symbol v \<in> set BASE32_ALPHABET"
  unfolding base32_symbol_def by (rule nth_mem) (simp add: unat_and_31_less)

lemma base32_text_simps [simp]:
  "base32_text []" "base32_text (s @ [base32_symbol v]) \<longleftrightarrow> base32_text s"
  by (auto simp: base32_text_def base32_symbol_mem)

section \<open>Encoding and decoding are inverse\<close>

lemma encode_emit_bits:
  "encode_emit bits v out = (bits', out') \<Longrightarrow>
   bits' < 5 \<and> text_bits out' @ bits_of bits' v = text_bits out @ bits_of bits v
   \<and> base32_text out' = base32_text out"
proof (induction bits v out rule: encode_emit.induct)
  case (1 bits v out)
  show ?case
  proof (cases "bits \<ge> 5")
    case True
    with "1" show ?thesis
      using bits_of_split [of 5 bits v] by (simp add: encode_emit.simps [of bits])
  next
    case False
    with "1.prems" show ?thesis by (simp add: encode_emit.simps [of bits])
  qed
qed

definition byte_bits :: "byte list \<Rightarrow> bool list" where
  "byte_bits bs = concat (map (bits_of 8) bs)"

lemma byte_bits_simps [simp]: "byte_bits [] = []" "byte_bits (b # bs) = bits_of 8 b @ byte_bits bs"
  by (simp_all add: byte_bits_def)

lemma bits_of_push_byte:
  fixes v :: "32 word" and b :: byte
  assumes "n < 5"
  shows "bits_of (n + 8) (push_bit 8 v OR ucast b) = bits_of n v @ bits_of 8 b"
proof -
  have "bits_of (n + 8) (push_bit 8 v OR ucast b) = bits_of n v @ bits_of 8 (ucast b :: 32 word)"
    using assms by (intro bits_of_push) (auto simp: bit_ucast_iff dest: bit_imp_le_length)
  also have "bits_of 8 (ucast b :: 32 word) = bits_of 8 b"
    by (rule bits_of_eqI) (auto simp: bit_ucast_iff)
  finally show ?thesis .
qed

lemma encode_bytes_bits:
  "encode_bytes bs bits v out = (bits', v', out') \<Longrightarrow> bits < 5 \<Longrightarrow>
   bits' < 5 \<and> text_bits out' @ bits_of bits' v' = text_bits out @ bits_of bits v @ byte_bits bs
   \<and> base32_text out' = base32_text out"
proof (induction bs arbitrary: bits v out)
  case Nil
  then show ?case by simp
next
  case (Cons b bs)
  let ?v = "push_bit 8 v OR ucast b"
  obtain bits1 out1 where emit: "encode_emit (bits + 8) ?v out = (bits1, out1)"
    by (cases "encode_emit (bits + 8) ?v out")
  note step = encode_emit_bits [OF emit]
  from Cons.prems emit have "encode_bytes bs bits1 ?v out1 = (bits', v', out')"
    by (simp add: Let_def)
  from Cons.IH [OF this] step have
    "bits' < 5 \<and> text_bits out' @ bits_of bits' v' = text_bits out1 @ bits_of bits1 ?v @ byte_bits bs
     \<and> base32_text out' = base32_text out1"
    by blast
  with step bits_of_push_byte [OF Cons.prems(2), of v b] show ?case
    by (metis append.assoc byte_bits_simps(2))
qed

lemma bits_of_pad:
  fixes v :: "32 word"
  assumes "n < 5"
  shows "bits_of 5 (push_bit (5 - n) v) = bits_of n v @ replicate (5 - n) False"
proof -
  have "bits_of (n + (5 - n)) (push_bit (5 - n) v OR 0) = bits_of n v @ bits_of (5 - n) (0 :: 32 word)"
    using assms by (intro bits_of_push) auto
  moreover have "bits_of (5 - n) (0 :: 32 word) = replicate (5 - n) False"
    by (rule nth_equalityI) (simp_all add: nth_bits_of)
  ultimately show ?thesis using assms by simp
qed

lemma base32Encode_bits:
  "base32_text (base32Encode bs) \<and>
   (\<exists>p < 5. text_bits (base32Encode bs) = byte_bits bs @ replicate p False)"
proof -
  obtain bits v out where run: "encode_bytes bs 0 0 [] = (bits, v, out)"
    by (cases "encode_bytes bs 0 0 []")
  note fin = encode_bytes_bits [OF run, simplified]
  show ?thesis
  proof (cases "bits > 0")
    case True
    with run fin show ?thesis
      by (auto simp: base32Encode_def bits_of_pad intro!: exI [of _ "5 - bits"])
  next
    case False
    with run fin show ?thesis
      by (auto simp: base32Encode_def intro!: exI [of _ 0])
  qed
qed

text \<open>Cutting a run of bits into bytes, dropping an incomplete last one, as the decoder does.\<close>

definition byte_of :: "bool list \<Rightarrow> byte" where
  "byte_of bl = horner_sum of_bool 2 (rev bl)"

function bytes_of :: "bool list \<Rightarrow> byte list" where
  "bytes_of bl = (if length bl < 8 then [] else byte_of (take 8 bl) # bytes_of (drop 8 bl))"
  by pat_completeness auto
termination
  by (relation "measure length") auto

declare bytes_of.simps [simp del]

lemma byte_of_bits_of: "byte_of (bits_of 8 b) = (b :: byte)"
  by (rule bit_word_eqI) (auto simp: byte_of_def bit_horner_sum_bit_word_iff bits_of_def rev_map)

lemma byte_of_bits_of_word:
  "byte_of (bits_of 8 v) = ucast ((v :: 32 word) AND 255)"
proof -
  have "bits_of 8 (ucast (v AND 255) :: byte) = bits_of 8 v"
    by (rule bits_of_eqI) (auto simp: bit_ucast_iff bit_and_iff mask_255 bit_mask_iff)
  then show ?thesis by (metis byte_of_bits_of)
qed

lemma bytes_of_step: "length bl = 8 \<Longrightarrow> bytes_of (bl @ rest) = byte_of bl # bytes_of rest"
  by (simp add: bytes_of.simps [of "bl @ rest"])

lemma bytes_of_byte_bits: "length pad < 8 \<Longrightarrow> bytes_of (byte_bits bs @ pad) = bs"
proof (induction bs)
  case Nil
  then show ?case by (simp add: bytes_of.simps)
next
  case (Cons b bs)
  then show ?case by (simp add: bytes_of_step byte_of_bits_of)
qed

lemma bit_nat_iff_0: "i < 2 ^ j \<Longrightarrow> \<not> bit (i :: nat) j"
  by (simp add: bit_iff_odd)

lemma bits_of_push_symbol:
  fixes v :: "32 word"
  assumes "n < 8" and "i < 32"
  shows "bits_of (n + 5) (push_bit 5 v OR of_nat i) = bits_of n v @ bits_of 5 (of_nat i :: 32 word)"
proof (rule bits_of_push)
  show "n + 5 \<le> LENGTH(32)" using assms by simp
  fix j :: nat
  assume "5 \<le> j"
  with assms have "i < 2 ^ j"
    using power_increasing [of 5 j "2::nat"] by simp
  then show "\<not> bit (of_nat i :: 32 word) j"
    by (simp add: bit_of_nat_iff bit_nat_iff_0)
qed

lemma decode_chars_bits:
  "base32_text s \<Longrightarrow> bits < 8 \<Longrightarrow>
   decode_chars s bits v out = Inr (out @ bytes_of (bits_of bits v @ text_bits s))"
proof (induction s arbitrary: bits v out)
  case Nil
  then show ?case by (simp add: bytes_of.simps)
next
  case (Cons c s)
  then have "c \<in> set BASE32_ALPHABET" and s: "base32_text s"
    by (auto simp: base32_text_def)
  then obtain i where "i < 32" and "BASE32_ALPHABET ! i = c"
    by (metis in_set_conv_nth length_alphabet)
  then have i: "index_of c BASE32_ALPHABET = Some i"
    using index_of_nth [OF distinct_alphabet, of i] by simp
  let ?v = "push_bit 5 v OR of_nat i"
  have acc: "bits_of (bits + 5) ?v = bits_of bits v @ symbol_bits c"
    using Cons.prems(2) \<open>i < 32\<close> i by (simp add: bits_of_push_symbol symbol_bits_def)
  show ?case
  proof (cases "bits + 5 \<ge> 8")
    case True
    then have "bits_of (bits + 5) ?v = bits_of 8 (drop_bit (bits - 3) ?v) @ bits_of (bits - 3) ?v"
      using bits_of_split [of 8 "bits + 5" ?v] by simp
    then have "bytes_of (bits_of bits v @ text_bits (c # s)) =
       ucast (drop_bit (bits - 3) ?v AND 255) # bytes_of (bits_of (bits - 3) ?v @ text_bits s)"
      using acc by (metis append.assoc byte_of_bits_of_word bytes_of_step length_bits_of text_bits_simps(2))
    with True i Cons.prems Cons.IH [OF s, of "bits - 3"] show ?thesis
      by (simp add: Let_def)
  next
    case False
    with i acc Cons.IH [OF s, of "bits + 5" ?v out] show ?thesis
      by (simp add: Let_def)
  qed
qed

lemma base32_text_upper: "base32_text s \<Longrightarrow> js_toUpperCase s = s"
proof (induction s)
  case Nil
  then show ?case by (simp add: js_toUpperCase_def)
next
  case (Cons c s)
  have "\<forall>x \<in> set BASE32_ALPHABET. js_upper_char x = [x]"
    by (simp add: BASE32_ALPHABET_def js_upper_char_def)
  with Cons show ?case by (simp add: js_toUpperCase_def base32_text_def)
qed

lemma base32_text_clean:
  assumes "base32_text s"
  shows "filter (\<lambda>c. \<not> js_space c) (rev (dropWhile (\<lambda>c. c = CHR ''='') (rev (js_toUpperCase s)))) = s"
proof -
  have sym: "\<forall>c \<in> set BASE32_ALPHABET. c \<noteq> CHR ''='' \<and> \<not> js_space c"
    by (simp add: BASE32_ALPHABET_def js_space_def)
  then have "dropWhile (\<lambda>c. c = CHR ''='') (rev s) = rev s"
    using assms by (intro dropWhile_none) (auto simp: base32_text_def list_all_iff)
  moreover have "filter (\<lambda>c. \<not> js_space c) s = s"
    using assms sym by (intro filter_True) (auto simp: base32_text_def)
  ultimately show ?thesis
    using assms by (simp add: base32_text_upper)
qed

lemma decode_encode: "base32Decode (base32Encode bs) = Inr bs"
proof -
  obtain p where p: "p < 5" and bits: "text_bits (base32Encode bs) = byte_bits bs @ replicate p False"
    using base32Encode_bits by blast
  have chars: "base32_text (base32Encode bs)"
    using base32Encode_bits by blast
  then have "base32Decode (base32Encode bs) = Inr (bytes_of (text_bits (base32Encode bs)))"
    by (simp add: base32Decode_def base32_text_clean decode_chars_bits)
  with bits p show ?thesis
    by (simp add: bytes_of_byte_bits)
qed

text \<open>
  A two-factor secret survives storage: decoding the base32 text the service encodes gives back
  exactly the bytes that were encoded, for byte strings of any length.
\<close>

theorem base32_round_trip: "base32Decode (base32Encode bs) = Inr bs"
  by (rule decode_encode)

lemma length_text_bits: "length (text_bits s) = 5 * length s"
  by (induction s) (simp_all add: symbol_bits_def)

lemma length_byte_bits: "length (byte_bits bs) = 8 * length bs"
  by (induction bs) simp_all

text \<open>
  The length of a base32 text is that of the bytes in groups of five bits, rounded up; the
  20-byte secrets the service makes are 32 symbols long.
\<close>

theorem base32Encode_length: "length (base32Encode bs) = (8 * length bs + 4) div 5"
proof -
  obtain p where "p < 5" and "text_bits (base32Encode bs) = byte_bits bs @ replicate p False"
    using base32Encode_bits by blast
  then have "5 * length (base32Encode bs) = 8 * length bs + p"
    by (metis length_append length_byte_bits length_replicate length_text_bits)
  with \<open>p < 5\<close> show ?thesis by linarith
qed

lemma padded_six_digits: "n < 10 ^ 6 \<Longrightarrow> six_digits (padStart DIGITS (CHR ''0'') (decimal n))"
  using length_decimal [of 6 n] decimal_digits [of n]
  by (auto simp: six_digits_def padStart_def DIGITS_def list_all_iff is_digit_def)

lemma codeAt_Inr_six_digits: "codeAt hmac secret n = Inr c \<Longrightarrow> six_digits c"
  by (auto simp: codeAt_def Let_def DIGITS_def padded_six_digits [unfolded DIGITS_def]
      split: sum.splits if_splits)

lemma codeAt_returns:
  "0 \<le> n \<Longrightarrow> n < 2 ^ 64 \<Longrightarrow> \<exists>c. codeAt hmac (base32Encode bs) n = Inr c"
  by (simp add: codeAt_def decode_encode Let_def)

text \<open>
  A secret the service made has a code at every counter a 64-bit buffer can hold, and every
  code is six decimal digits.
\<close>

theorem codeAt_defined:
  "0 \<le> n \<Longrightarrow> n < 2 ^ 64 \<Longrightarrow> \<exists>c. codeAt hmac (base32Encode bs) n = Inr c \<and> six_digits c"
  using codeAt_returns codeAt_Inr_six_digits by blast

theorem codeAt_defined_witness:
  "\<exists>c. codeAt (\<lambda>key msg. key @ msg) (base32Encode [1, 2, 3]) 59 = Inr c \<and> six_digits c"
  by (rule codeAt_defined) simp_all

lemma match_steps_find:
  "(\<forall>st \<in> set steps. \<exists>c. codeAt hmac secret st = Inr c) \<Longrightarrow>
   match_steps hmac secret cand steps acc =
     Inr (case find (\<lambda>st. codeAt hmac secret st = Inr cand) (rev steps) of None \<Rightarrow> acc | Some st \<Rightarrow> Some st)"
proof (induction steps arbitrary: acc)
  case Nil
  then show ?case by simp
next
  case (Cons st steps)
  then show ?case by (auto simp: find_append split: option.splits)
qed

lemma window_upto: "[-WINDOW_STEPS..WINDOW_STEPS] = [-1, 0, 1]"
  by (simp add: WINDOW_STEPS_def upto.simps)

text \<open>
  The acceptance window: for a secret the service made, \<open>acceptedStep\<close> never fails and names
  the latest of the steps \<open>now + 1\<close>, \<open>now\<close>, \<open>now - 1\<close> whose code is the trimmed input, or none
  when none is.
\<close>

theorem acceptedStep_latest:
  fixes atMs :: int
  assumes "30000 \<le> atMs" and "atMs < 30000 * 2 ^ 63"
  defines "now \<equiv> atMs div 30000"
  shows "acceptedStep hmac (base32Encode bs) code atMs =
     Inr (find (\<lambda>st. codeAt hmac (base32Encode bs) st = Inr (js_trim code)) [now + 1, now, now - 1])"
proof (cases "six_digits (js_trim code)")
  case True
  have "\<forall>st \<in> {now - 1, now, now + 1}. 0 \<le> st \<and> st < 2 ^ 64"
    using assms by auto
  then have "\<forall>st \<in> set [now - 1, now, now + 1]. \<exists>c. codeAt hmac (base32Encode bs) st = Inr c"
    using codeAt_returns by auto
  note found = match_steps_find [OF this, of "js_trim code" None]
  have "acceptedStep hmac (base32Encode bs) code atMs =
      match_steps hmac (base32Encode bs) (js_trim code) [now - 1, now, now + 1] None"
    using True by (simp add: acceptedStep_def Let_def PERIOD_SECONDS_def window_upto now_def del: match_steps.simps)
  then show ?thesis
    unfolding found by (simp split: option.splits)
next
  case False
  then have "codeAt hmac (base32Encode bs) st \<noteq> Inr (js_trim code)" for st
    using codeAt_Inr_six_digits by blast
  with False show ?thesis by (simp add: acceptedStep_def)
qed

theorem acceptedStep_latest_witness:
  "acceptedStep (\<lambda>key msg. msg) (base32Encode [7]) ''000000'' 90000 =
     Inr (find (\<lambda>st. codeAt (\<lambda>key msg. msg) (base32Encode [7]) st = Inr (js_trim ''000000'')) [4, 3, 2])"
  using acceptedStep_latest [of 90000 "\<lambda>key msg. msg" "[7]" "''000000''"] by simp

end
