(* ===== verification/World.thy ===== *)
theory World
  imports Complex_Main Totp
begin

text \<open>
  The state every request works on: the PostgreSQL tables (one record type per TypeORM entity of
  \<^verbatim>\<open>src/src/infrastructure/persistence/entities\<close>), the clock, the draws made from the random
  source, the audit events logged and counted, and the calls made to other services. Times are
  milliseconds since the epoch; a request runs at one instant, so every clock it reads (Node's and
  PostgreSQL's) shows the same time, and time passes between requests. Serial primary keys that no
  code reads (those of refresh tokens, revocations and aliases) are left out: the row's unique
  column identifies it; so are the creation and update times of accounts and principals, and the
  length limits of text columns.

  Code that is not the repository's (the random source, SHA-256, HMAC, bcrypt, the JWT library) is
  the record \<open>Env\<close>, an argument of the definitions that use it.
\<close>

section \<open>Accounts and principals\<close>

record UserEntity =
  u_id :: nat
  u_email :: string
  u_passwordHash :: string
  u_role :: UserRole
  u_isTwoFactorEnabled :: bool
  u_twoFactorSecret :: "string option"

record UserRow = UserEntity +
  ur_twoFactorLastStep :: "int option"

record PrincipalRow =
  pr_id :: string
  pr_kind :: PrincipalKind
  pr_displayName :: "string option"

record PrincipalAliasRow =
  al_principalId :: string
  al_service :: string
  al_localId :: string

section \<open>Sessions\<close>

record RefreshTokenRow =
  rt_jti :: string
  rt_familyId :: string
  rt_principalId :: string
  rt_userId :: nat
  rt_client :: "string option"
  rt_expiresAt :: int
  rt_usedAt :: "int option"
  rt_revokedAt :: "int option"
  rt_revokedReason :: "string option"
  rt_replacedByJti :: "string option"
  rt_createdAt :: int

record RevokedTokenRow =
  rv_jti :: string
  rv_expiresAt :: int
  rv_reason :: string

section \<open>Sign-in attempts\<close>

record AttemptState =
  as_attempts :: nat
  as_lastAttemptAt :: int
  as_delayedUntil :: int

record AccountAttemptRow = AttemptState +
  aa_accountKey :: string

record ChallengeAttemptRow =
  ca_jti :: string
  ca_attempts :: nat
  ca_expiresAt :: int

section \<open>Passkeys\<close>

datatype PasskeyDeviceType = SingleDevice | MultiDevice

record PasskeyEntity =
  pk_id :: string
  pk_userId :: nat
  pk_credentialId :: string
  pk_publicKey :: "byte list"
  pk_signCount :: nat
  pk_transports :: "string list"
  pk_deviceType :: PasskeyDeviceType
  pk_backedUp :: bool
  pk_name :: string
  pk_createdAt :: int
  pk_lastUsedAt :: "int option"

datatype ChallengePurpose = ForRegister | ForSignIn

record PasskeyChallengeRow =
  pc_id :: string
  pc_userId :: nat
  pc_purpose :: ChallengePurpose
  pc_challenge :: string
  pc_mfaJti :: "string option"
  pc_expiresAt :: int
  pc_usedAt :: "int option"

section \<open>Profiles, stores and applications\<close>

type_synonym degrees = rat

record ProfileEntity =
  pf_id :: nat
  pf_userId :: nat
  pf_fullName :: string
  pf_phoneNumber :: string
  pf_streetAddress :: string
  pf_city :: string
  pf_postalCode :: string
  pf_avatarUrl :: "string option"
  pf_latitude :: "degrees option"
  pf_longitude :: "degrees option"
  pf_geocodedAt :: "int option"

record MerchantEntity =
  m_id :: nat
  m_userId :: nat
  m_storeName :: string
  m_slug :: string
  m_description :: "string option"
  m_businessRegistrationNumber :: string
  m_taxId :: string
  m_status :: MerchantStatus
  m_verifiedAt :: "int option"
  m_streetAddress :: string
  m_city :: string
  m_postalCode :: string
  m_latitude :: "degrees option"
  m_longitude :: "degrees option"
  m_geocodedAt :: "int option"

record MerchantRow = MerchantEntity +
  mr_updatedAt :: int
  mr_changeTransaction :: nat

datatype SellerApplicationStatus = SPending | SVerified | SRejected

record MerchantVerificationEntity =
  mv_id :: nat
  mv_userId :: nat
  mv_storeName :: string
  mv_businessRegistrationNumber :: string
  mv_taxId :: string
  mv_status :: SellerApplicationStatus
  mv_verifiedAt :: "int option"
  mv_streetAddress :: string
  mv_city :: string
  mv_postalCode :: string
  mv_rejectedAt :: "int option"

datatype CourierApplicationStatus = CPending | CApproved | CRejected

record CourierApplicationRow =
  co_id :: nat
  co_userId :: nat
  co_principalId :: string
  co_driverId :: "nat option"
  co_status :: CourierApplicationStatus
  co_filedAt :: int
  co_approvedAt :: "int option"
  co_rejectedAt :: "int option"

datatype GeocodePrecision = UNSPECIFIED | ROOFTOP | STREET | SUBURB | CITY

record ProviderPoint =
  pp_latitude :: degrees
  pp_longitude :: degrees
  pp_precision :: GeocodePrecision
  pp_displayName :: "string option"

record GeocodedAddressRow =
  ga_query :: string
  ga_provider :: string
  ga_point :: ProviderPoint

section \<open>What the service reports and whom it calls\<close>

datatype SignInStage = PasswordStage | TwoFactorStage | PasskeyStage

datatype SignInRole = AdminRole | OtherRole

datatype SignInFailureReason =
    unknown_account | wrong_password | wrong_code | code_reused
  | unknown_passkey | passkey_refused | no_passkey_challenge | sign_count_regressed

datatype ClientRefusalReason =
    missing | malformed | invalid_signature | expired | not_yet_valid
  | wrong_project | wrong_app_id | keys_unavailable
  | unknown_client | client_required | client_mismatch

datatype AdminActionOutcome = ActionDone | ActionRefused | ActionFailed

datatype event =
    SignInFailed SignInStage SignInRole SignInFailureReason string nat "nat option" "string option"
  | ClientProofRefused string ClientRefusalReason
  | ClientSessionBound string nat
  | PasskeyRegistrationRefused nat string
  | AdminAction string string string AdminActionOutcome "string option"

datatype outbound =
    AppCheckKeysFetch int
  | GeocoderLookup string
  | FleetRegister string string rat
  | FleetActivate string

section \<open>The state\<close>

type_synonym KeyObject = string

text \<open>The App Check key set a process keeps in memory (\<^verbatim>\<open>app_check_key_set.ts\<close>).\<close>

record AppCheckKeySet =
  ks_keys :: "(string \<times> KeyObject) list option"
  ks_fetchedAtMs :: int
  ks_lastAttemptAtMs :: "int option"
  ks_lastAttemptFailed :: bool

record world =
  clock :: int
  draws :: nat
  users :: "UserRow list"
  user_seq :: nat
  principals :: "PrincipalRow list"
  aliases :: "PrincipalAliasRow list"
  refresh_tokens :: "RefreshTokenRow list"
  revoked_access_tokens :: "RevokedTokenRow list"
  account_sign_in_attempts :: "AccountAttemptRow list"
  two_factor_challenge_attempts :: "ChallengeAttemptRow list"
  passkeys :: "PasskeyEntity list"
  passkey_challenges :: "PasskeyChallengeRow list"
  profiles :: "ProfileEntity list"
  profile_seq :: nat
  merchants :: "MerchantRow list"
  merchant_seq :: nat
  transactions :: nat
  merchant_verifications :: "MerchantVerificationEntity list"
  verification_seq :: nat
  courier_applications :: "CourierApplicationRow list"
  courier_seq :: nat
  geocoded_addresses :: "GeocodedAddressRow list"
  app_check_keys :: AppCheckKeySet
  events :: "event list"
  outbox :: "outbound list"

type_synonym 'a act = "(world, failure, 'a) io"

definition empty_world :: world where
  "empty_world = \<lparr>clock = 0, draws = 0, users = [], user_seq = 1, principals = [], aliases = [],
     refresh_tokens = [], revoked_access_tokens = [], account_sign_in_attempts = [],
     two_factor_challenge_attempts = [], passkeys = [], passkey_challenges = [],
     profiles = [], profile_seq = 1, merchants = [], merchant_seq = 1, transactions = 1,
     merchant_verifications = [], verification_seq = 1, courier_applications = [], courier_seq = 1,
     geocoded_addresses = [],
     app_check_keys = \<lparr>ks_keys = None, ks_fetchedAtMs = 0, ks_lastAttemptAtMs = None, ks_lastAttemptFailed = False\<rparr>,
     events = [], outbox = []\<rparr>"

section \<open>Libraries\<close>

record Claims =
  cl_sub :: string
  cl_jti :: string
  cl_iss :: string
  cl_aud :: string
  cl_iat :: int
  cl_exp :: int
  cl_token_use :: string
  cl_fam :: "string option"
  cl_azp :: "string option"
  cl_uid :: nat
  cl_email :: "string option"
  cl_role :: "string option"

datatype Payload = TextPayload string | ClaimsPayload Claims

record 'tok Env =
  uuid :: "nat \<Rightarrow> string"
  random20 :: "nat \<Rightarrow> byte list"
  sha256_hex :: "string \<Rightarrow> string"
  hmac_sha1 :: "byte list \<Rightarrow> byte list \<Rightarrow> byte list"
  bcrypt_compare :: "string \<Rightarrow> string \<Rightarrow> bool"
  bcrypt_hash :: "nat \<Rightarrow> string \<Rightarrow> nat \<Rightarrow> string"
  jwt_sign :: "Claims \<Rightarrow> KeyObject \<Rightarrow> string \<Rightarrow> 'tok"
  jwt_header_kid :: "'tok \<Rightarrow> string option"
  jwt_verify :: "'tok \<Rightarrow> KeyObject \<Rightarrow> string \<Rightarrow> string \<Rightarrow> int \<Rightarrow> Payload option"
  jwt_decode :: "'tok \<Rightarrow> Payload option"
  issuer :: string
  audience :: string
  accessTtlSeconds :: int
  refreshTtlSeconds :: int
  privateKey :: KeyObject
  publicKey :: KeyObject
  keyId :: string
  previousKeys :: "(string \<times> KeyObject) list"

text \<open>\<^verbatim>\<open>randomUUID()\<close> and PostgreSQL's \<^verbatim>\<open>gen_random_uuid()\<close>: the next draw of the random source.\<close>

definition randomUUID :: "'tok Env \<Rightarrow> string act" where
  "randomUUID env = (\<lambda>w. (Inr (uuid env (draws w)), w\<lparr>draws := Suc (draws w)\<rparr>))"

text \<open>\<open>drawn env w x\<close>: the random source has already produced \<open>x\<close>.\<close>

definition drawn :: "'tok Env \<Rightarrow> world \<Rightarrow> string \<Rightarrow> bool" where
  "drawn env w x \<longleftrightarrow> (\<exists>n < draws w. x = uuid env n)"

definition record_event :: "event \<Rightarrow> unit act" where
  "record_event e = writes (\<lambda>w. w\<lparr>events := events w @ [e]\<rparr>)"

lemma randomUUID_run [simp, io_simps]:
  "randomUUID env w = (Inr (uuid env (draws w)), w\<lparr>draws := Suc (draws w)\<rparr>)"
  by (simp add: randomUUID_def)

lemma record_event_run [simp, io_simps]: "record_event e w = (Inr (), w\<lparr>events := events w @ [e]\<rparr>)"
  by (simp add: record_event_def)

lemma drawn_draws [simp]: "drawn env (w\<lparr>draws := n\<rparr>) x \<longleftrightarrow> (\<exists>k < n. x = uuid env k)"
  by (simp add: drawn_def)

lemma drawn_cong: "draws t = draws w \<Longrightarrow> drawn env t x = drawn env w x"
  by (simp add: drawn_def)

lemma drawn_mono: "drawn env w x \<Longrightarrow> draws w \<le> draws t \<Longrightarrow> drawn env t x"
  unfolding drawn_def by (erule exE, rule exI, erule conjE, rule conjI, erule (1) order_less_le_trans)

lemma drawn_next: "draws t = Suc (draws w) \<Longrightarrow> drawn env t (uuid env (draws w))"
  by (auto simp: drawn_def)

lemma fresh_draw: "inj (uuid env) \<Longrightarrow> draws w \<le> n \<Longrightarrow> \<not> drawn env w (uuid env n)"
  unfolding drawn_def by (metis injD not_less)

text \<open>Whose session a token is about (\<^verbatim>\<open>TokenSubject\<close>).\<close>

record TokenSubject =
  ts_id :: nat
  ts_email :: string
  ts_role :: UserRole

definition subjectOf :: "UserEntity \<Rightarrow> TokenSubject" where
  "subjectOf u = \<lparr>ts_id = u_id u, ts_email = u_email u, ts_role = u_role u\<rparr>"

lemma subjectOf_simps [simp]:
  "ts_id (subjectOf u) = u_id u" "ts_email (subjectOf u) = u_email u" "ts_role (subjectOf u) = u_role u"
  by (simp_all add: subjectOf_def)

text \<open>A concrete instance of the libraries, at which witnesses evaluate the model.\<close>

definition sample_env :: "(Claims \<times> KeyObject \<times> string) Env" where
  "sample_env = \<lparr>uuid = decimal, random20 = (\<lambda>_. replicate 20 0), sha256_hex = (\<lambda>x. x), hmac_sha1 = (\<lambda>k m. replicate 20 0),
     bcrypt_compare = (\<lambda>p h. h = p), bcrypt_hash = (\<lambda>n p d. p),
     jwt_sign = (\<lambda>c k kid. (c, k, kid)), jwt_header_kid = (\<lambda>(c, k, kid). Some kid),
     jwt_verify = (\<lambda>(c, k, kid) key iss aud now.
        if k = key \<and> cl_iss c = iss \<and> cl_aud c = aud \<and> now < cl_exp c * 1000 then Some (ClaimsPayload c) else None),
     jwt_decode = (\<lambda>(c, k, kid). Some (ClaimsPayload c)),
     issuer = ''identity'', audience = ''kinetix'', accessTtlSeconds = 900, refreshTtlSeconds = 604800,
     privateKey = ''K'', publicKey = ''K'', keyId = ''1'', previousKeys = []\<rparr>"

lemma sample_env_uuid [simp]: "inj (uuid sample_env)"
  by (auto simp: sample_env_def inj_def dest: decimal_inj)

end
