(* ===== verification/Sign_In_Attempts.thy ===== *)
theory Sign_In_Attempts
  imports World
begin

text \<open>
  The per-account delay and the per-challenge limit on sign-in attempts: the policy
  (\<^verbatim>\<open>domain/sign_in_attempt_policy.ts\<close>), the store
  (\<^verbatim>\<open>persistence/adapters/typeorm_sign_in_attempt_repository.adapter.ts\<close>) and the service
  (\<^verbatim>\<open>application/services/sign_in_attempts.service.ts\<close>). The locale \<open>attempt_store\<close> is the port
  \<^verbatim>\<open>SignInAttemptRepositoryPort\<close> with the laws the service relies on; the bound on how fast an
  account can be guessed is proved in it, and the store is shown to satisfy it.
\<close>

section \<open>The policy\<close>

definition ATTEMPTS_BEFORE_DELAY :: nat where "ATTEMPTS_BEFORE_DELAY = 5"
definition FIRST_DELAY_SECONDS :: int where "FIRST_DELAY_SECONDS = 1"
definition LONGEST_DELAY_SECONDS :: int where "LONGEST_DELAY_SECONDS = 60"
definition FORGET_AFTER_SECONDS :: int where "FORGET_AFTER_SECONDS = 3600"
definition ATTEMPTS_PER_CHALLENGE :: nat where "ATTEMPTS_PER_CHALLENGE = 5"

lemmas attempt_constants = ATTEMPTS_BEFORE_DELAY_def FIRST_DELAY_SECONDS_def
  LONGEST_DELAY_SECONDS_def FORGET_AFTER_SECONDS_def ATTEMPTS_PER_CHALLENGE_def

datatype AttemptAdmission =
    Admitted (adm_attempts: nat) (adm_delayedUntil: int)
  | NotAdmitted (adm_retryAfterSeconds: int)

definition delaySecondsAfter :: "nat \<Rightarrow> int" where
  "delaySecondsAfter attempts =
     (if attempts < ATTEMPTS_BEFORE_DELAY then 0
      else
        (let doublings = min (attempts - ATTEMPTS_BEFORE_DELAY) 30
         in min LONGEST_DELAY_SECONDS (FIRST_DELAY_SECONDS * 2 ^ doublings)))"

text \<open>\<^verbatim>\<open>Math.ceil(x / 1000)\<close> of a whole number of milliseconds.\<close>

definition ceil_seconds :: "int \<Rightarrow> int" where
  "ceil_seconds ms = - ((- ms) div 1000)"

definition admitAttempt :: "AttemptState option \<Rightarrow> int \<Rightarrow> AttemptAdmission" where
  "admitAttempt state now =
     (case state of
        Some st \<Rightarrow>
          if as_delayedUntil st > now
          then NotAdmitted (max 1 (ceil_seconds (as_delayedUntil st - now)))
          else
            (let forgotten = now - as_lastAttemptAt st \<ge> FORGET_AFTER_SECONDS * 1000;
                 attempts = (if forgotten then 1 else as_attempts st + 1)
             in Admitted attempts (now + delaySecondsAfter attempts * 1000))
      | None \<Rightarrow> Admitted 1 (now + delaySecondsAfter 1 * 1000))"

section \<open>The store\<close>

definition stateOf :: "AccountAttemptRow \<Rightarrow> AttemptState" where
  "stateOf row = AttemptState.truncate row"

definition account_row :: "string \<Rightarrow> world \<Rightarrow> AccountAttemptRow option" where
  "account_row accountKey w = find (\<lambda>r. aa_accountKey r = accountKey) (account_sign_in_attempts w)"

definition lockAccount :: "string \<Rightarrow> (AccountAttemptRow \<times> int) act" where
  "lockAccount accountKey =
     andThen (writes (\<lambda>w. if account_row accountKey w \<noteq> None then w
        else w\<lparr>account_sign_in_attempts := account_sign_in_attempts w @
               [\<lparr>as_attempts = 0, as_lastAttemptAt = clock w, as_delayedUntil = clock w,
                 aa_accountKey = accountKey\<rparr>]\<rparr>))
     (\<lambda>_. andThen (reads (account_row accountKey))
     (\<lambda>row. case row of
        None \<Rightarrow> throws (PlainError ''the sign-in attempt row was not there after it was written'')
      | Some r \<Rightarrow> andThen (reads clock) (\<lambda>now. returns (r, now))))"

definition recordAccountAttempt :: "string \<Rightarrow> nat \<Rightarrow> int \<Rightarrow> int \<Rightarrow> unit act" where
  "recordAccountAttempt accountKey attempts delayedUntil now =
     writes (\<lambda>w. w\<lparr>account_sign_in_attempts :=
       update_where (\<lambda>r. aa_accountKey r = accountKey)
         (\<lambda>r. r\<lparr>as_attempts := attempts, as_lastAttemptAt := now, as_delayedUntil := delayedUntil\<rparr>)
         (account_sign_in_attempts w)\<rparr>)"

definition claimAccountAttempt ::
  "string \<Rightarrow> (AttemptState option \<Rightarrow> int \<Rightarrow> AttemptAdmission) \<Rightarrow> AttemptAdmission act" where
  "claimAccountAttempt accountKey decide =
     atomically (andThen (lockAccount accountKey)
     (\<lambda>(row, now). case decide (Some (stateOf row)) now of
        NotAdmitted retry \<Rightarrow> returns (NotAdmitted retry)
      | Admitted attempts delayedUntil \<Rightarrow>
          andThen (recordAccountAttempt accountKey attempts delayedUntil now)
          (\<lambda>_. returns (Admitted attempts delayedUntil))))"

definition clearAccountAttempts :: "string \<Rightarrow> unit act" where
  "clearAccountAttempts accountKey =
     writes (\<lambda>w. w\<lparr>account_sign_in_attempts :=
       delete_where (\<lambda>r. aa_accountKey r = accountKey) (account_sign_in_attempts w)\<rparr>)"

record ChallengeAttempt =
  ch_jti :: string
  ch_expiresAt :: int
  ch_limit :: nat

datatype ChallengeAdmission = ChallengeAdmitted nat | ChallengeDelayed int | ChallengeExhausted

definition challenge_row :: "string \<Rightarrow> world \<Rightarrow> ChallengeAttemptRow option" where
  "challenge_row jti w = find (\<lambda>r. ca_jti r = jti) (two_factor_challenge_attempts w)"

text \<open>
  The \<^verbatim>\<open>INSERT ... ON CONFLICT DO UPDATE ... WHERE attempts < limit RETURNING attempts\<close>: a new
  row, one more attempt on the old row, or nothing.
\<close>

definition claim_challenge_row :: "ChallengeAttempt \<Rightarrow> nat list act" where
  "claim_challenge_row challenge =
     (\<lambda>w. case challenge_row (ch_jti challenge) w of
        None \<Rightarrow> (Inr [1], w\<lparr>two_factor_challenge_attempts := two_factor_challenge_attempts w @
           [\<lparr>ca_jti = ch_jti challenge, ca_attempts = 1, ca_expiresAt = ch_expiresAt challenge\<rparr>]\<rparr>)
      | Some r \<Rightarrow>
          if ca_attempts r < ch_limit challenge
          then (Inr [ca_attempts r + 1], w\<lparr>two_factor_challenge_attempts :=
                  update_where (\<lambda>q. ca_jti q = ch_jti challenge)
                    (\<lambda>q. q\<lparr>ca_attempts := ca_attempts q + 1\<rparr>) (two_factor_challenge_attempts w)\<rparr>)
          else (Inr [], w))"

definition claimChallengeAttempt ::
  "string \<Rightarrow> (AttemptState option \<Rightarrow> int \<Rightarrow> AttemptAdmission) \<Rightarrow> ChallengeAttempt \<Rightarrow> ChallengeAdmission act" where
  "claimChallengeAttempt accountKey decide challenge =
     atomically (andThen (lockAccount accountKey)
     (\<lambda>(row, now). andThen (reads (challenge_row (ch_jti challenge)))
     (\<lambda>used. if (case used of None \<Rightarrow> 0 | Some r \<Rightarrow> ca_attempts r) \<ge> ch_limit challenge
        then returns ChallengeExhausted
        else (case decide (Some (stateOf row)) now of
            NotAdmitted retry \<Rightarrow> returns (ChallengeDelayed retry)
          | Admitted attempts delayedUntil \<Rightarrow>
              andThen (claim_challenge_row challenge)
              (\<lambda>claimed. if length claimed \<noteq> 1 then returns ChallengeExhausted
                else andThen (recordAccountAttempt accountKey attempts delayedUntil now)
                     (\<lambda>_. returns (ChallengeAdmitted attempts)))))))"

definition attempts_sweep :: "int \<Rightarrow> nat act" where
  "attempts_sweep forgetAfterSeconds =
     (\<lambda>w. let forgotten = (\<lambda>r. as_lastAttemptAt r < clock w - forgetAfterSeconds * 1000 \<and> as_delayedUntil r < clock w);
              gone = (\<lambda>r. ca_expiresAt r < clock w)
          in (Inr (affected forgotten (account_sign_in_attempts w) + affected gone (two_factor_challenge_attempts w)),
              w\<lparr>account_sign_in_attempts := delete_where forgotten (account_sign_in_attempts w),
                two_factor_challenge_attempts := delete_where gone (two_factor_challenge_attempts w)\<rparr>))"

section \<open>The service\<close>

record CallContext =
  ctx_requestId :: "string option"
  ctx_client :: "RequestClient option"

record SignInFailure =
  sf_stage :: SignInStage
  sf_reason :: SignInFailureReason
  sf_email :: string
  sf_user :: "UserEntity option"
  sf_attempts :: nat
  sf_detail :: "string option"

definition accountKeyOf :: "'tok Env \<Rightarrow> string \<Rightarrow> string" where
  "accountKeyOf env email = sha256_hex env (normalisedEmail email)"

definition admit :: "'tok Env \<Rightarrow> string \<Rightarrow> nat act" where
  "admit env email =
     andThen (claimAccountAttempt (accountKeyOf env email) admitAttempt)
     (\<lambda>admission. case admission of
        NotAdmitted retry \<Rightarrow> throws (SignInDelayedError retry)
      | Admitted attempts _ \<Rightarrow> returns attempts)"

definition admitChallengeAttempt :: "'tok Env \<Rightarrow> string \<Rightarrow> Claims \<Rightarrow> nat option act" where
  "admitChallengeAttempt env email claims =
     andThen (claimChallengeAttempt (accountKeyOf env email) admitAttempt
        \<lparr>ch_jti = cl_jti claims, ch_expiresAt = cl_exp claims * 1000, ch_limit = ATTEMPTS_PER_CHALLENGE\<rparr>)
     (\<lambda>admission. case admission of
        ChallengeDelayed retry \<Rightarrow> throws (SignInDelayedError retry)
      | ChallengeExhausted \<Rightarrow> returns None
      | ChallengeAdmitted attempts \<Rightarrow> returns (Some attempts))"

definition failed :: "'tok Env \<Rightarrow> SignInFailure \<Rightarrow> CallContext \<Rightarrow> unit act" where
  "failed env f context =
     record_event (SignInFailed (sf_stage f)
       (if map_option u_role (sf_user f) = Some Admin then AdminRole else OtherRole)
       (sf_reason f) (accountKeyOf env (sf_email f)) (sf_attempts f)
       (map_option u_id (sf_user f)) (sf_detail f))"

definition succeeded :: "'tok Env \<Rightarrow> string \<Rightarrow> unit act" where
  "succeeded env email = clearAccountAttempts (accountKeyOf env email)"

definition sign_in_sweep :: "nat act" where
  "sign_in_sweep = attempts_sweep FORGET_AFTER_SECONDS"

section \<open>Facts about the policy\<close>

lemma delaySecondsAfter_cases:
  "delaySecondsAfter n = (if n < 5 then 0 else if n < 11 then 2 ^ (n - 5) else 60)"
proof (cases "n < 11")
  case True
  have "list_all (\<lambda>n. delaySecondsAfter n = (if n < 5 then 0 else if n < 11 then 2 ^ (n - 5) else 60)) [0..<11]"
    by code_simp
  with True show ?thesis by (simp add: list_all_iff)
next
  case False
  then have "(2::int) ^ 6 \<le> 2 ^ min (n - 5) 30"
    by (intro power_increasing) auto
  with False show ?thesis
    by (simp add: delaySecondsAfter_def attempt_constants Let_def)
qed

lemma delaySecondsAfter_bounds: "0 \<le> delaySecondsAfter n \<and> delaySecondsAfter n \<le> 60"
  by (auto simp: delaySecondsAfter_def attempt_constants Let_def)

text \<open>
  The delay schedule. No delay before the fifth attempt; then one second, doubling with every
  attempt, and one minute from the eleventh on.
\<close>

theorem delay_schedule:
  "delaySecondsAfter n = (if n < 5 then 0 else if n < 11 then 2 ^ (n - 5) else 60)"
  by (rule delaySecondsAfter_cases)

lemma admitAttempt_None: "admitAttempt None now = Admitted 1 now"
  by (simp add: admitAttempt_def delaySecondsAfter_cases)

lemma admitAttempt_fresh_row:
  "admitAttempt (Some \<lparr>as_attempts = 0, as_lastAttemptAt = now, as_delayedUntil = now\<rparr>) now =
   admitAttempt None now"
  by (simp add: admitAttempt_def attempt_constants delaySecondsAfter_cases)

text \<open>A row old enough to be swept is one the policy has forgotten.\<close>

lemma admitAttempt_swept:
  "as_lastAttemptAt st < now - FORGET_AFTER_SECONDS * 1000 \<Longrightarrow> as_delayedUntil st < now \<Longrightarrow>
   admitAttempt (Some st) now = admitAttempt None now"
  by (simp add: admitAttempt_def Let_def)

lemma ceil_seconds_spec: "ms \<le> ceil_seconds ms * 1000 \<and> ceil_seconds ms * 1000 < ms + 1000"
  by (auto simp: ceil_seconds_def)

text \<open>
  A refused attempt is told the truth: it is refused exactly while the delay runs, and an
  attempt made \<open>retryAfterSeconds\<close> later is admitted; waiting a second less would not do.
\<close>

theorem retry_after_is_exact:
  assumes "admitAttempt (Some st) now = NotAdmitted retry"
  shows "1 \<le> retry \<and> (\<exists>a d. admitAttempt (Some st) (now + retry * 1000) = Admitted a d)
    \<and> (\<exists>r. admitAttempt (Some st) (now + (retry - 1) * 1000) = NotAdmitted r)"
proof -
  let ?wait = "as_delayedUntil st - now"
  from assms have late: "0 < ?wait" and retry: "retry = max 1 (ceil_seconds ?wait)"
    by (auto simp: admitAttempt_def Let_def split: if_splits)
  have lo: "?wait \<le> ceil_seconds ?wait * 1000" and hi: "ceil_seconds ?wait * 1000 < ?wait + 1000"
    using ceil_seconds_spec by blast+
  with late have "1 \<le> ceil_seconds ?wait" by linarith
  with retry have "retry = ceil_seconds ?wait" and "1 \<le> retry" by auto
  with lo hi have "as_delayedUntil st \<le> now + retry * 1000" and "now + (retry - 1) * 1000 < as_delayedUntil st"
    by (simp_all add: algebra_simps)
  with \<open>1 \<le> retry\<close> show ?thesis
    by (auto simp: admitAttempt_def Let_def)
qed

theorem retry_after_is_exact_witness:
  "admitAttempt (Some \<lparr>as_attempts = 7, as_lastAttemptAt = 0, as_delayedUntil = 4000\<rparr>) 2500 = NotAdmitted 2
   \<and> (\<exists>a d. admitAttempt (Some \<lparr>as_attempts = 7, as_lastAttemptAt = 0, as_delayedUntil = 4000\<rparr>) 4500 = Admitted a d)"
proof -
  have h: "admitAttempt (Some \<lparr>as_attempts = 7, as_lastAttemptAt = 0, as_delayedUntil = 4000\<rparr>) 2500 = NotAdmitted 2"
    by (simp add: admitAttempt_def ceil_seconds_def)
  show ?thesis using h retry_after_is_exact [OF h] by simp
qed

section \<open>The store as the service sees it\<close>

definition is_admitted :: "failure + AttemptAdmission \<Rightarrow> bool" where
  "is_admitted r \<longleftrightarrow> (case r of Inr (Admitted _ _) \<Rightarrow> True | _ \<Rightarrow> False)"

definition challenge_admitted :: "failure + ChallengeAdmission \<Rightarrow> bool" where
  "challenge_admitted r \<longleftrightarrow> (case r of Inr (ChallengeAdmitted _) \<Rightarrow> True | _ \<Rightarrow> False)"

text \<open>
  What an attacker can save up: attempt \<open>i\<close> costs \<open>delaySecondsAfter i\<close> seconds instead of the full
  minute, and the savings over any number of attempts stay below nine minutes.
\<close>

definition credit :: "nat \<Rightarrow> int" where
  "credit a = (\<Sum>i = 1..a. 60 - delaySecondsAfter i)"

lemma credit_0 [simp]: "credit 0 = 0"
  by (simp add: credit_def)

lemma credit_Suc: "credit (Suc a) = credit a + (60 - delaySecondsAfter (Suc a))"
  by (simp add: credit_def)

lemma credit_mono: "a \<le> b \<Longrightarrow> credit a \<le> credit b"
proof (induction b)
  case 0
  then show ?case by simp
next
  case (Suc b)
  then show ?case
    using delaySecondsAfter_bounds [of "Suc b"] by (cases "a = Suc b") (auto simp: credit_Suc)
qed

lemma credit_10: "credit 10 = 537"
  by (simp add: eval_nat_numeral credit_Suc delaySecondsAfter_cases)

lemma credit_bounds: "0 \<le> credit a \<and> credit a \<le> 537"
proof -
  have "credit (10 + k) = 537" for k
  proof (induction k)
    case 0
    show ?case by (simp add: credit_10)
  next
    case (Suc k)
    then show ?case using credit_Suc [of "10 + k"] by (simp add: delaySecondsAfter_cases)
  qed
  then have "credit (10 + a) = 537" .
  moreover have "credit a \<le> credit (10 + a)" by (rule credit_mono) simp
  moreover have "credit 0 \<le> credit a" by (rule credit_mono) simp
  ultimately show ?thesis by simp
qed

text \<open>
  The invariant of a history that began at time \<open>t0\<close> and admitted \<open>n\<close> attempts: the minutes the
  \<open>n\<close> attempts should have taken are covered by the time that passed and the credit. The row may
  also be one that was locked and has seen no attempt.
\<close>

definition pace :: "int \<Rightarrow> nat \<Rightarrow> int \<Rightarrow> AttemptState option \<Rightarrow> bool" where
  "pace t0 n now row \<longleftrightarrow> t0 \<le> now \<and>
     (n = 0 \<or>
      (case row of
         None \<Rightarrow> 60000 * int n \<le> now - t0
       | Some st \<Rightarrow> as_lastAttemptAt st \<le> now
           \<and> as_delayedUntil st = as_lastAttemptAt st + delaySecondsAfter (as_attempts st) * 1000
           \<and> 60000 * int n \<le> as_delayedUntil st - t0 + 1000 * credit (as_attempts st)))"

lemma pace_admitted:
  assumes "pace t0 n now row" and "admitAttempt row now = Admitted a d"
  shows "pace t0 (Suc n) now (Some \<lparr>as_attempts = a, as_lastAttemptAt = now, as_delayedUntil = d\<rparr>)"
proof -
  have "1 \<le> a \<and> d = now + delaySecondsAfter a * 1000 \<and> 60000 * int n \<le> now - t0 + 1000 * credit (a - 1)"
  proof (cases row)
    case None
    with assms credit_bounds [of 0] show ?thesis
      by (auto simp: pace_def admitAttempt_def)
  next
    case (Some st)
    with assms(2) have due: "as_delayedUntil st \<le> now"
      and d: "d = now + delaySecondsAfter a * 1000"
      and a: "a = (if now - as_lastAttemptAt st \<ge> 3600000 then 1 else as_attempts st + 1)"
      by (auto simp: admitAttempt_def Let_def attempt_constants split: if_splits)
    show ?thesis
    proof (cases "n = 0")
      case True
      with assms(1) a d credit_bounds [of "a - 1"] show ?thesis
        by (simp add: pace_def)
    next
      case False
      with assms(1) Some
      have until: "as_delayedUntil st = as_lastAttemptAt st + delaySecondsAfter (as_attempts st) * 1000"
        and covered: "60000 * int n \<le> as_delayedUntil st - t0 + 1000 * credit (as_attempts st)"
        by (auto simp: pace_def)
      with due a d credit_bounds [of "as_attempts st"] delaySecondsAfter_bounds [of "as_attempts st"] show ?thesis
        by (simp split: if_splits)
    qed
  qed
  moreover from this have "credit a = credit (a - 1) + (60 - delaySecondsAfter a)"
    using credit_Suc [of "a - 1"] by simp
  ultimately show ?thesis using assms(1) by (simp add: pace_def)
qed

lemma pace_bound: "pace t0 n now row \<Longrightarrow> 60000 * int n \<le> now - t0 + 597000"
proof (cases row)
  case None
  then show "pace t0 n now row \<Longrightarrow> ?thesis" by (auto simp: pace_def)
next
  case (Some st)
  have "1000 * delaySecondsAfter (as_attempts st) + 1000 * credit (as_attempts st) \<le> 597000"
    using credit_bounds [of "as_attempts st"] delaySecondsAfter_bounds [of "as_attempts st"] by simp
  with Some show "pace t0 n now row \<Longrightarrow> ?thesis" by (auto simp: pace_def)
qed

lemma pace_forgotten:
  assumes "pace t0 n now (Some st)" and "as_lastAttemptAt st < now - 3600000"
  shows "pace t0 n now None"
  using assms credit_bounds [of "as_attempts st"] delaySecondsAfter_bounds [of "as_attempts st"]
  by (auto simp: pace_def)

lemma pace_later: "pace t0 n now row \<Longrightarrow> now \<le> later \<Longrightarrow> pace t0 n later row"
  by (auto simp: pace_def split: option.splits)

text \<open>Clearing the row gives the credit back, as if the history had begun ten attempts earlier.\<close>

lemma pace_cleared: "pace t0 n now row \<Longrightarrow> pace (t0 - 597000) n now None"
  by (frule pace_bound) (simp add: pace_def)

lemma pace_locked:
  "pace t0 n now None \<Longrightarrow> pace t0 n now (Some \<lparr>as_attempts = 0, as_lastAttemptAt = now, as_delayedUntil = now\<rparr>)"
  by (simp add: pace_def delaySecondsAfter_cases)

locale attempt_store =
  fixes view :: "string \<Rightarrow> 's \<Rightarrow> AttemptState option"
    and now :: "'s \<Rightarrow> int"
    and invar :: "'s \<Rightarrow> bool"
    and claim :: "string \<Rightarrow> ('s, failure, AttemptAdmission) io"
    and answer :: "string \<Rightarrow> ChallengeAttempt \<Rightarrow> ('s, failure, ChallengeAdmission) io"
    and clear :: "string \<Rightarrow> 's \<Rightarrow> 's"
    and sweep :: "'s \<Rightarrow> 's"
    and wait :: "nat \<Rightarrow> 's \<Rightarrow> 's"
  assumes claim_result: "invar s \<Longrightarrow> fst (claim k s) = Inr (admitAttempt (view k s) (now s))"
    and claim_view: "invar s \<Longrightarrow> view k (snd (claim k s)) =
      (case admitAttempt (view k s) (now s) of
         Admitted a d \<Rightarrow> Some \<lparr>as_attempts = a, as_lastAttemptAt = now s, as_delayedUntil = d\<rparr>
       | NotAdmitted _ \<Rightarrow> view k s)"
    and claim_frame: "invar s \<Longrightarrow> j \<noteq> k \<Longrightarrow> view j (snd (claim k s)) = view j s"
    and claim_now: "now (snd (claim k s)) = now s"
    and claim_invar: "invar s \<Longrightarrow> invar (snd (claim k s))"
    and answer_admitted: "invar s \<Longrightarrow> answer k c s = (r, t) \<Longrightarrow> challenge_admitted r \<Longrightarrow>
      \<exists>a d. admitAttempt (view k s) (now s) = Admitted a d \<and>
        view k t = Some \<lparr>as_attempts = a, as_lastAttemptAt = now s, as_delayedUntil = d\<rparr>"
    and answer_refused: "invar s \<Longrightarrow> answer k c s = (r, t) \<Longrightarrow> \<not> challenge_admitted r \<Longrightarrow>
      view k t = view k s \<or> view k s = None \<and>
        view k t = Some \<lparr>as_attempts = 0, as_lastAttemptAt = now s, as_delayedUntil = now s\<rparr>"
    and answer_frame: "invar s \<Longrightarrow> j \<noteq> k \<Longrightarrow> answer k c s = (r, t) \<Longrightarrow> view j t = view j s"
    and answer_now: "answer k c s = (r, t) \<Longrightarrow> now t = now s"
    and answer_invar: "invar s \<Longrightarrow> answer k c s = (r, t) \<Longrightarrow> invar t"
    and clear_view: "view k (clear k s) = None"
    and clear_frame: "j \<noteq> k \<Longrightarrow> view j (clear k s) = view j s"
    and clear_now: "now (clear k s) = now s"
    and clear_invar: "invar s \<Longrightarrow> invar (clear k s)"
    and sweep_view: "invar s \<Longrightarrow> view k (sweep s) =
      (case view k s of None \<Rightarrow> None
       | Some st \<Rightarrow> if as_lastAttemptAt st < now s - FORGET_AFTER_SECONDS * 1000 \<and> as_delayedUntil st < now s
                    then None else Some st)"
    and sweep_now: "now (sweep s) = now s"
    and sweep_invar: "invar s \<Longrightarrow> invar (sweep s)"
    and wait_view: "view k (wait ms s) = view k s"
    and wait_now: "now (wait ms s) = now s + int ms"
    and wait_invar: "invar s \<Longrightarrow> invar (wait ms s)"
begin

lemma sweep_decides_alike: "invar s \<Longrightarrow> admitAttempt (view k (sweep s)) (now s) = admitAttempt (view k s) (now s)"
  by (auto simp: sweep_view admitAttempt_swept split: option.split)

text \<open>\<open>n\<close> attempts on \<open>key\<close> were admitted in a history whose time counts from \<open>t0\<close>.\<close>

definition paced :: "string \<Rightarrow> int \<Rightarrow> nat \<Rightarrow> 's \<Rightarrow> bool" where
  "paced key t0 n s \<longleftrightarrow> invar s \<and> pace t0 n (now s) (view key s)"

lemma paced_start: "invar s \<Longrightarrow> paced key (now s) 0 s"
  by (simp add: paced_def pace_def)

lemma paced_bound: "paced key t0 n s \<Longrightarrow> 60000 * int n \<le> now s - t0 + 597000"
  by (auto simp: paced_def dest: pace_bound)

lemma paced_claim:
  assumes "paced key t0 n s" and "claim k s = (r, t)"
  shows "paced key t0 (if k = key \<and> is_admitted r then Suc n else n) t"
proof -
  from assms(1) have inv: "invar s" and pc: "pace t0 n (now s) (view key s)"
    by (simp_all add: paced_def)
  have keep: "invar t" "now t = now s"
    using claim_invar [OF inv, of k] claim_now [of k s] assms(2) by simp_all
  show ?thesis
  proof (cases "k = key")
    case False
    then have "view key t = view key s" using claim_frame [OF inv, of key k] assms(2) by simp
    with False keep pc show ?thesis by (simp add: paced_def)
  next
    case True
    have r: "r = Inr (admitAttempt (view key s) (now s))"
      using claim_result [OF inv, of key] assms(2) True by simp
    show ?thesis
    proof (cases "admitAttempt (view key s) (now s)")
      case (Admitted a d)
      with claim_view [OF inv, of key] assms(2) True r pace_admitted [OF pc Admitted] keep show ?thesis
        by (simp add: paced_def is_admitted_def)
    next
      case (NotAdmitted _)
      with claim_view [OF inv, of key] assms(2) True r keep pc show ?thesis
        by (simp add: paced_def is_admitted_def)
    qed
  qed
qed

lemma paced_answer:
  assumes "paced key t0 n s" and "answer k c s = (r, t)"
  shows "paced key t0 (if k = key \<and> challenge_admitted r then Suc n else n) t"
proof -
  from assms(1) have inv: "invar s" and pc: "pace t0 n (now s) (view key s)"
    by (simp_all add: paced_def)
  note keep = answer_invar [OF inv assms(2)] answer_now [OF assms(2)]
  consider (other) "k \<noteq> key" | (admitted) "k = key" "challenge_admitted r"
    | (refused) "k = key" "\<not> challenge_admitted r" by blast
  then show ?thesis
  proof cases
    case other
    with answer_frame [OF inv _ assms(2), of key] keep pc show ?thesis by (simp add: paced_def)
  next
    case admitted
    with answer_admitted [OF inv assms(2)] keep pc show ?thesis
      by (auto simp: paced_def intro: pace_admitted)
  next
    case refused
    with answer_refused [OF inv assms(2)] keep pc show ?thesis
      by (auto simp: paced_def intro: pace_locked)
  qed
qed

lemma paced_clear:
  "paced key t0 n s \<Longrightarrow> paced key (if k = key then t0 - 597000 else t0) n (clear k s)"
  by (auto simp: paced_def clear_view clear_frame clear_now clear_invar intro: pace_cleared)

lemma paced_sweep: "paced key t0 n s \<Longrightarrow> paced key t0 n (sweep s)"
  by (auto simp: paced_def sweep_view sweep_now sweep_invar attempt_constants
      split: option.split intro: pace_forgotten)

lemma paced_wait: "paced key t0 n s \<Longrightarrow> paced key t0 n (wait ms s)"
  by (auto simp: paced_def wait_view wait_now wait_invar intro: pace_later)

end

section \<open>The store satisfies the contract\<close>

definition pass_time :: "nat \<Rightarrow> world \<Rightarrow> world" where
  "pass_time ms w = w\<lparr>clock := clock w + int ms\<rparr>"

definition attempts_keyed :: "world \<Rightarrow> bool" where
  "attempts_keyed w \<longleftrightarrow> distinct (map aa_accountKey (account_sign_in_attempts w))"

definition attempt_state :: "string \<Rightarrow> world \<Rightarrow> AttemptState option" where
  "attempt_state key w = map_option stateOf (account_row key w)"

lemma find_aa_update:
  "find (\<lambda>x. aa_accountKey x = j)
     (update_where P (\<lambda>r. r\<lparr>as_attempts := a, as_lastAttemptAt := l, as_delayedUntil := d\<rparr>) rows) =
   map_option (\<lambda>r. if P r then r\<lparr>as_attempts := a, as_lastAttemptAt := l, as_delayedUntil := d\<rparr> else r)
     (find (\<lambda>x. aa_accountKey x = j) rows)"
  by (rule find_update_where_key) simp

lemma distinct_aa_update:
  "distinct (map aa_accountKey rows) \<Longrightarrow>
   distinct (map aa_accountKey
     (update_where P (\<lambda>r. r\<lparr>as_attempts := a, as_lastAttemptAt := l, as_delayedUntil := d\<rparr>) rows))"
  by (subst map_update_where_key) simp_all

text \<open>What locking a row gives: the row there was, or a new one that has seen no attempt.\<close>

definition locked :: "string \<Rightarrow> world \<Rightarrow> world" where
  "locked key w = (if account_row key w \<noteq> None then w
     else w\<lparr>account_sign_in_attempts := account_sign_in_attempts w @
            [\<lparr>as_attempts = 0, as_lastAttemptAt = clock w, as_delayedUntil = clock w, aa_accountKey = key\<rparr>]\<rparr>)"

lemma locked_row:
  obtains r where "account_row key (locked key w) = Some r" and "aa_accountKey r = key"
    and "attempt_state key w = Some (stateOf r) \<and> locked key w = w \<or>
      attempt_state key w = None \<and>
        stateOf r = \<lparr>as_attempts = 0, as_lastAttemptAt = clock w, as_delayedUntil = clock w\<rparr>"
proof (cases "account_row key w")
  case None
  then show ?thesis
    by (intro that) (auto simp: locked_def account_row_def attempt_state_def find_append stateOf_def
        AttemptState.truncate_def)
next
  case (Some r)
  then show ?thesis
    by (intro that [of r]) (auto simp: locked_def attempt_state_def account_row_def dest: find_Some_mem)
qed

lemma locked_frame: "j \<noteq> key \<Longrightarrow> account_row j (locked key w) = account_row j w"
  by (auto simp: locked_def account_row_def find_append split: option.splits)

lemma locked_clock [simp]: "clock (locked key w) = clock w"
  by (simp add: locked_def)

lemma locked_keyed: "attempts_keyed w \<Longrightarrow> attempts_keyed (locked key w)"
  by (auto simp: locked_def attempts_keyed_def account_row_def find_None_iff image_iff)

lemma lockAccount_run:
  "account_row key (locked key w) = Some r \<Longrightarrow> lockAccount key w = (Inr (r, clock w), locked key w)"
  by (cases "account_row key w") (auto simp: lockAccount_def andThen_run locked_def)

lemma admit_locked:
  assumes "attempt_state key w = Some (stateOf r) \<and> locked key w = w \<or>
      attempt_state key w = None \<and>
        stateOf r = \<lparr>as_attempts = 0, as_lastAttemptAt = clock w, as_delayedUntil = clock w\<rparr>"
  shows "admitAttempt (Some (stateOf r)) (clock w) = admitAttempt (attempt_state key w) (clock w)"
  using assms by (auto simp: admitAttempt_fresh_row)

lemma claimAccountAttempt_run:
  obtains r where "account_row key (locked key w) = Some r" and "aa_accountKey r = key"
    and "claimAccountAttempt key admitAttempt w =
      (case admitAttempt (attempt_state key w) (clock w) of
         NotAdmitted retry \<Rightarrow> (Inr (NotAdmitted retry), w)
       | Admitted a d \<Rightarrow> (Inr (Admitted a d), (locked key w)\<lparr>account_sign_in_attempts :=
           update_where (\<lambda>r. aa_accountKey r = key)
             (\<lambda>r. r\<lparr>as_attempts := a, as_lastAttemptAt := clock w, as_delayedUntil := d\<rparr>)
             (account_sign_in_attempts (locked key w))\<rparr>))"
proof -
  obtain r where row: "account_row key (locked key w) = Some r" "aa_accountKey r = key"
    and was: "attempt_state key w = Some (stateOf r) \<and> locked key w = w \<or>
      attempt_state key w = None \<and>
        stateOf r = \<lparr>as_attempts = 0, as_lastAttemptAt = clock w, as_delayedUntil = clock w\<rparr>"
    by (rule locked_row)
  have "locked key w = w" if "admitAttempt (attempt_state key w) (clock w) = NotAdmitted retry" for retry
    using that was by (auto simp: admitAttempt_None)
  with row was show ?thesis
    by (intro that [OF row]) (auto simp: claimAccountAttempt_def atomically_run andThen_run lockAccount_run
        recordAccountAttempt_def admit_locked split: AttemptAdmission.splits)
qed

lemma claimChallengeAttempt_accounts:
  assumes "claimChallengeAttempt key admitAttempt c w = (r, t)"
  shows "clock t = clock w \<and>
    (if challenge_admitted r
     then \<exists>a d. admitAttempt (attempt_state key w) (clock w) = Admitted a d \<and>
            account_sign_in_attempts t = update_where (\<lambda>r. aa_accountKey r = key)
              (\<lambda>r. r\<lparr>as_attempts := a, as_lastAttemptAt := clock w, as_delayedUntil := d\<rparr>)
              (account_sign_in_attempts (locked key w))
     else account_sign_in_attempts t = account_sign_in_attempts (locked key w))"
proof -
  obtain row where row: "account_row key (locked key w) = Some row"
    and was: "attempt_state key w = Some (stateOf row) \<and> locked key w = w \<or>
      attempt_state key w = None \<and>
        stateOf row = \<lparr>as_attempts = 0, as_lastAttemptAt = clock w, as_delayedUntil = clock w\<rparr>"
    by (rule locked_row)
  show ?thesis
    using assms unfolding claimChallengeAttempt_def admit_locked [OF was, symmetric]
    by (auto simp: atomically_run andThen_run lockAccount_run [OF row] claim_challenge_row_def
        recordAccountAttempt_def challenge_admitted_def
        split: if_splits option.splits AttemptAdmission.splits)
qed

lemma attempt_state_table:
  "account_sign_in_attempts t = account_sign_in_attempts w \<Longrightarrow> attempt_state k t = attempt_state k w"
  by (simp add: attempt_state_def account_row_def)

lemma attempt_state_locked:
  "attempt_state k (locked k w) = attempt_state k w \<or> attempt_state k w = None \<and>
     attempt_state k (locked k w) = Some \<lparr>as_attempts = 0, as_lastAttemptAt = clock w, as_delayedUntil = clock w\<rparr>"
  by (rule locked_row [of k w]) (auto simp: attempt_state_def)

lemma find_deleted: "find P (delete_where P rows) = None"
  by (auto simp: find_None_iff)

interpretation store: attempt_store attempt_state clock attempts_keyed
  "\<lambda>k. claimAccountAttempt k admitAttempt" "\<lambda>k. claimChallengeAttempt k admitAttempt"
  "\<lambda>k w. snd (clearAccountAttempts k w)" "\<lambda>w. snd (attempts_sweep FORGET_AFTER_SECONDS w)" pass_time
proof
  fix s k
  show "attempts_keyed s \<Longrightarrow> fst (claimAccountAttempt k admitAttempt s) = Inr (admitAttempt (attempt_state k s) (clock s))"
    by (rule claimAccountAttempt_run [of k s]) (auto split: AttemptAdmission.splits)
  show "clock (snd (claimAccountAttempt k admitAttempt s)) = clock s"
    by (rule claimAccountAttempt_run [of k s]) (auto split: AttemptAdmission.splits)
  show "attempts_keyed s \<Longrightarrow> attempts_keyed (snd (claimAccountAttempt k admitAttempt s))"
    by (rule claimAccountAttempt_run [of k s])
      (use locked_keyed [of s k] in \<open>auto simp: attempts_keyed_def distinct_aa_update split: AttemptAdmission.splits\<close>)
  show "attempts_keyed s \<Longrightarrow> attempt_state k (snd (claimAccountAttempt k admitAttempt s)) =
      (case admitAttempt (attempt_state k s) (clock s) of
         Admitted a d \<Rightarrow> Some \<lparr>as_attempts = a, as_lastAttemptAt = clock s, as_delayedUntil = d\<rparr>
       | NotAdmitted _ \<Rightarrow> attempt_state k s)"
    by (rule claimAccountAttempt_run [of k s])
      (auto simp: attempt_state_def account_row_def find_aa_update stateOf_def AttemptState.truncate_def
        split: AttemptAdmission.splits)
next
  fix s :: world and j k :: string
  assume "attempts_keyed s" and "j \<noteq> k"
  show "attempt_state j (snd (claimAccountAttempt k admitAttempt s)) = attempt_state j s"
    by (rule claimAccountAttempt_run [of k s])
      (use \<open>j \<noteq> k\<close> locked_frame [of j k s] in
        \<open>simp add: attempt_state_def account_row_def find_update_where_other split: AttemptAdmission.splits\<close>)
next
  fix s t k r c
  assume keyed: "attempts_keyed s" and run: "claimChallengeAttempt k admitAttempt c s = (r, t)"
  note table = claimChallengeAttempt_accounts [OF run]
  show "\<exists>a d. admitAttempt (attempt_state k s) (clock s) = Admitted a d \<and>
      attempt_state k t = Some \<lparr>as_attempts = a, as_lastAttemptAt = clock s, as_delayedUntil = d\<rparr>"
    if "challenge_admitted r"
  proof -
    obtain row where "account_row k (locked k s) = Some row" and "aa_accountKey row = k"
      by (rule locked_row [of k s])
    with table that show ?thesis
      by (auto simp: attempt_state_def account_row_def find_aa_update stateOf_def AttemptState.truncate_def)
  qed
  show "attempt_state k t = attempt_state k s \<or> attempt_state k s = None \<and>
      attempt_state k t = Some \<lparr>as_attempts = 0, as_lastAttemptAt = clock s, as_delayedUntil = clock s\<rparr>"
    if "\<not> challenge_admitted r"
    using table that attempt_state_locked [of k s] attempt_state_table [of t "locked k s" k] by simp
  show "attempts_keyed t"
    using table locked_keyed [OF keyed, of k]
    by (auto simp: attempts_keyed_def distinct_aa_update split: if_splits)
  show "attempt_state j t = attempt_state j s" if "j \<noteq> k" for j
    using table locked_frame [OF that, of s] that
    by (auto simp: attempt_state_def account_row_def find_update_where_other split: if_splits)
next
  fix s t k r c
  assume "claimChallengeAttempt k admitAttempt c s = (r, t)"
  from claimChallengeAttempt_accounts [OF this] show "clock t = clock s" by simp
next
  fix s :: world and k :: string
  assume "attempts_keyed s"
  then show "attempt_state k (snd (attempts_sweep FORGET_AFTER_SECONDS s)) =
      (case attempt_state k s of None \<Rightarrow> None
       | Some st \<Rightarrow> if as_lastAttemptAt st < clock s - FORGET_AFTER_SECONDS * 1000 \<and> as_delayedUntil st < clock s
                    then None else Some st)"
    by (auto simp: attempts_keyed_def attempt_state_def account_row_def attempts_sweep_def Let_def
        find_delete_where_keyed stateOf_def AttemptState.truncate_def split: option.splits)
qed (simp_all add: attempt_state_def account_row_def clearAccountAttempts_def attempts_keyed_def
      find_delete_where_key find_deleted distinct_delete_where attempts_sweep_def Let_def pass_time_def)

section \<open>Histories of the service's calls\<close>

text \<open>
  What the rest of the service does with sign-in attempts, in any order: a password is tried
  (\<^verbatim>\<open>admit\<close>), a challenge is answered with a code or a passkey (\<^verbatim>\<open>admitChallengeAttempt\<close>, reached
  only while the challenge token has not expired: every caller verifies it first), a sign-in
  completes (\<^verbatim>\<open>succeeded\<close>), old rows are swept, time passes. A run keeps, for every call, whether
  it was admitted.
\<close>

datatype sign_in_op =
    PasswordAttempt string
  | ChallengeAnswer string Claims
  | SignInCompleted string
  | AttemptsSwept
  | Waited nat

fun sign_in_step :: "'tok Env \<Rightarrow> sign_in_op \<Rightarrow> world \<Rightarrow> bool \<times> world" where
  "sign_in_step env (PasswordAttempt email) w =
     (case admit env email w of (r, t) \<Rightarrow> (case r of Inr _ \<Rightarrow> True | Inl _ \<Rightarrow> False, t))"
| "sign_in_step env (ChallengeAnswer email claims) w =
     (if clock w < cl_exp claims * 1000
      then (case admitChallengeAttempt env email claims w of
              (r, t) \<Rightarrow> (case r of Inr (Some _) \<Rightarrow> True | _ \<Rightarrow> False, t))
      else (False, w))"
| "sign_in_step env (SignInCompleted email) w = (False, snd (succeeded env email w))"
| "sign_in_step env AttemptsSwept w = (False, snd (sign_in_sweep w))"
| "sign_in_step env (Waited ms) w = (False, pass_time ms w)"

fun sign_in_run :: "'tok Env \<Rightarrow> sign_in_op list \<Rightarrow> world \<Rightarrow> (sign_in_op \<times> bool) list \<times> world" where
  "sign_in_run env [] w = ([], w)"
| "sign_in_run env (op # ops) w =
     (let (admitted, v) = sign_in_step env op w; (trace, t) = sign_in_run env ops v
      in ((op, admitted) # trace, t))"

text \<open>The calls that try to sign in to an account, those that complete it, and those that answer a challenge.\<close>

fun tries :: "'tok Env \<Rightarrow> string \<Rightarrow> sign_in_op \<Rightarrow> bool" where
  "tries env key (PasswordAttempt email) \<longleftrightarrow> accountKeyOf env email = key"
| "tries env key (ChallengeAnswer email _) \<longleftrightarrow> accountKeyOf env email = key"
| "tries env key _ \<longleftrightarrow> False"

fun completes :: "'tok Env \<Rightarrow> string \<Rightarrow> sign_in_op \<Rightarrow> bool" where
  "completes env key (SignInCompleted email) \<longleftrightarrow> accountKeyOf env email = key"
| "completes env key _ \<longleftrightarrow> False"

fun answers :: "string \<Rightarrow> sign_in_op \<Rightarrow> bool" where
  "answers jti (ChallengeAnswer _ claims) \<longleftrightarrow> cl_jti claims = jti"
| "answers jti _ \<longleftrightarrow> False"

definition admitted_count :: "(sign_in_op \<Rightarrow> bool) \<Rightarrow> (sign_in_op \<times> bool) list \<Rightarrow> nat" where
  "admitted_count P trace = length (filter (\<lambda>(op, admitted). admitted \<and> P op) trace)"

lemma admitted_count_simps [simp]:
  "admitted_count P [] = 0"
  "admitted_count P ((op, b) # trace) = (if b \<and> P op then 1 else 0) + admitted_count P trace"
  by (simp_all add: admitted_count_def)

text \<open>The service's calls are the store's, with the answer turned into a value or an error.\<close>

lemma admit_step:
  "sign_in_step env (PasswordAttempt email) w = (b, t) \<longleftrightarrow>
   (\<exists>r. claimAccountAttempt (accountKeyOf env email) admitAttempt w = (r, t) \<and> b = is_admitted r)"
  by (cases "claimAccountAttempt (accountKeyOf env email) admitAttempt w")
    (auto simp: admit_def andThen_run is_admitted_def split: sum.splits AttemptAdmission.splits)

lemma answer_step:
  "clock w < cl_exp c * 1000 \<Longrightarrow>
   sign_in_step env (ChallengeAnswer email c) w = (b, t) \<longleftrightarrow>
   (\<exists>r. claimChallengeAttempt (accountKeyOf env email) admitAttempt
          \<lparr>ch_jti = cl_jti c, ch_expiresAt = cl_exp c * 1000, ch_limit = ATTEMPTS_PER_CHALLENGE\<rparr> w = (r, t)
        \<and> b = challenge_admitted r)"
  by (cases "claimChallengeAttempt (accountKeyOf env email) admitAttempt
        \<lparr>ch_jti = cl_jti c, ch_expiresAt = cl_exp c * 1000, ch_limit = ATTEMPTS_PER_CHALLENGE\<rparr> w")
    (auto simp: admitChallengeAttempt_def andThen_run challenge_admitted_def
      split: sum.splits ChallengeAdmission.splits)

section \<open>The pace of attempts on an account\<close>

lemma paced_sign_in_step:
  assumes "store.paced key t0 n w" and "sign_in_step env op w = (b, t)"
  shows "store.paced key (t0 - (if completes env key op then 597000 else 0))
           (n + (if b \<and> tries env key op then 1 else 0)) t"
proof (cases op)
  case (PasswordAttempt email)
  with assms(2) obtain r where "claimAccountAttempt (accountKeyOf env email) admitAttempt w = (r, t)"
    and "b = is_admitted r" unfolding PasswordAttempt admit_step by auto
  from store.paced_claim [OF assms(1) this(1)] this(2) PasswordAttempt show ?thesis
    by (auto split: if_splits)
next
  case (ChallengeAnswer email c)
  show ?thesis
  proof (cases "clock w < cl_exp c * 1000")
    case True
    with assms(2) ChallengeAnswer obtain r where
      "claimChallengeAttempt (accountKeyOf env email) admitAttempt
         \<lparr>ch_jti = cl_jti c, ch_expiresAt = cl_exp c * 1000, ch_limit = ATTEMPTS_PER_CHALLENGE\<rparr> w = (r, t)"
      and "b = challenge_admitted r" unfolding ChallengeAnswer answer_step [OF True] by auto
    from store.paced_answer [OF assms(1) this(1)] this(2) ChallengeAnswer show ?thesis
      by (auto split: if_splits)
  next
    case False
    with assms ChallengeAnswer show ?thesis by simp
  qed
next
  case (SignInCompleted email)
  with assms store.paced_clear [OF assms(1), of "accountKeyOf env email"] show ?thesis
    by (auto simp: succeeded_def split: if_splits)
next
  case AttemptsSwept
  with assms store.paced_sweep [OF assms(1)] show ?thesis
    by (auto simp: sign_in_sweep_def)
next
  case (Waited ms)
  with assms store.paced_wait [OF assms(1)] show ?thesis by auto
qed

lemma paced_sign_in_run:
  "store.paced key t0 n w \<Longrightarrow> sign_in_run env ops w = (trace, t) \<Longrightarrow>
   store.paced key (t0 - 597000 * int (length (filter (completes env key) ops)))
     (n + admitted_count (tries env key) trace) t"
proof (induction ops arbitrary: t0 n w trace)
  case Nil
  then show ?case by simp
next
  case (Cons op ops)
  obtain b v where step: "sign_in_step env op w = (b, v)" by (cases "sign_in_step env op w")
  obtain rest u where run: "sign_in_run env ops v = (rest, u)" by (cases "sign_in_run env ops v")
  from step run Cons.prems(2) have "trace = (op, b) # rest" and "t = u" by simp_all
  with Cons.IH [OF paced_sign_in_step [OF Cons.prems(1) step]] run show ?case
    by (cases "b \<and> tries env key op"; cases "completes env key op") (auto simp: algebra_simps)
qed

text \<open>
  C18. Guessing is slow. In any run of the service's calls (passwords tried and challenges answered
  on this account and on others, sign-ins completed, sweeps, waiting) and whatever the table held
  before, the passwords and challenge answers admitted on one account are at most one a minute
  plus nine, and nine to ten more for every time the account is signed in to in between, which
  clears its row: with \<open>c\<close> completed sign-ins within \<open>T\<close> milliseconds at most
  \<open>(T + 597000 * (1 + c)) div 60000\<close>, also across the hour after which attempts are forgotten.
\<close>

theorem sign_in_rate_bound:
  assumes "attempts_keyed w" and "sign_in_run env ops w = (trace, t)"
  shows "int (admitted_count (tries env key) trace)
    \<le> (clock t - clock w + 597000 * (1 + int (length (filter (completes env key) ops)))) div 60000"
proof -
  have "store.paced key (clock w - 597000 * int (length (filter (completes env key) ops)))
      (0 + admitted_count (tries env key) trace) t"
    by (rule paced_sign_in_run [OF store.paced_start [OF assms(1)] assms(2)])
  from store.paced_bound [OF this]
  have "60000 * int (admitted_count (tries env key) trace)
      \<le> clock t - clock w + 597000 * (1 + int (length (filter (completes env key) ops)))"
    by (simp add: algebra_simps)
  then have "60000 * int (admitted_count (tries env key) trace) div 60000
      \<le> (clock t - clock w + 597000 * (1 + int (length (filter (completes env key) ops)))) div 60000"
    by (rule zdiv_mono1) simp
  then show ?thesis by simp
qed

definition sample_answer :: Claims where
  "sample_answer = \<lparr>cl_sub = ''p'', cl_jti = ''j'', cl_iss = ''identity'', cl_aud = ''kinetix'', cl_iat = 0, cl_exp = 300,
     cl_token_use = ''mfa_challenge'', cl_fam = None, cl_azp = None, cl_uid = 1, cl_email = None, cl_role = None\<rparr>"

definition sample_tries :: "sign_in_op list" where
  "sample_tries = [PasswordAttempt ''a@b.c'', ChallengeAnswer ''A@b.c '' sample_answer, Waited 500,
     SignInCompleted ''a@b.c'', AttemptsSwept, PasswordAttempt ''a@b.c'']"

theorem sign_in_rate_bound_witness:
  "int (admitted_count (tries sample_env ''a@b.c'') (fst (sign_in_run sample_env sample_tries empty_world)))
     \<le> (clock (snd (sign_in_run sample_env sample_tries empty_world)) - 0 + 597000 * (1 + 1)) div 60000"
proof -
  have "length (filter (completes sample_env ''a@b.c'') sample_tries) = 1"
    by code_simp
  then show ?thesis
    using sign_in_rate_bound [of empty_world sample_env sample_tries _ _ "''a@b.c''"]
    by (cases "sign_in_run sample_env sample_tries empty_world") (simp add: attempts_keyed_def empty_world_def)
qed

text \<open>
  Sweeping old attempts changes no decision: an attempt made right after a sweep is answered
  as it would have been without it, and leaves the account in the same state.
\<close>

theorem sweep_changes_no_decision:
  assumes "attempts_keyed w"
  defines "swept \<equiv> snd (attempts_sweep FORGET_AFTER_SECONDS w)"
  shows "fst (claimAccountAttempt key admitAttempt swept) = fst (claimAccountAttempt key admitAttempt w)
    \<and> attempt_state key (snd (claimAccountAttempt key admitAttempt swept)) =
      attempt_state key (snd (claimAccountAttempt key admitAttempt w))"
proof -
  have keyed: "attempts_keyed swept" and same: "clock swept = clock w"
    using store.sweep_invar [OF assms(1)] store.sweep_now by (simp_all add: swept_def)
  have alike: "admitAttempt (attempt_state key swept) (clock swept) = admitAttempt (attempt_state key w) (clock w)"
    using store.sweep_decides_alike [OF assms(1)] same by (simp add: swept_def)
  have "attempt_state key swept = attempt_state key w"
    if "admitAttempt (attempt_state key w) (clock w) = NotAdmitted r" for r
    using that store.sweep_view [OF assms(1), of key]
    by (auto simp: swept_def admitAttempt_def Let_def split: option.splits if_splits)
  then show ?thesis
    using store.claim_result [OF keyed] store.claim_result [OF assms(1)]
      store.claim_view [OF keyed] store.claim_view [OF assms(1)] alike same
    by (simp split: AttemptAdmission.split)
qed

theorem sweep_changes_no_decision_witness:
  "fst (claimAccountAttempt ''k'' admitAttempt (snd (attempts_sweep FORGET_AFTER_SECONDS empty_world))) =
   fst (claimAccountAttempt ''k'' admitAttempt empty_world)"
  using sweep_changes_no_decision [of empty_world "''k''"]
  by (simp add: attempts_keyed_def empty_world_def)

section \<open>Attempts on a challenge\<close>

definition challenges_keyed :: "world \<Rightarrow> bool" where
  "challenges_keyed w \<longleftrightarrow> distinct (map ca_jti (two_factor_challenge_attempts w))"

definition used_attempts :: "string \<Rightarrow> world \<Rightarrow> nat" where
  "used_attempts jti w = (case challenge_row jti w of None \<Rightarrow> 0 | Some r \<Rightarrow> ca_attempts r)"

lemma recordAccountAttempt_tables [simp]:
  "two_factor_challenge_attempts (snd (recordAccountAttempt k a d n w)) = two_factor_challenge_attempts w"
  "clock (snd (recordAccountAttempt k a d n w)) = clock w"
  by (simp_all add: recordAccountAttempt_def)

lemma locked_challenges [simp]: "two_factor_challenge_attempts (locked key w) = two_factor_challenge_attempts w"
  by (simp add: locked_def)

lemma challenge_row_locked [simp]: "challenge_row jti (locked key w) = challenge_row jti w"
  by (simp add: challenge_row_def)

lemma claimChallengeAttempt_table:
  assumes "claimChallengeAttempt key admitAttempt c w = (r, t)"
  shows "clock t = clock w \<and>
    (if challenge_admitted r
     then used_attempts (ch_jti c) w < ch_limit c \<and>
          two_factor_challenge_attempts t = two_factor_challenge_attempts (snd (claim_challenge_row c w))
     else two_factor_challenge_attempts t = two_factor_challenge_attempts w)"
proof -
  obtain row where row: "account_row key (locked key w) = Some row"
    by (rule locked_row)
  show ?thesis
    using assms unfolding claimChallengeAttempt_def used_attempts_def
    by (auto simp: atomically_run andThen_run lockAccount_run [OF row] claim_challenge_row_def
        recordAccountAttempt_def challenge_admitted_def
        split: if_splits option.splits AttemptAdmission.splits)
qed

lemma claim_challenge_row_keyed:
  "challenges_keyed w \<Longrightarrow> challenges_keyed (snd (claim_challenge_row c w))"
  by (auto simp: claim_challenge_row_def challenges_keyed_def challenge_row_def find_None_iff image_iff
      map_update_where_key split: option.split)

lemma claim_challenge_row_view:
  "used_attempts (ch_jti c) w < ch_limit c \<Longrightarrow>
   challenge_row jti (snd (claim_challenge_row c w)) =
     (if jti = ch_jti c
      then Some \<lparr>ca_jti = jti, ca_attempts = Suc (used_attempts jti w),
        ca_expiresAt = (case challenge_row jti w of None \<Rightarrow> ch_expiresAt c | Some r \<Rightarrow> ca_expiresAt r)\<rparr>
      else challenge_row jti w)"
proof (cases "challenge_row (ch_jti c) w")
  case None
  assume "used_attempts (ch_jti c) w < ch_limit c"
  with None show ?thesis
    by (simp add: claim_challenge_row_def challenge_row_def used_attempts_def find_append split: option.split)
next
  case (Some r)
  assume "used_attempts (ch_jti c) w < ch_limit c"
  moreover from Some have "ca_jti r = ch_jti c"
    by (auto simp: challenge_row_def dest: find_Some_mem)
  ultimately show ?thesis
    using Some by (cases "jti = ch_jti c")
      (simp_all add: claim_challenge_row_def challenge_row_def used_attempts_def find_update_where_other
        find_update_where_key)
qed

definition answers_inv :: "ChallengeAttempt \<Rightarrow> nat \<times> world \<Rightarrow> bool" where
  "answers_inv c p \<longleftrightarrow> challenges_keyed (snd p) \<and> fst p \<le> ch_limit c \<and>
     (clock (snd p) \<le> ch_expiresAt c \<longrightarrow>
        used_attempts (ch_jti c) (snd p) = fst p \<and>
        pred_option (\<lambda>r. ca_expiresAt r = ch_expiresAt c) (challenge_row (ch_jti c) (snd p)))"

lemma challenge_table_cong:
  "two_factor_challenge_attempts t = two_factor_challenge_attempts w \<Longrightarrow>
   challenges_keyed t = challenges_keyed w \<and> challenge_row j t = challenge_row j w \<and> used_attempts j t = used_attempts j w"
  by (simp add: challenges_keyed_def challenge_row_def used_attempts_def)

lemma answers_inv_claim:
  assumes "answers_inv c (n, w)" and "claimChallengeAttempt key admitAttempt d w = (r, t)"
    and "clock w < ch_expiresAt d" and "ch_jti d = ch_jti c \<Longrightarrow> d = c"
  shows "answers_inv c (if ch_jti d = ch_jti c \<and> challenge_admitted r then Suc n else n, t)"
proof (cases "challenge_admitted r")
  case False
  with claimChallengeAttempt_table [OF assms(2)] have "two_factor_challenge_attempts t = two_factor_challenge_attempts w"
    and "clock t = clock w" by simp_all
  from this(2) challenge_table_cong [OF this(1)] False assms(1) show ?thesis
    by (simp add: answers_inv_def)
next
  case True
  let ?u = "snd (claim_challenge_row d w)"
  from True claimChallengeAttempt_table [OF assms(2)] have room: "used_attempts (ch_jti d) w < ch_limit d"
    and table: "two_factor_challenge_attempts t = two_factor_challenge_attempts ?u" and "clock t = clock w"
    by simp_all
  then have "challenges_keyed t" and row: "challenge_row (ch_jti c) t = challenge_row (ch_jti c) ?u"
    using assms(1) claim_challenge_row_keyed [of w d] challenge_table_cong [OF table]
    by (simp_all add: answers_inv_def)
  note view = claim_challenge_row_view [OF room, of "ch_jti c"]
  show ?thesis
  proof (cases "ch_jti d = ch_jti c")
    case True
    with assms(4) have "d = c" by simp
    with \<open>challenge_admitted r\<close> assms(1,3) room row view \<open>challenges_keyed t\<close> \<open>clock t = clock w\<close> show ?thesis
      by (cases "challenge_row (ch_jti c) w") (simp_all add: answers_inv_def used_attempts_def)
  next
    case False
    with assms(1) row view \<open>challenges_keyed t\<close> \<open>clock t = clock w\<close> show ?thesis
      by (simp add: answers_inv_def used_attempts_def)
  qed
qed

lemma answers_inv_sweep:
  "answers_inv c (n, w) \<Longrightarrow> answers_inv c (n, snd (attempts_sweep s w))"
  by (auto simp: answers_inv_def challenges_keyed_def used_attempts_def challenge_row_def attempts_sweep_def
      Let_def distinct_delete_where find_delete_where_keyed split: option.splits)

lemma answers_inv_accounts:
  "answers_inv c (n, w) \<Longrightarrow> clock w \<le> clock t \<Longrightarrow>
   two_factor_challenge_attempts t = two_factor_challenge_attempts w \<Longrightarrow> answers_inv c (n, t)"
  by (frule challenge_table_cong [of t w "ch_jti c"]) (auto simp: answers_inv_def)

lemma claimAccountAttempt_challenges:
  "claimAccountAttempt key admitAttempt w = (r, t) \<Longrightarrow>
   two_factor_challenge_attempts t = two_factor_challenge_attempts w \<and> clock t = clock w"
  by (rule claimAccountAttempt_run [of key w]) (auto split: AttemptAdmission.splits)

lemma answers_inv_sign_in_step:
  fixes jti e
  defines "c \<equiv> \<lparr>ch_jti = jti, ch_expiresAt = e * 1000, ch_limit = ATTEMPTS_PER_CHALLENGE\<rparr>"
  assumes "answers_inv c (n, w)" and "sign_in_step env op w = (b, t)"
    and "\<And>email d. op = ChallengeAnswer email d \<Longrightarrow> cl_jti d = jti \<Longrightarrow> cl_exp d = e"
  shows "answers_inv c (n + (if b \<and> answers jti op then 1 else 0), t)"
proof (cases op)
  case (PasswordAttempt email)
  with assms(3) obtain r where "claimAccountAttempt (accountKeyOf env email) admitAttempt w = (r, t)"
    unfolding PasswordAttempt admit_step by auto
  from claimAccountAttempt_challenges [OF this] answers_inv_accounts [OF assms(2)] PasswordAttempt
  show ?thesis by simp
next
  case (ChallengeAnswer email d)
  show ?thesis
  proof (cases "clock w < cl_exp d * 1000")
    case True
    let ?d = "\<lparr>ch_jti = cl_jti d, ch_expiresAt = cl_exp d * 1000, ch_limit = ATTEMPTS_PER_CHALLENGE\<rparr>"
    from True assms(3) ChallengeAnswer obtain r where
      run: "claimChallengeAttempt (accountKeyOf env email) admitAttempt ?d w = (r, t)"
      and b: "b = challenge_admitted r" unfolding ChallengeAnswer answer_step [OF True] by auto
    have "ch_jti ?d = ch_jti c \<Longrightarrow> ?d = c"
      using assms(4) [OF ChallengeAnswer] by (simp add: c_def)
    from answers_inv_claim [OF assms(2) run _ this] True b ChallengeAnswer show ?thesis
      by (auto simp: c_def split: if_splits)
  next
    case False
    with assms(2,3) ChallengeAnswer show ?thesis by simp
  qed
next
  case (SignInCompleted email)
  with assms(3) answers_inv_accounts [OF assms(2)] show ?thesis
    by (auto simp: succeeded_def clearAccountAttempts_def)
next
  case AttemptsSwept
  with assms(2,3) answers_inv_sweep show ?thesis by (auto simp: sign_in_sweep_def)
next
  case (Waited ms)
  with assms(3) answers_inv_accounts [OF assms(2)] show ?thesis by (auto simp: pass_time_def)
qed

lemma answers_inv_run:
  fixes jti e
  defines "c \<equiv> \<lparr>ch_jti = jti, ch_expiresAt = e * 1000, ch_limit = ATTEMPTS_PER_CHALLENGE\<rparr>"
  assumes "answers_inv c (n, w)" and "sign_in_run env ops w = (trace, t)"
    and "\<And>email d. ChallengeAnswer email d \<in> set ops \<Longrightarrow> cl_jti d = jti \<Longrightarrow> cl_exp d = e"
  shows "answers_inv c (n + admitted_count (answers jti) trace, t)"
  using assms(2-)
proof (induction ops arbitrary: n w trace)
  case Nil
  then show ?case by simp
next
  case (Cons op ops)
  obtain b v where step: "sign_in_step env op w = (b, v)" by (cases "sign_in_step env op w")
  obtain rest u where run: "sign_in_run env ops v = (rest, u)" by (cases "sign_in_run env ops v")
  from step run Cons.prems(2) have shape: "trace = (op, b) # rest" "t = u" by simp_all
  have "answers_inv c (n + (if b \<and> answers jti op then 1 else 0), v)"
    unfolding c_def using Cons.prems(1) [unfolded c_def] step
    by (rule answers_inv_sign_in_step) (use Cons.prems(3) in auto)
  moreover have "\<And>email d. ChallengeAnswer email d \<in> set ops \<Longrightarrow> cl_jti d = jti \<Longrightarrow> cl_exp d = e"
    using Cons.prems(3) by fastforce
  ultimately have "answers_inv c (n + (if b \<and> answers jti op then 1 else 0) + admitted_count (answers jti) rest, t)"
    using run shape(2) by (intro Cons.IH) simp_all
  with shape(1) show ?case by (simp add: add.assoc split: if_splits)
qed

text \<open>
  C6. A challenge admits at most five answers. In any run of the service's calls, over any
  accounts, the answers to the challenge token with identifier \<open>jti\<close> that are admitted are at most
  five: the sweep removes the count only once the challenge has expired, and an expired challenge
  is not answered. The challenge is new (nothing was counted for it yet), and the answers that
  name it carry the token's one expiry.
\<close>

theorem challenge_attempts_bounded:
  assumes "challenges_keyed w" and "challenge_row jti w = None"
    and "\<forall>email c. ChallengeAnswer email c \<in> set ops \<longrightarrow> cl_jti c = jti \<longrightarrow> cl_exp c = e"
    and "sign_in_run env ops w = (trace, t)"
  shows "admitted_count (answers jti) trace \<le> 5"
proof -
  have "answers_inv \<lparr>ch_jti = jti, ch_expiresAt = e * 1000, ch_limit = ATTEMPTS_PER_CHALLENGE\<rparr> (0, w)"
    using assms(1,2) by (simp add: answers_inv_def used_attempts_def)
  from answers_inv_run [OF this assms(4)] assms(3) show ?thesis
    by (auto simp: answers_inv_def ATTEMPTS_PER_CHALLENGE_def)
qed

theorem challenge_attempts_bounded_witness:
  "admitted_count (answers ''j'')
     (fst (sign_in_run sample_env (replicate 9 (ChallengeAnswer ''a@b.c'' sample_answer)) empty_world)) \<le> 5"
  using challenge_attempts_bounded [of empty_world "''j''" "replicate 9 (ChallengeAnswer ''a@b.c'' sample_answer)" 300 sample_env]
  by (cases "sign_in_run sample_env (replicate 9 (ChallengeAnswer ''a@b.c'' sample_answer)) empty_world")
    (simp add: challenges_keyed_def challenge_row_def empty_world_def sample_answer_def)

end
