(* ===== verification/Users.thy ===== *)
theory Users
  imports World
begin

text \<open>
  The account table: \<^verbatim>\<open>persistence/adapters/typeorm_user_repository.adapter.ts\<close> over the table
  \<^verbatim>\<open>users\<close> with its unique index on the lower-cased e-mail address
  (\<^verbatim>\<open>migrations/1789600000000-CaseInsensitiveEmail.ts\<close>). \<open>users_ok\<close> is the table's invariant;
  accepting an authenticator step is an instance of the contract \<open>one_shot\<close>.
\<close>

section \<open>The adapter\<close>

definition toUserEntity :: "UserRow \<Rightarrow> UserEntity" where
  "toUserEntity r = UserEntity.truncate r"

definition user_row :: "nat \<Rightarrow> world \<Rightarrow> UserRow option" where
  "user_row i w = find (\<lambda>r. u_id r = i) (users w)"

definition findByEmail :: "string \<Rightarrow> UserEntity option act" where
  "findByEmail email = reads (\<lambda>w. map_option toUserEntity
     (find (\<lambda>r. js_toLowerCase (u_email r) = js_toLowerCase email) (users w)))"

definition findById :: "nat \<Rightarrow> UserEntity option act" where
  "findById i = reads (\<lambda>w. map_option toUserEntity (user_row i w))"

text \<open>
  \<^verbatim>\<open>repo.save\<close>: an \<^verbatim>\<open>UPDATE\<close> when the entity has an id that the table holds, an \<^verbatim>\<open>INSERT\<close>
  otherwise, with the next value of the sequence as its id when it has none. A taken id or e-mail
  address is SQL state \<^verbatim>\<open>23505\<close>; the sequence moves on even then.
\<close>

definition overwrite_user :: "UserEntity \<Rightarrow> UserRow \<Rightarrow> UserRow" where
  "overwrite_user u r = r\<lparr>u_email := u_email u, u_passwordHash := u_passwordHash u, u_role := u_role u,
     u_isTwoFactorEnabled := u_isTwoFactorEnabled u, u_twoFactorSecret := u_twoFactorSecret u\<rparr>"

definition users_upsert :: "nat option \<Rightarrow> UserEntity \<Rightarrow> UserRow act" where
  "users_upsert userId user =
     (\<lambda>w. case userId of
        Some i \<Rightarrow>
          if \<exists>r \<in> set (users w). u_id r = i then
            if \<exists>r \<in> set (users w). u_id r \<noteq> i \<and> js_toLowerCase (u_email r) = js_toLowerCase (u_email user)
            then (Inl (QueryFailed ''23505''), w)
            else
              (Inr (UserEntity.extend (user\<lparr>u_id := i\<rparr>)
                      (UserRow.fields (case user_row i w of Some r \<Rightarrow> ur_twoFactorLastStep r | None \<Rightarrow> None))),
               w\<lparr>users := update_where (\<lambda>r. u_id r = i) (overwrite_user user) (users w)\<rparr>)
          else if \<exists>r \<in> set (users w). js_toLowerCase (u_email r) = js_toLowerCase (u_email user)
          then (Inl (QueryFailed ''23505''), w)
          else
            (let row = UserEntity.extend (user\<lparr>u_id := i\<rparr>) (UserRow.fields None)
             in (Inr row, w\<lparr>users := users w @ [row]\<rparr>))
      | None \<Rightarrow>
          if \<exists>r \<in> set (users w). u_id r = user_seq w \<or> js_toLowerCase (u_email r) = js_toLowerCase (u_email user)
          then (Inl (QueryFailed ''23505''), w\<lparr>user_seq := Suc (user_seq w)\<rparr>)
          else
            (let row = UserEntity.extend (user\<lparr>u_id := user_seq w\<rparr>) (UserRow.fields None)
             in (Inr row, w\<lparr>users := users w @ [row], user_seq := Suc (user_seq w)\<rparr>)))"

definition saveUser :: "UserEntity \<Rightarrow> UserEntity act" where
  "saveUser user =
     andThen
       (catches (users_upsert (if u_id user > 0 then Some (u_id user) else None) user)
          (\<lambda>e. if isUniqueViolation e then throws (RecordConflictError ''Email address is already registered'')
               else throws e))
       (\<lambda>saved. returns (toUserEntity saved))"

definition acceptTwoFactorStep :: "nat \<Rightarrow> int \<Rightarrow> bool act" where
  "acceptTwoFactorStep userId step =
     (\<lambda>w. let hit = (\<lambda>r. u_id r = userId \<and>
                 (case ur_twoFactorLastStep r of None \<Rightarrow> True | Some l \<Rightarrow> l < step))
          in (Inr (affected hit (users w) = 1),
              w\<lparr>users := update_where hit (\<lambda>r. r\<lparr>ur_twoFactorLastStep := Some step\<rparr>) (users w)\<rparr>))"

section \<open>The table's invariant\<close>

definition users_ok :: "world \<Rightarrow> bool" where
  "users_ok w \<longleftrightarrow> distinct (map u_id (users w)) \<and> distinct (map (\<lambda>r. js_toLowerCase (u_email r)) (users w))
     \<and> 0 < user_seq w \<and> (\<forall>r \<in> set (users w). 0 < u_id r)"

lemma toUserEntity_fields [simp]:
  "u_id (toUserEntity r) = u_id r" "u_email (toUserEntity r) = u_email r"
  "u_passwordHash (toUserEntity r) = u_passwordHash r" "u_role (toUserEntity r) = u_role r"
  "u_isTwoFactorEnabled (toUserEntity r) = u_isTwoFactorEnabled r"
  "u_twoFactorSecret (toUserEntity r) = u_twoFactorSecret r"
  by (simp_all add: toUserEntity_def UserEntity.defs)

lemma UserEntity_eq:
  fixes a b :: UserEntity
  assumes "u_id a = u_id b" "u_email a = u_email b" "u_passwordHash a = u_passwordHash b" "u_role a = u_role b"
    "u_isTwoFactorEnabled a = u_isTwoFactorEnabled b" "u_twoFactorSecret a = u_twoFactorSecret b"
  shows "a = b"
  using assms by simp

lemma findById_run [simp, io_simps]: "findById i w = (Inr (map_option toUserEntity (user_row i w)), w)"
  by (simp add: findById_def)

lemma findByEmail_run [simp, io_simps]:
  "findByEmail e w =
     (Inr (map_option toUserEntity (find (\<lambda>r. js_toLowerCase (u_email r) = js_toLowerCase e) (users w))), w)"
  by (simp add: findByEmail_def)

lemma user_row_Some: "user_row i w = Some r \<Longrightarrow> r \<in> set (users w) \<and> u_id r = i"
  by (auto simp: user_row_def dest: find_Some_mem)

lemma user_row_ok: "users_ok w \<Longrightarrow> user_row i w = Some r \<longleftrightarrow> r \<in> set (users w) \<and> u_id r = i"
  by (simp add: user_row_def users_ok_def find_key_Some_iff)

lemma user_row_None: "user_row i w = None \<longleftrightarrow> (\<forall>r \<in> set (users w). u_id r \<noteq> i)"
  by (auto simp: user_row_def find_None_iff)

lemma user_row_cong: "users t = users w \<Longrightarrow> user_row i t = user_row i w"
  by (simp add: user_row_def)

lemmas saveUser_unfold = saveUser_def users_upsert_def andThen_run catches_run isUniqueViolation_def
  Let_def UserEntity.defs UserRow.defs

text \<open>A save that returns: either it changed the row it names, or it added one.\<close>

lemma saveUser_cases:
  assumes "saveUser u w = (Inr v, t)"
  obtains
    (updated) r where "r \<in> set (users w)" "u_id r = u_id u" "0 < u_id u" "v = u"
      "\<forall>q \<in> set (users w). u_id q \<noteq> u_id u \<longrightarrow> js_toLowerCase (u_email q) \<noteq> js_toLowerCase (u_email u)"
      "t = w\<lparr>users := update_where (\<lambda>r. u_id r = u_id u) (overwrite_user u) (users w)\<rparr>"
  | (added) i n where "v = u\<lparr>u_id := i\<rparr>" "i = u_id u \<and> 0 < i \<and> n = user_seq w \<or> u_id u = 0 \<and> i = user_seq w \<and> n = Suc i"
      "\<forall>q \<in> set (users w). u_id q \<noteq> i \<and> js_toLowerCase (u_email q) \<noteq> js_toLowerCase (u_email u)"
      "t = w\<lparr>users := users w @ [UserEntity.extend v (UserRow.fields None)], user_seq := n\<rparr>"
proof (cases "0 < u_id u")
  case id: True
  show ?thesis
  proof (cases "\<exists>r \<in> set (users w). u_id r = u_id u")
    case True
    then obtain r where "r \<in> set (users w)" "u_id r = u_id u" by blast
    with id assms show ?thesis
      by (intro updated [of r]) (auto simp: saveUser_unfold toUserEntity_def split: if_splits)
  next
    case False
    with id assms show ?thesis
      by (intro added [of "u_id u" "user_seq w"]) (auto simp: saveUser_unfold toUserEntity_def split: if_splits)
  qed
next
  case False
  with assms show ?thesis
    by (intro added [of "user_seq w" "Suc (user_seq w)"]) (auto simp: saveUser_unfold toUserEntity_def split: if_splits)
qed

lemma overwrite_user_simps [simp]:
  "u_id (overwrite_user u r) = u_id r" "u_email (overwrite_user u r) = u_email u"
  "u_role (overwrite_user u r) = u_role u" "u_isTwoFactorEnabled (overwrite_user u r) = u_isTwoFactorEnabled u"
  "ur_twoFactorLastStep (overwrite_user u r) = ur_twoFactorLastStep r"
  by (simp_all add: overwrite_user_def)

lemma toUserEntity_overwrite: "u_id r = u_id u \<Longrightarrow> toUserEntity (overwrite_user u r) = u"
  by (simp add: toUserEntity_def overwrite_user_def UserEntity.defs)

lemma saveUser_error:
  "saveUser u w = (Inl e, t) \<Longrightarrow> e = RecordConflictError ''Email address is already registered''
     \<and> users t = users w \<and> user_seq w \<le> user_seq t \<and> t = w\<lparr>user_seq := user_seq t\<rparr>"
  by (auto simp: saveUser_unfold split: if_splits)

text \<open>The saved account is the one found, by its id and by its address in any case.\<close>

lemma saveUser_found:
  assumes "users_ok w" and "saveUser u w = (Inr v, t)"
  shows "map_option toUserEntity (user_row (u_id v) t) = Some v"
    and "j \<noteq> u_id v \<Longrightarrow> user_row j t = user_row j w"
  using assms(2)
proof (atomize (full), cases rule: saveUser_cases)
  case (updated r)
  with assms(1) have "user_row (u_id u) w = Some r" by (simp add: user_row_ok)
  with updated show "map_option toUserEntity (user_row (u_id v) t) = Some v \<and>
      (j \<noteq> u_id v \<longrightarrow> user_row j t = user_row j w)"
    by (cases "j = u_id u")
      (simp_all add: user_row_def find_update_where_other find_update_where_key toUserEntity_overwrite)
next
  case (added i n)
  then have "user_row i w = None" by (auto simp: user_row_None)
  with added show "map_option toUserEntity (user_row (u_id v) t) = Some v \<and>
      (j \<noteq> u_id v \<longrightarrow> user_row j t = user_row j w)"
    by (auto simp: user_row_def find_append toUserEntity_def UserEntity.defs UserRow.defs split: option.split)
qed


lemma distinct_update_key:
  assumes "distinct (map i rows)" and "distinct (map k rows)"
    and "\<And>r. i (f r) = i r" and "\<And>r. k (f r) = v"
    and "\<forall>q \<in> set rows. i q \<noteq> j \<longrightarrow> k q \<noteq> v"
  shows "distinct (map k (update_where (\<lambda>r. i r = j) f rows))"
  using assms by (induction rows) (auto simp: set_update_where image_iff split: if_splits)

lemma saveUser_ok:
  assumes "users_ok w"
  shows "users_ok (snd (saveUser u w))"
proof (cases "fst (saveUser u w)")
  case (Inl e)
  then have "saveUser u w = (Inl e, snd (saveUser u w))" by (simp add: prod_eq_iff)
  from saveUser_error [OF this] assms show ?thesis
    by (auto simp: users_ok_def)
next
  case (Inr v)
  then have "saveUser u w = (Inr v, snd (saveUser u w))" by (simp add: prod_eq_iff)
  then show ?thesis
  proof (cases rule: saveUser_cases)
    case (updated r)
    have "distinct (map (\<lambda>r. js_toLowerCase (u_email r)) (users (snd (saveUser u w))))"
      using assms updated
      by (simp add: users_ok_def) (rule distinct_update_key, auto)
    with assms updated show ?thesis
      by (auto simp: users_ok_def map_update_where_key set_update_where)
  next
    case (added i n)
    with assms show ?thesis
      by (auto simp: users_ok_def UserEntity.defs UserRow.defs)
  qed
qed

lemma find_email_ok:
  "users_ok w \<Longrightarrow> find (\<lambda>r. js_toLowerCase (u_email r) = js_toLowerCase e) (users w) = Some r \<longleftrightarrow>
     r \<in> set (users w) \<and> js_toLowerCase (u_email r) = js_toLowerCase e"
  by (simp add: users_ok_def find_key_Some_iff)

text \<open>
  Saving an account and reading it back. A save that returns an account makes it the one found
  by its id and by its e-mail address in whatever case the address is typed, keeps the table's
  invariant (one account per id and per address), and leaves every other account as it was.
\<close>

theorem save_then_find:
  assumes "users_ok w" and "saveUser u w = (Inr v, t)" and "js_toLowerCase e = js_toLowerCase (u_email u)"
  shows "users_ok t \<and> findById (u_id v) t = (Inr (Some v), t) \<and> findByEmail e t = (Inr (Some v), t)
    \<and> (\<forall>j. j \<noteq> u_id v \<longrightarrow> fst (findById j t) = fst (findById j w))"
proof -
  have ok: "users_ok t" using saveUser_ok [OF assms(1)] assms(2) by (metis snd_conv)
  obtain r where r: "user_row (u_id v) t = Some r" and v: "toUserEntity r = v"
    using saveUser_found(1) [OF assms(1,2)] by auto
  have "u_email v = u_email u"
    using assms(2) by (cases rule: saveUser_cases) simp_all
  with v assms(3) have "js_toLowerCase (u_email r) = js_toLowerCase e" by auto
  with r ok have "find (\<lambda>r. js_toLowerCase (u_email r) = js_toLowerCase e) (users t) = Some r"
    by (simp add: user_row_ok find_email_ok)
  with ok r v saveUser_found(2) [OF assms(1,2)] show ?thesis by simp
qed

definition sample_user :: UserEntity where
  "sample_user = \<lparr>u_id = 0, u_email = ''a@b.c'', u_passwordHash = ''h'', u_role = Customer,
     u_isTwoFactorEnabled = False, u_twoFactorSecret = None\<rparr>"

theorem save_then_find_witness:
  "fst (saveUser sample_user empty_world) = Inr (sample_user\<lparr>u_id := 1\<rparr>) \<and>
   fst (findByEmail ''A@b.C'' (snd (saveUser sample_user empty_world))) = Inr (Some (sample_user\<lparr>u_id := 1\<rparr>))"
proof -
  have "saveUser sample_user empty_world = (Inr (sample_user\<lparr>u_id := 1\<rparr>), snd (saveUser sample_user empty_world))"
    by (simp add: saveUser_unfold sample_user_def empty_world_def toUserEntity_def)
  moreover have "js_toLowerCase ''A@b.C'' = js_toLowerCase (u_email sample_user)"
    by code_simp
  ultimately show ?thesis
    using save_then_find [of empty_world sample_user "sample_user\<lparr>u_id := 1\<rparr>"
        "snd (saveUser sample_user empty_world)" "''A@b.C''"]
    by (simp add: users_ok_def sample_user_def empty_world_def prod_eq_iff)
qed

section \<open>An authenticator step is accepted once\<close>

definition step_spent :: "nat \<times> int \<Rightarrow> world \<Rightarrow> bool" where
  "step_spent k w \<longleftrightarrow> (\<exists>r \<in> set (users w). u_id r = fst k) \<and>
     (\<forall>r \<in> set (users w). u_id r = fst k \<longrightarrow> (\<exists>l. ur_twoFactorLastStep r = Some l \<and> snd k \<le> l))"

definition spend_step :: "nat \<times> int \<Rightarrow> world \<Rightarrow> bool \<times> world" where
  "spend_step k w = (case acceptTwoFactorStep (fst k) (snd k) w of (r, t) \<Rightarrow> (r = Inr True, t))"

text \<open>Everything else the service does to the table: saving accounts, and leaving it alone.\<close>

inductive other_user_step :: "world \<Rightarrow> world \<Rightarrow> bool" where
  saving: "saveUser u w = (r, t) \<Longrightarrow> other_user_step w t"
| elsewhere: "users t = users w \<Longrightarrow> other_user_step w t"

lemma step_spent_map:
  "users t = map g (users w) \<Longrightarrow> (\<And>r. u_id (g r) = u_id r) \<Longrightarrow>
   (\<And>r m. ur_twoFactorLastStep r = Some m \<Longrightarrow> \<exists>l. ur_twoFactorLastStep (g r) = Some l \<and> m \<le> l) \<Longrightarrow>
   step_spent k w \<Longrightarrow> step_spent k t"
  by (simp add: step_spent_def) (meson order_trans)

lemma step_spent_save:
  assumes "step_spent k w" and "saveUser u w = (r, t)"
  shows "step_spent k t"
proof (cases r)
  case (Inl e)
  with assms(2) have "users t = users w" using saveUser_error by blast
  with assms(1) show ?thesis by (simp add: step_spent_def)
next
  case (Inr v)
  with assms(2) have "saveUser u w = (Inr v, t)" by simp
  then show ?thesis
  proof (cases rule: saveUser_cases)
    case (updated r)
    then have "users t = map (\<lambda>r. if u_id r = u_id u then overwrite_user u r else r) (users w)"
      by (simp add: update_where_def)
    from step_spent_map [OF this _ _ assms(1)] show ?thesis by simp
  next
    case (added i n)
    with assms(1) show ?thesis by (auto simp: step_spent_def UserEntity.defs UserRow.defs)
  qed
qed

lemma acceptTwoFactorStep_spends:
  assumes "acceptTwoFactorStep i l w = (r, t)"
  shows "step_spent k w \<Longrightarrow> step_spent k t"
    and "r = Inr True \<Longrightarrow> \<not> step_spent (i, l) w \<and> step_spent (i, l) t"
proof -
  let ?hit = "\<lambda>r. u_id r = i \<and> (case ur_twoFactorLastStep r of None \<Rightarrow> True | Some m \<Rightarrow> m < l)"
  from assms have t: "users t = update_where ?hit (\<lambda>r. r\<lparr>ur_twoFactorLastStep := Some l\<rparr>) (users w)"
    and r: "r = Inr (affected ?hit (users w) = 1)"
    by (auto simp: acceptTwoFactorStep_def Let_def)
  show "step_spent k w \<Longrightarrow> step_spent k t"
    by (rule step_spent_map [OF t [unfolded update_where_def]]) (auto split: if_splits)
  assume "r = Inr True"
  with r have "0 < affected ?hit (users w)" by simp
  then obtain q where q: "q \<in> set (users w)" "?hit q" unfolding affected_pos_iff by blast
  then have "\<not> step_spent (i, l) w"
    by (auto simp: step_spent_def split: option.splits)
  moreover have "step_spent (i, l) t"
    unfolding step_spent_def t update_where_def set_map
  proof (intro conjI ballI impI)
    show "\<exists>r \<in> (\<lambda>r. if ?hit r then r\<lparr>ur_twoFactorLastStep := Some l\<rparr> else r) ` set (users w). u_id r = fst (i, l)"
      using q by (intro bexI [of _ "q\<lparr>ur_twoFactorLastStep := Some l\<rparr>"] image_eqI [of _ _ q]) simp_all
  next
    fix x
    assume "x \<in> (\<lambda>r. if ?hit r then r\<lparr>ur_twoFactorLastStep := Some l\<rparr> else r) ` set (users w)"
      and "u_id x = fst (i, l)"
    then obtain r where r: "x = (if ?hit r then r\<lparr>ur_twoFactorLastStep := Some l\<rparr> else r)" and "u_id r = i"
      by (fastforce split: if_splits)
    then show "\<exists>m. ur_twoFactorLastStep x = Some m \<and> snd (i, l) \<le> m"
      by (cases "?hit r"; cases "ur_twoFactorLastStep r") simp_all
  qed
  ultimately show "\<not> step_spent (i, l) w \<and> step_spent (i, l) t" ..
qed

interpretation totp_step: one_shot spend_step "\<lambda>k. k" other_user_step step_spent "\<lambda>_. True"
proof unfold_locales
  fix k s t
  assume "spend_step k s = (True, t)"
  then show "\<not> step_spent k s \<and> step_spent k t"
    by (cases k) (auto simp: spend_step_def acceptTwoFactorStep_spends split: prod.splits)
next
  fix k s j won t
  assume "step_spent k s" and "spend_step j s = (won, t)"
  then show "step_spent k t"
    by (auto simp: spend_step_def intro: acceptTwoFactorStep_spends split: prod.splits)
next
  fix k s t
  assume "step_spent k s" and "other_user_step s t"
  from this(2,1) show "step_spent k t"
  proof cases
    case (saving u r)
    with \<open>step_spent k s\<close> show ?thesis by (rule step_spent_save)
  qed (simp add: step_spent_def)
qed simp_all

text \<open>The history of the accounts: a step is offered for any account, or something else happens.\<close>

inductive user_step :: "world \<Rightarrow> world \<Rightarrow> bool" where
  offering: "acceptTwoFactorStep userId step w = (r, t) \<Longrightarrow> user_step w t"
| other: "other_user_step w t \<Longrightarrow> user_step w t"

lemma step_spent_stays: "user_step\<^sup>*\<^sup>* w t \<Longrightarrow> step_spent k w \<Longrightarrow> step_spent k t"
proof (induction rule: rtranclp_induct)
  case (step s t)
  from step.hyps(2) show ?case
  proof cases
    case (offering userId m r)
    with step show ?thesis by (auto intro: acceptTwoFactorStep_spends)
  next
    case other
    with step show ?thesis using totp_step.other_keeps by blast
  qed
qed

lemma step_spent_below: "step_spent (i, l) w \<Longrightarrow> m \<le> l \<Longrightarrow> step_spent (i, m) w"
  unfolding step_spent_def by (simp, blast intro: order_trans)

text \<open>
  C7. An authenticator code is accepted at most once, and never after a later one. Once step \<open>l\<close> was
  accepted for an account, then whatever steps are offered for any account, however accounts are
  saved and whatever else happens that leaves the table alone, a step accepted for that account
  is a later one.
\<close>

theorem totp_step_accepted_once:
  assumes "acceptTwoFactorStep userId l w = (Inr True, s)" and "user_step\<^sup>*\<^sup>* s t"
    and "acceptTwoFactorStep userId m t = (Inr True, u)"
  shows "l < m"
proof (rule ccontr)
  assume "\<not> l < m"
  have "step_spent (userId, l) s"
    using acceptTwoFactorStep_spends(2) [OF assms(1)] by simp
  from step_spent_below [OF step_spent_stays [OF assms(2) this]] \<open>\<not> l < m\<close> have "step_spent (userId, m) t"
    by simp
  with acceptTwoFactorStep_spends(2) [OF assms(3)] show False by simp
qed

definition sample_row :: UserRow where
  "sample_row = UserEntity.extend (sample_user\<lparr>u_id := 1\<rparr>) (UserRow.fields None)"

definition sample_accepted :: world where
  "sample_accepted = snd (acceptTwoFactorStep 1 7 (empty_world\<lparr>users := [sample_row]\<rparr>))"

theorem totp_step_accepted_once_witness:
  "fst (acceptTwoFactorStep 1 7 (empty_world\<lparr>users := [sample_row]\<rparr>)) = Inr True \<and>
   fst (acceptTwoFactorStep 1 9 (snd (acceptTwoFactorStep 1 8 sample_accepted))) = Inr True \<and> (7::int) < 9"
proof -
  let ?w = "empty_world\<lparr>users := [sample_row]\<rparr>"
  let ?t = "snd (acceptTwoFactorStep 1 8 sample_accepted)"
  note run = sample_accepted_def acceptTwoFactorStep_def sample_row_def sample_user_def UserEntity.defs
    UserRow.defs affected_def
  have first: "acceptTwoFactorStep 1 7 ?w = (Inr True, sample_accepted)"
    by (simp add: run)
  have "user_step sample_accepted ?t"
    by (rule offering [of 1 8 _ "fst (acceptTwoFactorStep 1 8 sample_accepted)"]) simp
  then have between: "user_step\<^sup>*\<^sup>* sample_accepted ?t" ..
  have last: "acceptTwoFactorStep 1 9 ?t = (Inr True, snd (acceptTwoFactorStep 1 9 ?t))"
    by (simp add: run)
  from totp_step_accepted_once [OF first between last] first last
  show ?thesis by (simp add: prod_eq_iff)
qed

end
