(* ===== verification/Principals.thy ===== *)
theory Principals
  imports Users
begin

text \<open>
  Principals: the platform-wide identity of an account, and the aliases by which services name it
  (\<^verbatim>\<open>application/services/principal_resolver.service.ts\<close>, tables \<^verbatim>\<open>principals\<close> and
  \<^verbatim>\<open>principal_aliases\<close>). \<open>principals_ok\<close> is the invariant of the two tables. The locale
  \<open>alias_directory\<close> is what a caller of the resolver relies on: a name, once given, never moves.
\<close>

section \<open>The resolver\<close>

definition alias_of :: "string \<Rightarrow> string \<Rightarrow> world \<Rightarrow> PrincipalAliasRow option" where
  "alias_of service localId w = find (\<lambda>a. al_service a = service \<and> al_localId a = localId) (aliases w)"

definition insert_principal :: "'tok Env \<Rightarrow> PrincipalKind \<Rightarrow> string \<Rightarrow> string act" where
  "insert_principal env kind displayName =
     andThen (randomUUID env)
     (\<lambda>i w. if \<exists>p \<in> set (principals w). pr_id p = i then (Inl (QueryFailed ''23505''), w)
        else (Inr i, w\<lparr>principals := principals w @
               [\<lparr>pr_id = i, pr_kind = kind, pr_displayName = Some displayName\<rparr>]\<rparr>))"

definition insert_alias :: "string \<Rightarrow> string \<Rightarrow> string \<Rightarrow> unit act" where
  "insert_alias principalId service localId =
     (\<lambda>w. if alias_of service localId w \<noteq> None then (Inl (QueryFailed ''23505''), w)
        else if \<forall>p \<in> set (principals w). pr_id p \<noteq> principalId then (Inl (QueryFailed ''23503''), w)
        else (Inr (), w\<lparr>aliases := aliases w @
               [\<lparr>al_principalId = principalId, al_service = service, al_localId = localId\<rparr>]\<rparr>))"

definition resolveOrMintForUser :: "'tok Env \<Rightarrow> TokenSubject \<Rightarrow> string act" where
  "resolveOrMintForUser env user =
     (let localId = decimal (ts_id user) in
      andThen (reads (alias_of ''identity'' localId))
      (\<lambda>existing. case existing of
         Some a \<Rightarrow> returns (al_principalId a)
       | None \<Rightarrow>
           (let kind = principalKindForRole (ts_role user) in
            catches
              (atomically (andThen (insert_principal env kind (ts_email user))
                (\<lambda>principal. andThen (insert_alias principal ''identity'' localId)
                (\<lambda>_. returns principal))))
              (\<lambda>cause. andThen (reads (alias_of ''identity'' localId))
                (\<lambda>winner. case winner of Some a \<Rightarrow> returns (al_principalId a) | None \<Rightarrow> throws cause)))))"

definition principalIdForUser :: "nat \<Rightarrow> string option act" where
  "principalIdForUser userId = reads (\<lambda>w. map_option al_principalId (alias_of ''identity'' (decimal userId) w))"

definition userIdForPrincipal :: "string \<Rightarrow> nat option act" where
  "userIdForPrincipal principalId =
     reads (\<lambda>w. case find (\<lambda>a. al_service a = ''identity'' \<and> al_principalId a = principalId) (aliases w) of
        None \<Rightarrow> None
      | Some a \<Rightarrow> js_Number (al_localId a))"

definition registerAlias :: "string \<Rightarrow> string \<Rightarrow> string \<Rightarrow> unit act" where
  "registerAlias principalId service localId =
     andThen (reads (alias_of service localId))
     (\<lambda>existing. case existing of
        Some a \<Rightarrow>
          if al_principalId a \<noteq> principalId then throws (PlainError ''refusing to repoint'') else returns ()
      | None \<Rightarrow>
          catches (insert_alias principalId service localId)
            (\<lambda>_. andThen (reads (alias_of service localId))
              (\<lambda>winner. case winner of
                 None \<Rightarrow> throws (PlainError ''could not register alias'')
               | Some a \<Rightarrow> if al_principalId a \<noteq> principalId then throws (PlainError ''could not register alias'')
                   else returns ())))"

definition syncKind :: "string \<Rightarrow> UserRole \<Rightarrow> unit act" where
  "syncKind principalId role =
     writes (\<lambda>w. w\<lparr>principals := update_where (\<lambda>p. pr_id p = principalId)
       (\<lambda>p. p\<lparr>pr_kind := principalKindForRole role\<rparr>) (principals w)\<rparr>)"

section \<open>The invariant\<close>

definition alias_key :: "PrincipalAliasRow \<Rightarrow> string \<times> string" where
  "alias_key a = (al_service a, al_localId a)"

definition principals_ok :: "'tok Env \<Rightarrow> world \<Rightarrow> bool" where
  "principals_ok env w \<longleftrightarrow> distinct (map pr_id (principals w)) \<and> distinct (map alias_key (aliases w))
     \<and> (\<forall>p \<in> set (principals w). drawn env w (pr_id p))
     \<and> (\<forall>a \<in> set (aliases w). al_principalId a \<in> pr_id ` set (principals w))
     \<and> (\<forall>a \<in> set (aliases w). al_service a = ''identity'' \<longrightarrow> (\<exists>n. al_localId a = decimal n))
     \<and> (\<forall>a \<in> set (aliases w). \<forall>b \<in> set (aliases w). al_service a = ''identity'' \<longrightarrow> al_service b = ''identity'' \<longrightarrow>
          al_principalId a = al_principalId b \<longrightarrow> a = b)"

lemma alias_of_Some: "alias_of s l w = Some a \<Longrightarrow> a \<in> set (aliases w) \<and> al_service a = s \<and> al_localId a = l"
  by (auto simp: alias_of_def dest: find_Some_mem)

lemma alias_of_None: "alias_of s l w = None \<longleftrightarrow> (\<forall>a \<in> set (aliases w). alias_key a \<noteq> (s, l))"
  by (auto simp: alias_of_def find_None_iff alias_key_def)

lemma alias_of_cong: "aliases t = aliases w \<Longrightarrow> alias_of s l t = alias_of s l w"
  by (simp add: alias_of_def)

lemma alias_of_frame [simp]:
  "alias_of s l (w\<lparr>draws := d\<rparr>) = alias_of s l w"
  "alias_of s l (w\<lparr>principals := p\<rparr>) = alias_of s l w"
  by (simp_all add: alias_of_def)

lemma alias_of_ok:
  assumes "distinct (map alias_key (aliases w))"
  shows "alias_of s l w = Some a \<longleftrightarrow> a \<in> set (aliases w) \<and> alias_key a = (s, l)"
proof -
  have "(\<lambda>a. al_service a = s \<and> al_localId a = l) = (\<lambda>a. alias_key a = (s, l))"
    by (auto simp: alias_key_def)
  then show ?thesis
    by (simp add: alias_of_def find_key_Some_iff [OF assms])
qed

lemma alias_of_snoc:
  "aliases t = aliases w @ [a] \<Longrightarrow>
   alias_of s l t = (case alias_of s l w of
      None \<Rightarrow> if al_service a = s \<and> al_localId a = l then Some a else None
    | Some b \<Rightarrow> Some b)"
  by (simp add: alias_of_def find_append split: option.split)

text \<open>What a mint does. With fresh draws it never fails.\<close>

lemma resolve_existing:
  "alias_of ''identity'' (decimal (ts_id u)) w = Some a \<Longrightarrow>
   resolveOrMintForUser env u w = (Inr (al_principalId a), w)"
  by (simp add: resolveOrMintForUser_def Let_def)

lemma fresh_principal:
  "inj (uuid env) \<Longrightarrow> principals_ok env w \<Longrightarrow> \<forall>p \<in> set (principals w). pr_id p \<noteq> uuid env (draws w)"
  using fresh_draw [of env w "draws w"] by (auto simp: principals_ok_def)

lemma resolve_mints:
  assumes "alias_of ''identity'' (decimal (ts_id u)) w = None" and "inj (uuid env)" and "principals_ok env w"
  shows "resolveOrMintForUser env u w =
    (Inr (uuid env (draws w)),
     w\<lparr>draws := Suc (draws w),
       principals := principals w @ [\<lparr>pr_id = uuid env (draws w),
         pr_kind = principalKindForRole (ts_role u), pr_displayName = Some (ts_email u)\<rparr>],
       aliases := aliases w @ [\<lparr>al_principalId = uuid env (draws w), al_service = ''identity'',
         al_localId = decimal (ts_id u)\<rparr>]\<rparr>)"
  using assms fresh_principal [OF assms(2,3)]
  by (simp add: resolveOrMintForUser_def catches_run atomically_run andThen_run insert_principal_def
      insert_alias_def Let_def)

lemma principals_ok_mint:
  assumes ok: "principals_ok env w" and inj: "inj (uuid env)"
    and none: "alias_of ''identity'' (decimal n) w = None"
  shows "principals_ok env (w\<lparr>draws := Suc (draws w),
       principals := principals w @ [\<lparr>pr_id = uuid env (draws w), pr_kind = k, pr_displayName = d\<rparr>],
       aliases := aliases w @ [\<lparr>al_principalId = uuid env (draws w), al_service = ''identity'',
         al_localId = decimal n\<rparr>]\<rparr>)"
proof -
  have fresh: "uuid env (draws w) \<notin> pr_id ` set (principals w)"
    using fresh_principal [OF inj ok] by auto
  moreover have "\<forall>a \<in> set (aliases w). al_principalId a \<in> pr_id ` set (principals w)"
    using ok by (simp add: principals_ok_def)
  ultimately have "\<forall>a \<in> set (aliases w). al_principalId a \<noteq> uuid env (draws w)"
    by metis
  moreover from none have "(''identity'', decimal n) \<notin> alias_key ` set (aliases w)"
    by (auto simp: alias_of_None)
  ultimately show ?thesis
    using ok fresh unfolding principals_ok_def
    by (auto simp: alias_key_def less_Suc_eq drawn_def)
qed

lemma resolve_ok:
  assumes "principals_ok env w" and "inj (uuid env)"
  shows "principals_ok env (snd (resolveOrMintForUser env u w))"
  using assms by (cases "alias_of ''identity'' (decimal (ts_id u)) w")
    (simp_all add: resolve_existing resolve_mints principals_ok_mint)

lemma resolve_returns:
  assumes "principals_ok env w" and "inj (uuid env)"
  obtains p t where "resolveOrMintForUser env u w = (Inr p, t)"
    and "map_option al_principalId (alias_of ''identity'' (decimal (ts_id u)) t) = Some p"
    and "p \<in> pr_id ` set (principals t)"
proof (cases "alias_of ''identity'' (decimal (ts_id u)) w")
  case None
  show ?thesis
    by (rule that [OF resolve_mints [OF None assms(2,1)]]) (use None in \<open>simp_all add: alias_of_def find_append\<close>)
next
  case (Some a)
  with assms(1) show ?thesis
    by (intro that [OF resolve_existing [OF Some]]) (auto simp: principals_ok_def dest: alias_of_Some)
qed

lemma userIdForPrincipal_known:
  assumes "principals_ok env w" and "alias_of ''identity'' (decimal n) w = Some a"
  shows "userIdForPrincipal (al_principalId a) w = (Inr (Some n), w)"
proof -
  let ?P = "\<lambda>b. al_service b = ''identity'' \<and> al_principalId b = al_principalId a"
  from assms(2) have a: "a \<in> set (aliases w)" "al_service a = ''identity''" "al_localId a = decimal n"
    using alias_of_Some by blast+
  then obtain b where b: "find ?P (aliases w) = Some b"
    by (cases "find ?P (aliases w)") (auto simp: find_None_iff)
  with a assms(1) have "b = a"
    unfolding principals_ok_def using find_Some_mem [OF b] by blast
  with a b show ?thesis by (simp add: userIdForPrincipal_def)
qed

text \<open>
  One principal per account. Resolving an account's principal succeeds, keeps the tables'
  invariant, and gives an identifier that leads back to the account; resolving again, whatever the
  account's address and role have become, gives the same identifier and changes nothing; and no
  other account resolves to it.
\<close>

theorem principal_for_account:
  assumes "inj (uuid env)" and "principals_ok env w"
  shows "\<exists>p t. resolveOrMintForUser env u w = (Inr p, t) \<and> principals_ok env t
    \<and> userIdForPrincipal p t = (Inr (Some (ts_id u)), t)
    \<and> (\<forall>v. ts_id v = ts_id u \<longrightarrow> resolveOrMintForUser env v t = (Inr p, t))
    \<and> (\<forall>v. ts_id v \<noteq> ts_id u \<longrightarrow> fst (resolveOrMintForUser env v t) \<noteq> Inr p)"
proof -
  obtain p t where run: "resolveOrMintForUser env u w = (Inr p, t)"
    and look: "map_option al_principalId (alias_of ''identity'' (decimal (ts_id u)) t) = Some p"
    by (rule resolve_returns [OF assms(2,1)])
  then obtain a where a: "alias_of ''identity'' (decimal (ts_id u)) t = Some a" "al_principalId a = p" by auto
  have ok: "principals_ok env t" using resolve_ok [OF assms(2,1), of u] run by simp
  have "fst (resolveOrMintForUser env v t) \<noteq> Inr p" if "ts_id v \<noteq> ts_id u" for v
  proof
    assume same: "fst (resolveOrMintForUser env v t) = Inr p"
    obtain q t' where q: "resolveOrMintForUser env v t = (Inr q, t')"
      and "map_option al_principalId (alias_of ''identity'' (decimal (ts_id v)) t') = Some q"
      by (rule resolve_returns [OF ok assms(1)])
    then obtain b where b: "alias_of ''identity'' (decimal (ts_id v)) t' = Some b" "al_principalId b = q" by auto
    have ok': "principals_ok env t'" using resolve_ok [OF ok assms(1), of v] q by simp
    have "alias_of ''identity'' (decimal (ts_id u)) t' = Some a"
      using q a ok that by (cases "alias_of ''identity'' (decimal (ts_id v)) t")
        (auto simp: resolve_existing resolve_mints assms(1) alias_of_def find_append)
    with userIdForPrincipal_known [OF ok' this] userIdForPrincipal_known [OF ok' b(1)] same q a(2) b(2) that
    show False by simp
  qed
  moreover have "resolveOrMintForUser env v t = (Inr p, t)" if "ts_id v = ts_id u" for v
    using that a resolve_existing [of v t a env] by simp
  ultimately show ?thesis
    using run ok userIdForPrincipal_known [OF ok a(1)] a(2) by blast
qed

theorem principal_for_account_witness:
  "\<exists>p t. resolveOrMintForUser sample_env \<lparr>ts_id = 7, ts_email = ''a@b.c'', ts_role = Customer\<rparr> empty_world = (Inr p, t)
     \<and> userIdForPrincipal p t = (Inr (Some 7), t)"
proof -
  have "principals_ok sample_env empty_world" by (simp add: principals_ok_def empty_world_def)
  from principal_for_account [OF sample_env_uuid this, of "\<lparr>ts_id = 7, ts_email = ''a@b.c'', ts_role = Customer\<rparr>"]
  show ?thesis by auto
qed

section \<open>Names never move\<close>

text \<open>The directory a caller sees: which principal a service's name stands for.\<close>

definition look :: "string \<times> string \<Rightarrow> world \<Rightarrow> string option" where
  "look k w = map_option al_principalId (alias_of (fst k) (snd k) w)"

inductive directory_step :: "'tok Env \<Rightarrow> world \<Rightarrow> world \<Rightarrow> bool" for env :: "'tok Env" where
  resolving: "resolveOrMintForUser env u w = (r, t) \<Longrightarrow> directory_step env w t"
| registering: "registerAlias p s l w = (r, t) \<Longrightarrow> directory_step env w t"
| syncing: "syncKind p role w = (r, t) \<Longrightarrow> directory_step env w t"
| not_directory: "aliases t = aliases w \<Longrightarrow> directory_step env w t"

locale alias_directory =
  fixes look_up :: "'k \<Rightarrow> 's \<Rightarrow> 'p option"
    and step :: "'s \<Rightarrow> 's \<Rightarrow> bool"
  assumes step_keeps: "look_up k s = Some p \<Longrightarrow> step s t \<Longrightarrow> look_up k t = Some p"
begin

lemma never_moves: "step\<^sup>*\<^sup>* s t \<Longrightarrow> look_up k s = Some p \<Longrightarrow> look_up k t = Some p"
  by (induction rule: rtranclp_induct) (auto intro: step_keeps)

lemma readers_agree: "step\<^sup>*\<^sup>* s t \<Longrightarrow> look_up k s = Some p \<Longrightarrow> look_up k t = Some q \<Longrightarrow> p = q"
  using never_moves by fastforce

end

definition grows :: "world \<Rightarrow> world \<Rightarrow> bool" where
  "grows w t \<longleftrightarrow> (\<exists>new. aliases t = aliases w @ new)"

lemma grows_refl [simp]: "grows w w"
  by (simp add: grows_def)

lemma look_grows: "grows w t \<Longrightarrow> look k w = Some p \<Longrightarrow> look k t = Some p"
  by (auto simp: grows_def look_def alias_of_def find_append)

lemma resolve_grows: "resolveOrMintForUser env u w = (r, t) \<Longrightarrow> grows w t"
  by (auto simp: resolveOrMintForUser_def insert_principal_def insert_alias_def catches_run atomically_run andThen_run
      grows_def Let_def split: option.splits if_splits sum.splits prod.splits)

lemma registerAlias_grows: "registerAlias p s l w = (r, t) \<Longrightarrow> grows w t"
  by (auto simp: registerAlias_def insert_alias_def catches_run andThen_run grows_def
      split: option.splits if_splits)

interpretation directory: alias_directory look "directory_step env" for env
proof unfold_locales
  fix k s p t
  assume "look k s = Some p" and "directory_step env s t"
  from this(2,1) show "look k t = Some p"
    by cases (auto simp: syncKind_def look_def alias_of_def
        intro: look_grows resolve_grows registerAlias_grows dest!: look_grows [OF resolve_grows] look_grows [OF registerAlias_grows])
qed

text \<open>
  C27. A name is never repointed. Once a service's name for something resolves to a principal it
  resolves to that principal in every later state, whatever mints, registrations and kind changes
  come in between.
\<close>

theorem alias_never_repointed:
  "look (service, localId) w = Some p \<Longrightarrow> (directory_step env)\<^sup>*\<^sup>* w t \<Longrightarrow> look (service, localId) t = Some p"
  by (rule directory.never_moves)

theorem alias_never_repointed_witness:
  "look (''m'', ''1'') (empty_world\<lparr>aliases := [\<lparr>al_principalId = ''p'', al_service = ''m'', al_localId = ''1''\<rparr>]\<rparr>) = Some ''p''
   \<and> look (''m'', ''1'') (snd (registerAlias ''q'' ''m'' ''1''
        (empty_world\<lparr>aliases := [\<lparr>al_principalId = ''p'', al_service = ''m'', al_localId = ''1''\<rparr>]\<rparr>))) = Some ''p''"
proof -
  let ?w = "empty_world\<lparr>aliases := [\<lparr>al_principalId = ''p'', al_service = ''m'', al_localId = ''1''\<rparr>]\<rparr>"
  have now: "look (''m'', ''1'') ?w = Some ''p''" by (simp add: look_def alias_of_def)
  have "(directory_step sample_env)\<^sup>*\<^sup>* ?w (snd (registerAlias ''q'' ''m'' ''1'' ?w))"
    by (intro r_into_rtranclp registering [of "''q''" "''m''" "''1''" _ "fst (registerAlias ''q'' ''m'' ''1'' ?w)"]) simp
  from now alias_never_repointed [OF now this] show ?thesis by simp
qed

text \<open>
  Registering a name. It succeeds exactly when the name is free and the principal exists, or the
  name already stands for that principal; on success the name stands for the principal, on failure
  nothing has changed.
\<close>

theorem registerAlias_outcome:
  "(case registerAlias p s l w of
      (Inr _, t) \<Rightarrow> look (s, l) t = Some p \<and> (look (s, l) w = None \<and> p \<in> pr_id ` set (principals w) \<or> t = w \<and> look (s, l) w = Some p)
    | (Inl e, t) \<Rightarrow> t = w \<and> (case look (s, l) w of Some q \<Rightarrow> q \<noteq> p | None \<Rightarrow> p \<notin> pr_id ` set (principals w)))"
proof (cases "alias_of s l w")
  case None
  have known: "(\<forall>q \<in> set (principals w). pr_id q \<noteq> p) \<longleftrightarrow> p \<notin> pr_id ` set (principals w)"
    by auto
  show ?thesis
  proof (cases "p \<in> pr_id ` set (principals w)")
    case True
    with None known show ?thesis
      by (simp add: registerAlias_def insert_alias_def catches_run look_def) (simp add: alias_of_def find_append)
  next
    case False
    with None known show ?thesis
      by (simp add: registerAlias_def insert_alias_def catches_run look_def)
  qed
next
  case (Some a)
  then show ?thesis
    by (auto simp: registerAlias_def look_def)
qed

end
