(* ===== verification/Token_Service.thy ===== *)
theory Token_Service
  imports Principals
begin

text \<open>
  Tokens: \<^verbatim>\<open>application/services/token.service.ts\<close> with the key lookup of
  \<^verbatim>\<open>infrastructure/crypto/jwt_key_provider.ts\<close>, over the tables \<^verbatim>\<open>refresh_tokens\<close> and
  \<^verbatim>\<open>revoked_access_tokens\<close>. Tokens themselves are opaque values of the JWT library; what the
  proofs assume of the library is the predicate \<open>jwt_ok\<close>. What each operation does to the tables
  is proved here; what follows for whole histories of sessions is in the theory Sessions.
\<close>

section \<open>Verification keys and signatures\<close>

definition verificationKey :: "'tok Env \<Rightarrow> string option \<Rightarrow> KeyObject option" where
  "verificationKey env kid =
     (case kid of
        None \<Rightarrow> None
      | Some k \<Rightarrow> if k = keyId env then Some (publicKey env) else map_of (previousKeys env) k)"

definition verifySignature :: "'tok Env \<Rightarrow> 'tok \<Rightarrow> Claims act" where
  "verifySignature env token =
     (case verificationKey env (jwt_header_kid env token) of
        None \<Rightarrow> throws (UnauthorizedException ''Invalid token'')
      | Some key \<Rightarrow>
          andThen (reads clock)
          (\<lambda>now. case jwt_verify env token key (issuer env) (audience env) now of
             None \<Rightarrow> throws (UnauthorizedException ''Invalid token'')
           | Some (TextPayload _) \<Rightarrow> throws (UnauthorizedException ''Token payload is not an object'')
           | Some (ClaimsPayload claims) \<Rightarrow> returns claims))"

definition decodeWithoutVerifying :: "'tok Env \<Rightarrow> 'tok \<Rightarrow> Claims option" where
  "decodeWithoutVerifying env token =
     (case jwt_decode env token of Some (ClaimsPayload c) \<Rightarrow> Some c | _ \<Rightarrow> None)"

section \<open>Issuing\<close>

definition MFA_CHALLENGE_TTL_SECONDS :: int where "MFA_CHALLENGE_TTL_SECONDS = 300"
definition MFA_ENROLMENT_TTL_SECONDS :: int where "MFA_ENROLMENT_TTL_SECONDS = 600"

record 'tok TokenPair =
  tp_accessToken :: 'tok
  tp_refreshToken :: 'tok
  tp_expiresIn :: int

definition insert_refresh_token :: "RefreshTokenRow \<Rightarrow> unit act" where
  "insert_refresh_token row =
     (\<lambda>w. if \<exists>r \<in> set (refresh_tokens w). rt_jti r = rt_jti row then (Inl (QueryFailed ''23505''), w)
        else if rt_principalId row \<notin> pr_id ` set (principals w) then (Inl (QueryFailed ''23503''), w)
        else (Inr (), w\<lparr>refresh_tokens := refresh_tokens w @ [row]\<rparr>))"

definition access_claims ::
  "'tok Env \<Rightarrow> TokenSubject \<Rightarrow> string \<Rightarrow> string \<Rightarrow> string option \<Rightarrow> string \<Rightarrow> int \<Rightarrow> Claims" where
  "access_claims env user principalId familyId client jti now =
     \<lparr>cl_sub = principalId, cl_jti = jti, cl_iss = issuer env, cl_aud = audience env, cl_iat = now,
      cl_exp = now + accessTtlSeconds env, cl_token_use = ''access'', cl_fam = Some familyId, cl_azp = client,
      cl_uid = ts_id user, cl_email = Some (ts_email user), cl_role = Some (role_text (ts_role user))\<rparr>"

definition refresh_claims ::
  "'tok Env \<Rightarrow> TokenSubject \<Rightarrow> string \<Rightarrow> string \<Rightarrow> string option \<Rightarrow> string \<Rightarrow> int \<Rightarrow> Claims" where
  "refresh_claims env user principalId familyId client jti now =
     \<lparr>cl_sub = principalId, cl_jti = jti, cl_iss = issuer env, cl_aud = audience env, cl_iat = now,
      cl_exp = now + refreshTtlSeconds env, cl_token_use = ''refresh'', cl_fam = Some familyId, cl_azp = client,
      cl_uid = ts_id user, cl_email = None, cl_role = None\<rparr>"

definition mintPair ::
  "'tok Env \<Rightarrow> TokenSubject \<Rightarrow> string \<Rightarrow> string \<Rightarrow> string option \<Rightarrow> 'tok TokenPair act" where
  "mintPair env user principalId familyId client =
     andThen (reads clock)
     (\<lambda>ms. let now = ms div 1000 in
      andThen (randomUUID env)
     (\<lambda>accessJti. andThen (randomUUID env)
     (\<lambda>refreshJti.
        let accessToken = jwt_sign env (access_claims env user principalId familyId client accessJti now)
              (privateKey env) (keyId env);
            refreshExpiresAt = (now + refreshTtlSeconds env) * 1000;
            refreshToken = jwt_sign env (refresh_claims env user principalId familyId client refreshJti now)
              (privateKey env) (keyId env)
        in andThen (insert_refresh_token
             \<lparr>rt_jti = refreshJti, rt_familyId = familyId, rt_principalId = principalId, rt_userId = ts_id user,
              rt_client = client, rt_expiresAt = refreshExpiresAt, rt_usedAt = None, rt_revokedAt = None,
              rt_revokedReason = None, rt_replacedByJti = None, rt_createdAt = ms\<rparr>)
           (\<lambda>_. returns \<lparr>tp_accessToken = accessToken, tp_refreshToken = refreshToken,
              tp_expiresIn = accessTtlSeconds env\<rparr>))))"

definition issuePair :: "'tok Env \<Rightarrow> TokenSubject \<Rightarrow> string \<Rightarrow> string option \<Rightarrow> 'tok TokenPair act" where
  "issuePair env user principalId client =
     andThen (randomUUID env) (\<lambda>familyId. mintPair env user principalId familyId client)"

definition issueEnrolment :: "'tok Env \<Rightarrow> TokenSubject \<Rightarrow> string \<Rightarrow> string option \<Rightarrow> ('tok \<times> int) act" where
  "issueEnrolment env user principalId client =
     andThen (reads clock)
     (\<lambda>ms. let now = ms div 1000 in
      andThen (randomUUID env)
     (\<lambda>jti. returns
        (jwt_sign env
           \<lparr>cl_sub = principalId, cl_jti = jti, cl_iss = issuer env, cl_aud = audience env, cl_iat = now,
            cl_exp = now + MFA_ENROLMENT_TTL_SECONDS, cl_token_use = ''mfa_enrolment'', cl_fam = None,
            cl_azp = client, cl_uid = ts_id user, cl_email = None, cl_role = None\<rparr>
           (privateKey env) (keyId env),
         MFA_ENROLMENT_TTL_SECONDS)))"

definition issueMfaChallenge :: "'tok Env \<Rightarrow> TokenSubject \<Rightarrow> string \<Rightarrow> ('tok \<times> int) act" where
  "issueMfaChallenge env user principalId =
     andThen (reads clock)
     (\<lambda>ms. let now = ms div 1000; ttl = MFA_CHALLENGE_TTL_SECONDS in
      andThen (randomUUID env)
     (\<lambda>jti. returns
        (jwt_sign env
           \<lparr>cl_sub = principalId, cl_jti = jti, cl_iss = issuer env, cl_aud = audience env, cl_iat = now,
            cl_exp = now + ttl, cl_token_use = ''mfa_challenge'', cl_fam = None,
            cl_azp = None, cl_uid = ts_id user, cl_email = None, cl_role = None\<rparr>
           (privateKey env) (keyId env),
         ttl)))"

section \<open>Verifying\<close>

definition revoked_row :: "string \<Rightarrow> world \<Rightarrow> RevokedTokenRow option" where
  "revoked_row jti w = find (\<lambda>r. rv_jti r = jti) (revoked_access_tokens w)"

definition refuseRevoked :: "Claims \<Rightarrow> unit act" where
  "refuseRevoked claims =
     andThen (reads (revoked_row (cl_jti claims)))
     (\<lambda>revoked. if revoked \<noteq> None then throws (UnauthorizedException ''This token has been revoked'') else returns ())"

definition verifyAccess :: "'tok Env \<Rightarrow> 'tok \<Rightarrow> Claims act" where
  "verifyAccess env token =
     andThen (verifySignature env token)
     (\<lambda>claims. if cl_token_use claims \<noteq> ''access'' then throws (UnauthorizedException ''This is not an access token'')
        else andThen (refuseRevoked claims) (\<lambda>_. returns claims))"

definition verifySession :: "'tok Env \<Rightarrow> 'tok \<Rightarrow> Claims act" where
  "verifySession env token =
     andThen (verifySignature env token)
     (\<lambda>claims. if cl_token_use claims \<noteq> ''access'' \<and> cl_token_use claims \<noteq> ''mfa_enrolment''
        then throws (UnauthorizedException ''This is not an access token'')
        else andThen (refuseRevoked claims) (\<lambda>_. returns claims))"

definition spentChallenge :: failure where
  "spentChallenge = UnauthorizedException ''CHALLENGE_SPENT''"

definition refuseSpentMfaChallenge :: "Claims \<Rightarrow> unit act" where
  "refuseSpentMfaChallenge claims =
     andThen (reads (revoked_row (cl_jti claims)))
     (\<lambda>spent. if spent \<noteq> None then throws spentChallenge else returns ())"

definition peekMfaChallenge :: "'tok Env \<Rightarrow> 'tok \<Rightarrow> Claims act" where
  "peekMfaChallenge env token =
     andThen (catches (verifySignature env token)
        (\<lambda>e. case e of UnauthorizedException _ \<Rightarrow> throws (UnauthorizedException ''CHALLENGE_INVALID'') | _ \<Rightarrow> throws e))
     (\<lambda>claims. if cl_token_use claims \<noteq> ''mfa_challenge'' then throws (UnauthorizedException ''CHALLENGE_INVALID'')
        else returns claims)"

definition peekRefresh :: "'tok Env \<Rightarrow> 'tok \<Rightarrow> Claims act" where
  "peekRefresh env token =
     andThen (verifySignature env token)
     (\<lambda>claims. if cl_token_use claims \<noteq> ''refresh'' then throws (UnauthorizedException ''This is not a refresh token'')
        else returns claims)"

section \<open>Revoking\<close>

definition insert_revoked :: "RevokedTokenRow \<Rightarrow> unit act" where
  "insert_revoked row =
     (\<lambda>w. if revoked_row (rv_jti row) w \<noteq> None then (Inl (QueryFailed ''23505''), w)
        else (Inr (), w\<lparr>revoked_access_tokens := revoked_access_tokens w @ [row]\<rparr>))"

definition recordRevokedJti :: "string \<Rightarrow> int \<Rightarrow> string \<Rightarrow> bool act" where
  "recordRevokedJti jti expiresAt reason =
     catches (andThen (insert_revoked \<lparr>rv_jti = jti, rv_expiresAt = expiresAt, rv_reason = reason\<rparr>) (\<lambda>_. returns True))
       (\<lambda>e. if isUniqueViolation e then returns False else throws e)"

definition revokeAccessJti :: "string \<Rightarrow> int \<Rightarrow> string \<Rightarrow> unit act" where
  "revokeAccessJti jti expiresAt reason =
     andThen (recordRevokedJti jti expiresAt reason) (\<lambda>_. returns ())"

definition endEnrolment :: "Claims \<Rightarrow> unit act" where
  "endEnrolment claims =
     andThen (recordRevokedJti (cl_jti claims) (cl_exp claims * 1000) ''two_factor_enrolled'') (\<lambda>_. returns ())"

definition consumeMfaChallenge :: "Claims \<Rightarrow> unit act" where
  "consumeMfaChallenge claims =
     andThen (recordRevokedJti (cl_jti claims) (cl_exp claims * 1000) ''mfa_challenge_used'')
     (\<lambda>consumed. if \<not> consumed then throws spentChallenge else returns ())"

text \<open>\<^verbatim>\<open>UPDATE refresh_tokens SET revokedAt, revokedReason WHERE ... AND revokedAt IS NULL\<close>.\<close>

definition revoke_row :: "int \<Rightarrow> string \<Rightarrow> RefreshTokenRow \<Rightarrow> RefreshTokenRow" where
  "revoke_row now reason r = r\<lparr>rt_revokedAt := Some now, rt_revokedReason := Some reason\<rparr>"

definition revoke_where :: "(RefreshTokenRow \<Rightarrow> bool) \<Rightarrow> string \<Rightarrow> unit act" where
  "revoke_where P reason =
     writes (\<lambda>w. w\<lparr>refresh_tokens :=
       update_where (\<lambda>r. P r \<and> rt_revokedAt r = None) (revoke_row (clock w) reason) (refresh_tokens w)\<rparr>)"

definition revokeFamily :: "string \<Rightarrow> string \<Rightarrow> unit act" where
  "revokeFamily familyId reason = revoke_where (\<lambda>r. rt_familyId r = familyId) reason"

definition revokeAllFamiliesForPrincipal :: "string \<Rightarrow> string \<Rightarrow> unit act" where
  "revokeAllFamiliesForPrincipal principalId reason = revoke_where (\<lambda>r. rt_principalId r = principalId) reason"

definition revokeOtherSessions :: "string \<Rightarrow> string option \<Rightarrow> string \<Rightarrow> unit act" where
  "revokeOtherSessions principalId keptFamilyId reason =
     (case keptFamilyId of
        None \<Rightarrow> revokeAllFamiliesForPrincipal principalId reason
      | Some kept \<Rightarrow> revoke_where (\<lambda>r. rt_principalId r = principalId \<and> rt_familyId r \<noteq> kept) reason)"

definition token_logout :: "Claims \<Rightarrow> string option \<Rightarrow> unit act" where
  "token_logout accessClaims refreshFamilyId =
     andThen (revokeAccessJti (cl_jti accessClaims) (cl_exp accessClaims * 1000) ''logout'')
     (\<lambda>_. if refreshFamilyId \<noteq> None \<and> refreshFamilyId \<noteq> Some ''''
        then revokeFamily (the refreshFamilyId) ''logout''
        else revokeAllFamiliesForPrincipal (cl_sub accessClaims) ''logout'')"

definition sweepExpiredRevocations :: "nat act" where
  "sweepExpiredRevocations =
     (\<lambda>w. let gone = (\<lambda>r. rv_expiresAt r < clock w)
          in (Inr (affected gone (revoked_access_tokens w)),
              w\<lparr>revoked_access_tokens := delete_where gone (revoked_access_tokens w)\<rparr>))"

section \<open>Rotation\<close>

datatype 'tok RotationOutcome =
    RotRefused string
  | RotMismatch "string option"
  | RotatedPair (rot_pair: "'tok TokenPair") (rot_bound: bool)

definition refresh_row :: "string \<Rightarrow> world \<Rightarrow> RefreshTokenRow option" where
  "refresh_row jti w = find (\<lambda>r. rt_jti r = jti) (refresh_tokens w)"

definition save_used :: "RefreshTokenRow \<Rightarrow> int \<Rightarrow> string option \<Rightarrow> unit act" where
  "save_used stored usedAt replacedByJti =
     writes (\<lambda>w. w\<lparr>refresh_tokens := update_where (\<lambda>r. rt_jti r = rt_jti stored)
       (\<lambda>_. stored\<lparr>rt_usedAt := Some usedAt, rt_replacedByJti := replacedByJti\<rparr>) (refresh_tokens w)\<rparr>)"

definition rotate_stored :: "'tok Env \<Rightarrow> TokenSubject \<Rightarrow> RequestClient \<Rightarrow> RefreshTokenRow \<Rightarrow> 'tok RotationOutcome act" where
  "rotate_stored env user client stored =
     (if rt_revokedAt stored \<noteq> None then returns (RotRefused ''This refresh token has been revoked'')
      else if rt_usedAt stored \<noteq> None then
        andThen (revokeFamily (rt_familyId stored) ''rotation_reuse'')
        (\<lambda>_. returns (RotRefused ''This refresh token has already been used; the session has been revoked''))
      else
        andThen (reads clock)
        (\<lambda>now. if rt_expiresAt stored \<le> now then returns (RotRefused ''This refresh token has expired'')
         else
           (let decision = sessionClientDecision (rt_client stored) client in
            if decision = Mismatch then returns (RotMismatch (rt_client stored))
            else
              (let sessionClient = (case rt_client stored of Some c \<Rightarrow> Some c | None \<Rightarrow> clientNameOf client) in
               andThen (mintPair env user (rt_principalId stored) (rt_familyId stored) sessionClient)
               (\<lambda>pair. let replacement = decodeWithoutVerifying env (tp_refreshToken pair) in
                andThen (save_used stored now (map_option cl_jti replacement))
                (\<lambda>_. returns (RotatedPair pair (decision = Bind))))))))"

definition rotate :: "'tok Env \<Rightarrow> 'tok \<Rightarrow> TokenSubject \<Rightarrow> RequestClient \<Rightarrow> ('tok TokenPair \<times> bool) act" where
  "rotate env refreshToken user client =
     andThen (verifySignature env refreshToken)
     (\<lambda>claims. if cl_token_use claims \<noteq> ''refresh'' then throws (UnauthorizedException ''This is not a refresh token'')
      else
        andThen (atomically (andThen (reads (refresh_row (cl_jti claims)))
          (\<lambda>stored. case stored of
             None \<Rightarrow> returns (RotRefused ''This refresh token is not recognised'')
           | Some s \<Rightarrow> rotate_stored env user client s)))
        (\<lambda>outcome. case outcome of
           RotRefused why \<Rightarrow> throws (UnauthorizedException why)
         | RotMismatch c \<Rightarrow> throws (ClientMismatchError c)
         | RotatedPair pair bound \<Rightarrow> returns (pair, bound)))"

section \<open>What is assumed of the JWT library\<close>

text \<open>
  \<^verbatim>\<open>jsonwebtoken\<close>: the header carries the key id it was signed under; a token signed with our
  private key verifies under our public key exactly while its issuer and audience are the expected
  ones and it has not expired; decoding gives the signed claims back; whatever verifies has the
  expected issuer and audience and has not expired; and a token's payload does not change.
\<close>

definition jwt_ok :: "'tok Env \<Rightarrow> bool" where
  "jwt_ok env \<longleftrightarrow>
     (\<forall>c k kid. jwt_header_kid env (jwt_sign env c k kid) = Some kid) \<and>
     (\<forall>c kid iss aud now. jwt_verify env (jwt_sign env c (privateKey env) kid) (publicKey env) iss aud now =
        (if cl_iss c = iss \<and> cl_aud c = aud \<and> now < cl_exp c * 1000 then Some (ClaimsPayload c) else None)) \<and>
     (\<forall>c k kid. jwt_decode env (jwt_sign env c k kid) = Some (ClaimsPayload c)) \<and>
     (\<forall>tok key iss aud now c. jwt_verify env tok key iss aud now = Some (ClaimsPayload c) \<longrightarrow>
        cl_iss c = iss \<and> cl_aud c = aud \<and> now < cl_exp c * 1000) \<and>
     (\<forall>tok key iss aud now now' p q. jwt_verify env tok key iss aud now = Some p \<longrightarrow>
        jwt_verify env tok key iss aud now' = Some q \<longrightarrow> p = q)"

lemma sample_env_jwt [simp]: "jwt_ok sample_env"
  by (auto simp: jwt_ok_def sample_env_def split: if_splits)

definition verified :: "'tok Env \<Rightarrow> 'tok \<Rightarrow> int \<Rightarrow> failure + Claims" where
  "verified env token now = fst (verifySignature env token (empty_world\<lparr>clock := now\<rparr>))"

lemma verifySignature_run [simp]: "verifySignature env token w = (verified env token (clock w), w)"
  by (auto simp: verified_def verifySignature_def split: option.split Payload.split)

lemma verified_Inr:
  "verified env token now = Inr c \<longleftrightarrow> (\<exists>key. verificationKey env (jwt_header_kid env token) = Some key \<and>
     jwt_verify env token key (issuer env) (audience env) now = Some (ClaimsPayload c))"
  by (auto simp: verified_def verifySignature_def split: option.split Payload.split)

lemma verified_error: "verified env token now = Inl e \<Longrightarrow> \<exists>m. e = UnauthorizedException m"
  by (auto simp: verified_def verifySignature_def split: option.splits Payload.splits)

lemma verified_valid:
  "jwt_ok env \<Longrightarrow> verified env token now = Inr c \<Longrightarrow>
   cl_iss c = issuer env \<and> cl_aud c = audience env \<and> now < cl_exp c * 1000"
  unfolding verified_Inr jwt_ok_def by blast

lemma verified_stable:
  "jwt_ok env \<Longrightarrow> verified env token now = Inr c \<Longrightarrow> verified env token now' = Inr d \<Longrightarrow> c = d"
  unfolding verified_Inr jwt_ok_def by (metis Payload.inject(2) option.inject)

lemma verified_signed:
  "jwt_ok env \<Longrightarrow> cl_iss c = issuer env \<Longrightarrow> cl_aud c = audience env \<Longrightarrow> now < cl_exp c * 1000 \<Longrightarrow>
   verified env (jwt_sign env c (privateKey env) (keyId env)) now = Inr c"
  unfolding verified_Inr jwt_ok_def by (simp add: verificationKey_def)

lemma verified_signed_iff:
  "jwt_ok env \<Longrightarrow> verified env (jwt_sign env c (privateKey env) (keyId env)) now = Inr d \<longleftrightarrow>
     d = c \<and> cl_iss c = issuer env \<and> cl_aud c = audience env \<and> now < cl_exp c * 1000"
  unfolding verified_Inr jwt_ok_def by (auto simp: verificationKey_def)

section \<open>What minting and rotating do\<close>

definition mint_row :: "'tok Env \<Rightarrow> TokenSubject \<Rightarrow> string \<Rightarrow> string \<Rightarrow> string option \<Rightarrow> world \<Rightarrow> RefreshTokenRow" where
  "mint_row env user principalId familyId client w =
     \<lparr>rt_jti = uuid env (Suc (draws w)), rt_familyId = familyId, rt_principalId = principalId, rt_userId = ts_id user,
      rt_client = client, rt_expiresAt = (clock w div 1000 + refreshTtlSeconds env) * 1000, rt_usedAt = None,
      rt_revokedAt = None, rt_revokedReason = None, rt_replacedByJti = None, rt_createdAt = clock w\<rparr>"

definition mint_pair :: "'tok Env \<Rightarrow> TokenSubject \<Rightarrow> string \<Rightarrow> string \<Rightarrow> string option \<Rightarrow> world \<Rightarrow> 'tok TokenPair" where
  "mint_pair env user principalId familyId client w =
     \<lparr>tp_accessToken = jwt_sign env (access_claims env user principalId familyId client (uuid env (draws w)) (clock w div 1000))
        (privateKey env) (keyId env),
      tp_refreshToken = jwt_sign env (refresh_claims env user principalId familyId client (uuid env (Suc (draws w))) (clock w div 1000))
        (privateKey env) (keyId env),
      tp_expiresIn = accessTtlSeconds env\<rparr>"

lemma mint_row_simps [simp]:
  "rt_jti (mint_row env u p f c w) = uuid env (Suc (draws w))"
  "rt_familyId (mint_row env u p f c w) = f" "rt_principalId (mint_row env u p f c w) = p"
  "rt_userId (mint_row env u p f c w) = ts_id u" "rt_client (mint_row env u p f c w) = c"
  "rt_usedAt (mint_row env u p f c w) = None" "rt_revokedAt (mint_row env u p f c w) = None"
  "rt_expiresAt (mint_row env u p f c w) = (clock w div 1000 + refreshTtlSeconds env) * 1000"
  by (simp_all add: mint_row_def)

lemma mintPair_run:
  "mintPair env u p f c w =
     (case insert_refresh_token (mint_row env u p f c w) (w\<lparr>draws := Suc (Suc (draws w))\<rparr>) of
        (Inl e, t) \<Rightarrow> (Inl e, t)
      | (Inr _, t) \<Rightarrow> (Inr (mint_pair env u p f c w), t))"
  by (simp add: mintPair_def andThen_run mint_row_def mint_pair_def Let_def split: sum.split prod.split)

lemma mintPair_fresh:
  assumes "\<forall>r \<in> set (refresh_tokens w). rt_jti r \<noteq> uuid env (Suc (draws w))" and "p \<in> pr_id ` set (principals w)"
  shows "mintPair env u p f c w = (Inr (mint_pair env u p f c w),
    w\<lparr>draws := Suc (Suc (draws w)), refresh_tokens := refresh_tokens w @ [mint_row env u p f c w]\<rparr>)"
  using assms by (simp add: mintPair_run insert_refresh_token_def)

lemma mintPair_cases:
  assumes "mintPair env u p f c w = (r, t)"
  obtains (minted) "r = Inr (mint_pair env u p f c w)" "p \<in> pr_id ` set (principals w)"
      "\<forall>r \<in> set (refresh_tokens w). rt_jti r \<noteq> uuid env (Suc (draws w))"
      "t = w\<lparr>draws := Suc (Suc (draws w)), refresh_tokens := refresh_tokens w @ [mint_row env u p f c w]\<rparr>"
  | (not_minted) e where "r = Inl e" "t = w\<lparr>draws := Suc (Suc (draws w))\<rparr>"
proof (cases "\<exists>r \<in> set (refresh_tokens w). rt_jti r = uuid env (Suc (draws w))")
  case True
  with assms show ?thesis by (intro not_minted) (auto simp: mintPair_run insert_refresh_token_def)
next
  case new: False
  show ?thesis
  proof (cases "p \<in> pr_id ` set (principals w)")
    case True
    with new assms show ?thesis by (intro minted) (auto simp: mintPair_fresh)
  next
    case False
    with new assms show ?thesis by (intro not_minted) (auto simp: mintPair_run insert_refresh_token_def)
  qed
qed

lemma decode_mint [simp]:
  "jwt_ok env \<Longrightarrow> decodeWithoutVerifying env (tp_refreshToken (mint_pair env u p f c w)) =
     Some (refresh_claims env u p f c (uuid env (Suc (draws w))) (clock w div 1000))"
  by (simp add: mint_pair_def decodeWithoutVerifying_def jwt_ok_def)

lemma refresh_claims_simps [simp]:
  "cl_jti (refresh_claims env u p f c j n) = j" "cl_fam (refresh_claims env u p f c j n) = Some f"
  "cl_sub (refresh_claims env u p f c j n) = p" "cl_azp (refresh_claims env u p f c j n) = c"
  "cl_uid (refresh_claims env u p f c j n) = ts_id u" "cl_token_use (refresh_claims env u p f c j n) = ''refresh''"
  "cl_exp (refresh_claims env u p f c j n) = n + refreshTtlSeconds env"
  "cl_iss (refresh_claims env u p f c j n) = issuer env" "cl_aud (refresh_claims env u p f c j n) = audience env"
  by (simp_all add: refresh_claims_def)

lemma access_claims_simps [simp]:
  "cl_jti (access_claims env u p f c j n) = j" "cl_fam (access_claims env u p f c j n) = Some f"
  "cl_sub (access_claims env u p f c j n) = p" "cl_azp (access_claims env u p f c j n) = c"
  "cl_uid (access_claims env u p f c j n) = ts_id u" "cl_token_use (access_claims env u p f c j n) = ''access''"
  "cl_role (access_claims env u p f c j n) = Some (role_text (ts_role u))"
  "cl_exp (access_claims env u p f c j n) = n + accessTtlSeconds env"
  "cl_iss (access_claims env u p f c j n) = issuer env" "cl_aud (access_claims env u p f c j n) = audience env"
  by (simp_all add: access_claims_def)

end
