(* ===== verification/Sessions.thy ===== *)
theory Sessions
  imports Token_Service
begin

text \<open>
  Histories of sessions. A session is a family of refresh tokens, each replaced by the next when it
  is used. \<open>sessions_ok\<close> is the invariant of the table of refresh tokens: token ids are unique and
  were drawn, a family belongs to one principal and is revoked as a whole, and at most one token of
  a family can still be used. The properties of rotation, revocation and logout rest on it.
\<close>

section \<open>The invariant\<close>

definition live :: "RefreshTokenRow \<Rightarrow> bool" where
  "live r \<longleftrightarrow> rt_usedAt r = None \<and> rt_revokedAt r = None"

definition sessions_ok :: "'tok Env \<Rightarrow> world \<Rightarrow> bool" where
  "sessions_ok env w \<longleftrightarrow> distinct (map rt_jti (refresh_tokens w))
     \<and> (\<forall>r \<in> set (refresh_tokens w). drawn env w (rt_jti r) \<and> drawn env w (rt_familyId r)
          \<and> rt_principalId r \<in> pr_id ` set (principals w))
     \<and> (\<forall>a \<in> set (refresh_tokens w). \<forall>b \<in> set (refresh_tokens w). rt_familyId a = rt_familyId b \<longrightarrow>
          rt_principalId a = rt_principalId b \<and> (rt_revokedAt a = None \<longleftrightarrow> rt_revokedAt b = None))
     \<and> (\<forall>a \<in> set (refresh_tokens w). \<forall>b \<in> set (refresh_tokens w). live a \<longrightarrow> live b \<longrightarrow>
          rt_familyId a = rt_familyId b \<longrightarrow> a = b)"

lemma sessions_okD:
  assumes "sessions_ok env w"
  shows "distinct (map rt_jti (refresh_tokens w))"
    and "r \<in> set (refresh_tokens w) \<Longrightarrow> drawn env w (rt_jti r)"
    and "r \<in> set (refresh_tokens w) \<Longrightarrow> drawn env w (rt_familyId r)"
    and "r \<in> set (refresh_tokens w) \<Longrightarrow> rt_principalId r \<in> pr_id ` set (principals w)"
    and "a \<in> set (refresh_tokens w) \<Longrightarrow> b \<in> set (refresh_tokens w) \<Longrightarrow> rt_familyId a = rt_familyId b \<Longrightarrow>
      rt_principalId a = rt_principalId b"
    and "a \<in> set (refresh_tokens w) \<Longrightarrow> b \<in> set (refresh_tokens w) \<Longrightarrow> rt_familyId a = rt_familyId b \<Longrightarrow>
      rt_revokedAt a = None \<Longrightarrow> rt_revokedAt b = None"
    and "a \<in> set (refresh_tokens w) \<Longrightarrow> b \<in> set (refresh_tokens w) \<Longrightarrow> live a \<Longrightarrow> live b \<Longrightarrow>
      rt_familyId a = rt_familyId b \<Longrightarrow> a = b"
  using assms unfolding sessions_ok_def by blast+

lemma drawnI: "n < draws t \<Longrightarrow> drawn env t (uuid env n)"
  by (auto simp: drawn_def)

lemma refresh_row_Some: "refresh_row j w = Some r \<Longrightarrow> r \<in> set (refresh_tokens w) \<and> rt_jti r = j"
  by (auto simp: refresh_row_def dest: find_Some_mem)

lemma refresh_row_ok:
  "sessions_ok env w \<Longrightarrow> refresh_row j w = Some r \<longleftrightarrow> r \<in> set (refresh_tokens w) \<and> rt_jti r = j"
  by (simp add: refresh_row_def find_key_Some_iff sessions_okD)

text \<open>
  A change of the table under which every row continues some row of the old table (its family and
  principal are the same, its family is revoked as a whole or not at all, and a usable token
  continues a usable one that nothing else continues) keeps the invariant.
\<close>

lemma sessions_ok_origin:
  assumes ok: "sessions_ok env w" and keys: "distinct (map rt_jti (refresh_tokens t))"
    and d: "draws w \<le> draws t" and p: "pr_id ` set (principals w) \<subseteq> pr_id ` set (principals t)"
    and og: "\<And>q. q \<in> set (refresh_tokens t) \<Longrightarrow> og q \<in> set (refresh_tokens w) \<and> rt_familyId q = rt_familyId (og q)
      \<and> rt_principalId q = rt_principalId (og q)
      \<and> (rt_revokedAt q = None \<longleftrightarrow> rt_revokedAt (og q) = None \<and> \<not> K (rt_familyId (og q)))
      \<and> drawn env t (rt_jti q) \<and> (live q \<longrightarrow> live (og q))"
    and inj: "\<And>a b. a \<in> set (refresh_tokens t) \<Longrightarrow> b \<in> set (refresh_tokens t) \<Longrightarrow> live a \<Longrightarrow> live b \<Longrightarrow>
      og a = og b \<Longrightarrow> a = b"
  shows "sessions_ok env t"
  unfolding sessions_ok_def
proof (intro conjI ballI impI)
  show "distinct (map rt_jti (refresh_tokens t))" by (rule keys)
next
  fix q assume q: "q \<in> set (refresh_tokens t)"
  note o' = og [OF q]
  from o' show "drawn env t (rt_jti q)" by blast
  from o' sessions_okD(3) [OF ok] drawn_mono [OF _ d] show "drawn env t (rt_familyId q)" by metis
  from o' sessions_okD(4) [OF ok] p show "rt_principalId q \<in> pr_id ` set (principals t)" by (metis subsetD)
next
  fix a b
  assume a: "a \<in> set (refresh_tokens t)" and b: "b \<in> set (refresh_tokens t)" and ab: "rt_familyId a = rt_familyId b"
  have mem: "og a \<in> set (refresh_tokens w)" "og b \<in> set (refresh_tokens w)" and fam: "rt_familyId (og a) = rt_familyId (og b)"
    using og [OF a] og [OF b] ab by metis+
  show "rt_principalId a = rt_principalId b"
    using og [OF a] og [OF b] sessions_okD(5) [OF ok mem fam] by metis
  show "(rt_revokedAt a = None) = (rt_revokedAt b = None)"
    using og [OF a] og [OF b] sessions_okD(6) [OF ok mem fam] sessions_okD(6) [OF ok mem(2,1) fam [symmetric]] fam
    by metis
  assume "live a" and "live b"
  with og [OF a] og [OF b] sessions_okD(7) [OF ok mem _ _ fam] have "og a = og b" by blast
  with inj a b \<open>live a\<close> \<open>live b\<close> show "a = b" by blast
qed

lemma sessions_ok_frame:
  assumes "sessions_ok env w" and "refresh_tokens t = refresh_tokens w" and "draws w \<le> draws t"
    and "pr_id ` set (principals w) \<subseteq> pr_id ` set (principals t)"
  shows "sessions_ok env t"
proof (rule sessions_ok_origin [where og = "\<lambda>x. x" and K = "\<lambda>_. False"])
  show "sessions_ok env w" "draws w \<le> draws t" "pr_id ` set (principals w) \<subseteq> pr_id ` set (principals t)" by fact+
  show "distinct (map rt_jti (refresh_tokens t))" using sessions_okD(1) [OF assms(1)] assms(2) by simp
qed (use assms(2) sessions_okD(2) [OF assms(1)] drawn_mono [OF _ assms(3)] in auto)

lemma fresh_jti:
  assumes "sessions_ok env w" and "inj (uuid env)" and "draws w \<le> n"
  shows "\<forall>r \<in> set (refresh_tokens w). rt_jti r \<noteq> uuid env n"
  using sessions_okD(2) [OF assms(1)] fresh_draw [OF assms(2,3)] by metis

lemma fresh_family:
  assumes "sessions_ok env w" and "inj (uuid env)" and "draws w \<le> n"
  shows "\<forall>r \<in> set (refresh_tokens w). rt_familyId r \<noteq> uuid env n"
  using sessions_okD(3) [OF assms(1)] fresh_draw [OF assms(2,3)] by metis

lemma revoke_row_simps [simp]:
  "rt_jti (revoke_row n m r) = rt_jti r" "rt_familyId (revoke_row n m r) = rt_familyId r"
  "rt_principalId (revoke_row n m r) = rt_principalId r" "rt_client (revoke_row n m r) = rt_client r"
  "rt_usedAt (revoke_row n m r) = rt_usedAt r"
  "rt_revokedAt (revoke_row n m r) = Some n" "rt_revokedReason (revoke_row n m r) = Some m"
  by (simp_all add: revoke_row_def)

definition old_row :: "world \<Rightarrow> RefreshTokenRow \<Rightarrow> RefreshTokenRow" where
  "old_row w q = the (refresh_row (rt_jti q) w)"

lemma old_row_eq: "sessions_ok env w \<Longrightarrow> x \<in> set (refresh_tokens w) \<Longrightarrow> rt_jti q = rt_jti x \<Longrightarrow> old_row w q = x"
  by (simp add: old_row_def refresh_row_ok [THEN iffD2])

lemma sessions_ok_revoke:
  assumes ok: "sessions_ok env w"
    and fam: "\<And>a b. a \<in> set (refresh_tokens w) \<Longrightarrow> b \<in> set (refresh_tokens w) \<Longrightarrow>
      rt_familyId a = rt_familyId b \<Longrightarrow> P a = P b"
  shows "sessions_ok env (snd (revoke_where P reason w))"
proof -
  define g where "g r = (if P r \<and> rt_revokedAt r = None then revoke_row (clock w) reason r else r)" for r
  let ?t = "snd (revoke_where P reason w)"
  let ?K = "\<lambda>f. \<exists>r \<in> set (refresh_tokens w). rt_familyId r = f \<and> P r"
  have t: "refresh_tokens ?t = map g (refresh_tokens w)" "draws ?t = draws w" "principals ?t = principals w"
    by (simp_all add: revoke_where_def update_where_def g_def fun_eq_iff)
  have same: "rt_jti (g r) = rt_jti r" "rt_familyId (g r) = rt_familyId r" "rt_principalId (g r) = rt_principalId r"
    "rt_revokedAt (g r) = None \<longleftrightarrow> rt_revokedAt r = None \<and> \<not> P r" "live (g r) \<Longrightarrow> g r = r" for r
    by (auto simp: live_def g_def)
  have K: "?K (rt_familyId x) \<longleftrightarrow> P x" if "x \<in> set (refresh_tokens w)" for x
    using fam that by blast
  show ?thesis
  proof (rule sessions_ok_origin [OF ok, where og = "old_row w" and K = ?K])
    show "distinct (map rt_jti (refresh_tokens ?t))"
      using sessions_okD(1) [OF ok] by (simp add: t o_def same)
  next
    fix q assume "q \<in> set (refresh_tokens ?t)"
    then obtain x where x: "x \<in> set (refresh_tokens w)" "q = g x" by (auto simp: t)
    then have o': "old_row w q = x" using old_row_eq [OF ok x(1)] same by simp
    show "old_row w q \<in> set (refresh_tokens w) \<and> rt_familyId q = rt_familyId (old_row w q)
      \<and> rt_principalId q = rt_principalId (old_row w q)
      \<and> (rt_revokedAt q = None \<longleftrightarrow> rt_revokedAt (old_row w q) = None \<and> \<not> ?K (rt_familyId (old_row w q)))
      \<and> drawn env ?t (rt_jti q) \<and> (live q \<longrightarrow> live (old_row w q))"
      unfolding o' K [OF x(1)] using x sessions_okD(2) [OF ok x(1)] same [of x] drawn_cong [OF t(2), of env]
      by (metis (no_types, lifting))
  next
    fix a b
    assume "a \<in> set (refresh_tokens ?t)" "b \<in> set (refresh_tokens ?t)" "live a" "live b" and eq: "old_row w a = old_row w b"
    then obtain x y where "x \<in> set (refresh_tokens w)" "a = g x" "y \<in> set (refresh_tokens w)" "b = g y" by (auto simp: t)
    with eq old_row_eq [OF ok] same(1) show "a = b" by metis
  qed (simp_all add: t)
qed

text \<open>Adding a token to a family: a new family, or the family of the token that is being used up.\<close>

lemma sessions_ok_new_family:
  assumes ok: "sessions_ok env w" and d: "draws w \<le> draws t"
    and t: "refresh_tokens t = refresh_tokens w @ [row]" and j: "rt_jti row \<notin> rt_jti ` set (refresh_tokens w)"
    and f: "\<forall>r \<in> set (refresh_tokens w). rt_familyId r \<noteq> rt_familyId row"
    and "drawn env t (rt_jti row)" "drawn env t (rt_familyId row)"
    and "rt_principalId row \<in> pr_id ` set (principals t)" and p: "principals t = principals w"
  shows "sessions_ok env t"
proof -
  have old: "\<forall>r \<in> set (refresh_tokens w). drawn env t (rt_jti r) \<and> drawn env t (rt_familyId r)
      \<and> rt_principalId r \<in> pr_id ` set (principals t)"
    using sessions_okD(2,3,4) [OF ok] drawn_mono [OF _ d] p by metis
  have new: "q = row \<or> q \<in> set (refresh_tokens w)" if "q \<in> set (refresh_tokens t)" for q
    using that t by auto
  show ?thesis
    unfolding sessions_ok_def
  proof (intro conjI ballI impI)
    show "distinct (map rt_jti (refresh_tokens t))"
      using sessions_okD(1) [OF ok] j by (simp add: t)
  next
    fix q assume "q \<in> set (refresh_tokens t)"
    with new old assms(6-8) show "drawn env t (rt_jti q)" "drawn env t (rt_familyId q)"
      "rt_principalId q \<in> pr_id ` set (principals t)" by metis+
  next
    fix a b
    assume "a \<in> set (refresh_tokens t)" and "b \<in> set (refresh_tokens t)" and ab: "rt_familyId a = rt_familyId b"
    with new f have c: "a = b \<or> a \<in> set (refresh_tokens w) \<and> b \<in> set (refresh_tokens w)" by metis
    then show "rt_principalId a = rt_principalId b"
      using sessions_okD(5) [OF ok _ _ ab] by blast
    from c show "(rt_revokedAt a = None) = (rt_revokedAt b = None)"
      using sessions_okD(6) [OF ok _ _ ab] sessions_okD(6) [OF ok _ _ ab [symmetric]] by (cases "a = b") (simp, metis)
    assume "live a" and "live b"
    with c show "a = b"
      using sessions_okD(7) [OF ok _ _ _ _ ab] by blast
  qed
qed

lemma sessions_ok_rotated:
  assumes ok: "sessions_ok env w" and s: "s \<in> set (refresh_tokens w)" "live s"
    and d: "draws w \<le> draws t" and p: "principals t = principals w"
    and t: "refresh_tokens t = update_where (\<lambda>r. rt_jti r = rt_jti s)
              (\<lambda>_. s\<lparr>rt_usedAt := Some n, rt_replacedByJti := j\<rparr>) (refresh_tokens w) @ [row]"
    and row: "\<forall>r \<in> set (refresh_tokens w). rt_jti r \<noteq> rt_jti row" "rt_familyId row = rt_familyId s"
      "rt_principalId row = rt_principalId s" "rt_revokedAt row = None" "drawn env t (rt_jti row)"
  shows "sessions_ok env t"
proof -
  define g where "g r = (if rt_jti r = rt_jti s then s\<lparr>rt_usedAt := Some n, rt_replacedByJti := j\<rparr> else r)" for r
  define og where "og q = (if q = row then s else old_row w q)" for q
  have tg: "refresh_tokens t = map g (refresh_tokens w) @ [row]"
    by (simp add: t update_where_def g_def fun_eq_iff)
  have gs: "rt_jti (g r) = rt_jti r" for r by (simp add: g_def)
  have same: "rt_familyId (g x) = rt_familyId x" "rt_principalId (g x) = rt_principalId x"
    "rt_revokedAt (g x) = rt_revokedAt x" "live (g x) \<Longrightarrow> g x = x \<and> x \<noteq> s" if "x \<in> set (refresh_tokens w)" for x
    using that s key_unique [OF sessions_okD(1) [OF ok] that s(1)] by (auto simp: g_def live_def)
  have og_g: "og (g x) = x" if "x \<in> set (refresh_tokens w)" for x
    using that row(1) old_row_eq [OF ok that gs] gs [of x] by (auto simp: og_def)
  have cases: "q = row \<or> (\<exists>x \<in> set (refresh_tokens w). q = g x)" if "q \<in> set (refresh_tokens t)" for q
    using that by (auto simp: tg)
  have dr: "drawn env t (rt_jti x)" if "x \<in> set (refresh_tokens w)" for x
    using sessions_okD(2) [OF ok that] drawn_mono [OF _ d] by blast
  have rs: "rt_revokedAt s = None" using s(2) by (simp add: live_def)
  show ?thesis
  proof (rule sessions_ok_origin [OF ok, where og = og and K = "\<lambda>_. False"])
    show "distinct (map rt_jti (refresh_tokens t))"
      using sessions_okD(1) [OF ok] row(1) by (auto simp: tg o_def gs image_iff)
  next
    fix q assume "q \<in> set (refresh_tokens t)"
    from cases [OF this] consider "q = row" | x where "x \<in> set (refresh_tokens w)" "q = g x" by blast
    then show "og q \<in> set (refresh_tokens w) \<and> rt_familyId q = rt_familyId (og q)
      \<and> rt_principalId q = rt_principalId (og q) \<and> (rt_revokedAt q = None \<longleftrightarrow> rt_revokedAt (og q) = None \<and> \<not> False)
      \<and> drawn env t (rt_jti q) \<and> (live q \<longrightarrow> live (og q))"
    proof cases
      case 1
      have "og row = s" by (simp add: og_def)
      then show ?thesis unfolding 1 using s row(2-5) rs by simp
    next
      case 2
      then show ?thesis using same [OF 2(1)] og_g [OF 2(1)] dr [OF 2(1)] gs [of x] by auto
    qed
  next
    fix a b
    assume ab: "a \<in> set (refresh_tokens t)" "b \<in> set (refresh_tokens t)" "live a" "live b" "og a = og b"
    have row': "og row = s" by (simp add: og_def)
    from cases [OF ab(1)] cases [OF ab(2)] ab(3-5) show "a = b"
      using og_g same(4) row' by metis
  qed (simp_all add: d p)
qed

section \<open>Rotation\<close>

lemma peekRefresh_Inr:
  "peekRefresh env token w = (Inr c, t) \<longleftrightarrow> t = w \<and> verified env token (clock w) = Inr c \<and> cl_token_use c = ''refresh''"
  by (auto simp: peekRefresh_def andThen_run split: sum.splits if_splits)

definition session_client :: "RefreshTokenRow \<Rightarrow> RequestClient \<Rightarrow> string option" where
  "session_client s client = (case rt_client s of Some c \<Rightarrow> Some c | None \<Rightarrow> clientNameOf client)"

definition exchangeable :: "RefreshTokenRow \<Rightarrow> RequestClient \<Rightarrow> world \<Rightarrow> bool" where
  "exchangeable s client w \<longleftrightarrow> live s \<and> clock w < rt_expiresAt s \<and> sessionClientDecision (rt_client s) client \<noteq> Mismatch"

text \<open>The state a rotation leaves: the token used up, its replacement at the end of the table.\<close>

definition rotated_world :: "'tok Env \<Rightarrow> TokenSubject \<Rightarrow> RequestClient \<Rightarrow> RefreshTokenRow \<Rightarrow> string option \<Rightarrow> world \<Rightarrow> world" where
  "rotated_world env u client s j w = w\<lparr>draws := Suc (Suc (draws w)),
     refresh_tokens := update_where (\<lambda>r. rt_jti r = rt_jti s)
       (\<lambda>_. s\<lparr>rt_usedAt := Some (clock w), rt_replacedByJti := j\<rparr>) (refresh_tokens w)
       @ [mint_row env u (rt_principalId s) (rt_familyId s) (session_client s client) w]\<rparr>"

lemma rotate_stored_cases:
  assumes "rotate_stored env u client s w = (r, t)" and "refresh_row (rt_jti s) w = Some s"
  obtains (exchanged) pair b j where "exchangeable s client w"
      "r = Inr (RotatedPair pair b)"
      "pair = mint_pair env u (rt_principalId s) (rt_familyId s) (session_client s client) w"
      "b = (sessionClientDecision (rt_client s) client = Bind)"
      "j = map_option cl_jti (decodeWithoutVerifying env (tp_refreshToken pair))"
      "\<forall>r \<in> set (refresh_tokens w). rt_jti r \<noteq> uuid env (Suc (draws w))" "rt_principalId s \<in> pr_id ` set (principals w)"
      "t = rotated_world env u client s j w"
  | (replayed) m where "rt_revokedAt s = None" "rt_usedAt s \<noteq> None" "r = Inr (RotRefused m)"
      "t = snd (revokeFamily (rt_familyId s) ''rotation_reuse'' w)"
  | (refused) m where "\<not> exchangeable s client w" "r = Inr (RotRefused m)" "t = w"
  | (mismatch) "\<not> exchangeable s client w" "r = Inr (RotMismatch (rt_client s))" "t = w"
  | (failed) e where "r = Inl e"
proof (cases "exchangeable s client w")
  case True
  let ?f = "\<lambda>r. s\<lparr>rt_usedAt := Some (clock w), rt_replacedByJti := r\<rparr>"
  from assms(2) have s: "s \<in> set (refresh_tokens w)" by (auto dest: refresh_row_Some)
  obtain q v where mint: "mintPair env u (rt_principalId s) (rt_familyId s) (session_client s client) w = (q, v)"
    by (cases "mintPair env u (rt_principalId s) (rt_familyId s) (session_client s client) w")
  have run: "rotate_stored env u client s w = (case q of Inl e \<Rightarrow> (Inl e, v)
      | Inr pair \<Rightarrow> (Inr (RotatedPair pair (sessionClientDecision (rt_client s) client = Bind)),
          snd (save_used s (clock w) (map_option cl_jti (decodeWithoutVerifying env (tp_refreshToken pair))) v)))"
    using True mint by (auto simp: rotate_stored_def exchangeable_def live_def session_client_def andThen_run Let_def
        save_used_def split: sum.splits)
  from mint show ?thesis
  proof (cases rule: mintPair_cases)
    case minted
    then have "rt_jti s \<noteq> uuid env (Suc (draws w))" using s by blast
    with minted run assms(1) True show ?thesis
      by (intro exchanged) (auto simp: rotated_world_def save_used_def)
  next
    case (not_minted e)
    with run assms(1) show ?thesis by (intro failed [of e]) simp
  qed
next
  case False
  note no = this
  show ?thesis
  proof (cases "rt_revokedAt s = None \<and> rt_usedAt s \<noteq> None")
    case True
    with assms(1) show ?thesis
      by (intro replayed) (auto simp: rotate_stored_def andThen_run revokeFamily_def revoke_where_def)
  next
    case False
    with no assms(1) show ?thesis
      by (auto simp: rotate_stored_def exchangeable_def live_def andThen_run Let_def split: if_splits
          intro: refused mismatch)
  qed
qed

text \<open>The same for the whole of \<^verbatim>\<open>rotate\<close>.\<close>

lemma rotate_run:
  assumes "verified env token (clock w) = Inr c" and "cl_token_use c = ''refresh''"
  shows "rotate env token u client w =
    (case refresh_row (cl_jti c) w of
       None \<Rightarrow> (Inl (UnauthorizedException ''This refresh token is not recognised''), w)
     | Some s \<Rightarrow> (case rotate_stored env u client s w of
         (Inl e, t) \<Rightarrow> (Inl e, w)
       | (Inr (RotRefused m), t) \<Rightarrow> (Inl (UnauthorizedException m), t)
       | (Inr (RotMismatch d), t) \<Rightarrow> (Inl (ClientMismatchError d), t)
       | (Inr (RotatedPair pair b), t) \<Rightarrow> (Inr (pair, b), t)))"
  using assms by (simp add: rotate_def andThen_run atomically_run split: option.split prod.split sum.split RotationOutcome.split)

lemma rotate_cases:
  assumes "rotate env token u client w = (r, t)"
  obtains (exchanged) c s pair b j where "verified env token (clock w) = Inr c" "cl_token_use c = ''refresh''"
      "refresh_row (cl_jti c) w = Some s" "exchangeable s client w" "r = Inr (pair, b)"
      "pair = mint_pair env u (rt_principalId s) (rt_familyId s) (session_client s client) w"
      "b = (sessionClientDecision (rt_client s) client = Bind)"
      "j = map_option cl_jti (decodeWithoutVerifying env (tp_refreshToken pair))"
      "\<forall>r \<in> set (refresh_tokens w). rt_jti r \<noteq> uuid env (Suc (draws w))"
      "t = rotated_world env u client s j w"
  | (replayed) c s m where "verified env token (clock w) = Inr c" "refresh_row (cl_jti c) w = Some s"
      "rt_revokedAt s = None" "rt_usedAt s \<noteq> None" "r = Inl (UnauthorizedException m)"
      "t = snd (revokeFamily (rt_familyId s) ''rotation_reuse'' w)"
  | (refused) e where "r = Inl e" "t = w"
proof (cases "verified env token (clock w)")
  case (Inl e)
  with assms show ?thesis by (intro refused [of e]) (simp_all add: rotate_def andThen_run)
next
  case (Inr c)
  show ?thesis
  proof (cases "cl_token_use c = ''refresh''")
    case False
    with Inr assms show ?thesis
      by (intro refused [of "UnauthorizedException ''This is not a refresh token''"]) (auto simp: rotate_def andThen_run)
  next
    case True
    note run = rotate_run [OF Inr True, of u client, unfolded assms]
    show ?thesis
    proof (cases "refresh_row (cl_jti c) w")
      case None
      with run show ?thesis by (intro refused) simp_all
    next
      case (Some s)
      then have key: "refresh_row (rt_jti s) w = Some s" using refresh_row_Some [OF Some] by simp
      obtain q v where stored: "rotate_stored env u client s w = (q, v)" by (cases "rotate_stored env u client s w")
      from stored key show ?thesis
      proof (cases rule: rotate_stored_cases)
        case (exchanged pair b j)
        with run Some stored Inr True show ?thesis by (intro that(1)) simp_all
      next
        case (replayed m)
        with run Some stored Inr show ?thesis by (intro that(2)) simp_all
      qed (use run Some stored in \<open>auto intro: refused\<close>)
    qed
  qed
qed

lemma rotated_world_simps [simp]:
  "draws (rotated_world env u client s j w) = Suc (Suc (draws w))"
  "principals (rotated_world env u client s j w) = principals w"
  "clock (rotated_world env u client s j w) = clock w"
  by (simp_all add: rotated_world_def)

lemma rotated_row:
  assumes "refresh_row (rt_jti s) w = Some s" and "\<forall>r \<in> set (refresh_tokens w). rt_jti r \<noteq> uuid env (Suc (draws w))"
  shows "refresh_row k (rotated_world env u client s j w) =
    (if k = rt_jti s then Some (s\<lparr>rt_usedAt := Some (clock w), rt_replacedByJti := j\<rparr>)
     else if k = uuid env (Suc (draws w))
     then Some (mint_row env u (rt_principalId s) (rt_familyId s) (session_client s client) w)
     else refresh_row k w)"
proof -
  have upd: "find (\<lambda>r. rt_jti r = i) (update_where (\<lambda>r. rt_jti r = rt_jti s) (\<lambda>_. s\<lparr>rt_usedAt := Some (clock w), rt_replacedByJti := j\<rparr>) rows)
    = (if i = rt_jti s then map_option (\<lambda>_. s\<lparr>rt_usedAt := Some (clock w), rt_replacedByJti := j\<rparr>) (find (\<lambda>r. rt_jti r = i) rows)
       else find (\<lambda>r. rt_jti r = i) rows)" for rows i
    by (induction rows) auto
  from assms(2) have "find (\<lambda>r. rt_jti r = uuid env (Suc (draws w))) (refresh_tokens w) = None"
    by (auto simp: find_None_iff)
  moreover from assms have "rt_jti s \<noteq> uuid env (Suc (draws w))"
    using refresh_row_Some by blast
  ultimately show ?thesis
    using assms(1) by (cases "k = rt_jti s"; cases "k = uuid env (Suc (draws w))")
      (simp_all add: refresh_row_def rotated_world_def find_append upd split: option.split)
qed

lemma within_ttl: "0 < r \<Longrightarrow> (x::int) < (x div 1000 + r) * 1000"
proof -
  assume "0 < r"
  then have "1000 \<le> r * 1000" by simp
  moreover have "x = x div 1000 * 1000 + x mod 1000" "x mod 1000 < 1000" by simp_all
  ultimately show ?thesis unfolding distrib_right by linarith
qed

text \<open>
  C20. A good refresh token is exchanged. When the token verifies, is recorded, is neither used nor
  revoked nor expired, and the request comes from the session's client, rotation returns a pair;
  the presented token is used up and points to its replacement, the replacement is usable, belongs
  to the same family and principal, carries the session's client (bound now if the session had
  none), and verifies as a refresh token; no other token of the table changes.
\<close>

theorem rotate_exchanges:
  assumes "jwt_ok env" and "inj (uuid env)" and "0 < refreshTtlSeconds env" and "sessions_ok env w"
    and "peekRefresh env token w = (Inr c, w)" and "refresh_row (cl_jti c) w = Some s" and "exchangeable s client w"
  shows "\<exists>pair t n new. rotate env token u client w = (Inr (pair, sessionClientDecision (rt_client s) client = Bind), t)
    \<and> refresh_row (cl_jti c) t = Some (s\<lparr>rt_usedAt := Some (clock w), rt_replacedByJti := Some n\<rparr>)
    \<and> refresh_row n w = None \<and> refresh_row n t = Some new \<and> live new
    \<and> rt_familyId new = rt_familyId s \<and> rt_principalId new = rt_principalId s
    \<and> rt_client new = (case rt_client s of Some d \<Rightarrow> Some d | None \<Rightarrow> clientNameOf client)
    \<and> (\<exists>d. peekRefresh env (tp_refreshToken pair) t = (Inr d, t) \<and> cl_jti d = n)
    \<and> (\<forall>k. k \<noteq> cl_jti c \<longrightarrow> k \<noteq> n \<longrightarrow> refresh_row k t = refresh_row k w)"
proof -
  let ?n = "uuid env (Suc (draws w))"
  let ?pair = "mint_pair env u (rt_principalId s) (rt_familyId s) (session_client s client) w"
  let ?t = "rotated_world env u client s (Some ?n) w"
  let ?new = "mint_row env u (rt_principalId s) (rt_familyId s) (session_client s client) w"
  let ?d = "refresh_claims env u (rt_principalId s) (rt_familyId s) (session_client s client) ?n (clock w div 1000)"
  from assms(5) have v: "verified env token (clock w) = Inr c" and use: "cl_token_use c = ''refresh''"
    by (simp_all add: peekRefresh_Inr)
  have s: "s \<in> set (refresh_tokens w)" and jti: "rt_jti s = cl_jti c"
    using refresh_row_Some [OF assms(6)] by auto
  have fresh: "\<forall>r \<in> set (refresh_tokens w). rt_jti r \<noteq> ?n" by (rule fresh_jti [OF assms(4,2)]) simp
  have mint: "mintPair env u (rt_principalId s) (rt_familyId s) (session_client s client) w =
      (Inr ?pair, w\<lparr>draws := Suc (Suc (draws w)), refresh_tokens := refresh_tokens w @ [?new]\<rparr>)"
    by (rule mintPair_fresh [OF fresh sessions_okD(4) [OF assms(4) s]])
  have run: "rotate env token u client w = (Inr (?pair, sessionClientDecision (rt_client s) client = Bind), ?t)"
    using assms(6,7) mint fresh s decode_mint [OF assms(1)]
    by (auto simp: rotate_run [OF v use] rotate_stored_def exchangeable_def live_def session_client_def andThen_run Let_def
        save_used_def rotated_world_def)
  have "refresh_row ?n w = None" using fresh by (auto simp: refresh_row_def find_None_iff)
  have "clock w < (clock w div 1000 + refreshTtlSeconds env) * 1000" by (rule within_ttl [OF assms(3)])
  then have "peekRefresh env (tp_refreshToken ?pair) ?t = (Inr ?d, ?t)"
    by (simp add: peekRefresh_Inr mint_pair_def verified_signed [OF assms(1)])
  with run rotated_row [of s w env _ u client "Some ?n"] assms(6) jti fresh \<open>refresh_row ?n w = None\<close> show ?thesis
    by (intro exI [of _ ?pair] exI [of _ ?t] exI [of _ ?n] exI [of _ ?new])
      (auto simp: live_def session_client_def)
qed

definition sample_refresh :: RefreshTokenRow where
  "sample_refresh = \<lparr>rt_jti = decimal 2, rt_familyId = decimal 0, rt_principalId = decimal 3, rt_userId = 1,
     rt_client = None, rt_expiresAt = 604800000, rt_usedAt = None, rt_revokedAt = None, rt_revokedReason = None,
     rt_replacedByJti = None, rt_createdAt = 0\<rparr>"

definition sample_sessions :: world where
  "sample_sessions = empty_world\<lparr>draws := 4, refresh_tokens := [sample_refresh],
     principals := [\<lparr>pr_id = decimal 3, pr_kind = PRINCIPAL_KIND_CUSTOMER, pr_displayName = None\<rparr>]\<rparr>"

definition sample_subject :: TokenSubject where
  "sample_subject = \<lparr>ts_id = 1, ts_email = ''a@b.c'', ts_role = Customer\<rparr>"

definition sample_refresh_claims :: Claims where
  "sample_refresh_claims = refresh_claims sample_env sample_subject (decimal 3) (decimal 0) None (decimal 2) 0"

definition sample_token :: "Claims \<times> KeyObject \<times> string" where
  "sample_token = jwt_sign sample_env sample_refresh_claims (privateKey sample_env) (keyId sample_env)"

lemma sample_sessions_ok [simp]: "sessions_ok sample_env sample_sessions"
proof -
  have "drawn sample_env sample_sessions (decimal k)" if "k < 4" for k
    using that by (auto simp: drawn_def sample_sessions_def sample_env_def)
  then show ?thesis
    by (simp add: sessions_ok_def sample_sessions_def sample_refresh_def)
qed

lemma sample_peek [simp]: "peekRefresh sample_env sample_token sample_sessions = (Inr sample_refresh_claims, sample_sessions)"
  by (simp add: peekRefresh_Inr sample_token_def verified_signed_iff)
    (simp add: sample_refresh_claims_def sample_sessions_def empty_world_def sample_env_def)

lemma sample_refresh_row [simp]: "refresh_row (cl_jti sample_refresh_claims) sample_sessions = Some sample_refresh"
  by (simp add: refresh_row_def sample_refresh_claims_def sample_sessions_def sample_refresh_def)

theorem rotate_exchanges_witness:
  "\<exists>pair t. rotate sample_env sample_token sample_subject (Named ''web'') sample_sessions = (Inr (pair, True), t)"
proof -
  have "exchangeable sample_refresh (Named ''web'') sample_sessions"
    by (simp add: exchangeable_def live_def sample_refresh_def sample_sessions_def empty_world_def sessionClientDecision_def)
  from rotate_exchanges [OF sample_env_jwt sample_env_uuid _ sample_sessions_ok sample_peek sample_refresh_row this, of sample_subject]
  show ?thesis by (auto simp: sample_env_def sample_refresh_def sessionClientDecision_def)
qed

section \<open>The machine\<close>

text \<open>
  Everything that touches the table of refresh tokens, with any arguments and any outcome, and
  everything that does not: sign-ins that mint principals, requests on other tables, time.
\<close>

inductive session_step :: "'tok Env \<Rightarrow> world \<Rightarrow> world \<Rightarrow> bool" for env :: "'tok Env" where
  issuing: "issuePair env u p c w = (r, t) \<Longrightarrow> session_step env w t"
| rotating: "rotate env token u client w = (r, t) \<Longrightarrow> session_step env w t"
| revoking_family: "revokeFamily f reason w = (r, t) \<Longrightarrow> session_step env w t"
| revoking_principal: "revokeAllFamiliesForPrincipal p reason w = (r, t) \<Longrightarrow> session_step env w t"
| revoking_others: "revokeOtherSessions p kept reason w = (r, t) \<Longrightarrow> session_step env w t"
| logging_out: "token_logout c f w = (r, t) \<Longrightarrow> session_step env w t"
| not_sessions: "refresh_tokens t = refresh_tokens w \<Longrightarrow> draws w \<le> draws t \<Longrightarrow>
     pr_id ` set (principals w) \<subseteq> pr_id ` set (principals t) \<Longrightarrow> session_step env w t"

text \<open>Every step either leaves the table, revokes, adds a family, or exchanges a token.\<close>

inductive table_change :: "'tok Env \<Rightarrow> world \<Rightarrow> world \<Rightarrow> bool" for env :: "'tok Env" where
  same_table: "refresh_tokens t = refresh_tokens w \<Longrightarrow> draws w \<le> draws t \<Longrightarrow>
     pr_id ` set (principals w) \<subseteq> pr_id ` set (principals t) \<Longrightarrow> table_change env w t"
| revoked_by_family: "refresh_tokens t = refresh_tokens (snd (revoke_where (\<lambda>r. Q (rt_familyId r) (rt_principalId r)) reason w)) \<Longrightarrow>
     draws t = draws w \<Longrightarrow> principals t = principals w \<Longrightarrow> table_change env w t"
| family_added: "w' = w\<lparr>draws := Suc (draws w)\<rparr> \<Longrightarrow> p \<in> pr_id ` set (principals w) \<Longrightarrow>
     \<forall>r \<in> set (refresh_tokens w). rt_jti r \<noteq> uuid env (Suc (draws w')) \<Longrightarrow>
     t = w\<lparr>draws := Suc (Suc (draws w')),
       refresh_tokens := refresh_tokens w @ [mint_row env u p (uuid env (draws w)) c w']\<rparr> \<Longrightarrow> table_change env w t"
| token_exchanged: "refresh_row (rt_jti s) w = Some s \<Longrightarrow> exchangeable s client w \<Longrightarrow>
     \<forall>r \<in> set (refresh_tokens w). rt_jti r \<noteq> uuid env (Suc (draws w)) \<Longrightarrow>
     t = rotated_world env u client s j w \<Longrightarrow> table_change env w t"

lemma revoke_where_frame [simp]:
  "draws (snd (revoke_where P m w)) = draws w" "principals (snd (revoke_where P m w)) = principals w"
  "clock (snd (revoke_where P m w)) = clock w" "revoked_access_tokens (snd (revoke_where P m w)) = revoked_access_tokens w"
  by (simp_all add: revoke_where_def)

lemma recordRevokedJti_frame:
  "recordRevokedJti j e m w = (r, t) \<Longrightarrow> refresh_tokens t = refresh_tokens w \<and> draws t = draws w
     \<and> principals t = principals w \<and> clock t = clock w"
  by (auto simp: recordRevokedJti_def insert_revoked_def catches_run andThen_run isUniqueViolation_def split: if_splits)

lemma revoke_where_cong:
  "refresh_tokens v = refresh_tokens w \<Longrightarrow> clock v = clock w \<Longrightarrow>
   refresh_tokens (snd (revoke_where P m v)) = refresh_tokens (snd (revoke_where P m w))"
  by (simp add: revoke_where_def)

lemma token_logout_change: "token_logout c f w = (r, t) \<Longrightarrow> table_change env w t"
proof -
  assume run: "token_logout c f w = (r, t)"
  obtain q v where rec: "recordRevokedJti (cl_jti c) (cl_exp c * 1000) ''logout'' w = (q, v)"
    by (cases "recordRevokedJti (cl_jti c) (cl_exp c * 1000) ''logout'' w")
  note v = recordRevokedJti_frame [OF rec]
  show ?thesis
  proof (cases q)
    case (Inl e)
    with run rec have "t = v" by (simp add: token_logout_def revokeAccessJti_def andThen_run)
    with v show ?thesis by (intro same_table) auto
  next
    case (Inr b)
    let ?Q = "\<lambda>g p. if f \<noteq> None \<and> f \<noteq> Some '''' then g = the f else p = cl_sub c"
    from Inr run rec have "t = snd (revoke_where (\<lambda>r. ?Q (rt_familyId r) (rt_principalId r)) ''logout'' v)"
      by (auto simp: token_logout_def revokeAccessJti_def andThen_run revokeFamily_def revokeAllFamiliesForPrincipal_def
          revoke_where_def split: if_splits)
    with v show ?thesis
      by (intro revoked_by_family [where Q = ?Q and reason = "''logout''"]) (simp_all add: revoke_where_cong [of v w])
  qed
qed

lemma issuePair_change: "issuePair env u p c w = (r, t) \<Longrightarrow> table_change env w t"
proof -
  assume "issuePair env u p c w = (r, t)"
  then have "mintPair env u p (uuid env (draws w)) c (w\<lparr>draws := Suc (draws w)\<rparr>) = (r, t)"
    by (simp add: issuePair_def andThen_run)
  then show ?thesis
  proof (cases rule: mintPair_cases)
    case minted
    then show ?thesis by (intro family_added [of "w\<lparr>draws := Suc (draws w)\<rparr>" w p env t u c]) simp_all
  next
    case (not_minted e)
    then show ?thesis by (intro same_table) simp_all
  qed
qed

lemma session_step_change: "session_step env w t \<Longrightarrow> table_change env w t"
proof (induction rule: session_step.cases)
  case (issuing u p c w r t)
  then show ?case by (blast intro: issuePair_change)
next
  case (rotating token u client w r t)
  from rotating(3) have "table_change env w t"
  proof (cases rule: rotate_cases)
    case (exchanged c s pair b j)
    from refresh_row_Some [OF exchanged(3)] exchanged(3) have "refresh_row (rt_jti s) w = Some s" by simp
    then show ?thesis by (rule token_exchanged) (rule exchanged)+
  next
    case (replayed c s m)
    then show ?thesis
      by (intro revoked_by_family [where Q = "\<lambda>g p. g = rt_familyId s" and reason = "''rotation_reuse''"])
        (simp_all add: revokeFamily_def)
  next
    case (refused e)
    then show ?thesis by (intro same_table) simp_all
  qed
  with rotating show ?case by simp
next
  case (revoking_family f reason w r t)
  then have "t = snd (revoke_where (\<lambda>r. rt_familyId r = f) reason w)"
    by (simp add: revokeFamily_def)
  with revoking_family show ?case
    by (intro revoked_by_family [where Q = "\<lambda>g p. g = f" and reason = reason]) simp_all
next
  case (revoking_principal p reason w r t)
  then have "t = snd (revoke_where (\<lambda>r. rt_principalId r = p) reason w)"
    by (simp add: revokeAllFamiliesForPrincipal_def)
  with revoking_principal show ?case
    by (intro revoked_by_family [where Q = "\<lambda>g q. q = p" and reason = reason]) simp_all
next
  case (revoking_others p kept reason w r t)
  let ?Q = "\<lambda>g q. q = p \<and> (case kept of None \<Rightarrow> True | Some k \<Rightarrow> g \<noteq> k)"
  from revoking_others have "t = snd (revoke_where (\<lambda>r. ?Q (rt_familyId r) (rt_principalId r)) reason w)"
    by (cases kept) (simp_all add: revokeOtherSessions_def revokeAllFamiliesForPrincipal_def)
  with revoking_others show ?case
    by (intro revoked_by_family [where Q = ?Q and reason = reason]) simp_all
next
  case (logging_out c f w r t)
  then show ?case by (blast intro: token_logout_change)
next
  case (not_sessions t w)
  then show ?case by (blast intro: same_table)
qed

section \<open>The invariant holds in every reachable state\<close>

lemma table_change_ok:
  assumes "inj (uuid env)" and ok: "sessions_ok env w" and "table_change env w t"
  shows "sessions_ok env t"
  using assms(3)
proof cases
  case same_table
  then show ?thesis by (intro sessions_ok_frame [OF ok])
next
  case (revoked_by_family Q reason)
  have "sessions_ok env (snd (revoke_where (\<lambda>r. Q (rt_familyId r) (rt_principalId r)) reason w))"
    by (rule sessions_ok_revoke [OF ok]) (metis sessions_okD(5) [OF ok])
  with revoked_by_family show ?thesis by (elim sessions_ok_frame) simp_all
next
  case (family_added w' p u c)
  show ?thesis
  proof (rule sessions_ok_new_family [OF ok, where row = "mint_row env u p (uuid env (draws w)) c w'"])
    show "\<forall>r \<in> set (refresh_tokens w). rt_familyId r \<noteq> rt_familyId (mint_row env u p (uuid env (draws w)) c w')"
      using fresh_family [OF ok assms(1), of "draws w"] by simp
    show "rt_jti (mint_row env u p (uuid env (draws w)) c w') \<notin> rt_jti ` set (refresh_tokens w)"
      using family_added(3) by auto
    show "drawn env t (rt_jti (mint_row env u p (uuid env (draws w)) c w'))"
      "drawn env t (rt_familyId (mint_row env u p (uuid env (draws w)) c w'))"
      using family_added by (simp_all add: drawnI)
  qed (use family_added in simp_all)
next
  case (token_exchanged s client u j)
  then have s: "s \<in> set (refresh_tokens w)" "live s"
    using refresh_row_Some by (auto simp: exchangeable_def)
  show ?thesis
  proof (rule sessions_ok_rotated [OF ok s])
    show "refresh_tokens t = update_where (\<lambda>r. rt_jti r = rt_jti s)
       (\<lambda>_. s\<lparr>rt_usedAt := Some (clock w), rt_replacedByJti := j\<rparr>) (refresh_tokens w)
       @ [mint_row env u (rt_principalId s) (rt_familyId s) (session_client s client) w]"
      using token_exchanged by (simp add: rotated_world_def)
    show "drawn env t (rt_jti (mint_row env u (rt_principalId s) (rt_familyId s) (session_client s client) w))"
      using token_exchanged by (auto simp: drawn_def)
  qed (use token_exchanged in simp_all)
qed

interpretation sessions: invariant_machine "\<lambda>w. refresh_tokens w = []" "session_step env"
  "\<lambda>w. inj (uuid env) \<longrightarrow> sessions_ok env w" for env
proof unfold_locales
  fix s :: world
  assume "refresh_tokens s = []"
  then show "inj (uuid env) \<longrightarrow> sessions_ok env s" by (simp add: sessions_ok_def)
next
  fix s t
  assume "inj (uuid env) \<longrightarrow> sessions_ok env s" and "session_step env s t"
  then show "inj (uuid env) \<longrightarrow> sessions_ok env t"
    using table_change_ok session_step_change by blast
qed

lemma length_filter_at_most_one:
  "distinct xs \<Longrightarrow> (\<And>x y. x \<in> set xs \<Longrightarrow> y \<in> set xs \<Longrightarrow> P x \<Longrightarrow> P y \<Longrightarrow> x = y) \<Longrightarrow> length (filter P xs) \<le> 1"
proof (induction xs)
  case Nil
  then show ?case by simp
next
  case (Cons x xs)
  show ?case
  proof (cases "P x")
    case True
    with Cons.prems have "filter P xs = []" by (auto simp: filter_empty_conv)
    with True show ?thesis by simp
  next
    case False
    with Cons show ?thesis by simp
  qed
qed

text \<open>
  C1. One usable token per session. In every state the service can reach from an empty table, with
  sign-ins, rotations, revocations, logouts and other requests in any order, a family has at most
  one refresh token that is neither used nor revoked.
\<close>

theorem one_live_token_per_family:
  assumes "inj (uuid env)" and "reaches (\<lambda>w. refresh_tokens w = []) (session_step env) w"
  shows "length (filter (\<lambda>r. live r \<and> rt_familyId r = f) (refresh_tokens w)) \<le> 1"
proof -
  have ok: "sessions_ok env w" using sessions.inv_reaches [OF assms(2)] assms(1) by blast
  from sessions_okD(1) [OF ok] have "distinct (refresh_tokens w)" by (simp add: distinct_map)
  then show ?thesis
    using sessions_okD(7) [OF ok] by (intro length_filter_at_most_one) auto
qed

theorem one_live_token_per_family_witness:
  "length (filter (\<lambda>r. live r \<and> rt_familyId r = decimal 0)
     (refresh_tokens (snd (issuePair sample_env sample_subject (decimal 9) None
        (empty_world\<lparr>principals := [\<lparr>pr_id = decimal 9, pr_kind = PRINCIPAL_KIND_CUSTOMER, pr_displayName = None\<rparr>]\<rparr>))))) \<le> 1"
proof -
  let ?w = "empty_world\<lparr>principals := [\<lparr>pr_id = decimal 9, pr_kind = PRINCIPAL_KIND_CUSTOMER, pr_displayName = None\<rparr>]\<rparr>"
  have "reaches (\<lambda>w. refresh_tokens w = []) (session_step sample_env) ?w"
    by (rule at_start) (simp add: empty_world_def)
  from by_step [OF this issuing [of sample_env sample_subject "decimal 9" None ?w "fst (issuePair sample_env sample_subject (decimal 9) None ?w)"
        "snd (issuePair sample_env sample_subject (decimal 9) None ?w)"]]
  show ?thesis using one_live_token_per_family [OF sample_env_uuid] by simp
qed

section \<open>A revoked session stays dead\<close>

definition dead :: "'tok Env \<Rightarrow> string \<Rightarrow> world \<Rightarrow> bool" where
  "dead env f w \<longleftrightarrow> drawn env w f \<and> (\<forall>r \<in> set (refresh_tokens w). rt_familyId r = f \<longrightarrow> rt_revokedAt r \<noteq> None)"

lemma table_change_dead:
  assumes "inj (uuid env)" and "dead env f w" and "table_change env w t"
  shows "dead env f t"
  using assms(3)
proof cases
  case same_table
  with assms(2) show ?thesis using drawn_mono by (auto simp: dead_def)
next
  case (revoked_by_family Q reason)
  from revoked_by_family(2) have "drawn env t f = drawn env w f" by (rule drawn_cong)
  with assms(2) revoked_by_family(1) show ?thesis
    by (auto simp: dead_def revoke_where_def set_update_where)
next
  case (family_added w' p u c)
  have "f \<noteq> uuid env (draws w)" using assms(2) fresh_draw [OF assms(1) order_refl] by (auto simp: dead_def)
  moreover have "drawn env t f" using assms(2) drawn_mono [of env w f t] family_added by (simp add: dead_def)
  ultimately show ?thesis using assms(2) family_added by (auto simp: dead_def)
next
  case (token_exchanged s client u j)
  then have s: "s \<in> set (refresh_tokens w)" "rt_revokedAt s = None"
    using refresh_row_Some by (auto simp: exchangeable_def live_def)
  with assms(2) have "rt_familyId s \<noteq> f" by (auto simp: dead_def)
  moreover have "drawn env t f" using assms(2) drawn_mono [of env w f t] token_exchanged by (simp add: dead_def)
  ultimately show ?thesis
    using assms(2) token_exchanged by (auto simp: dead_def rotated_world_def set_update_where)
qed

interpretation dead_session: invariant_machine "dead env f" "session_step env" "\<lambda>w. inj (uuid env) \<longrightarrow> dead env f w" for env f
  by unfold_locales (use table_change_dead session_step_change in blast)+

lemma dead_stays: "inj (uuid env) \<Longrightarrow> dead env f w \<Longrightarrow> (session_step env)\<^sup>*\<^sup>* w t \<Longrightarrow> dead env f t"
  using dead_session.inv_steps by blast

lemma revoked_row_refused:
  assumes "peekRefresh env token w = (Inr c, w)" and "refresh_row (cl_jti c) w = Some s" and "rt_revokedAt s \<noteq> None"
  shows "rotate env token u client w = (Inl (UnauthorizedException ''This refresh token has been revoked''), w)"
proof -
  from assms(1) have v: "verified env token (clock w) = Inr c" and use: "cl_token_use c = ''refresh''"
    by (simp_all add: peekRefresh_Inr)
  with assms(2,3) show ?thesis by (simp add: rotate_run [OF v use] rotate_stored_def)
qed

lemma dead_refuses:
  assumes "dead env f w" and "peekRefresh env token w = (Inr c, w)" and "refresh_row (cl_jti c) w = Some s"
    and "rt_familyId s = f"
  shows "rotate env token u client w = (Inl (UnauthorizedException ''This refresh token has been revoked''), w)"
  using assms refresh_row_Some [OF assms(3)] by (intro revoked_row_refused [OF assms(2,3)]) (auto simp: dead_def)

lemma revokeFamily_dead: "drawn env w f \<Longrightarrow> dead env f (snd (revokeFamily f reason w))"
  by (auto simp: dead_def revokeFamily_def revoke_where_def set_update_where drawn_def)

text \<open>
  C2. Replaying a used refresh token ends the session for good. Presenting a token that was already
  exchanged is refused, and from then on, whatever the service does, every token of its family is
  revoked and every attempt to exchange one is refused.
\<close>

theorem replay_ends_session:
  assumes "inj (uuid env)" and "sessions_ok env w" and "peekRefresh env token w = (Inr c, w)"
    and "refresh_row (cl_jti c) w = Some s" and "rt_usedAt s \<noteq> None" and "rt_revokedAt s = None"
  shows "\<exists>m t. rotate env token u client w = (Inl (UnauthorizedException m), t) \<and>
    (\<forall>later. (session_step env)\<^sup>*\<^sup>* t later \<longrightarrow>
       (\<forall>r \<in> set (refresh_tokens later). rt_familyId r = rt_familyId s \<longrightarrow> rt_revokedAt r \<noteq> None) \<and>
       (\<forall>token' c' s' u' client'. peekRefresh env token' later = (Inr c', later) \<longrightarrow>
          refresh_row (cl_jti c') later = Some s' \<longrightarrow> rt_familyId s' = rt_familyId s \<longrightarrow>
          rotate env token' u' client' later =
            (Inl (UnauthorizedException ''This refresh token has been revoked''), later)))"
proof -
  from assms(3) have v: "verified env token (clock w) = Inr c" and use: "cl_token_use c = ''refresh''"
    by (simp_all add: peekRefresh_Inr)
  let ?t = "snd (revokeFamily (rt_familyId s) ''rotation_reuse'' w)"
  have run: "rotate env token u client w =
      (Inl (UnauthorizedException ''This refresh token has already been used; the session has been revoked''), ?t)"
    using assms(4-6) by (simp add: rotate_run [OF v use] rotate_stored_def revokeFamily_def revoke_where_def)
  have "dead env (rt_familyId s) ?t"
    using refresh_row_Some [OF assms(4)] sessions_okD(3) [OF assms(2)] by (intro revokeFamily_dead) auto
  then have later: "dead env (rt_familyId s) later" if "(session_step env)\<^sup>*\<^sup>* ?t later" for later
    using dead_stays [OF assms(1)] that by blast
  show ?thesis
  proof (intro exI conjI allI impI)
    show "rotate env token u client w =
      (Inl (UnauthorizedException ''This refresh token has already been used; the session has been revoked''), ?t)"
      by (rule run)
  next
    fix v assume "(session_step env)\<^sup>*\<^sup>* ?t v"
    from later [OF this] show "\<forall>r \<in> set (refresh_tokens v). rt_familyId r = rt_familyId s \<longrightarrow> rt_revokedAt r \<noteq> None"
      by (simp add: dead_def)
  next
    fix v token' c' s' u' client'
    assume "(session_step env)\<^sup>*\<^sup>* ?t v" "peekRefresh env token' v = (Inr c', v)"
      "refresh_row (cl_jti c') v = Some s'" "rt_familyId s' = rt_familyId s"
    then show "rotate env token' u' client' v =
        (Inl (UnauthorizedException ''This refresh token has been revoked''), v)"
      using dead_refuses [OF later] by blast
  qed
qed

definition replayed_sessions :: world where
  "replayed_sessions = sample_sessions\<lparr>refresh_tokens := [sample_refresh\<lparr>rt_usedAt := Some 0\<rparr>]\<rparr>"

theorem replay_ends_session_witness:
  "\<exists>m. fst (rotate sample_env sample_token sample_subject Unnamed replayed_sessions) = Inl (UnauthorizedException m)"
proof -
  have ok: "sessions_ok sample_env replayed_sessions"
  proof -
    have "drawn sample_env replayed_sessions (decimal k)" if "k < 4" for k
      using that by (auto simp: drawn_def sample_sessions_def replayed_sessions_def sample_env_def)
    then show ?thesis
      by (simp add: sessions_ok_def replayed_sessions_def sample_sessions_def sample_refresh_def)
  qed
  have peek: "peekRefresh sample_env sample_token replayed_sessions = (Inr sample_refresh_claims, replayed_sessions)"
    using sample_peek [unfolded peekRefresh_Inr] by (simp add: peekRefresh_Inr replayed_sessions_def)
  have row: "refresh_row (cl_jti sample_refresh_claims) replayed_sessions = Some (sample_refresh\<lparr>rt_usedAt := Some 0\<rparr>)"
    by (simp add: refresh_row_def sample_refresh_claims_def replayed_sessions_def sample_refresh_def)
  from replay_ends_session [OF sample_env_uuid ok peek row, of sample_subject Unnamed]
  show ?thesis by (auto simp: sample_refresh_def)
qed

section \<open>A refresh token is exchanged at most once\<close>

text \<open>A call of \<^verbatim>\<open>rotate\<close> with a token that carries the claims \<open>c\<close>, and whether it was exchanged.\<close>

definition spend_refresh ::
  "'tok Env \<Rightarrow> 'tok \<times> TokenSubject \<times> RequestClient \<times> Claims \<Rightarrow> world \<Rightarrow> bool \<times> world" where
  "spend_refresh env a w =
     (case a of (token, u, client, c) \<Rightarrow>
        if verified env token (clock w) = Inr c
        then (case rotate env token u client w of (r, t) \<Rightarrow> (\<not> isl r, t)) else (False, w))"

definition spent_jti :: "'tok \<times> TokenSubject \<times> RequestClient \<times> Claims \<Rightarrow> string" where
  "spent_jti a = (case a of (_, _, _, c) \<Rightarrow> cl_jti c)"

definition used_up :: "string \<Rightarrow> world \<Rightarrow> bool" where
  "used_up j w \<longleftrightarrow> (\<exists>s. refresh_row j w = Some s \<and> \<not> live s)"

lemma refresh_row_revoke:
  "refresh_row k (snd (revoke_where P m w)) =
     map_option (\<lambda>r. if P r \<and> rt_revokedAt r = None then revoke_row (clock w) m r else r) (refresh_row k w)"
  by (simp add: refresh_row_def revoke_where_def find_update_where_key)

lemma table_change_used_up:
  assumes "used_up k w" and "table_change env w t"
  shows "used_up k t"
  using assms(2)
proof cases
  case same_table
  with assms(1) show ?thesis by (simp add: used_up_def refresh_row_def)
next
  case (revoked_by_family Q reason)
  then have "refresh_row k t = refresh_row k (snd (revoke_where (\<lambda>r. Q (rt_familyId r) (rt_principalId r)) reason w))"
    by (simp add: refresh_row_def)
  moreover from assms(1) obtain s where "refresh_row k w = Some s" and "\<not> live s" by (auto simp: used_up_def)
  ultimately have "refresh_row k t = Some (if Q (rt_familyId s) (rt_principalId s) \<and> rt_revokedAt s = None
      then revoke_row (clock w) reason s else s)" (is "_ = Some ?s")
    by (simp add: refresh_row_revoke)
  moreover have "\<not> live ?s" using \<open>\<not> live s\<close> by (simp add: live_def)
  ultimately show ?thesis unfolding used_up_def by blast
next
  case (family_added w' p u c)
  with assms(1) show ?thesis by (auto simp: used_up_def refresh_row_def find_append)
next
  case (token_exchanged s client u j)
  from assms(1) obtain q where q: "refresh_row k w = Some q" "\<not> live q" by (auto simp: used_up_def)
  with token_exchanged(3) have "k \<noteq> uuid env (Suc (draws w))" using refresh_row_Some by blast
  with q show ?thesis
    unfolding used_up_def token_exchanged(4) rotated_row [OF token_exchanged(1,3)] by (auto simp: live_def)
qed

interpretation refresh_token: one_shot "spend_refresh env" spent_jti "session_step env" used_up "\<lambda>_. True" for env
proof unfold_locales
  fix a :: "'a \<times> TokenSubject \<times> RequestClient \<times> Claims" and s t :: world
  assume win: "spend_refresh env a s = (True, t)"
  obtain token u client c where a: "a = (token, u, client, c)" by (cases a)
  from win a obtain r where v: "verified env token (clock s) = Inr c" and run: "rotate env token u client s = (r, t)"
    and "\<not> isl r" by (auto simp: spend_refresh_def split: if_splits prod.splits)
  from run show "\<not> used_up (spent_jti a) s \<and> used_up (spent_jti a) t"
  proof (cases rule: rotate_cases)
    case (exchanged d q pair b j)
    with v have "d = c" by simp
    with exchanged(3) have key: "refresh_row (rt_jti q) s = Some q" "rt_jti q = cl_jti c"
      using refresh_row_Some [OF exchanged(3)] by simp_all
    have "used_up (cl_jti c) t"
      unfolding used_up_def exchanged(10) rotated_row [OF key(1) exchanged(9)] using key by (simp add: live_def)
    with exchanged(3,4) \<open>d = c\<close> show ?thesis
      by (simp add: a spent_jti_def used_up_def exchangeable_def)
  qed (use \<open>\<not> isl r\<close> in auto)
next
  fix k s a won t
  assume "used_up k s" and "spend_refresh env a s = (won, t)"
  then show "used_up k t"
    using table_change_used_up [of k s env t] session_step_change [OF rotating]
    by (fastforce simp: spend_refresh_def split: if_splits prod.splits)
next
  fix k s t
  assume "used_up k s" and "session_step env s t"
  then show "used_up k t" using table_change_used_up session_step_change by blast
qed simp_all

text \<open>
  A refresh token is exchanged at most once. However presentations of it, of other tokens and
  all other requests are ordered, at most one presentation of a token with a given id succeeds.
\<close>

theorem refresh_token_exchanged_once:
  "spend_run (spend_refresh env) spent_jti (session_step env) jti w n t \<Longrightarrow> n \<le> 1"
  using refresh_token.at_most_once by blast

theorem refresh_token_exchanged_once_witness:
  "\<exists>n t. spend_run (spend_refresh sample_env) spent_jti (session_step sample_env) (decimal 2) sample_sessions n t \<and> n \<le> 1"
proof -
  let ?a = "(sample_token, sample_subject, Unnamed, sample_refresh_claims)"
  obtain won t where "spend_refresh sample_env ?a sample_sessions = (won, t)" by fastforce
  from run_spend [of "spend_refresh sample_env" spent_jti "session_step sample_env" "decimal 2" sample_sessions 0 sample_sessions,
      OF run_start this] show ?thesis
    using refresh_token_exchanged_once by blast
qed

section \<open>Revoked access tokens stay revoked\<close>

inductive revocation_step :: "world \<Rightarrow> world \<Rightarrow> bool" where
  recording: "recordRevokedJti j e m w = (r, t) \<Longrightarrow> revocation_step w t"
| sweeping: "sweepExpiredRevocations w = (r, t) \<Longrightarrow> revocation_step w t"
| not_revocations: "revoked_access_tokens t = revoked_access_tokens w \<Longrightarrow> clock w \<le> clock t \<Longrightarrow> revocation_step w t"

text \<open>The token is on the list for as long as it would verify.\<close>

definition barred :: "Claims \<Rightarrow> world \<Rightarrow> bool" where
  "barred c w \<longleftrightarrow> (\<exists>r \<in> set (revoked_access_tokens w). rv_jti r = cl_jti c \<and> cl_exp c * 1000 \<le> rv_expiresAt r)
     \<or> cl_exp c * 1000 \<le> clock w"

lemma recordRevokedJti_run:
  "recordRevokedJti j e m w = (if revoked_row j w = None
     then (Inr True, w\<lparr>revoked_access_tokens := revoked_access_tokens w @ [\<lparr>rv_jti = j, rv_expiresAt = e, rv_reason = m\<rparr>]\<rparr>)
     else (Inr False, w))"
  by (simp add: recordRevokedJti_def insert_revoked_def catches_run andThen_run isUniqueViolation_def)

lemma revoked_row_None: "revoked_row j w = None \<longleftrightarrow> (\<forall>r \<in> set (revoked_access_tokens w). rv_jti r \<noteq> j)"
  by (auto simp: revoked_row_def find_None_iff)

lemma barred_step:
  assumes "barred c w" and "revocation_step w t"
  shows "barred c t"
  using assms(2)
proof cases
  case (recording j e m r)
  with assms(1) show ?thesis by (auto simp: recordRevokedJti_run barred_def split: if_splits)
next
  case (sweeping r)
  then have "t = w\<lparr>revoked_access_tokens := delete_where (\<lambda>r. rv_expiresAt r < clock w) (revoked_access_tokens w)\<rparr>"
    by (simp add: sweepExpiredRevocations_def Let_def)
  with assms(1) show ?thesis by (fastforce simp: barred_def)
next
  case not_revocations
  with assms(1) show ?thesis by (auto simp: barred_def)
qed

interpretation barred_token: invariant_machine "barred c" revocation_step "barred c" for c
  by unfold_locales (use barred_step in blast)+

lemma barred_refused:
  assumes "jwt_ok env" and "barred c w" and "verified env token now = Inr c"
  shows "\<exists>m. verifyAccess env token w = (Inl (UnauthorizedException m), w)"
    and "\<exists>m. verifySession env token w = (Inl (UnauthorizedException m), w)"
proof -
  have "(\<exists>m. verified env token (clock w) = Inl (UnauthorizedException m)) \<or>
      (verified env token (clock w) = Inr c \<and> revoked_row (cl_jti c) w \<noteq> None)"
  proof (cases "verified env token (clock w)")
    case (Inl e)
    then show ?thesis using verified_error [OF Inl] by simp
  next
    case (Inr d)
    have "d = c" by (rule verified_stable [OF assms(1) Inr assms(3)])
    moreover have "clock w < cl_exp d * 1000" using verified_valid [OF assms(1) Inr] by simp
    ultimately have "\<exists>r \<in> set (revoked_access_tokens w). rv_jti r = cl_jti c"
      using assms(2) unfolding barred_def by auto
    then have "revoked_row (cl_jti c) w \<noteq> None" by (auto simp: revoked_row_None)
    with Inr \<open>d = c\<close> show ?thesis by simp
  qed
  then show "\<exists>m. verifyAccess env token w = (Inl (UnauthorizedException m), w)"
    and "\<exists>m. verifySession env token w = (Inl (UnauthorizedException m), w)"
    by (auto simp: verifyAccess_def verifySession_def refuseRevoked_def andThen_run)
qed

text \<open>
  C21. Logging out ends the access token at once and for good. From the moment of the logout the
  token that was presented is refused, as an access token and as a session, however much time
  passes and whatever the sweep of expired revocations removes.
\<close>

theorem logout_ends_access_token:
  assumes "jwt_ok env" and "verifyAccess env token w = (Inr c, w)" and "token_logout c family w = (r, t)"
    and "revocation_step\<^sup>*\<^sup>* t later"
  shows "(\<exists>m. verifyAccess env token later = (Inl (UnauthorizedException m), later)) \<and>
    (\<exists>m. verifySession env token later = (Inl (UnauthorizedException m), later))"
proof -
  from assms(2) have v: "verified env token (clock w) = Inr c" and free: "revoked_row (cl_jti c) w = None"
    by (auto simp: verifyAccess_def refuseRevoked_def andThen_run split: sum.splits if_splits)
  from assms(3) free have "revoked_access_tokens t = revoked_access_tokens w @
      [\<lparr>rv_jti = cl_jti c, rv_expiresAt = cl_exp c * 1000, rv_reason = ''logout''\<rparr>]"
    by (auto simp: token_logout_def revokeAccessJti_def recordRevokedJti_run andThen_run revokeFamily_def
        revokeAllFamiliesForPrincipal_def revoke_where_def split: if_splits)
  then have "barred c t" by (simp add: barred_def)
  with assms(4) have "barred c later" by (rule barred_token.inv_steps)
  with barred_refused [OF assms(1) _ v] show ?thesis by blast
qed

definition sample_access_claims :: Claims where
  "sample_access_claims = access_claims sample_env sample_subject (decimal 3) (decimal 0) None (decimal 1) 0"

definition sample_access_token :: "Claims \<times> KeyObject \<times> string" where
  "sample_access_token = jwt_sign sample_env sample_access_claims (privateKey sample_env) (keyId sample_env)"

lemma sample_verified: "verified sample_env sample_access_token 0 = Inr sample_access_claims"
  by (simp add: sample_access_token_def verified_signed_iff)
    (simp add: sample_access_claims_def sample_env_def)

lemma sample_access [simp]: "verifyAccess sample_env sample_access_token sample_sessions = (Inr sample_access_claims, sample_sessions)"
  by (simp add: verifyAccess_def refuseRevoked_def andThen_run sample_verified sample_sessions_def empty_world_def
      sample_access_claims_def revoked_row_def)

theorem logout_ends_access_token_witness:
  "verifyAccess sample_env sample_access_token sample_sessions = (Inr sample_access_claims, sample_sessions) \<and>
   (\<exists>m. fst (verifyAccess sample_env sample_access_token (snd (token_logout sample_access_claims None sample_sessions))) =
      Inl (UnauthorizedException m))"
proof -
  have run: "token_logout sample_access_claims None sample_sessions =
      (fst (token_logout sample_access_claims None sample_sessions), snd (token_logout sample_access_claims None sample_sessions))"
    by simp
  from logout_ends_access_token [OF sample_env_jwt sample_access run rtranclp.rtrancl_refl] show ?thesis by auto
qed

text \<open>
  C22. Logging out ends the session. The tokens of the family it names, or of every family of the
  principal when it names none, are revoked, and no later request makes one usable again.
\<close>

theorem logout_ends_session:
  assumes "inj (uuid env)" and "sessions_ok env w" and "token_logout c family w = (r, t)"
    and "s \<in> set (refresh_tokens w)"
    and "case family of Some f \<Rightarrow> f \<noteq> '''' \<and> rt_familyId s = f | None \<Rightarrow> rt_principalId s = cl_sub c"
    and "(session_step env)\<^sup>*\<^sup>* t later"
  shows "\<forall>q \<in> set (refresh_tokens later). rt_familyId q = rt_familyId s \<longrightarrow> rt_revokedAt q \<noteq> None"
proof -
  let ?P = "\<lambda>q. case family of Some f \<Rightarrow> rt_familyId q = f | None \<Rightarrow> rt_principalId q = cl_sub c"
  obtain q v where rec: "recordRevokedJti (cl_jti c) (cl_exp c * 1000) ''logout'' w = (Inr q, v)"
    by (cases "revoked_row (cl_jti c) w = None") (auto simp: recordRevokedJti_run)
  note v = recordRevokedJti_frame [OF rec]
  have t: "t = snd (revoke_where ?P ''logout'' v)"
    using assms(3,5) rec by (cases family)
      (auto simp: token_logout_def revokeAccessJti_def andThen_run revokeFamily_def revokeAllFamiliesForPrincipal_def
        revoke_where_def)
  have P: "?P q" if "q \<in> set (refresh_tokens w)" "rt_familyId q = rt_familyId s" for q
    using that assms(5) sessions_okD(5) [OF assms(2) that(1) assms(4) that(2)] by (auto split: option.splits)
  have "dead env (rt_familyId s) t"
    using sessions_okD(3) [OF assms(2,4)] v P
    by (auto simp: dead_def t revoke_where_def set_update_where drawn_def)
  from dead_stays [OF assms(1) this assms(6)] show ?thesis by (simp add: dead_def)
qed

theorem logout_ends_session_witness:
  "filter (\<lambda>q. rt_familyId q = rt_familyId sample_refresh \<and> rt_revokedAt q = None)
     (refresh_tokens (snd (token_logout sample_access_claims None sample_sessions))) = []"
proof -
  have run: "token_logout sample_access_claims None sample_sessions =
      (fst (token_logout sample_access_claims None sample_sessions), snd (token_logout sample_access_claims None sample_sessions))"
    by simp
  have "sample_refresh \<in> set (refresh_tokens sample_sessions)" by (simp add: sample_sessions_def)
  from logout_ends_session [OF sample_env_uuid sample_sessions_ok run this _ rtranclp.rtrancl_refl]
  show ?thesis by (auto simp: sample_refresh_def sample_access_claims_def filter_empty_conv)
qed

section \<open>A two-factor challenge is answered once\<close>

definition spend_challenge :: "Claims \<Rightarrow> world \<Rightarrow> bool \<times> world" where
  "spend_challenge c w =
     (if clock w < cl_exp c * 1000 then (case consumeMfaChallenge c w of (r, t) \<Rightarrow> (\<not> isl r, t)) else (False, w))"

lemma consumeMfaChallenge_run:
  "consumeMfaChallenge c w = (if revoked_row (cl_jti c) w = None
     then (Inr (), w\<lparr>revoked_access_tokens := revoked_access_tokens w @
        [\<lparr>rv_jti = cl_jti c, rv_expiresAt = cl_exp c * 1000, rv_reason = ''mfa_challenge_used''\<rparr>]\<rparr>)
     else (Inl spentChallenge, w))"
  by (simp add: consumeMfaChallenge_def recordRevokedJti_run andThen_run)

interpretation mfa_challenge: one_shot spend_challenge "\<lambda>c. c" revocation_step barred "\<lambda>_. True"
proof unfold_locales
  fix c s t
  assume "spend_challenge c s = (True, t)"
  then show "\<not> barred c s \<and> barred c t"
    by (auto simp: spend_challenge_def consumeMfaChallenge_run barred_def revoked_row_None split: if_splits)
next
  fix k s c won t
  assume "barred k s" and "spend_challenge c s = (won, t)"
  then show "barred k t"
    by (auto simp: spend_challenge_def consumeMfaChallenge_run barred_def split: if_splits)
qed (use barred_step in blast)+

text \<open>
  A two-factor challenge is consumed at most once while it is valid, whatever other revocations
  and sweeps happen in between: the sweep forgets it only after it has expired.
\<close>

theorem challenge_consumed_once:
  "spend_run spend_challenge (\<lambda>c. c) revocation_step claims w n t \<Longrightarrow> n \<le> 1"
  using mfa_challenge.at_most_once by blast

theorem challenge_consumed_once_witness:
  "fst (spend_challenge sample_access_claims sample_sessions) \<and>
   spend_run spend_challenge (\<lambda>c. c) revocation_step sample_access_claims sample_sessions 1
     (snd (spend_challenge sample_access_claims sample_sessions)) \<and> (1::nat) \<le> 1"
proof -
  have won: "spend_challenge sample_access_claims sample_sessions = (True, snd (spend_challenge sample_access_claims sample_sessions))"
    by (simp add: spend_challenge_def consumeMfaChallenge_run sample_access_claims_def sample_sessions_def empty_world_def
        revoked_row_def sample_env_def)
  have run: "spend_run spend_challenge (\<lambda>c. c) revocation_step sample_access_claims sample_sessions 1
      (snd (spend_challenge sample_access_claims sample_sessions))"
    using run_spend [of spend_challenge "\<lambda>c. c" revocation_step sample_access_claims sample_sessions 0 sample_sessions,
      OF run_start won] by simp
  show ?thesis using won run challenge_consumed_once [OF run] by (simp add: prod_eq_iff)
qed

end
