(* ===== verification/Client_Gate.thy ===== *)
theory Client_Gate
  imports World
begin

text \<open>
  Which client a request comes from: the registry of clients read from the settings
  (\<^verbatim>\<open>infrastructure/config/client_registry.ts\<close>, \<^verbatim>\<open>required_setting.ts\<close>), the gate that names the
  client of a request and refuses it otherwise (\<^verbatim>\<open>application/services/client_gate.service.ts\<close>),
  the verifier of Firebase App Check proofs (\<^verbatim>\<open>attestation/firebase_app_check_verifier.ts\<close>) and
  its cached key set (\<^verbatim>\<open>attestation/app_check_key_set.ts\<close>). A request runs alone, so a download of
  the key set is never found in flight.
\<close>

section \<open>Settings\<close>

definition requiredSetting :: "string \<Rightarrow> string option \<Rightarrow> failure + string" where
  "requiredSetting name v =
     (case v of
        None \<Rightarrow> Inl (PlainError (name @ '' is required and has no default. Set it in the environment.''))
      | Some s \<Rightarrow> if js_trim s = [] then Inl (PlainError (name @ '' is required and has no default. Set it in the environment.''))
          else Inr s)"

definition positiveIntegerSetting :: "string \<Rightarrow> string option \<Rightarrow> failure + nat" where
  "positiveIntegerSetting name v =
     (case requiredSetting name v of
        Inl e \<Rightarrow> Inl e
      | Inr s \<Rightarrow>
          (let raw = js_trim s in
           if raw = [] \<or> \<not> list_all is_digit raw \<or> digits_value raw > 9007199254740991 \<or> digits_value raw = 0
           then Inl (PlainError (name @ '' is not a positive whole number.''))
           else Inr (digits_value raw)))"

section \<open>The registry\<close>

datatype ClientProofKind = AppCheckProof | NoProof

datatype RegisteredClient =
    PlainClient (client_name: string)
  | AttestedClient (client_name: string) (client_appIds: "string list")

datatype UnnamedClientPolicy = Allow | Refuse

record ClientRegistry =
  cr_clients :: "(string \<times> RegisteredClient) list"
  cr_unnamed :: UnnamedClientPolicy
  cr_firebaseProjectNumber :: "string option"

definition name_char :: "char \<Rightarrow> bool" where
  "name_char c \<longleftrightarrow> is_lower c \<or> is_digit c"

text \<open>\<^verbatim>\<open>/^[a-z][a-z0-9]*(-[a-z0-9]+)*$/u\<close>: words of lower-case letters and digits joined by hyphens.\<close>

definition CLIENT_NAME :: "string \<Rightarrow> bool" where
  "CLIENT_NAME s \<longleftrightarrow> s \<noteq> [] \<and> is_lower (hd s) \<and>
     list_all (\<lambda>word. word \<noteq> [] \<and> list_all name_char word) (js_split (CHR ''-'') s)"

definition LONGEST_CLIENT_NAME :: nat where "LONGEST_CLIENT_NAME = 64"

definition RESERVED_CLIENT_NAMES :: "string list" where
  "RESERVED_CLIENT_NAMES = [''unnamed'', ''unknown'']"

definition unnamedPolicyOf :: "string \<Rightarrow> failure + UnnamedClientPolicy" where
  "unnamedPolicyOf raw =
     (let policy = js_trim raw in
      if policy = ''allow'' then Inr Allow
      else if policy = ''refuse'' then Inr Refuse
      else Inl (PlainError ''IDENTITY_UNNAMED_CLIENTS must be allow or refuse.''))"

fun proofKindOf :: "string \<Rightarrow> ClientProofKind option" where
  "proofKindOf proof =
     (if proof = ''app_check'' then Some AppCheckProof else if proof = ''none'' then Some NoProof else None)"

fun declare_clients :: "string list \<Rightarrow> (string \<times> ClientProofKind) list \<Rightarrow> failure + (string \<times> ClientProofKind) list" where
  "declare_clients [] declared = Inr declared"
| "declare_clients (entry # entries) declared =
     (case map js_trim (js_split (CHR '':'') entry) of
        [name, proof] \<Rightarrow>
          if entry = [] then Inl (PlainError ''every entry is name:proof, separated by commas.'')
          else if \<not> CLIENT_NAME name \<or> length name > LONGEST_CLIENT_NAME \<or> name \<in> set RESERVED_CLIENT_NAMES
          then Inl (PlainError ''IDENTITY_CLIENTS names a client badly'')
          else (case proofKindOf proof of
              None \<Rightarrow> Inl (PlainError ''a proof is app_check or none.'')
            | Some kind \<Rightarrow>
                if name \<in> fst ` set declared then Inl (PlainError ''IDENTITY_CLIENTS names a client twice.'')
                else declare_clients entries (declared @ [(name, kind)]))
      | _ \<Rightarrow> Inl (PlainError ''every entry is name:proof, separated by commas.''))"

definition declaredClientsOf :: "string \<Rightarrow> failure + (string \<times> ClientProofKind) list" where
  "declaredClientsOf raw = declare_clients (map js_trim (js_split (CHR '','') raw)) []"

definition projectNumberOf :: "string option \<Rightarrow> failure + string" where
  "projectNumberOf raw =
     (case requiredSetting ''FIREBASE_PROJECT_NUMBER'' raw of
        Inl e \<Rightarrow> Inl e
      | Inr s \<Rightarrow>
          (let projectNumber = js_trim s in
           if projectNumber \<noteq> [] \<and> list_all is_digit projectNumber then Inr projectNumber
           else Inl (PlainError ''FIREBASE_PROJECT_NUMBER is the project's number (digits), not its id.'')))"

definition appIdSettingOf :: "string \<Rightarrow> string" where
  "appIdSettingOf name =
     ''IDENTITY_APP_CHECK_APP_IDS_'' @ map (\<lambda>c. if c = CHR ''-'' then CHR ''_'' else c) (js_toUpperCase name)"

text \<open>\<^verbatim>\<open>/^[0-9]+:([0-9]+):[a-z]+:[0-9A-Za-z]+$/u\<close>, returning the captured project number.\<close>

definition FIREBASE_APP_ID :: "string \<Rightarrow> string option" where
  "FIREBASE_APP_ID s =
     (case js_split (CHR '':'') s of
        [a, b, c, d] \<Rightarrow>
          if a \<noteq> [] \<and> list_all is_digit a \<and> b \<noteq> [] \<and> list_all is_digit b \<and> c \<noteq> [] \<and> list_all is_lower c \<and>
             d \<noteq> [] \<and> list_all (\<lambda>x. is_digit x \<or> is_upper x \<or> is_lower x) d
          then Some b else None
      | _ \<Rightarrow> None)"

fun collect_appIds :: "string \<Rightarrow> string list \<Rightarrow> string list \<Rightarrow> failure + string list" where
  "collect_appIds projectNumber [] appIds = Inr appIds"
| "collect_appIds projectNumber (appId # rest) appIds =
     (case FIREBASE_APP_ID appId of
        None \<Rightarrow> Inl (PlainError ''not a Firebase app id (1:<number>:<platform>:<hash>).'')
      | Some project \<Rightarrow>
          if project \<noteq> projectNumber then Inl (PlainError ''an app of another project than FIREBASE_PROJECT_NUMBER.'')
          else collect_appIds projectNumber rest (List.insert appId appIds))"

definition appIdsOf :: "string \<Rightarrow> string \<Rightarrow> (string \<Rightarrow> string option) \<Rightarrow> failure + string list" where
  "appIdsOf name projectNumber read =
     (let setting = appIdSettingOf name in
      case requiredSetting setting (read setting) of
        Inl e \<Rightarrow> Inl e
      | Inr v \<Rightarrow> collect_appIds projectNumber (map js_trim (js_split (CHR '','') v)) [])"

fun register_clients ::
  "(string \<Rightarrow> string option) \<Rightarrow> (string \<times> ClientProofKind) list \<Rightarrow> (string \<times> RegisteredClient) list \<Rightarrow> string option
   \<Rightarrow> failure + (string \<times> RegisteredClient) list \<times> string option" where
  "register_clients read [] clients projectNumber = Inr (clients, projectNumber)"
| "register_clients read ((name, NoProof) # rest) clients projectNumber =
     register_clients read rest (clients @ [(name, PlainClient name)]) projectNumber"
| "register_clients read ((name, AppCheckProof) # rest) clients projectNumber =
     (case (case projectNumber of Some p \<Rightarrow> Inr p | None \<Rightarrow> projectNumberOf (read ''FIREBASE_PROJECT_NUMBER'')) of
        Inl e \<Rightarrow> Inl e
      | Inr p \<Rightarrow> (case appIdsOf name p read of
            Inl e \<Rightarrow> Inl e
          | Inr ids \<Rightarrow> register_clients read rest (clients @ [(name, AttestedClient name ids)]) (Some p)))"

definition clientRegistryFrom :: "(string \<Rightarrow> string option) \<Rightarrow> failure + ClientRegistry" where
  "clientRegistryFrom read =
     (case requiredSetting ''IDENTITY_UNNAMED_CLIENTS'' (read ''IDENTITY_UNNAMED_CLIENTS'') of
        Inl e \<Rightarrow> Inl e
      | Inr rawPolicy \<Rightarrow> (case unnamedPolicyOf rawPolicy of
            Inl e \<Rightarrow> Inl e
          | Inr unnamed \<Rightarrow> (case requiredSetting ''IDENTITY_CLIENTS'' (read ''IDENTITY_CLIENTS'') of
                Inl e \<Rightarrow> Inl e
              | Inr raw \<Rightarrow> (case declaredClientsOf raw of
                    Inl e \<Rightarrow> Inl e
                  | Inr declared \<Rightarrow> (case register_clients read declared [] None of
                        Inl e \<Rightarrow> Inl e
                      | Inr (clients, projectNumber) \<Rightarrow>
                          Inr \<lparr>cr_clients = clients, cr_unnamed = unnamed, cr_firebaseProjectNumber = projectNumber\<rparr>)))))"

section \<open>The key set\<close>

definition KEYS_LIVE_MS :: int where "KEYS_LIVE_MS = 6 * 60 * 60 * 1000"
definition REFETCH_INTERVAL_MS :: int where "REFETCH_INTERVAL_MS = 10 * 1000"
definition SHORTEST_MODULUS_BITS :: nat where "SHORTEST_MODULUS_BITS = 2048"
definition APP_CHECK_ALGORITHM :: string where "APP_CHECK_ALGORITHM = ''RS256''"
definition APP_CHECK_TOKEN_TYPE :: string where "APP_CHECK_TOKEN_TYPE = ''JWT''"
definition APP_CHECK_ISSUER_PREFIX :: string where
  "APP_CHECK_ISSUER_PREFIX = ''https://firebaseappcheck.googleapis.com/''"

text \<open>
  A field of a parsed JSON object: absent, a string, or something else. An entry of the document's
  \<^verbatim>\<open>keys\<close> is an object with the fields the code reads, or not an object.
\<close>

datatype json_field = NoField | StringField string | OtherField

datatype jwk_entry =
    NotAnObject
  | JwkEntry (jwk_kty: json_field) (jwk_use: json_field) (jwk_alg: json_field) (jwk_kid: json_field)
      (jwk_n: json_field) (jwk_e: json_field)

datatype JwksAnswer =
    NoAnswer
  | HttpError nat
  | NotJwks
  | JwksDocument "jwk_entry list"

datatype proof_header = ProofHeader "string option" "string option" "string option"

datatype proof_number = NumberClaim int | NoNumberClaim

record ProofClaims =
  pcl_iss :: "string option"
  pcl_aud :: "string list"
  pcl_exp :: proof_number
  pcl_iat :: proof_number
  pcl_nbf :: "int option"
  pcl_sub :: "string option"

datatype proof_payload = ProofSignatureBad | ProofText | ProofClaims ProofClaims

text \<open>The libraries and the remote end the verifier relies on.\<close>

record AppCheckEnv =
  jwks_answer :: "int \<Rightarrow> JwksAnswer"
  createPublicKey :: "string \<Rightarrow> string \<Rightarrow> KeyObject option"
  modulusLength :: "KeyObject \<Rightarrow> nat"
  proof_header_of :: "string \<Rightarrow> proof_header option"
  proof_verify :: "string \<Rightarrow> KeyObject \<Rightarrow> proof_payload"

definition signingKeyOf :: "AppCheckEnv \<Rightarrow> jwk_entry \<Rightarrow> failure + (string \<times> KeyObject) option" where
  "signingKeyOf ac entry =
     (case entry of
        NotAnObject \<Rightarrow> Inl (PlainError ''the key set holds an entry that is not a key'')
      | JwkEntry kty use alg kid n e \<Rightarrow>
          (let signs = (use = NoField \<or> use = StringField ''sig'');
               rs256 = (alg = NoField \<or> alg = StringField APP_CHECK_ALGORITHM)
           in case kid of
                StringField k \<Rightarrow>
                  if kty \<noteq> StringField ''RSA'' \<or> \<not> signs \<or> \<not> rs256 \<or> k = [] then Inr None
                  else (case (n, e) of
                      (StringField n', StringField e') \<Rightarrow>
                        (case createPublicKey ac n' e' of
                           None \<Rightarrow> Inl (PlainError ''createPublicKey'')
                         | Some key \<Rightarrow>
                             if modulusLength ac key < SHORTEST_MODULUS_BITS
                             then Inl (PlainError ''the key set's key is too short'')
                             else Inr (Some (k, key)))
                    | _ \<Rightarrow> Inl (PlainError ''the key set's key has no modulus or exponent''))
              | _ \<Rightarrow> Inr None))"

fun collect_keys :: "AppCheckEnv \<Rightarrow> jwk_entry list \<Rightarrow> (string \<times> KeyObject) list \<Rightarrow> failure + (string \<times> KeyObject) list" where
  "collect_keys ac [] keys = Inr keys"
| "collect_keys ac (entry # entries) keys =
     (case signingKeyOf ac entry of
        Inl e \<Rightarrow> Inl e
      | Inr None \<Rightarrow> collect_keys ac entries keys
      | Inr (Some (kid, key)) \<Rightarrow> collect_keys ac entries (map_set kid key keys))"

definition keysOf :: "AppCheckEnv \<Rightarrow> jwk_entry list \<Rightarrow> failure + (string \<times> KeyObject) list" where
  "keysOf ac entries =
     (case collect_keys ac entries [] of
        Inl e \<Rightarrow> Inl e
      | Inr keys \<Rightarrow> if keys = [] then Inl (PlainError ''the key set holds no RS256 signing key'') else Inr keys)"

definition download :: "AppCheckEnv \<Rightarrow> (string \<times> KeyObject) list act" where
  "download ac =
     andThen (writes (\<lambda>w. w\<lparr>outbox := outbox w @ [AppCheckKeysFetch (clock w)]\<rparr>))
     (\<lambda>_. andThen (reads clock)
     (\<lambda>now. case jwks_answer ac now of
        NoAnswer \<Rightarrow> throws (PlainError ''fetch failed'')
      | HttpError status \<Rightarrow> throws (PlainError (''the key set answered HTTP '' @ decimal status))
      | NotJwks \<Rightarrow> throws (PlainError ''the key set is not a JWKS document'')
      | JwksDocument entries \<Rightarrow> lifted (keysOf ac entries)))"

definition fetchKeys :: "AppCheckEnv \<Rightarrow> unit act" where
  "fetchKeys ac =
     catches
       (andThen (download ac)
        (\<lambda>keys. writes (\<lambda>w. w\<lparr>app_check_keys := (app_check_keys w)
           \<lparr>ks_keys := Some keys, ks_fetchedAtMs := clock w, ks_lastAttemptFailed := False\<rparr>\<rparr>)))
       (\<lambda>_. writes (\<lambda>w. w\<lparr>app_check_keys := (app_check_keys w)\<lparr>ks_lastAttemptFailed := True\<rparr>\<rparr>))"

definition refetch :: "AppCheckEnv \<Rightarrow> unit act" where
  "refetch ac =
     andThen (reads (\<lambda>w. (ks_lastAttemptAtMs (app_check_keys w), clock w)))
     (\<lambda>(lastAttempt, now).
        if (case lastAttempt of Some l \<Rightarrow> now - l < REFETCH_INTERVAL_MS | None \<Rightarrow> False) then returns ()
        else andThen (writes (\<lambda>w. w\<lparr>app_check_keys := (app_check_keys w)\<lparr>ks_lastAttemptAtMs := Some now\<rparr>\<rparr>))
             (\<lambda>_. fetchKeys ac))"

definition freshKeys :: "world \<Rightarrow> (string \<times> KeyObject) list option" where
  "freshKeys w =
     (if ks_keys (app_check_keys w) = None \<or> clock w - ks_fetchedAtMs (app_check_keys w) \<ge> KEYS_LIVE_MS then None
      else ks_keys (app_check_keys w))"

datatype SigningKeyLookup = KeyFound KeyObject | KeyUnknown | KeyUnavailable

definition keyFor :: "AppCheckEnv \<Rightarrow> string \<Rightarrow> SigningKeyLookup act" where
  "keyFor ac kid =
     andThen (reads freshKeys)
     (\<lambda>fresh. case Option.bind fresh (\<lambda>keys. map_of keys kid) of
        Some key \<Rightarrow> returns (KeyFound key)
      | None \<Rightarrow>
          andThen (refetch ac)
          (\<lambda>_. andThen (reads freshKeys)
          (\<lambda>keys. case keys of
             None \<Rightarrow> returns KeyUnavailable
           | Some ks \<Rightarrow> (case map_of ks kid of
                 Some key \<Rightarrow> returns (KeyFound key)
               | None \<Rightarrow> andThen (reads (\<lambda>w. ks_lastAttemptFailed (app_check_keys w)))
                   (\<lambda>lastFailed. returns (if lastFailed then KeyUnavailable else KeyUnknown))))))"

section \<open>The verifier\<close>

datatype ProofVerdict = ProofValid | ProofInvalid ClientRefusalReason | ProofUnavailable

definition CLOCK_LEEWAY_SECONDS :: int where "CLOCK_LEEWAY_SECONDS = 60"

definition judge :: "string \<Rightarrow> ProofClaims \<Rightarrow> string list \<Rightarrow> int \<Rightarrow> ProofVerdict" where
  "judge projectNumber claims appIds nowMs =
     (if pcl_iss claims \<noteq> Some (APP_CHECK_ISSUER_PREFIX @ projectNumber)
         \<or> (''projects/'' @ projectNumber) \<notin> set (pcl_aud claims)
      then ProofInvalid wrong_project
      else (case (pcl_exp claims, pcl_iat claims) of
          (NumberClaim expiry, NumberClaim iat) \<Rightarrow>
            (let now = nowMs div 1000 in
             if expiry \<le> now then ProofInvalid expired
             else
               (let notBefore = (case pcl_nbf claims of Some n \<Rightarrow> n | None \<Rightarrow> iat) in
                if iat > now + CLOCK_LEEWAY_SECONDS \<or> notBefore > now + CLOCK_LEEWAY_SECONDS
                then ProofInvalid not_yet_valid
                else (case pcl_sub claims of
                    Some sub \<Rightarrow> if sub \<in> set appIds then ProofValid else ProofInvalid wrong_app_id
                  | None \<Rightarrow> ProofInvalid wrong_app_id)))
        | _ \<Rightarrow> ProofInvalid malformed))"

definition verify_proof :: "AppCheckEnv \<Rightarrow> string \<Rightarrow> string \<Rightarrow> string list \<Rightarrow> ProofVerdict act" where
  "verify_proof ac projectNumber proof appIds =
     (case proof_header_of ac proof of
        Some (ProofHeader alg typ kid) \<Rightarrow>
          if alg \<noteq> Some APP_CHECK_ALGORITHM \<or> typ \<noteq> Some APP_CHECK_TOKEN_TYPE \<or> kid = None \<or> kid = Some ''''
          then returns (ProofInvalid malformed)
          else
            andThen (keyFor ac (the kid))
            (\<lambda>found. case found of
               KeyUnavailable \<Rightarrow> returns ProofUnavailable
             | KeyUnknown \<Rightarrow> returns (ProofInvalid invalid_signature)
             | KeyFound key \<Rightarrow>
                 (case proof_verify ac proof key of
                    ProofSignatureBad \<Rightarrow> returns (ProofInvalid invalid_signature)
                  | ProofText \<Rightarrow> returns (ProofInvalid malformed)
                  | ProofClaims claims \<Rightarrow>
                      andThen (reads clock) (\<lambda>nowMs. returns (judge projectNumber claims appIds nowMs))))
      | None \<Rightarrow> returns (ProofInvalid malformed))"

section \<open>The gate\<close>

definition UNNAMED :: string where "UNNAMED = ''unnamed''"
definition UNKNOWN :: string where "UNKNOWN = ''unknown''"

definition PROOF_REFUSALS :: "ClientRefusalReason list" where
  "PROOF_REFUSALS = [missing, malformed, invalid_signature, expired, not_yet_valid, wrong_project, wrong_app_id,
     keys_unavailable]"

fun refusalOf :: "ClientRefusalReason \<Rightarrow> failure" where
  "refusalOf unknown_client = BadRequestException ''UNKNOWN_CLIENT''"
| "refusalOf client_required = BadRequestException ''CLIENT_REQUIRED''"
| "refusalOf missing = UnauthorizedException ''CLIENT_PROOF_REQUIRED''"
| "refusalOf keys_unavailable = ServiceUnavailableException ''CLIENT_PROOF_UNAVAILABLE''"
| "refusalOf client_mismatch = UnauthorizedException ''CLIENT_MISMATCH''"
| "refusalOf malformed = UnauthorizedException ''CLIENT_PROOF_INVALID''"
| "refusalOf invalid_signature = UnauthorizedException ''CLIENT_PROOF_INVALID''"
| "refusalOf expired = UnauthorizedException ''CLIENT_PROOF_INVALID''"
| "refusalOf not_yet_valid = UnauthorizedException ''CLIENT_PROOF_INVALID''"
| "refusalOf wrong_project = UnauthorizedException ''CLIENT_PROOF_INVALID''"
| "refusalOf wrong_app_id = UnauthorizedException ''CLIENT_PROOF_INVALID''"

datatype header_value = HeaderAbsent | HeaderText string | HeaderList "string list"

record Gate =
  gt_registry :: ClientRegistry
  gt_verifier :: "string option"

definition clientGateFrom :: "(string \<Rightarrow> string option) \<Rightarrow> failure + Gate" where
  "clientGateFrom read =
     (case clientRegistryFrom read of
        Inl e \<Rightarrow> Inl e
      | Inr registry \<Rightarrow>
          if (\<exists>c \<in> snd ` set (cr_clients registry). case c of AttestedClient _ _ \<Rightarrow> True | PlainClient _ \<Rightarrow> False)
             \<and> cr_firebaseProjectNumber registry = None
          then Inl (PlainError ''a client is configured with app_check, and no App Check verifier was given'')
          else Inr \<lparr>gt_registry = registry, gt_verifier = cr_firebaseProjectNumber registry\<rparr>)"

definition refuse_client :: "string \<Rightarrow> ClientRefusalReason \<Rightarrow> 'a act" where
  "refuse_client client reason =
     andThen (record_event (ClientProofRefused client reason)) (\<lambda>_. throws (refusalOf reason))"

definition prove :: "AppCheckEnv \<Rightarrow> Gate \<Rightarrow> string \<Rightarrow> string list \<Rightarrow> header_value \<Rightarrow> unit act" where
  "prove ac gate name appIds header =
     (let proof = (case header of HeaderText s \<Rightarrow> js_trim s | _ \<Rightarrow> []) in
      if proof = [] then refuse_client name missing
      else (case gt_verifier gate of
          None \<Rightarrow> throws (PlainError ''client uses app_check, and no App Check verifier was given'')
        | Some projectNumber \<Rightarrow>
            andThen (verify_proof ac projectNumber proof appIds)
            (\<lambda>verdict. case verdict of
               ProofUnavailable \<Rightarrow> refuse_client name keys_unavailable
             | ProofInvalid reason \<Rightarrow> refuse_client name reason
             | ProofValid \<Rightarrow> returns ())))"

definition admit_client :: "AppCheckEnv \<Rightarrow> Gate \<Rightarrow> (string \<Rightarrow> header_value) \<Rightarrow> RequestClient act" where
  "admit_client ac gate headers =
     (case headers ''x-kinetix-client'' of
        HeaderAbsent \<Rightarrow>
          if cr_unnamed (gt_registry gate) = Refuse then refuse_client UNNAMED client_required else returns Unnamed
      | HeaderList _ \<Rightarrow> refuse_client UNKNOWN unknown_client
      | HeaderText presented \<Rightarrow>
          (case map_of (cr_clients (gt_registry gate)) presented of
             None \<Rightarrow> refuse_client UNKNOWN unknown_client
           | Some (PlainClient name) \<Rightarrow> returns (Named name)
           | Some (AttestedClient name appIds) \<Rightarrow>
               andThen (prove ac gate name appIds (headers ''x-firebase-appcheck'')) (\<lambda>_. returns (Named name))))"

definition mismatch :: "string option \<Rightarrow> RequestClient \<Rightarrow> nat \<Rightarrow> failure act" where
  "mismatch sessionClient request userId =
     (let client = (case request of Named n \<Rightarrow> n | Unnamed \<Rightarrow> UNNAMED) in
      andThen (record_event (ClientProofRefused client client_mismatch)) (\<lambda>_. returns (refusalOf client_mismatch)))"

definition bound :: "string \<Rightarrow> nat \<Rightarrow> unit act" where
  "bound client userId = record_event (ClientSessionBound client userId)"

definition refusalSeries :: "ClientRegistry \<Rightarrow> (string \<times> ClientRefusalReason) list" where
  "refusalSeries registry =
     [(UNKNOWN, unknown_client), (UNNAMED, client_required), (UNNAMED, client_mismatch)] @
     concat (map (\<lambda>(_, client).
        (client_name client, client_mismatch) #
        (case client of AttestedClient name _ \<Rightarrow> map (\<lambda>reason. (name, reason)) PROOF_REFUSALS | PlainClient _ \<Rightarrow> []))
       (cr_clients registry))"

section \<open>What the registry guarantees\<close>

definition good_client_name :: "string \<Rightarrow> bool" where
  "good_client_name n \<longleftrightarrow> CLIENT_NAME n \<and> length n \<le> LONGEST_CLIENT_NAME \<and> n \<notin> set RESERVED_CLIENT_NAMES"

lemma declare_clients_ok:
  assumes "declare_clients entries declared = Inr out" and "distinct (map fst declared)"
    and "\<forall>n \<in> fst ` set declared. good_client_name n"
  shows "distinct (map fst out) \<and> (\<forall>n \<in> fst ` set out. good_client_name n)"
  using assms
proof (induction entries declared rule: declare_clients.induct)
  case (1 declared)
  then show ?case by simp
next
  case (2 entry entries declared)
  from "2.prems"(1) obtain name pf kind where
    parts: "map js_trim (js_split (CHR '':'') entry) = [name, pf]" and "entry \<noteq> []"
    and good: "\<not> (\<not> CLIENT_NAME name \<or> length name > LONGEST_CLIENT_NAME \<or> name \<in> set RESERVED_CLIENT_NAMES)"
    and kind: "proofKindOf pf = Some kind" and new: "name \<notin> fst ` set declared"
    and rest: "declare_clients entries (declared @ [(name, kind)]) = Inr out"
    by (auto split: list.splits if_splits option.splits)
  have "distinct (map fst (declared @ [(name, kind)]))" and "\<forall>n \<in> fst ` set (declared @ [(name, kind)]). good_client_name n"
    using "2.prems"(2,3) new good by (auto simp: good_client_name_def)
  with rest "2.IH" [OF parts] \<open>entry \<noteq> []\<close> good kind new show ?case by auto
qed

definition registered_ok :: "string option \<Rightarrow> string \<times> RegisteredClient \<Rightarrow> bool" where
  "registered_ok project e \<longleftrightarrow> fst e = client_name (snd e) \<and> good_client_name (fst e) \<and>
     (case snd e of PlainClient _ \<Rightarrow> True
      | AttestedClient _ ids \<Rightarrow> ids \<noteq> [] \<and> project \<noteq> None \<and> (\<forall>i \<in> set ids. FIREBASE_APP_ID i = project))"

lemma collect_appIds_ok:
  "collect_appIds p xs acc = Inr out \<Longrightarrow> \<forall>i \<in> set acc. FIREBASE_APP_ID i = Some p \<Longrightarrow>
   set out = set acc \<union> set xs \<and> (\<forall>i \<in> set out. FIREBASE_APP_ID i = Some p)"
  by (induction p xs acc rule: collect_appIds.induct) (auto split: option.splits if_splits)

lemma appIdsOf_ok:
  assumes "appIdsOf name p read = Inr ids"
  shows "ids \<noteq> [] \<and> (\<forall>i \<in> set ids. FIREBASE_APP_ID i = Some p)"
proof -
  from assms obtain v where "collect_appIds p (map js_trim (js_split (CHR '','') v)) [] = Inr ids"
    by (auto simp: appIdsOf_def Let_def split: sum.splits)
  from collect_appIds_ok [OF this] have all: "\<forall>i \<in> set ids. FIREBASE_APP_ID i = Some p"
    and "set ids = set (map js_trim (js_split (CHR '','') v))" by simp_all
  then have "ids \<noteq> []" by (metis js_split_not_Nil map_is_Nil_conv set_empty)
  with all show ?thesis by blast
qed

lemma register_clients_ok:
  assumes "register_clients read declared clients project = Inr (out, q)"
    and "\<forall>e \<in> set clients. registered_ok project e" and "\<forall>n \<in> fst ` set declared. good_client_name n"
  shows "map fst out = map fst clients @ map fst declared \<and> (\<forall>e \<in> set out. registered_ok q e)"
  using assms
proof (induction read declared clients project rule: register_clients.induct)
  case (1 read clients project)
  then show ?case by simp
next
  case (2 read name rest clients project)
  from "2.prems"(3) have "registered_ok project (name, PlainClient name)"
    by (simp add: registered_ok_def)
  with "2.prems"(2) have new: "\<forall>e \<in> set (clients @ [(name, PlainClient name)]). registered_ok project e"
    by simp
  from "2.IH" [OF _ new] "2.prems"(1,3) show ?case by simp
next
  case (3 read name rest clients project)
  from "3.prems"(1) obtain p ids where p: "(case project of Some p \<Rightarrow> Inr p | None \<Rightarrow> projectNumberOf (read ''FIREBASE_PROJECT_NUMBER'')) = Inr p"
    and ids: "appIdsOf name p read = Inr ids"
    and run: "register_clients read rest (clients @ [(name, AttestedClient name ids)]) (Some p) = Inr (out, q)"
    by (auto split: sum.splits)
  have "registered_ok (Some p) e" if "e \<in> set clients" for e
    using "3.prems"(2) that p by (cases project) (auto simp: registered_ok_def split: RegisteredClient.splits)
  with appIdsOf_ok [OF ids] "3.prems"(3) have "\<forall>e \<in> set (clients @ [(name, AttestedClient name ids)]). registered_ok (Some p) e"
    by (auto simp: registered_ok_def)
  from "3.IH" [OF p ids run this] "3.prems"(3) show ?case by simp
qed

lemma client_registry_facts:
  assumes "clientRegistryFrom read = Inr registry"
  shows "distinct (map fst (cr_clients registry))" and "\<forall>e \<in> set (cr_clients registry). registered_ok (cr_firebaseProjectNumber registry) e"
proof -
  from assms obtain raw declared clients project where
    declared: "declaredClientsOf raw = Inr declared" and run: "register_clients read declared [] None = Inr (clients, project)"
    and registry: "cr_clients registry = clients" "cr_firebaseProjectNumber registry = project"
    by (auto simp: clientRegistryFrom_def split: sum.splits prod.splits)
  from declare_clients_ok [of _ "[]"] declared have d: "distinct (map fst declared)" "\<forall>n \<in> fst ` set declared. good_client_name n"
    by (auto simp: declaredClientsOf_def)
  from register_clients_ok [OF run _ d(2)] d(1)
  show "distinct (map fst (cr_clients registry))" and "\<forall>e \<in> set (cr_clients registry). registered_ok (cr_firebaseProjectNumber registry) e"
    by (simp_all add: registry)
qed

text \<open>
  What a registry that was read from the settings guarantees. Its clients have distinct,
  well-formed names, none of them one of the two labels the gate uses for requests without a
  client; each is listed under its own name; and a client that must prove itself has at least one
  app id, all of them of the configured Firebase project.
\<close>

theorem client_registry_well_formed:
  assumes "clientRegistryFrom read = Inr registry"
  shows "distinct (map fst (cr_clients registry)) \<and>
    (\<forall>e \<in> set (cr_clients registry). fst e = client_name (snd e) \<and> CLIENT_NAME (fst e)
       \<and> length (fst e) \<le> LONGEST_CLIENT_NAME \<and> fst e \<noteq> UNNAMED \<and> fst e \<noteq> UNKNOWN
       \<and> (case snd e of PlainClient _ \<Rightarrow> True
          | AttestedClient _ ids \<Rightarrow> ids \<noteq> [] \<and> cr_firebaseProjectNumber registry \<noteq> None
              \<and> (\<forall>i \<in> set ids. FIREBASE_APP_ID i = cr_firebaseProjectNumber registry)))"
proof (rule conjI [OF client_registry_facts(1) [OF assms]], rule ballI)
  fix e assume "e \<in> set (cr_clients registry)"
  with client_registry_facts(2) [OF assms] have "registered_ok (cr_firebaseProjectNumber registry) e" by blast
  then show "fst e = client_name (snd e) \<and> CLIENT_NAME (fst e)
       \<and> length (fst e) \<le> LONGEST_CLIENT_NAME \<and> fst e \<noteq> UNNAMED \<and> fst e \<noteq> UNKNOWN
       \<and> (case snd e of PlainClient _ \<Rightarrow> True
          | AttestedClient _ ids \<Rightarrow> ids \<noteq> [] \<and> cr_firebaseProjectNumber registry \<noteq> None
              \<and> (\<forall>i \<in> set ids. FIREBASE_APP_ID i = cr_firebaseProjectNumber registry))"
    unfolding registered_ok_def good_client_name_def RESERVED_CLIENT_NAMES_def UNNAMED_def UNKNOWN_def by auto
qed

definition sample_settings :: "string \<Rightarrow> string option" where
  "sample_settings n =
     (if n = ''IDENTITY_UNNAMED_CLIENTS'' then Some ''allow''
      else if n = ''IDENTITY_CLIENTS'' then Some ''web:none, app:app_check''
      else if n = ''FIREBASE_PROJECT_NUMBER'' then Some ''42''
      else if n = ''IDENTITY_APP_CHECK_APP_IDS_APP'' then Some ''1:42:android:0aF''
      else None)"

definition sample_registry :: ClientRegistry where
  "sample_registry = \<lparr>cr_clients = [(''web'', PlainClient ''web''), (''app'', AttestedClient ''app'' [''1:42:android:0aF''])],
     cr_unnamed = Allow, cr_firebaseProjectNumber = Some ''42''\<rparr>"

lemma sample_registry_read: "clientRegistryFrom sample_settings = Inr sample_registry"
  by code_simp

theorem client_registry_well_formed_witness:
  "clientRegistryFrom sample_settings = Inr sample_registry \<and> distinct (map fst (cr_clients sample_registry))"
  using sample_registry_read client_registry_well_formed [OF sample_registry_read] by blast

section \<open>What the key set guarantees\<close>

lemma download_frame:
  "download ac w = (r, t) \<Longrightarrow> t = w\<lparr>outbox := outbox w @ [AppCheckKeysFetch (clock w)]\<rparr>"
  by (auto simp: download_def andThen_run split: JwksAnswer.splits)

lemma fetchKeys_run:
  "fetchKeys ac w = (case fst (download ac w) of
     Inl e \<Rightarrow> (Inr (), w\<lparr>outbox := outbox w @ [AppCheckKeysFetch (clock w)],
        app_check_keys := (app_check_keys w)\<lparr>ks_lastAttemptFailed := True\<rparr>\<rparr>)
   | Inr keys \<Rightarrow> (Inr (), w\<lparr>outbox := outbox w @ [AppCheckKeysFetch (clock w)],
        app_check_keys := (app_check_keys w)\<lparr>ks_keys := Some keys, ks_fetchedAtMs := clock w, ks_lastAttemptFailed := False\<rparr>\<rparr>))"
  by (cases "download ac w") (auto simp: fetchKeys_def catches_run andThen_run dest: download_frame split: sum.splits)

definition too_soon :: "world \<Rightarrow> bool" where
  "too_soon w \<longleftrightarrow> (case ks_lastAttemptAtMs (app_check_keys w) of
     Some l \<Rightarrow> clock w - l < REFETCH_INTERVAL_MS | None \<Rightarrow> False)"

lemma refetch_run:
  "refetch ac w = (if too_soon w then (Inr (), w)
     else fetchKeys ac (w\<lparr>app_check_keys := (app_check_keys w)\<lparr>ks_lastAttemptAtMs := Some (clock w)\<rparr>\<rparr>))"
  by (simp add: refetch_def too_soon_def)

lemma refetch_returns: "\<exists>t. refetch ac w = (Inr (), t)"
  by (simp add: refetch_run fetchKeys_run split: sum.split)

lemma refetch_frame: "refetch ac w = (r, t) \<Longrightarrow> clock t = clock w \<and> events t = events w"
  by (auto simp: refetch_run fetchKeys_run split: if_splits sum.splits)

lemma keyFor_cases:
  obtains (hit) key where "Option.bind (freshKeys w) (\<lambda>keys. map_of keys kid) = Some key" "keyFor ac kid w = (Inr (KeyFound key), w)"
  | (asked) t where "refetch ac w = (Inr (), t)" "keyFor ac kid w =
      (Inr (case freshKeys t of None \<Rightarrow> KeyUnavailable
        | Some ks \<Rightarrow> (case map_of ks kid of Some key \<Rightarrow> KeyFound key
            | None \<Rightarrow> if ks_lastAttemptFailed (app_check_keys t) then KeyUnavailable else KeyUnknown)), t)"
proof (cases "Option.bind (freshKeys w) (\<lambda>keys. map_of keys kid)")
  case None
  obtain t where "refetch ac w = (Inr (), t)" using refetch_returns by blast
  with None show ?thesis
    by (intro asked [of t]) (auto simp: keyFor_def andThen_run split: option.splits)
next
  case (Some key)
  then show ?thesis by (intro hit [of key]) (auto simp: keyFor_def)
qed

lemma freshKeys_Some:
  "freshKeys w = Some ks \<longleftrightarrow> ks_keys (app_check_keys w) = Some ks \<and> clock w - ks_fetchedAtMs (app_check_keys w) < KEYS_LIVE_MS"
  by (auto simp: freshKeys_def)

lemma keyFor_finds:
  "case keyFor ac kid w of (r, t) \<Rightarrow> clock t = clock w \<and> (case r of
     Inr (KeyFound key) \<Rightarrow> \<exists>ks. ks_keys (app_check_keys t) = Some ks \<and> map_of ks kid = Some key
        \<and> clock t < ks_fetchedAtMs (app_check_keys t) + KEYS_LIVE_MS
   | Inr KeyUnknown \<Rightarrow> \<exists>ks. ks_keys (app_check_keys t) = Some ks \<and> map_of ks kid = None
        \<and> clock t < ks_fetchedAtMs (app_check_keys t) + KEYS_LIVE_MS \<and> \<not> ks_lastAttemptFailed (app_check_keys t)
   | Inr KeyUnavailable \<Rightarrow> True
   | Inl _ \<Rightarrow> False)"
proof (cases rule: keyFor_cases [of w kid ac])
  case (hit key)
  then obtain ks where "freshKeys w = Some ks" "map_of ks kid = Some key"
    by (cases "freshKeys w") auto
  then have "ks_keys (app_check_keys w) = Some ks" "map_of ks kid = Some key"
    "clock w < ks_fetchedAtMs (app_check_keys w) + KEYS_LIVE_MS" by (auto simp: freshKeys_Some)
  with hit show ?thesis by simp
next
  case (asked t)
  note frame = refetch_frame [OF asked(1)]
  show ?thesis
  proof (cases "freshKeys t")
    case None
    with asked frame show ?thesis by simp
  next
    case (Some ks)
    then have "ks_keys (app_check_keys t) = Some ks" "clock t < ks_fetchedAtMs (app_check_keys t) + KEYS_LIVE_MS"
      by (auto simp: freshKeys_Some)
    with Some asked frame show ?thesis by (cases "map_of ks kid") simp_all
  qed
qed

text \<open>
  Only keys that are fresh are used. A key that the lookup finds is in the set downloaded less
  than six hours ago, and a key id is called unknown, which refuses the proof, only when the last
  attempt to download the set succeeded and the set is still fresh.
\<close>

theorem app_check_keys_fresh:
  "case keyFor ac kid w of (r, t) \<Rightarrow> clock t = clock w \<and> (case r of
     Inr (KeyFound key) \<Rightarrow> \<exists>ks. ks_keys (app_check_keys t) = Some ks \<and> map_of ks kid = Some key
        \<and> clock t < ks_fetchedAtMs (app_check_keys t) + KEYS_LIVE_MS
   | Inr KeyUnknown \<Rightarrow> \<exists>ks. ks_keys (app_check_keys t) = Some ks \<and> map_of ks kid = None
        \<and> clock t < ks_fetchedAtMs (app_check_keys t) + KEYS_LIVE_MS \<and> \<not> ks_lastAttemptFailed (app_check_keys t)
   | Inr KeyUnavailable \<Rightarrow> True
   | Inl _ \<Rightarrow> False)"
  by (rule keyFor_finds)

definition fetch_times :: "world \<Rightarrow> int list" where
  "fetch_times w = List.map_filter (\<lambda>o'. case o' of AppCheckKeysFetch ms \<Rightarrow> Some ms | _ \<Rightarrow> None) (outbox w)"

inductive key_step :: "AppCheckEnv \<Rightarrow> world \<Rightarrow> world \<Rightarrow> bool" for ac :: AppCheckEnv where
  looking_up: "keyFor ac kid w = (r, t) \<Longrightarrow> key_step ac w t"
| not_keys: "app_check_keys t = app_check_keys w \<Longrightarrow> fetch_times t = fetch_times w \<Longrightarrow> clock w \<le> clock t \<Longrightarrow> key_step ac w t"

text \<open>
  A key is published when the document the key server answered at that time lists it: an RSA
  signing key of at least 2048 bits under that id. The keys a process holds are those of the last
  document it downloaded.
\<close>

definition lists_key :: "AppCheckEnv \<Rightarrow> string \<Rightarrow> KeyObject \<Rightarrow> jwk_entry \<Rightarrow> bool" where
  "lists_key ac kid key entry \<longleftrightarrow>
     (\<exists>use alg n e. entry = JwkEntry (StringField ''RSA'') use alg (StringField kid) (StringField n) (StringField e)
        \<and> use \<in> {NoField, StringField ''sig''} \<and> alg \<in> {NoField, StringField ''RS256''}
        \<and> createPublicKey ac n e = Some key \<and> 2048 \<le> modulusLength ac key)"

definition published :: "AppCheckEnv \<Rightarrow> int \<Rightarrow> string \<Rightarrow> KeyObject \<Rightarrow> bool" where
  "published ac ms kid key \<longleftrightarrow>
     (\<exists>entries. jwks_answer ac ms = JwksDocument entries \<and> (\<exists>entry \<in> set entries. lists_key ac kid key entry))"

lemma signingKeyOf_lists_key: "signingKeyOf ac entry = Inr (Some (kid, key)) \<Longrightarrow> lists_key ac kid key entry"
  by (cases entry) (auto simp: signingKeyOf_def lists_key_def Let_def SHORTEST_MODULUS_BITS_def APP_CHECK_ALGORITHM_def
      split: json_field.splits if_splits option.splits)

lemma collect_keys_listed:
  "collect_keys ac entries keys = Inr ks \<Longrightarrow> map_of ks kid = Some key \<Longrightarrow>
   map_of keys kid = Some key \<or> (\<exists>entry \<in> set entries. lists_key ac kid key entry)"
proof (induction entries arbitrary: keys)
  case Nil
  then show ?case by simp
next
  case (Cons entry entries)
  then show ?case
    by (fastforce simp: map_of_map_set split: sum.splits option.splits if_splits dest: signingKeyOf_lists_key)
qed

lemma download_published:
  "download ac w = (Inr ks, t) \<Longrightarrow> map_of ks kid = Some key \<Longrightarrow> published ac (clock w) kid key"
  by (auto simp: download_def andThen_run keysOf_def published_def split: JwksAnswer.splits sum.splits if_splits
      dest!: collect_keys_listed)

definition keys_published :: "AppCheckEnv \<Rightarrow> world \<Rightarrow> bool" where
  "keys_published ac w \<longleftrightarrow> (\<forall>ks. ks_keys (app_check_keys w) = Some ks \<longrightarrow>
     ks_fetchedAtMs (app_check_keys w) \<le> clock w \<and>
     (\<forall>kid key. map_of ks kid = Some key \<longrightarrow> published ac (ks_fetchedAtMs (app_check_keys w)) kid key))"

lemma refetch_published:
  assumes "keys_published ac w" and "refetch ac w = (r, t)"
  shows "keys_published ac t"
proof (cases "too_soon w")
  case True
  with assms show ?thesis by (simp add: refetch_run)
next
  case False
  let ?v = "w\<lparr>app_check_keys := (app_check_keys w)\<lparr>ks_lastAttemptAtMs := Some (clock w)\<rparr>\<rparr>"
  obtain q u where down: "download ac ?v = (q, u)" by (cases "download ac ?v")
  show ?thesis
  proof (cases q)
    case (Inl e)
    with False down assms show ?thesis by (auto simp: refetch_run fetchKeys_run keys_published_def)
  next
    case (Inr ks)
    with False down assms(2) have "app_check_keys t = (app_check_keys w)\<lparr>ks_lastAttemptAtMs := Some (clock w),
        ks_keys := Some ks, ks_fetchedAtMs := clock w, ks_lastAttemptFailed := False\<rparr>" and "clock t = clock w"
      by (auto simp: refetch_run fetchKeys_run)
    with down Inr show ?thesis by (auto simp: keys_published_def dest: download_published)
  qed
qed

interpretation key_source: invariant_machine "\<lambda>w. ks_keys (app_check_keys w) = None" "key_step ac" "keys_published ac" for ac
proof unfold_locales
  fix s :: world
  assume "ks_keys (app_check_keys s) = None"
  then show "keys_published ac s" by (simp add: keys_published_def)
next
  fix s t :: world
  assume "keys_published ac s" and "key_step ac s t"
  from this(2,1) show "keys_published ac t"
  proof cases
    case (looking_up kid r)
    then show ?thesis
      using \<open>keys_published ac s\<close> by (cases rule: keyFor_cases [of s kid ac]) (auto intro: refetch_published)
  next
    case not_keys
    with \<open>keys_published ac s\<close> show ?thesis by (auto simp: keys_published_def)
  qed
qed

lemma keyFor_published:
  assumes "keys_published ac w" and "keyFor ac kid w = (Inr (KeyFound key), t)"
  shows "\<exists>ms \<le> clock w. clock w < ms + 6 * 60 * 60 * 1000 \<and> published ac ms kid key"
proof -
  have "keys_published ac t"
    by (cases rule: keyFor_cases [of w kid ac]) (use assms in \<open>auto intro: refetch_published\<close>)
  moreover obtain ks where "ks_keys (app_check_keys t) = Some ks" "map_of ks kid = Some key" "clock t = clock w"
    "clock t < ks_fetchedAtMs (app_check_keys t) + KEYS_LIVE_MS"
    using keyFor_finds [of w kid ac] assms(2) by auto
  ultimately show ?thesis
    by (intro exI [of _ "ks_fetchedAtMs (app_check_keys t)"]) (simp add: keys_published_def KEYS_LIVE_MS_def)
qed

definition fetches_spaced :: "world \<Rightarrow> bool" where
  "fetches_spaced w \<longleftrightarrow> successively (\<lambda>a b. a + REFETCH_INTERVAL_MS \<le> b) (fetch_times w) \<and>
     (if fetch_times w = [] then True else ks_lastAttemptAtMs (app_check_keys w) = Some (last (fetch_times w)))"

lemma fetch_times_snoc:
  "outbox t = outbox w @ [AppCheckKeysFetch n] \<Longrightarrow> fetch_times t = fetch_times w @ [n]"
  by (simp add: fetch_times_def List.map_filter_def)

lemma refetch_spaced:
  assumes "fetches_spaced w" and "refetch ac w = (r, t)"
  shows "fetches_spaced t"
proof (cases "too_soon w")
  case True
  with assms show ?thesis by (simp add: refetch_run)
next
  case False
  with assms(2) have out: "outbox t = outbox w @ [AppCheckKeysFetch (clock w)]"
    and last: "ks_lastAttemptAtMs (app_check_keys t) = Some (clock w)"
    by (auto simp: refetch_run fetchKeys_run split: sum.splits)
  from False assms(1) have "fetch_times w \<noteq> [] \<Longrightarrow> last (fetch_times w) + REFETCH_INTERVAL_MS \<le> clock w"
    by (auto simp: too_soon_def fetches_spaced_def)
  with assms(1) last show ?thesis
    by (auto simp: fetches_spaced_def fetch_times_snoc [OF out] successively_append_iff)
qed

interpretation key_downloads: invariant_machine "\<lambda>w. fetch_times w = []" "key_step ac" fetches_spaced for ac
proof unfold_locales
  fix s :: world
  assume "fetch_times s = []"
  then show "fetches_spaced s" by (simp add: fetches_spaced_def)
next
  fix s t :: world
  assume "fetches_spaced s" and "key_step ac s t"
  from this(2,1) show "fetches_spaced t"
  proof cases
    case (looking_up kid r)
    then show ?thesis
      using \<open>fetches_spaced s\<close> by (cases rule: keyFor_cases [of s kid ac]) (auto intro: refetch_spaced)
  next
    case not_keys
    with \<open>fetches_spaced s\<close> show ?thesis by (simp add: fetches_spaced_def)
  qed
qed

text \<open>
  The key set is not hammered. Whatever key ids proofs name and however often, two downloads of
  the key set by a process are at least ten seconds apart.
\<close>

theorem key_downloads_spaced:
  "reaches (\<lambda>w. fetch_times w = []) (key_step ac) w \<Longrightarrow>
   successively (\<lambda>a b. a + REFETCH_INTERVAL_MS \<le> b) (fetch_times w)"
  using key_downloads.inv_reaches [of ac w] by (simp add: fetches_spaced_def)

definition silent_app_check :: AppCheckEnv where
  "silent_app_check = \<lparr>jwks_answer = (\<lambda>_. NoAnswer), createPublicKey = (\<lambda>_ _. None), modulusLength = (\<lambda>_. 0),
     proof_header_of = (\<lambda>_. None), proof_verify = (\<lambda>_ _. ProofSignatureBad)\<rparr>"

theorem key_downloads_spaced_witness:
  "fetch_times (snd (keyFor silent_app_check ''k'' empty_world)) = [0] \<and>
   successively (\<lambda>a b. a + REFETCH_INTERVAL_MS \<le> b) (fetch_times (snd (keyFor silent_app_check ''k'' empty_world)))"
proof -
  have "reaches (\<lambda>w. fetch_times w = []) (key_step silent_app_check) empty_world"
    by (rule at_start) (simp add: fetch_times_def empty_world_def)
  from by_step [OF this looking_up [of silent_app_check "''k''" empty_world "fst (keyFor silent_app_check ''k'' empty_world)"]]
  have "reaches (\<lambda>w. fetch_times w = []) (key_step silent_app_check) (snd (keyFor silent_app_check ''k'' empty_world))"
    by simp
  note key_downloads_spaced [OF this]
  moreover have "fetch_times (snd (keyFor silent_app_check ''k'' empty_world)) = [0]" by code_simp
  ultimately show ?thesis by blast
qed

section \<open>What the gate guarantees\<close>

lemma keyFor_frame: "keyFor ac kid w = (r, t) \<Longrightarrow> (\<exists>k. r = Inr k) \<and> events t = events w \<and> clock t = clock w"
  by (cases rule: keyFor_cases [of w kid ac]) (auto dest: refetch_frame)

lemma verify_proof_cases:
  assumes "verify_proof ac p pf ids w = (r, t)"
  obtains (judged) kid key claims v where "proof_header_of ac pf = Some (ProofHeader (Some ''RS256'') (Some ''JWT'') (Some kid))"
      "keyFor ac kid w = (Inr (KeyFound key), v)" "proof_verify ac pf key = ProofClaims claims"
      "r = Inr (judge p claims ids (clock w))" "events t = events w"
  | (unjudged) v where "r = Inr v" "v = ProofUnavailable \<or> v = ProofInvalid malformed \<or> v = ProofInvalid invalid_signature"
      "events t = events w"
proof (cases "proof_header_of ac pf")
  case None
  with assms show ?thesis by (intro unjudged) (auto simp: verify_proof_def)
next
  case (Some h)
  obtain alg ty kid where h: "h = ProofHeader alg ty kid" by (cases h)
  show ?thesis
  proof (cases "alg \<noteq> Some APP_CHECK_ALGORITHM \<or> ty \<noteq> Some APP_CHECK_TOKEN_TYPE \<or> kid = None \<or> kid = Some ''''")
    case True
    with Some h assms show ?thesis by (intro unjudged) (auto simp: verify_proof_def)
  next
    case False
    obtain q v where look: "keyFor ac (the kid) w = (q, v)" by (cases "keyFor ac (the kid) w")
    then obtain k where k: "q = Inr k" and frame: "events v = events w" "clock v = clock w"
      using keyFor_frame by blast
    from False obtain i where i: "kid = Some i" "alg = Some ''RS256''" "ty = Some ''JWT''"
      by (auto simp: APP_CHECK_ALGORITHM_def APP_CHECK_TOKEN_TYPE_def)
    show ?thesis
    proof (cases "\<exists>key claims. k = KeyFound key \<and> proof_verify ac pf key = ProofClaims claims")
      case True
      then obtain key claims where found: "k = KeyFound key" "proof_verify ac pf key = ProofClaims claims" by blast
      with look k i False Some h assms frame show ?thesis
        by (intro judged [of i key v claims]) (simp_all add: verify_proof_def andThen_run split: if_splits)
    next
      case unread: False
      with look k i False Some h assms frame show ?thesis
        by (cases k) (auto simp: verify_proof_def andThen_run split: proof_payload.splits intro: unjudged)
    qed
  qed
qed

lemma judge_valid:
  "judge p claims ids now = ProofValid \<Longrightarrow>
     pcl_iss claims = Some (APP_CHECK_ISSUER_PREFIX @ p) \<and> (''projects/'' @ p) \<in> set (pcl_aud claims) \<and>
     (\<exists>e i. pcl_exp claims = NumberClaim e \<and> now div 1000 < e \<and> pcl_iat claims = NumberClaim i \<and> i \<le> now div 1000 + 60 \<and>
        (\<forall>b. pcl_nbf claims = Some b \<longrightarrow> b \<le> now div 1000 + 60)) \<and> (\<exists>sub \<in> set ids. pcl_sub claims = Some sub)"
  by (auto simp: judge_def CLOCK_LEEWAY_SECONDS_def Let_def split: if_splits proof_number.splits option.splits)

lemma judge_invalid: "judge p claims ids now = ProofInvalid r \<Longrightarrow> r \<in> set PROOF_REFUSALS"
  by (auto simp: judge_def Let_def PROOF_REFUSALS_def split: if_splits proof_number.splits option.splits)

lemma prove_refuses:
  assumes "prove ac gate n ids header w = (Inl e, t)" and "gt_verifier gate = Some p"
  obtains r where "r \<in> set PROOF_REFUSALS" "e = refusalOf r" "events t = events w @ [ClientProofRefused n r]"
proof (cases "(case header of HeaderText s \<Rightarrow> js_trim s | _ \<Rightarrow> []) = []")
  case True
  with assms show ?thesis
    by (intro that [of missing]) (auto simp: prove_def Let_def refuse_client_def andThen_run PROOF_REFUSALS_def)
next
  case False
  then obtain s where s: "header = HeaderText s" by (cases header) auto
  obtain v t' where run: "verify_proof ac p (js_trim s) ids w = (v, t')" by (cases "verify_proof ac p (js_trim s) ids w")
  then obtain d where d: "v = Inr d" "events t' = events w" "\<And>r. d = ProofInvalid r \<Longrightarrow> r \<in> set PROOF_REFUSALS"
  proof (cases rule: verify_proof_cases)
    case (judged kid key claims v')
    with judge_invalid [of p claims ids "clock w"] show ?thesis by (intro that [of "judge p claims ids (clock w)"])
  next
    case (unjudged d)
    then show ?thesis by (intro that [of d]) (auto simp: PROOF_REFUSALS_def)
  qed
  with assms run False s show ?thesis
    by (cases d) (auto simp: prove_def Let_def refuse_client_def andThen_run PROOF_REFUSALS_def intro: that)
qed

lemma clientGateFrom_ok:
  assumes "clientGateFrom read = Inr gate"
  shows "clientRegistryFrom read = Inr (gt_registry gate)" and "gt_verifier gate = cr_firebaseProjectNumber (gt_registry gate)"
  using assms by (auto simp: clientGateFrom_def split: sum.splits if_splits)

lemma registered_entry:
  assumes "clientGateFrom read = Inr gate" and "map_of (cr_clients (gt_registry gate)) n = Some c"
  shows "client_name c = n" and "(n, c) \<in> set (cr_clients (gt_registry gate))"
    and "c = AttestedClient n ids \<Longrightarrow> gt_verifier gate \<noteq> None"
  using client_registry_facts(2) [OF clientGateFrom_ok(1) [OF assms(1)]] clientGateFrom_ok(2) [OF assms(1)]
    map_of_SomeD [OF assms(2)] by (auto simp: registered_ok_def)

text \<open>
  C26. Who is let through. A request the gate admits without a name sent no client header while the
  settings allow that. A request admitted under a name sent exactly that name, which is registered;
  if the client must prove itself, the request carried a proof signed with a key that Google's key
  server listed, under the key id the proof names, in a document this process downloaded less than
  six hours ago; and its claims are those of the configured Firebase project, have not expired, are
  not from the future (a minute's leeway) and name one of that client's own app ids. A process
  begins without keys.
\<close>

theorem admitted_client_is_genuine:
  assumes "clientGateFrom read = Inr gate"
    and "reaches (\<lambda>w. ks_keys (app_check_keys w) = None) (key_step ac) w"
    and "admit_client ac gate headers w = (Inr client, t)"
  shows "case client of
      Unnamed \<Rightarrow> headers ''x-kinetix-client'' = HeaderAbsent \<and> cr_unnamed (gt_registry gate) = Allow
    | Named n \<Rightarrow> headers ''x-kinetix-client'' = HeaderText n \<and>
        (\<exists>c. map_of (cr_clients (gt_registry gate)) n = Some c \<and>
          (case c of PlainClient _ \<Rightarrow> True
           | AttestedClient _ ids \<Rightarrow> \<exists>p raw kid key ms claims e i sub. gt_verifier gate = Some p
               \<and> headers ''x-firebase-appcheck'' = HeaderText raw
               \<and> proof_header_of ac (js_trim raw) = Some (ProofHeader (Some ''RS256'') (Some ''JWT'') (Some kid))
               \<and> published ac ms kid key \<and> ms \<le> clock w \<and> clock w < ms + 6 * 60 * 60 * 1000
               \<and> proof_verify ac (js_trim raw) key = ProofClaims claims
               \<and> pcl_iss claims = Some (APP_CHECK_ISSUER_PREFIX @ p) \<and> (''projects/'' @ p) \<in> set (pcl_aud claims)
               \<and> pcl_exp claims = NumberClaim e \<and> clock w div 1000 < e
               \<and> pcl_iat claims = NumberClaim i \<and> i \<le> clock w div 1000 + 60
               \<and> (\<forall>b. pcl_nbf claims = Some b \<longrightarrow> b \<le> clock w div 1000 + 60)
               \<and> pcl_sub claims = Some sub \<and> sub \<in> set ids))"
proof (cases "headers ''x-kinetix-client''")
  case HeaderAbsent
  with assms(3) show ?thesis
    by (cases "cr_unnamed (gt_registry gate)") (auto simp: admit_client_def refuse_client_def andThen_run)
next
  case (HeaderList l)
  with assms(3) show ?thesis by (simp add: admit_client_def refuse_client_def andThen_run)
next
  case (HeaderText n)
  with assms(3) obtain c where c: "map_of (cr_clients (gt_registry gate)) n = Some c"
    by (cases "map_of (cr_clients (gt_registry gate)) n") (auto simp: admit_client_def refuse_client_def andThen_run)
  have name: "client_name c = n" by (rule registered_entry [OF assms(1) c])
  show ?thesis
  proof (cases c)
    case (PlainClient m)
    with HeaderText c name assms(3) show ?thesis by (auto simp: admit_client_def)
  next
    case (AttestedClient m ids)
    with HeaderText c name assms(3) obtain u v where
      run: "prove ac gate n ids (headers ''x-firebase-appcheck'') w = (Inr u, v)" and client: "client = Named n"
      by (auto simp: admit_client_def andThen_Inr)
    then obtain p raw where p: "gt_verifier gate = Some p" and raw: "headers ''x-firebase-appcheck'' = HeaderText raw"
      and "fst (verify_proof ac p (js_trim raw) ids w) = Inr ProofValid"
      by (auto simp: prove_def refuse_client_def andThen_run Let_def
          split: if_splits option.splits header_value.splits prod.splits sum.splits ProofVerdict.splits)
    then obtain t' where "verify_proof ac p (js_trim raw) ids w = (Inr ProofValid, t')"
      by (metis prod.collapse)
    then obtain kid key claims v' where head: "proof_header_of ac (js_trim raw) = Some (ProofHeader (Some ''RS256'') (Some ''JWT'') (Some kid))"
      and look: "keyFor ac kid w = (Inr (KeyFound key), v')" and signed: "proof_verify ac (js_trim raw) key = ProofClaims claims"
      and judged: "judge p claims ids (clock w) = ProofValid"
      by (cases rule: verify_proof_cases) auto
    from keyFor_published [OF key_source.inv_reaches [OF assms(2)] look] obtain ms where
      key: "published ac ms kid key" "ms \<le> clock w" "clock w < ms + 6 * 60 * 60 * 1000" by blast
    show ?thesis
      using judge_valid [OF judged] p raw head key signed HeaderText c client AttestedClient by simp blast
  qed
qed

text \<open>
  Every refusal is accounted for. When the gate refuses a request it records exactly one
  refusal, under a label and reason of the series declared at start-up, and the answer is the one
  that belongs to that reason.
\<close>

theorem refusals_are_declared:
  assumes "clientGateFrom read = Inr gate" and "admit_client ac gate headers w = (Inl e, t)"
  shows "\<exists>label reason. events t = events w @ [ClientProofRefused label reason] \<and> e = refusalOf reason
    \<and> (label, reason) \<in> set (refusalSeries (gt_registry gate))"
proof (cases "headers ''x-kinetix-client''")
  case HeaderAbsent
  with assms(2) show ?thesis
    by (cases "cr_unnamed (gt_registry gate)") (auto simp: admit_client_def refuse_client_def andThen_run refusalSeries_def)
next
  case (HeaderList l)
  with assms(2) show ?thesis by (auto simp: admit_client_def refuse_client_def andThen_run refusalSeries_def)
next
  case (HeaderText n)
  show ?thesis
  proof (cases "map_of (cr_clients (gt_registry gate)) n")
    case None
    with HeaderText assms(2) show ?thesis by (auto simp: admit_client_def refuse_client_def andThen_run refusalSeries_def)
  next
    case (Some c)
    note entry = registered_entry [OF assms(1) Some]
    show ?thesis
    proof (cases c)
      case (PlainClient m)
      with HeaderText Some assms(2) show ?thesis by (simp add: admit_client_def)
    next
      case (AttestedClient m ids)
      with entry(1) have c: "c = AttestedClient n ids" by simp
      with entry(3) obtain p where p: "gt_verifier gate = Some p" by auto
      from c HeaderText Some assms(2) have run: "prove ac gate n ids (headers ''x-firebase-appcheck'') w = (Inl e, t)"
        by (auto simp: admit_client_def andThen_Inl)
      have declared: "(n, r) \<in> set (refusalSeries (gt_registry gate))" if "r \<in> set PROOF_REFUSALS" for r
      proof -
        have "(n, r) \<in> set ((\<lambda>(_, client). (client_name client, client_mismatch) #
            (case client of AttestedClient name _ \<Rightarrow> map (\<lambda>reason. (name, reason)) PROOF_REFUSALS | PlainClient _ \<Rightarrow> [])) (n, c))"
          using that c by simp
        with entry(2) show ?thesis unfolding refusalSeries_def set_append set_concat set_map by blast
      qed
      from run p obtain r where "r \<in> set PROOF_REFUSALS" "e = refusalOf r" "events t = events w @ [ClientProofRefused n r]"
        by (rule prove_refuses)
      with declared show ?thesis by blast
    qed
  qed
qed

definition sample_gate :: Gate where
  "sample_gate = \<lparr>gt_registry = sample_registry, gt_verifier = Some ''42''\<rparr>"

lemma sample_gate_read: "clientGateFrom sample_settings = Inr sample_gate"
  by (simp add: clientGateFrom_def sample_registry_read) (simp add: sample_gate_def sample_registry_def)

text \<open>An App Check that publishes one key, and a proof signed with it by the registered app.\<close>

definition sample_app_check :: AppCheckEnv where
  "sample_app_check = \<lparr>jwks_answer = (\<lambda>_. JwksDocument [JwkEntry (StringField ''RSA'') NoField NoField (StringField ''k'')
       (StringField ''n'') (StringField ''e'')]),
     createPublicKey = (\<lambda>n e. Some n), modulusLength = (\<lambda>_. 2048),
     proof_header_of = (\<lambda>_. Some (ProofHeader (Some ''RS256'') (Some ''JWT'') (Some ''k''))),
     proof_verify = (\<lambda>pf key. if key = ''n'' \<and> pf = ''jwt''
        then ProofClaims \<lparr>pcl_iss = Some ''https://firebaseappcheck.googleapis.com/42'', pcl_aud = [''projects/42''],
               pcl_exp = NumberClaim 3600, pcl_iat = NumberClaim 0, pcl_nbf = None, pcl_sub = Some ''1:42:android:0aF''\<rparr>
        else ProofSignatureBad)\<rparr>"

definition sample_headers :: "string \<Rightarrow> header_value" where
  "sample_headers h = (if h = ''x-kinetix-client'' then HeaderText ''app''
     else if h = ''x-firebase-appcheck'' then HeaderText ''jwt'' else HeaderAbsent)"

theorem admitted_client_is_genuine_witness:
  "fst (admit_client sample_app_check sample_gate sample_headers empty_world) = Inr (Named ''app'') \<and>
   (\<exists>ms key. published sample_app_check ms ''k'' key \<and> proof_verify sample_app_check ''jwt'' key \<noteq> ProofSignatureBad)"
proof -
  have start: "reaches (\<lambda>w. ks_keys (app_check_keys w) = None) (key_step sample_app_check) empty_world"
    by (rule at_start) (simp add: empty_world_def)
  have fst: "fst (admit_client sample_app_check sample_gate sample_headers empty_world) = Inr (Named ''app'')"
    by code_simp
  then have run: "admit_client sample_app_check sample_gate sample_headers empty_world =
      (Inr (Named ''app''), snd (admit_client sample_app_check sample_gate sample_headers empty_world))"
    by (simp add: prod_eq_iff)
  have "js_trim ''jwt'' = ''jwt''" by code_simp
  then obtain ms kid key claims where "proof_header_of sample_app_check ''jwt'' = Some (ProofHeader (Some ''RS256'') (Some ''JWT'') (Some kid))"
    "published sample_app_check ms kid key" "proof_verify sample_app_check ''jwt'' key = ProofClaims claims"
    using admitted_client_is_genuine [OF sample_gate_read start run]
    by (auto simp: sample_gate_def sample_registry_def sample_headers_def)
  moreover from this(1) have "kid = ''k''" by (simp add: sample_app_check_def)
  ultimately have "published sample_app_check ms ''k'' key \<and> proof_verify sample_app_check ''jwt'' key \<noteq> ProofSignatureBad"
    by simp
  with fst show ?thesis by blast
qed

theorem refusals_are_declared_witness:
  "fst (admit_client silent_app_check sample_gate (\<lambda>h. if h = ''x-kinetix-client'' then HeaderText ''tv'' else HeaderAbsent) empty_world)
     = Inl (BadRequestException ''UNKNOWN_CLIENT'') \<and>
   (\<exists>label reason. (label, reason) \<in> set (refusalSeries (gt_registry sample_gate)))"
proof -
  let ?h = "\<lambda>h. if h = ''x-kinetix-client'' then HeaderText ''tv'' else HeaderAbsent"
  have run: "admit_client silent_app_check sample_gate ?h empty_world
      = (Inl (BadRequestException ''UNKNOWN_CLIENT''), empty_world\<lparr>events := [ClientProofRefused UNKNOWN unknown_client]\<rparr>)"
    by (simp add: admit_client_def sample_gate_def sample_registry_def refuse_client_def andThen_run empty_world_def)
  from refusals_are_declared [OF sample_gate_read run] run show ?thesis by auto
qed

end
