(* ===== verification/Passkey_Store.thy ===== *)
theory Passkey_Store
  imports Users "HOL-Library.Char_ord" "HOL-Library.List_Lexorder" "HOL-Library.Product_Lexorder"
begin

text \<open>
  The passkeys of accounts and the challenges of their ceremonies:
  \<^verbatim>\<open>persistence/adapters/typeorm_passkey_repository.adapter.ts\<close> and
  \<^verbatim>\<open>typeorm_passkey_challenge_repository.adapter.ts\<close>, over the tables \<^verbatim>\<open>passkeys\<close> (unique
  credential id) and \<^verbatim>\<open>passkey_challenges\<close> (unique \<^verbatim>\<open>mfaJti\<close>).
\<close>

section \<open>Passkeys\<close>

record NewPasskey =
  np_userId :: nat
  np_credentialId :: string
  np_publicKey :: "byte list"
  np_signCount :: nat
  np_transports :: "string list"
  np_deviceType :: PasskeyDeviceType
  np_backedUp :: bool
  np_name :: string

datatype PasskeyAddition = Added PasskeyEntity | LimitReached | Duplicate

definition listForUser :: "nat \<Rightarrow> PasskeyEntity list act" where
  "listForUser userId =
     reads (\<lambda>w. sort_key (\<lambda>p. (pk_createdAt p, pk_id p)) (filter (\<lambda>p. pk_userId p = userId) (passkeys w)))"

definition existsForUser :: "nat \<Rightarrow> bool act" where
  "existsForUser userId = reads (\<lambda>w. \<exists>p \<in> set (passkeys w). pk_userId p = userId)"

definition insert_passkey :: "'tok Env \<Rightarrow> NewPasskey \<Rightarrow> PasskeyEntity option act" where
  "insert_passkey env p =
     andThen (randomUUID env)
     (\<lambda>i w. if \<exists>q \<in> set (passkeys w). pk_credentialId q = np_credentialId p then (Inr None, w)
        else if \<exists>q \<in> set (passkeys w). pk_id q = i then (Inl (QueryFailed ''23505''), w)
        else
          (let row = \<lparr>pk_id = i, pk_userId = np_userId p, pk_credentialId = np_credentialId p,
                 pk_publicKey = np_publicKey p, pk_signCount = np_signCount p, pk_transports = np_transports p,
                 pk_deviceType = np_deviceType p, pk_backedUp = np_backedUp p, pk_name = np_name p,
                 pk_createdAt = clock w, pk_lastUsedAt = None\<rparr>
           in (Inr (Some row), w\<lparr>passkeys := passkeys w @ [row]\<rparr>)))"

definition addPasskey :: "'tok Env \<Rightarrow> NewPasskey \<Rightarrow> nat \<Rightarrow> PasskeyAddition act" where
  "addPasskey env p limit =
     atomically (andThen (reads (user_row (np_userId p)))
     (\<lambda>owner. case owner of
        None \<Rightarrow> throws (MissingReferenceError ''User not found'')
      | Some _ \<Rightarrow>
          andThen (reads (\<lambda>w. affected (\<lambda>q. pk_userId q = np_userId p) (passkeys w)))
          (\<lambda>held. if held \<ge> limit then returns LimitReached
             else andThen (insert_passkey env p)
               (\<lambda>inserted. case inserted of None \<Rightarrow> returns Duplicate | Some row \<Rightarrow> returns (Added row)))))"

definition removePasskey :: "nat \<Rightarrow> string \<Rightarrow> bool act" where
  "removePasskey userId passkeyId =
     (\<lambda>w. let hit = (\<lambda>p. pk_id p = passkeyId \<and> pk_userId p = userId)
          in (Inr (affected hit (passkeys w) = 1), w\<lparr>passkeys := delete_where hit (passkeys w)\<rparr>))"

definition recordUse :: "string \<Rightarrow> nat \<Rightarrow> bool \<Rightarrow> bool act" where
  "recordUse passkeyId signCount backedUp =
     (\<lambda>w. let advances = (\<lambda>p. if signCount = 0 then pk_signCount p = 0 else pk_signCount p < signCount);
              hit = (\<lambda>p. pk_id p = passkeyId \<and> advances p)
          in (Inr (affected hit (passkeys w) = 1),
              w\<lparr>passkeys := update_where hit
                 (\<lambda>p. p\<lparr>pk_signCount := signCount, pk_backedUp := backedUp, pk_lastUsedAt := Some (clock w)\<rparr>) (passkeys w)\<rparr>))"

section \<open>Challenges\<close>

definition issueRegistration :: "'tok Env \<Rightarrow> nat \<Rightarrow> string \<Rightarrow> int \<Rightarrow> string act" where
  "issueRegistration env userId challenge lifetimeSeconds =
     andThen (randomUUID env)
     (\<lambda>i w. if \<exists>c \<in> set (passkey_challenges w). pc_id c = i then (Inl (QueryFailed ''23505''), w)
        else if user_row userId w = None then (Inl (QueryFailed ''23503''), w)
        else (Inr i, w\<lparr>passkey_challenges := passkey_challenges w @
               [\<lparr>pc_id = i, pc_userId = userId, pc_purpose = ForRegister, pc_challenge = challenge, pc_mfaJti = None,
                 pc_expiresAt = clock w + lifetimeSeconds * 1000, pc_usedAt = None\<rparr>]\<rparr>))"

definition issueSignIn :: "'tok Env \<Rightarrow> nat \<Rightarrow> string \<Rightarrow> string \<Rightarrow> int \<Rightarrow> unit act" where
  "issueSignIn env userId mfaJti challenge lifetimeSeconds =
     andThen (randomUUID env)
     (\<lambda>i w. if \<exists>c \<in> set (passkey_challenges w). pc_mfaJti c = Some mfaJti
        then (Inr (), w\<lparr>passkey_challenges :=
                update_where (\<lambda>c. pc_mfaJti c = Some mfaJti \<and> pc_userId c = userId)
                  (\<lambda>c. c\<lparr>pc_challenge := challenge, pc_expiresAt := clock w + lifetimeSeconds * 1000, pc_usedAt := None\<rparr>)
                  (passkey_challenges w)\<rparr>)
        else if \<exists>c \<in> set (passkey_challenges w). pc_id c = i then (Inl (QueryFailed ''23505''), w)
        else if user_row userId w = None then (Inl (QueryFailed ''23503''), w)
        else (Inr (), w\<lparr>passkey_challenges := passkey_challenges w @
               [\<lparr>pc_id = i, pc_userId = userId, pc_purpose = ForSignIn, pc_challenge = challenge, pc_mfaJti = Some mfaJti,
                 pc_expiresAt = clock w + lifetimeSeconds * 1000, pc_usedAt = None\<rparr>]\<rparr>))"

definition spend_row :: "(PasskeyChallengeRow \<Rightarrow> bool) \<Rightarrow> nat \<Rightarrow> string option act" where
  "spend_row which userId =
     (\<lambda>w. let hit = (\<lambda>c. which c \<and> pc_userId c = userId \<and> pc_usedAt c = None \<and> pc_expiresAt c > clock w)
          in (Inr (map_option pc_challenge (find hit (passkey_challenges w))),
              w\<lparr>passkey_challenges := update_where hit (\<lambda>c. c\<lparr>pc_usedAt := Some (clock w)\<rparr>) (passkey_challenges w)\<rparr>))"

definition spendRegistration :: "string \<Rightarrow> nat \<Rightarrow> string option act" where
  "spendRegistration challengeId userId = spend_row (\<lambda>c. pc_id c = challengeId \<and> pc_purpose c = ForRegister) userId"

definition spendSignIn :: "string \<Rightarrow> nat \<Rightarrow> string option act" where
  "spendSignIn mfaJti userId = spend_row (\<lambda>c. pc_mfaJti c = Some mfaJti \<and> pc_purpose c = ForSignIn) userId"

definition sweepChallenges :: "nat act" where
  "sweepChallenges =
     (\<lambda>w. let gone = (\<lambda>c. pc_expiresAt c < clock w)
          in (Inr (affected gone (passkey_challenges w)),
              w\<lparr>passkey_challenges := delete_where gone (passkey_challenges w)\<rparr>))"

section \<open>At most ten passkeys, each credential once\<close>

definition held_by :: "nat \<Rightarrow> world \<Rightarrow> nat" where
  "held_by userId w = affected (\<lambda>p. pk_userId p = userId) (passkeys w)"

definition passkeys_ok :: "'tok Env \<Rightarrow> world \<Rightarrow> bool" where
  "passkeys_ok env w \<longleftrightarrow> distinct (map pk_id (passkeys w)) \<and> distinct (map pk_credentialId (passkeys w))
     \<and> (\<forall>p \<in> set (passkeys w). drawn env w (pk_id p)) \<and> (\<forall>u. held_by u w \<le> PASSKEYS_PER_ACCOUNT)"

inductive passkey_step :: "'tok Env \<Rightarrow> world \<Rightarrow> world \<Rightarrow> bool" for env :: "'tok Env" where
  adding: "addPasskey env p PASSKEYS_PER_ACCOUNT w = (r, t) \<Longrightarrow> passkey_step env w t"
| removing: "removePasskey u i w = (r, t) \<Longrightarrow> passkey_step env w t"
| presenting: "recordUse i n b w = (r, t) \<Longrightarrow> passkey_step env w t"
| not_passkeys: "passkeys t = passkeys w \<Longrightarrow> draws w \<le> draws t \<Longrightarrow> passkey_step env w t"

definition new_row :: "'tok Env \<Rightarrow> NewPasskey \<Rightarrow> world \<Rightarrow> PasskeyEntity" where
  "new_row env p w = \<lparr>pk_id = uuid env (draws w), pk_userId = np_userId p, pk_credentialId = np_credentialId p,
     pk_publicKey = np_publicKey p, pk_signCount = np_signCount p, pk_transports = np_transports p,
     pk_deviceType = np_deviceType p, pk_backedUp = np_backedUp p, pk_name = np_name p,
     pk_createdAt = clock w, pk_lastUsedAt = None\<rparr>"

lemma new_row_simps [simp]:
  "pk_id (new_row env p w) = uuid env (draws w)" "pk_userId (new_row env p w) = np_userId p"
  "pk_credentialId (new_row env p w) = np_credentialId p" "pk_signCount (new_row env p w) = np_signCount p"
  by (simp_all add: new_row_def)

lemma addPasskey_cases:
  assumes "addPasskey env p limit w = (r, t)"
  obtains (added) "user_row (np_userId p) w \<noteq> None" "held_by (np_userId p) w < limit"
      "\<forall>q \<in> set (passkeys w). pk_credentialId q \<noteq> np_credentialId p \<and> pk_id q \<noteq> uuid env (draws w)"
      "r = Inr (Added (new_row env p w))"
      "t = w\<lparr>draws := Suc (draws w), passkeys := passkeys w @ [new_row env p w]\<rparr>"
  | (not_added) "\<forall>q. r \<noteq> Inr (Added q)" "passkeys t = passkeys w" "draws w \<le> draws t"
proof (cases "user_row (np_userId p) w = None \<or> held_by (np_userId p) w \<ge> limit
    \<or> (\<exists>q \<in> set (passkeys w). pk_credentialId q = np_credentialId p \<or> pk_id q = uuid env (draws w))")
  case True
  with assms show ?thesis
    by (intro not_added) (auto simp: addPasskey_def insert_passkey_def atomically_run andThen_run held_by_def
        split: option.splits if_splits)
next
  case False
  with assms show ?thesis
    by (intro added) (auto simp: addPasskey_def insert_passkey_def atomically_run andThen_run held_by_def new_row_def Let_def)
qed

lemma passkeys_ok_frame:
  "passkeys_ok env w \<Longrightarrow> passkeys t = passkeys w \<Longrightarrow> draws w \<le> draws t \<Longrightarrow> passkeys_ok env t"
  using drawn_mono [of env w _ t] by (auto simp: passkeys_ok_def held_by_def)

lemma passkeys_ok_add:
  assumes "passkeys_ok env w" and "inj (uuid env)" and "addPasskey env p PASSKEYS_PER_ACCOUNT w = (r, t)"
  shows "passkeys_ok env t"
  using assms(3)
proof (cases rule: addPasskey_cases)
  case added
  then have "held_by u t \<le> PASSKEYS_PER_ACCOUNT" for u
    using assms(1) by (cases "u = np_userId p") (simp_all add: passkeys_ok_def held_by_def affected_def)
  moreover have "drawn env t (uuid env (draws w))" using added by (auto simp: drawn_def)
  moreover have "\<forall>q \<in> set (passkeys w). drawn env t (pk_id q)"
    using assms(1) added drawn_mono [of env w _ t] by (auto simp: passkeys_ok_def)
  moreover have "uuid env (draws w) \<notin> pk_id ` set (passkeys w)" "np_credentialId p \<notin> pk_credentialId ` set (passkeys w)"
    using added(3) by (metis (mono_tags, lifting) imageE)+
  moreover have "passkeys t = passkeys w @ [new_row env p w]" using added(5) by simp
  ultimately show ?thesis
    using assms(1) unfolding passkeys_ok_def by simp
next
  case not_added
  with assms(1) show ?thesis by (rule_tac passkeys_ok_frame)
qed

lemma affected_delete: "affected P (delete_where Q xs) \<le> affected P xs"
  by (induction xs) (auto simp: affected_def)

lemma passkeys_ok_remove: "passkeys_ok env w \<Longrightarrow> passkeys_ok env (snd (removePasskey u i w))"
proof -
  assume ok: "passkeys_ok env w"
  let ?t = "snd (removePasskey u i w)"
  let ?hit = "\<lambda>p. pk_id p = i \<and> pk_userId p = u"
  have t: "passkeys ?t = delete_where ?hit (passkeys w)" "draws ?t = draws w"
    by (simp_all add: removePasskey_def Let_def)
  have "held_by v ?t \<le> PASSKEYS_PER_ACCOUNT" for v
    using ok affected_delete [of "\<lambda>p. pk_userId p = v" ?hit "passkeys w"] order_trans
    unfolding passkeys_ok_def held_by_def t by blast
  with ok drawn_cong [OF t(2), of env] show ?thesis
    by (simp add: passkeys_ok_def t distinct_delete_where)
qed

lemma affected_update_same: "(\<And>x. P (f x) = P x) \<Longrightarrow> affected P (update_where Q f xs) = affected P xs"
  by (induction xs) (auto simp: affected_def)

lemma passkeys_ok_use: "passkeys_ok env w \<Longrightarrow> passkeys_ok env (snd (recordUse i n b w))"
  by (auto simp: passkeys_ok_def recordUse_def Let_def held_by_def map_update_where_key affected_update_same
      set_update_where drawn_def)

interpretation passkeys: invariant_machine "\<lambda>w. passkeys w = []" "passkey_step env"
  "\<lambda>w. inj (uuid env) \<longrightarrow> passkeys_ok env w" for env
proof unfold_locales
  fix s :: world
  assume "passkeys s = []"
  then show "inj (uuid env) \<longrightarrow> passkeys_ok env s"
    by (simp add: passkeys_ok_def held_by_def affected_def)
next
  fix s t :: world
  assume "inj (uuid env) \<longrightarrow> passkeys_ok env s" and "passkey_step env s t"
  from this(2,1) show "inj (uuid env) \<longrightarrow> passkeys_ok env t"
  proof cases
    case (adding p r)
    then show ?thesis using \<open>inj (uuid env) \<longrightarrow> passkeys_ok env s\<close> passkeys_ok_add by blast
  next
    case (removing u i r)
    then show ?thesis using \<open>inj (uuid env) \<longrightarrow> passkeys_ok env s\<close> passkeys_ok_remove [of env s u i] by simp
  next
    case (presenting i n b r)
    then show ?thesis using \<open>inj (uuid env) \<longrightarrow> passkeys_ok env s\<close> passkeys_ok_use [of env s i n b] by simp
  next
    case not_passkeys
    then show ?thesis using \<open>inj (uuid env) \<longrightarrow> passkeys_ok env s\<close> passkeys_ok_frame by blast
  qed
qed

text \<open>
  C29. An account never holds more than ten passkeys, and a credential is registered at most once on
  the whole platform, in every state reached by adding, removing and using passkeys in any order.
\<close>

theorem passkeys_bounded:
  assumes "inj (uuid env)" and "reaches (\<lambda>w. passkeys w = []) (passkey_step env) w"
  shows "(\<forall>u. length (filter (\<lambda>p. pk_userId p = u) (passkeys w)) \<le> 10) \<and> distinct (map pk_credentialId (passkeys w))"
  using passkeys.inv_reaches [OF assms(2)] assms(1)
  by (simp add: passkeys_ok_def held_by_def affected_def PASSKEYS_PER_ACCOUNT_def)

definition sample_new_passkey :: NewPasskey where
  "sample_new_passkey = \<lparr>np_userId = 1, np_credentialId = ''c'', np_publicKey = [], np_signCount = 0, np_transports = [],
     np_deviceType = SingleDevice, np_backedUp = False, np_name = ''n''\<rparr>"

definition sample_owner_world :: world where
  "sample_owner_world = empty_world\<lparr>users := [sample_row]\<rparr>"

theorem passkeys_bounded_witness:
  "length (passkeys (snd (addPasskey sample_env sample_new_passkey PASSKEYS_PER_ACCOUNT sample_owner_world))) = 1 \<and>
   distinct (map pk_credentialId (passkeys (snd (addPasskey sample_env sample_new_passkey PASSKEYS_PER_ACCOUNT sample_owner_world))))"
proof -
  let ?t = "snd (addPasskey sample_env sample_new_passkey PASSKEYS_PER_ACCOUNT sample_owner_world)"
  have "reaches (\<lambda>w. passkeys w = []) (passkey_step sample_env) sample_owner_world"
    by (rule at_start) (simp add: sample_owner_world_def empty_world_def)
  from by_step [OF this adding [of sample_env sample_new_passkey sample_owner_world
        "fst (addPasskey sample_env sample_new_passkey PASSKEYS_PER_ACCOUNT sample_owner_world)" ?t]]
  have "distinct (map pk_credentialId (passkeys ?t))" using passkeys_bounded [OF sample_env_uuid, of ?t] by simp
  moreover have "length (passkeys ?t) = 1"
    by (simp add: addPasskey_def insert_passkey_def atomically_run andThen_run sample_owner_world_def empty_world_def
        sample_new_passkey_def sample_row_def sample_user_def user_row_def UserEntity.defs UserRow.defs affected_def
        PASSKEYS_PER_ACCOUNT_def Let_def)
  ultimately show ?thesis by blast
qed

section \<open>Sign counts never go back\<close>

definition counts_from :: "string \<Rightarrow> nat \<Rightarrow> 'tok Env \<Rightarrow> world \<Rightarrow> bool" where
  "counts_from i n env w \<longleftrightarrow> drawn env w i \<and> (\<forall>p \<in> set (passkeys w). pk_id p = i \<longrightarrow> n \<le> pk_signCount p)"

lemma recordUse_counts:
  assumes "recordUse i n b w = (r, t)"
  shows "counts_from j m env w \<Longrightarrow> counts_from j m env t"
    and "r = Inr True \<Longrightarrow> \<exists>p \<in> set (passkeys w). pk_id p = i \<and> (if n = 0 then pk_signCount p = 0 else pk_signCount p < n)"
proof -
  let ?adv = "\<lambda>p. if n = 0 then pk_signCount p = 0 else pk_signCount p < n"
  let ?hit = "\<lambda>p. pk_id p = i \<and> ?adv p"
  from assms have t: "passkeys t = update_where ?hit
      (\<lambda>p. p\<lparr>pk_signCount := n, pk_backedUp := b, pk_lastUsedAt := Some (clock w)\<rparr>) (passkeys w)"
    and d: "draws t = draws w" and r: "r = Inr (affected ?hit (passkeys w) = 1)"
    by (auto simp: recordUse_def Let_def)
  show "counts_from j m env t" if "counts_from j m env w"
  proof -
    have "m \<le> pk_signCount q" if "q \<in> set (passkeys t)" "pk_id q = j" for q
    proof -
      from that(1) obtain p where p: "p \<in> set (passkeys w)"
        and q: "q = (if ?hit p then p\<lparr>pk_signCount := n, pk_backedUp := b, pk_lastUsedAt := Some (clock w)\<rparr> else p)"
        by (auto simp: t update_where_def)
      from q have "pk_id p = pk_id q" and "pk_signCount p \<le> pk_signCount q" by (auto split: if_splits)
      with p \<open>counts_from j m env w\<close> \<open>pk_id q = j\<close> show ?thesis unfolding counts_from_def by (metis order_trans)
    qed
    with that drawn_cong [OF d, of env] show ?thesis by (simp add: counts_from_def)
  qed
  assume "r = Inr True"
  with r have "0 < affected ?hit (passkeys w)" by simp
  then show "\<exists>p \<in> set (passkeys w). pk_id p = i \<and> ?adv p" unfolding affected_pos_iff .
qed

lemma passkey_step_counts:
  assumes "inj (uuid env)" and "counts_from i n env w" and "passkey_step env w t"
  shows "counts_from i n env t"
  using assms(3)
proof cases
  case (adding p r)
  from adding(1) show ?thesis
  proof (cases rule: addPasskey_cases)
    case added
    have "i \<noteq> uuid env (draws w)" using assms(2) fresh_draw [OF assms(1) order_refl] by (auto simp: counts_from_def)
    moreover have "drawn env t i" using assms(2) drawn_mono [of env w i t] added by (simp add: counts_from_def)
    ultimately show ?thesis using assms(2) added by (auto simp: counts_from_def)
  next
    case not_added
    with assms(2) drawn_mono show ?thesis by (auto simp: counts_from_def)
  qed
next
  case (removing u j r)
  with assms(2) show ?thesis by (auto simp: removePasskey_def Let_def counts_from_def drawn_def)
next
  case (presenting j m b r)
  then show ?thesis using recordUse_counts(1) assms(2) by blast
next
  case not_passkeys
  with assms(2) drawn_mono show ?thesis by (auto simp: counts_from_def)
qed

interpretation sign_counts: invariant_machine "counts_from i n env" "passkey_step env"
  "\<lambda>w. inj (uuid env) \<longrightarrow> counts_from i n env w" for i n env
  by unfold_locales (use passkey_step_counts in blast)+

text \<open>
  A passkey's sign count never goes back. Once a passkey's count is recorded, it is at least
  that in every later state, and a use that reports a positive count is recorded only when the
  count is higher than the one stored; so an assertion replayed with an old count is refused.
\<close>

theorem sign_count_never_goes_back:
  assumes "inj (uuid env)" and "passkeys_ok env w" and "p \<in> set (passkeys w)" and "(passkey_step env)\<^sup>*\<^sup>* w t"
  shows "(\<forall>q \<in> set (passkeys t). pk_id q = pk_id p \<longrightarrow> pk_signCount p \<le> pk_signCount q) \<and>
    (0 < n \<and> n \<le> pk_signCount p \<longrightarrow> fst (recordUse (pk_id p) n b t) = Inr False)"
proof -
  have "counts_from (pk_id p) (pk_signCount p) env w"
    using assms(2,3) key_unique [of pk_id "passkeys w"] by (auto simp: passkeys_ok_def counts_from_def)
  then have later: "\<forall>q \<in> set (passkeys t). pk_id q = pk_id p \<longrightarrow> pk_signCount p \<le> pk_signCount q"
    using sign_counts.inv_steps [OF assms(4)] assms(1) by (simp add: counts_from_def)
  obtain r u where run: "recordUse (pk_id p) n b t = (Inr r, u)" by (simp add: recordUse_def Let_def)
  have "\<not> r" if "0 < n" "n \<le> pk_signCount p"
    using recordUse_counts(2) [OF run] later that by fastforce
  with later run show ?thesis by auto
qed

theorem sign_count_never_goes_back_witness:
  "fst (recordUse (decimal 0) 0 False
     (empty_world\<lparr>draws := 1, passkeys := [new_row sample_env (sample_new_passkey\<lparr>np_signCount := 5\<rparr>) empty_world]\<rparr>)) = Inr False \<and>
   fst (recordUse (decimal 0) 4 False
     (empty_world\<lparr>draws := 1, passkeys := [new_row sample_env (sample_new_passkey\<lparr>np_signCount := 5\<rparr>) empty_world]\<rparr>)) = Inr False"
proof -
  let ?p = "new_row sample_env (sample_new_passkey\<lparr>np_signCount := 5\<rparr>) empty_world"
  let ?w = "empty_world\<lparr>draws := 1, passkeys := [?p]\<rparr>"
  have ok: "passkeys_ok sample_env ?w"
  proof -
    have "drawn sample_env ?w (pk_id ?p)" by (auto simp: drawn_def empty_world_def)
    then show ?thesis by (simp add: passkeys_ok_def held_by_def affected_def PASSKEYS_PER_ACCOUNT_def)
  qed
  have "?p \<in> set (passkeys ?w)" by simp
  from sign_count_never_goes_back [OF sample_env_uuid ok this rtranclp.rtrancl_refl, of 4 False]
  have "fst (recordUse (decimal 0) 4 False ?w) = Inr False" by (simp add: sample_env_def empty_world_def)
  moreover have "fst (recordUse (decimal 0) 0 False ?w) = Inr False"
    by (simp add: recordUse_def Let_def affected_def)
  ultimately show ?thesis by blast
qed

section \<open>A registration challenge is answered once\<close>

definition challenges_ok :: "'tok Env \<Rightarrow> world \<Rightarrow> bool" where
  "challenges_ok env w \<longleftrightarrow> inj (uuid env) \<and> distinct (map pc_id (passkey_challenges w)) \<and> (\<forall>c \<in> set (passkey_challenges w). drawn env w (pc_id c)
     \<and> (pc_purpose c = ForRegister \<longrightarrow> pc_mfaJti c = None))"

definition answered :: "'tok Env \<Rightarrow> string \<Rightarrow> world \<Rightarrow> bool" where
  "answered env i w \<longleftrightarrow> drawn env w i \<and> (\<forall>c \<in> set (passkey_challenges w).
     pc_id c = i \<longrightarrow> pc_purpose c = ForRegister \<longrightarrow> pc_usedAt c \<noteq> None)"

definition spend_registration :: "string \<times> nat \<Rightarrow> world \<Rightarrow> bool \<times> world" where
  "spend_registration a w = (case spendRegistration (fst a) (snd a) w of (r, t) \<Rightarrow> (\<exists>c. r = Inr (Some c), t))"

inductive challenge_table_step :: "'tok Env \<Rightarrow> world \<Rightarrow> world \<Rightarrow> bool" for env :: "'tok Env" where
  issuing_registration: "issueRegistration env u c s w = (r, t) \<Longrightarrow> challenge_table_step env w t"
| issuing_sign_in: "issueSignIn env u j c s w = (r, t) \<Longrightarrow> challenge_table_step env w t"
| spending_sign_in: "spendSignIn j u w = (r, t) \<Longrightarrow> challenge_table_step env w t"
| sweeping_challenges: "sweepChallenges w = (r, t) \<Longrightarrow> challenge_table_step env w t"
| not_challenges: "passkey_challenges t = passkey_challenges w \<Longrightarrow> draws w \<le> draws t \<Longrightarrow> challenge_table_step env w t"

text \<open>
  What every step does to the challenges: some rows go, others keep their id, purpose and second
  factor challenge, only sign-in rows are opened again, and a new row has a fresh id.
\<close>

inductive challenges_follow :: "'tok Env \<Rightarrow> world \<Rightarrow> world \<Rightarrow> bool" for env :: "'tok Env" where
  kept: "(\<And>c. c \<in> set (passkey_challenges t) \<Longrightarrow> \<exists>o' \<in> set (passkey_challenges w). pc_id c = pc_id o' \<and>
       pc_purpose c = pc_purpose o' \<and> pc_mfaJti c = pc_mfaJti o' \<and>
       (pc_mfaJti o' = None \<longrightarrow> pc_usedAt o' \<noteq> None \<longrightarrow> pc_usedAt c \<noteq> None)) \<Longrightarrow>
     (distinct (map pc_id (passkey_challenges w)) \<longrightarrow> distinct (map pc_id (passkey_challenges t))) \<Longrightarrow>
     draws w \<le> draws t \<Longrightarrow> challenges_follow env w t"
| grown: "passkey_challenges t = passkey_challenges w @ [c] \<Longrightarrow> pc_id c = uuid env (draws w) \<Longrightarrow>
     (pc_purpose c = ForRegister \<longrightarrow> pc_mfaJti c = None) \<Longrightarrow> draws t = Suc (draws w) \<Longrightarrow> challenges_follow env w t"

lemma kept_same: "passkey_challenges t = passkey_challenges w \<Longrightarrow> draws w \<le> draws t \<Longrightarrow> challenges_follow env w t"
  by (rule kept) auto

lemma kept_update:
  assumes "passkey_challenges t = update_where P f (passkey_challenges w)" and "draws w \<le> draws t"
    and "\<And>c. pc_id (f c) = pc_id c \<and> pc_purpose (f c) = pc_purpose c \<and> pc_mfaJti (f c) = pc_mfaJti c"
    and "\<And>c. P c \<Longrightarrow> pc_mfaJti c = None \<Longrightarrow> pc_usedAt c \<noteq> None \<Longrightarrow> pc_usedAt (f c) \<noteq> None"
  shows "challenges_follow env w t"
proof (rule kept)
  fix c assume "c \<in> set (passkey_challenges t)"
  then obtain o' where o': "o' \<in> set (passkey_challenges w)" "c = (if P o' then f o' else o')"
    by (auto simp: assms(1) update_where_def)
  with assms(3,4) [of o'] show "\<exists>o' \<in> set (passkey_challenges w). pc_id c = pc_id o' \<and>
       pc_purpose c = pc_purpose o' \<and> pc_mfaJti c = pc_mfaJti o' \<and>
       (pc_mfaJti o' = None \<longrightarrow> pc_usedAt o' \<noteq> None \<longrightarrow> pc_usedAt c \<noteq> None)"
    by (intro bexI [of _ o']) simp_all
qed (use assms in \<open>simp_all add: map_update_where_key\<close>)

lemma spend_row_follows: "spend_row which u w = (r, t) \<Longrightarrow> challenges_follow env w t"
  by (rule kept_update [where f = "\<lambda>c. c\<lparr>pc_usedAt := Some (clock w)\<rparr>"
        and P = "\<lambda>c. which c \<and> pc_userId c = u \<and> pc_usedAt c = None \<and> pc_expiresAt c > clock w"])
    (auto simp: spend_row_def Let_def)

lemma challenge_table_step_follows: "challenge_table_step env w t \<Longrightarrow> challenges_follow env w t"
proof (induction rule: challenge_table_step.cases)
  case (issuing_registration u c s w r t)
  then have run: "issueRegistration env u c s w = (r, t)" by simp
  show ?case
  proof (cases "(\<exists>q \<in> set (passkey_challenges w). pc_id q = uuid env (draws w)) \<or> user_row u w = None")
    case True
    with run have "passkey_challenges t = passkey_challenges w" "draws t = Suc (draws w)"
      by (auto simp: issueRegistration_def andThen_run user_row_def split: if_splits)
    with issuing_registration show ?thesis by (auto intro: kept_same)
  next
    case False
    with run have "t = w\<lparr>draws := Suc (draws w), passkey_challenges := passkey_challenges w @
        [\<lparr>pc_id = uuid env (draws w), pc_userId = u, pc_purpose = ForRegister, pc_challenge = c, pc_mfaJti = None,
          pc_expiresAt = clock w + s * 1000, pc_usedAt = None\<rparr>]\<rparr>"
      by (auto simp: issueRegistration_def andThen_run user_row_def split: if_splits)
    with issuing_registration show ?thesis by (auto intro: grown)
  qed
next
  case (issuing_sign_in u j c s w r t)
  then have run: "issueSignIn env u j c s w = (r, t)" by simp
  show ?case
  proof (cases "\<exists>q \<in> set (passkey_challenges w). pc_mfaJti q = Some j")
    case True
    let ?P = "\<lambda>q. pc_mfaJti q = Some j \<and> pc_userId q = u"
    let ?f = "\<lambda>q. q\<lparr>pc_challenge := c, pc_expiresAt := clock w + s * 1000, pc_usedAt := None\<rparr>"
    from True run have "t = w\<lparr>draws := Suc (draws w), passkey_challenges := update_where ?P ?f (passkey_challenges w)\<rparr>"
      by (auto simp: issueSignIn_def andThen_run)
    with issuing_sign_in show ?thesis by (intro kept_update [where P = ?P and f = ?f]) auto
  next
    case new: False
    show ?thesis
    proof (cases "(\<exists>q \<in> set (passkey_challenges w). pc_id q = uuid env (draws w)) \<or> user_row u w = None")
      case True
      with new run have "passkey_challenges t = passkey_challenges w" "draws t = Suc (draws w)"
        by (auto simp: issueSignIn_def andThen_run user_row_def split: if_splits)
      with issuing_sign_in show ?thesis by (auto intro: kept_same)
    next
      case False
      with new run have "t = w\<lparr>draws := Suc (draws w), passkey_challenges := passkey_challenges w @
          [\<lparr>pc_id = uuid env (draws w), pc_userId = u, pc_purpose = ForSignIn, pc_challenge = c, pc_mfaJti = Some j,
            pc_expiresAt = clock w + s * 1000, pc_usedAt = None\<rparr>]\<rparr>"
        by (auto simp: issueSignIn_def andThen_run user_row_def split: if_splits)
      with issuing_sign_in show ?thesis by (auto intro: grown)
    qed
  qed
next
  case (spending_sign_in j u w r t)
  then show ?case by (auto simp: spendSignIn_def intro: spend_row_follows)
next
  case (sweeping_challenges w r t)
  then show ?case by (intro kept) (auto simp: sweepChallenges_def Let_def distinct_delete_where)
next
  case (not_challenges t w)
  then show ?case by (auto intro: kept_same)
qed

lemma challenges_follow_ok: "challenges_follow env w t \<Longrightarrow> challenges_ok env w \<Longrightarrow> challenges_ok env t"
proof (induction rule: challenges_follow.induct)
  case (kept t w)
  have "drawn env t (pc_id c) \<and> (pc_purpose c = ForRegister \<longrightarrow> pc_mfaJti c = None)" if "c \<in> set (passkey_challenges t)" for c
    using kept(1) [OF that] kept(3,4) drawn_mono [of env w _ t] by (auto simp: challenges_ok_def)
  with kept(2,4) show ?case by (simp add: challenges_ok_def)
next
  case (grown t w c)
  have "drawn env t (uuid env (draws w))" using grown(4) by (auto simp: drawn_def)
  moreover have "uuid env (draws w) \<notin> pc_id ` set (passkey_challenges w)"
    using grown(5) fresh_draw [of env w "draws w"] by (auto simp: challenges_ok_def)
  ultimately show ?case using grown drawn_mono [of env w _ t] by (auto simp: challenges_ok_def)
qed

lemma challenges_follow_answered:
  "challenges_follow env w t \<Longrightarrow> challenges_ok env w \<Longrightarrow> answered env i w \<Longrightarrow> answered env i t"
proof (induction rule: challenges_follow.induct)
  case (kept t w)
  have "pc_usedAt c \<noteq> None" if "c \<in> set (passkey_challenges t)" "pc_id c = i" "pc_purpose c = ForRegister" for c
    using kept(1) [OF that(1)] kept(4,5) that(2,3) by (auto simp: answered_def challenges_ok_def)
  with kept(3,5) drawn_mono [of env w _ t] show ?case by (auto simp: answered_def)
next
  case (grown t w c)
  have "i \<noteq> uuid env (draws w)"
    using grown(5,6) fresh_draw [of env w "draws w"] by (auto simp: answered_def challenges_ok_def)
  with grown drawn_mono [of env w i t] show ?case by (auto simp: answered_def)
qed

interpretation registration_challenge: one_shot spend_registration fst "challenge_table_step env" "answered env" "challenges_ok env" for env
proof unfold_locales
  fix s t :: world and a won
  assume "challenges_ok env s" and "spend_registration a s = (won, t)"
  then show "challenges_ok env t"
    by (auto simp: spend_registration_def spendRegistration_def split: prod.splits intro: challenges_follow_ok spend_row_follows)
next
  fix s t :: world
  assume "challenges_ok env s" and "challenge_table_step env s t"
  then show "challenges_ok env t" using challenge_table_step_follows challenges_follow_ok by blast
next
  fix s t :: world and a
  assume ok: "challenges_ok env s" and "spend_registration a s = (True, t)"
  then obtain c where run: "spendRegistration (fst a) (snd a) s = (Inr (Some c), t)"
    by (auto simp: spend_registration_def split: prod.splits)
  let ?hit = "\<lambda>c. (pc_id c = fst a \<and> pc_purpose c = ForRegister) \<and> pc_userId c = snd a \<and> pc_usedAt c = None \<and> pc_expiresAt c > clock s"
  from run obtain q where "find ?hit (passkey_challenges s) = Some q"
    by (auto simp: spendRegistration_def spend_row_def Let_def)
  then have q: "q \<in> set (passkey_challenges s)" "pc_id q = fst a" "pc_purpose q = ForRegister" "pc_usedAt q = None"
    by (auto dest: find_Some_mem)
  then have "\<not> answered env (fst a) s" by (auto simp: answered_def)
  moreover have "answered env (fst a) t"
  proof -
    from run have t: "passkey_challenges t = update_where ?hit (\<lambda>c. c\<lparr>pc_usedAt := Some (clock s)\<rparr>) (passkey_challenges s)"
      and d: "draws t = draws s" by (auto simp: spendRegistration_def spend_row_def Let_def)
    have "pc_usedAt c \<noteq> None" if c: "c \<in> set (passkey_challenges t)" "pc_id c = fst a" for c
    proof -
      from c(1) obtain o' where o': "o' \<in> set (passkey_challenges s)"
        "c = (if ?hit o' then o'\<lparr>pc_usedAt := Some (clock s)\<rparr> else o')" by (auto simp: t update_where_def)
      with c(2) q(2) have "pc_id o' = pc_id q" by (auto split: if_splits)
      with ok o'(1) q(1) have "o' = q" using key_unique [of pc_id] by (auto simp: challenges_ok_def)
      moreover have "?hit q" using \<open>find ?hit (passkey_challenges s) = Some q\<close> by (auto dest: find_Some_mem)
      ultimately show ?thesis using o'(2) by simp
    qed
    with ok q(1,2) drawn_cong [OF d, of env] show ?thesis by (auto simp: answered_def challenges_ok_def)
  qed
  ultimately show "\<not> answered env (fst a) s \<and> answered env (fst a) t" ..
next
  fix s t :: world and k a won
  assume "challenges_ok env s" and "answered env k s" and "spend_registration a s = (won, t)"
  then show "answered env k t"
    by (auto simp: spend_registration_def spendRegistration_def split: prod.splits intro: challenges_follow_answered spend_row_follows)
next
  fix s t :: world and k
  assume "challenges_ok env s" and "answered env k s" and "challenge_table_step env s t"
  then show "answered env k t" using challenge_table_step_follows challenges_follow_answered by blast
qed

text \<open>
  A registration challenge is answered at most once. However answers, new challenges for
  registration and sign-in, sweeps and other requests are ordered, at most one request spends the
  challenge with a given id, by whatever account it is presented.
\<close>

theorem registration_challenge_spent_once:
  "challenges_ok env w \<Longrightarrow> spend_run spend_registration fst (challenge_table_step env) challengeId w n t \<Longrightarrow> n \<le> 1"
  by (rule registration_challenge.at_most_once)

definition sample_challenges :: world where
  "sample_challenges = empty_world\<lparr>draws := 1, passkey_challenges := [\<lparr>pc_id = decimal 0, pc_userId = 1, pc_purpose = ForRegister,
     pc_challenge = ''x'', pc_mfaJti = None, pc_expiresAt = 300000, pc_usedAt = None\<rparr>]\<rparr>"

theorem registration_challenge_spent_once_witness:
  "spend_run spend_registration fst (challenge_table_step sample_env) (decimal 0) sample_challenges 1
     (snd (spend_registration (decimal 0, 1) sample_challenges)) \<and> (1::nat) \<le> 1"
proof -
  have ok: "challenges_ok sample_env sample_challenges"
  proof -
    have "drawn sample_env sample_challenges (decimal 0)" by (auto simp: drawn_def sample_challenges_def sample_env_def)
    then show ?thesis by (simp add: challenges_ok_def sample_challenges_def)
  qed
  have won: "spend_registration (decimal 0, 1) sample_challenges = (True, snd (spend_registration (decimal 0, 1) sample_challenges))"
    by (simp add: spend_registration_def spendRegistration_def spend_row_def sample_challenges_def empty_world_def Let_def)
  have run: "spend_run spend_registration fst (challenge_table_step sample_env) (decimal 0) sample_challenges 1
      (snd (spend_registration (decimal 0, 1) sample_challenges))"
    using run_spend [of spend_registration fst "challenge_table_step sample_env" "decimal 0" sample_challenges 0 sample_challenges,
      OF run_start won] by simp
  show ?thesis using run registration_challenge_spent_once [OF ok run] by simp
qed

end
