(* ===== verification/Auth_Usecase.thy ===== *)
theory Auth_Usecase
  imports Sign_In_Attempts Sessions Client_Gate Passkey_Store
begin

text \<open>
  Signing in and out (\<^verbatim>\<open>application/services/auth_usecase.service.ts\<close>): password sign-in, the second
  factor, registration, renewal, logout, and turning the second factor on and off, composed from
  the attempts service, the account table, the principal resolver, the token service and the client
  gate. \<open>account_state\<close> is the invariant of all the tables these operations write together.
\<close>

section \<open>What the operations return\<close>

record 'tok AuthTokenOutput =
  at_accessToken :: 'tok
  at_refreshToken :: 'tok
  at_expiresIn :: int
  at_userId :: nat
  at_email :: string
  at_role :: UserRole
  at_principalId :: string

datatype 'tok LoginOutcome =
    SignedIn "'tok AuthTokenOutput"
  | TwoFactorChallenge 'tok int bool
  | TwoFactorEnrolment 'tok int nat

record OpenChallenge =
  oc_claims :: Claims
  oc_user :: UserEntity
  oc_secret :: string

record TwoFactorSetup =
  tf_secret :: string
  tf_qrCodeUrl :: string
  tf_enabled :: bool

definition tokenOutput :: "'tok TokenPair \<Rightarrow> UserEntity \<Rightarrow> string \<Rightarrow> 'tok AuthTokenOutput" where
  "tokenOutput pair user principalId =
     \<lparr>at_accessToken = tp_accessToken pair, at_refreshToken = tp_refreshToken pair, at_expiresIn = tp_expiresIn pair,
      at_userId = u_id user, at_email = u_email user, at_role = u_role user, at_principalId = principalId\<rparr>"

section \<open>Passwords and codes\<close>

definition invalidCredentials :: failure where
  "invalidCredentials = UnauthorizedException ''Invalid email or password credentials''"

definition checkPassword :: "'tok Env \<Rightarrow> UserEntity \<Rightarrow> string \<Rightarrow> nat \<Rightarrow> CallContext \<Rightarrow> unit act" where
  "checkPassword env user password attempt context =
     (if \<not> bcrypt_compare env password (u_passwordHash user)
      then andThen (failed env \<lparr>sf_stage = PasswordStage, sf_reason = wrong_password, sf_email = u_email user,
             sf_user = Some user, sf_attempts = attempt, sf_detail = None\<rparr> context)
           (\<lambda>_. throws invalidCredentials)
      else returns ())"

definition verifyPassword :: "'tok Env \<Rightarrow> string \<Rightarrow> string \<Rightarrow> CallContext \<Rightarrow> UserEntity act" where
  "verifyPassword env rawEmail password context =
     (let email = normalisedEmail rawEmail in
      andThen (admit env email)
      (\<lambda>attempt. andThen (findByEmail email)
      (\<lambda>found. case found of
         None \<Rightarrow>
           andThen (failed env \<lparr>sf_stage = PasswordStage, sf_reason = unknown_account, sf_email = email,
             sf_user = None, sf_attempts = attempt, sf_detail = None\<rparr> context)
           (\<lambda>_. throws invalidCredentials)
       | Some user \<Rightarrow>
           andThen (checkPassword env user password attempt context) (\<lambda>_. returns user))))"

definition confirmPassword :: "'tok Env \<Rightarrow> UserEntity \<Rightarrow> string \<Rightarrow> CallContext \<Rightarrow> nat act" where
  "confirmPassword env user password context =
     andThen (admit env (u_email user))
     (\<lambda>attempt. andThen (checkPassword env user password attempt context) (\<lambda>_. returns attempt))"

definition now_step :: "'tok Env \<Rightarrow> string \<Rightarrow> string \<Rightarrow> int option act" where
  "now_step env secret code =
     andThen (reads clock) (\<lambda>now. lifted (acceptedStep (hmac_sha1 env) secret code now))"

definition acceptCode :: "'tok Env \<Rightarrow> UserEntity \<Rightarrow> string \<Rightarrow> string \<Rightarrow> nat \<Rightarrow> CallContext \<Rightarrow> unit act" where
  "acceptCode env user secret code attempt context =
     andThen (now_step env secret code)
     (\<lambda>step. case step of
        None \<Rightarrow>
          andThen (failed env \<lparr>sf_stage = TwoFactorStage, sf_reason = wrong_code, sf_email = u_email user,
            sf_user = Some user, sf_attempts = attempt, sf_detail = None\<rparr> context)
          (\<lambda>_. throws (UnprocessableEntityException ''That code is not valid''))
      | Some s \<Rightarrow>
          andThen (acceptTwoFactorStep (u_id user) s)
          (\<lambda>fresh. if \<not> fresh then
             andThen (failed env \<lparr>sf_stage = TwoFactorStage, sf_reason = code_reused, sf_email = u_email user,
               sf_user = Some user, sf_attempts = attempt, sf_detail = None\<rparr> context)
             (\<lambda>_. throws (UnprocessableEntityException ''That code has already been used; wait for the next one''))
           else returns ()))"

section \<open>Starting a session\<close>

definition startSession :: "'tok Env \<Rightarrow> UserEntity \<Rightarrow> CallContext \<Rightarrow> 'tok AuthTokenOutput act" where
  "startSession env user context =
     (if requiresTwoFactor (u_role user) \<and> \<not> u_isTwoFactorEnabled user
      then throws (PlainError ''refusing to start a full session for an admin account which has no second factor'')
      else
        andThen (lifted (checkedClient (ctx_client context)))
        (\<lambda>checked. let client = clientNameOf checked in
         andThen (resolveOrMintForUser env (subjectOf user))
        (\<lambda>principalId. andThen (syncKind principalId (u_role user))
        (\<lambda>_. andThen (succeeded env (u_email user))
        (\<lambda>_. andThen (issuePair env (subjectOf user) principalId client)
        (\<lambda>pair. returns (tokenOutput pair user principalId)))))))"

definition startEnrolment :: "'tok Env \<Rightarrow> UserEntity \<Rightarrow> CallContext \<Rightarrow> 'tok LoginOutcome act" where
  "startEnrolment env user context =
     andThen (lifted (checkedClient (ctx_client context)))
     (\<lambda>checked. let client = clientNameOf checked in
      andThen (resolveOrMintForUser env (subjectOf user))
     (\<lambda>principalId. andThen (syncKind principalId (u_role user))
     (\<lambda>_. andThen (succeeded env (u_email user))
     (\<lambda>_. andThen (issueEnrolment env (subjectOf user) principalId client)
     (\<lambda>(token, expiresIn). returns (TwoFactorEnrolment token expiresIn (u_id user)))))))"

definition login :: "'tok Env \<Rightarrow> string \<Rightarrow> string \<Rightarrow> CallContext \<Rightarrow> 'tok LoginOutcome act" where
  "login env email password context =
     andThen (verifyPassword env email password context)
     (\<lambda>user. if u_isTwoFactorEnabled user then
        andThen (resolveOrMintForUser env (subjectOf user))
        (\<lambda>principalId. andThen (issueMfaChallenge env (subjectOf user) principalId)
        (\<lambda>(token, expiresIn). andThen (existsForUser (u_id user))
        (\<lambda>held. returns (TwoFactorChallenge token expiresIn held))))
      else if requiresTwoFactor (u_role user) then startEnrolment env user context
      else andThen (startSession env user context) (\<lambda>out. returns (SignedIn out)))"

definition register :: "'tok Env \<Rightarrow> string \<Rightarrow> string \<Rightarrow> CallContext \<Rightarrow> 'tok AuthTokenOutput act" where
  "register env rawEmail password context =
     andThen (lifted (checkedClient (ctx_client context)))
     (\<lambda>_. let email = normalisedEmail rawEmail in
      andThen (findByEmail email)
     (\<lambda>existing. if existing \<noteq> None then throws (ConflictException ''Email address is already registered'')
      else
        andThen (reads draws)
        (\<lambda>d. andThen (writes (\<lambda>w. w\<lparr>draws := Suc d\<rparr>))
        (\<lambda>_. let passwordHash = bcrypt_hash env d password 10 in
         andThen (saveUser \<lparr>u_id = 0, u_email = email, u_passwordHash = passwordHash, u_role = Customer,
            u_isTwoFactorEnabled = False, u_twoFactorSecret = None\<rparr>)
         (\<lambda>savedUser. startSession env savedUser context)))))"

section \<open>Answering a challenge\<close>

definition openChallenge :: "'tok Env \<Rightarrow> 'tok \<Rightarrow> OpenChallenge act" where
  "openChallenge env challengeToken =
     andThen (peekMfaChallenge env challengeToken)
     (\<lambda>claims. andThen (refuseSpentMfaChallenge claims)
     (\<lambda>_. andThen (findById (cl_uid claims))
     (\<lambda>found. case found of
        None \<Rightarrow> throws (UnauthorizedException ''CHALLENGE_INVALID'')
      | Some user \<Rightarrow>
          (case u_twoFactorSecret user of
             Some secret \<Rightarrow>
               if \<not> u_isTwoFactorEnabled user \<or> secret = [] then throws (UnauthorizedException ''CHALLENGE_INVALID'')
               else returns \<lparr>oc_claims = claims, oc_user = user, oc_secret = secret\<rparr>
           | None \<Rightarrow> throws (UnauthorizedException ''CHALLENGE_INVALID'')))))"

definition admitAnswer :: "'tok Env \<Rightarrow> UserEntity \<Rightarrow> Claims \<Rightarrow> nat act" where
  "admitAnswer env user claims =
     andThen (admitChallengeAttempt env (u_email user) claims)
     (\<lambda>attempt. case attempt of
        None \<Rightarrow> throws (UnauthorizedException ''CHALLENGE_EXHAUSTED'')
      | Some a \<Rightarrow> returns a)"

definition verifyTwoFactor :: "'tok Env \<Rightarrow> 'tok \<Rightarrow> string \<Rightarrow> CallContext \<Rightarrow> 'tok AuthTokenOutput act" where
  "verifyTwoFactor env challengeToken code context =
     andThen (openChallenge env challengeToken)
     (\<lambda>oc. let user = oc_user oc; claims = oc_claims oc in
      andThen (admitAnswer env user claims)
     (\<lambda>attempt. andThen (now_step env (oc_secret oc) code)
     (\<lambda>step. case step of
        None \<Rightarrow>
          andThen (failed env \<lparr>sf_stage = TwoFactorStage, sf_reason = wrong_code, sf_email = u_email user,
            sf_user = Some user, sf_attempts = attempt, sf_detail = None\<rparr> context)
          (\<lambda>_. throws (UnauthorizedException ''WRONG_CODE''))
      | Some s \<Rightarrow>
          andThen (consumeMfaChallenge claims)
          (\<lambda>_. andThen (acceptTwoFactorStep (u_id user) s)
          (\<lambda>fresh. if \<not> fresh then
             andThen (failed env \<lparr>sf_stage = TwoFactorStage, sf_reason = code_reused, sf_email = u_email user,
               sf_user = Some user, sf_attempts = attempt, sf_detail = None\<rparr> context)
             (\<lambda>_. throws (UnauthorizedException ''CHALLENGE_SPENT''))
           else startSession env user context)))))"

section \<open>Renewing and ending a session\<close>

definition refresh :: "'tok Env \<Rightarrow> 'tok \<Rightarrow> CallContext \<Rightarrow> 'tok AuthTokenOutput act" where
  "refresh env refreshToken context =
     andThen (peekRefresh env refreshToken)
     (\<lambda>claims. andThen (lifted (checkedClient (ctx_client context)))
     (\<lambda>client. let sessionClient = cl_azp claims in
      if sessionClientDecision sessionClient client = Mismatch
      then andThen (mismatch sessionClient client (cl_uid claims)) throws
      else
        andThen (findById (cl_uid claims))
        (\<lambda>found. case found of
           None \<Rightarrow> throws (UnauthorizedException ''The account behind this token no longer exists'')
         | Some user \<Rightarrow>
             if requiresTwoFactor (u_role user) \<and> \<not> u_isTwoFactorEnabled user
             then andThen (revokeFamily (case cl_fam claims of Some f \<Rightarrow> f | None \<Rightarrow> []) ''two_factor_required'')
                  (\<lambda>_. throws (UnauthorizedException ''TWO_FACTOR_REQUIRED''))
             else
               andThen (resolveOrMintForUser env (subjectOf user))
               (\<lambda>principalId. andThen
                  (catches (rotate env refreshToken (subjectOf user) client)
                     (\<lambda>e. case e of
                        ClientMismatchError sc \<Rightarrow> andThen (mismatch sc client (u_id user)) throws
                      | _ \<Rightarrow> throws e))
               (\<lambda>(pair, wasBound). andThen
                  (case client of Named n \<Rightarrow> if wasBound then bound n (u_id user) else returns () | Unnamed \<Rightarrow> returns ())
               (\<lambda>_. returns (tokenOutput pair user principalId)))))))"

definition logout :: "'tok Env \<Rightarrow> Claims \<Rightarrow> 'tok option \<Rightarrow> unit act" where
  "logout env claims refreshToken =
     andThen
       (case refreshToken of
          None \<Rightarrow> returns None
        | Some token \<Rightarrow>
            andThen (peekRefresh env token)
            (\<lambda>r. if cl_sub r \<noteq> cl_sub claims then throws (ForbiddenException ''That refresh token belongs to another account'')
               else returns (cl_fam r)))
       (\<lambda>familyId. token_logout claims familyId)"

section \<open>Turning the second factor on and off\<close>

definition ownAccount :: "Claims \<Rightarrow> nat \<Rightarrow> UserEntity act" where
  "ownAccount claims userId =
     (if cl_uid claims \<noteq> userId then throws (ForbiddenException ''This account may only act on its own second factor'')
      else
        andThen (findById userId)
        (\<lambda>found. case found of None \<Rightarrow> throws (NotFoundException ''User not found'') | Some user \<Rightarrow> returns user))"

definition passwordToConfirm :: "Claims \<Rightarrow> string option \<Rightarrow> failure + string option" where
  "passwordToConfirm claims password =
     (if cl_token_use claims = ''mfa_enrolment'' then Inr None
      else (case password of
          None \<Rightarrow> Inl (BadRequestException ''PASSWORD_REQUIRED'')
        | Some p \<Rightarrow> Inr (Some p)))"

definition setupTwoFactor :: "'tok Env \<Rightarrow> Claims \<Rightarrow> nat \<Rightarrow> string option \<Rightarrow> CallContext \<Rightarrow> TwoFactorSetup act" where
  "setupTwoFactor env claims userId dto_password context =
     andThen (ownAccount claims userId)
     (\<lambda>user. andThen (lifted (passwordToConfirm claims dto_password))
     (\<lambda>password. andThen
        (case password of
           None \<Rightarrow> returns ()
         | Some p \<Rightarrow> andThen (admit env (u_email user)) (\<lambda>attempt. checkPassword env user p attempt context))
     (\<lambda>_. if u_isTwoFactorEnabled user
        then throws (ConflictException ''Two-factor authentication is already enabled for this account'')
        else
          andThen (reads draws)
          (\<lambda>d. andThen (writes (\<lambda>w. w\<lparr>draws := Suc d\<rparr>))
          (\<lambda>_. let secret = generateSecret (random20 env d) in
           andThen (saveUser (user\<lparr>u_twoFactorSecret := Some secret, u_isTwoFactorEnabled := False\<rparr>))
           (\<lambda>_. returns \<lparr>tf_secret = secret, tf_qrCodeUrl = otpauthUrl (u_email user) secret, tf_enabled = False\<rparr>))))))"

definition enableTwoFactor :: "'tok Env \<Rightarrow> Claims \<Rightarrow> nat \<Rightarrow> string option \<Rightarrow> string \<Rightarrow> CallContext \<Rightarrow> unit act" where
  "enableTwoFactor env claims userId dto_password code context =
     andThen (ownAccount claims userId)
     (\<lambda>user. andThen (lifted (passwordToConfirm claims dto_password))
     (\<lambda>password. andThen (admit env (u_email user))
     (\<lambda>attempt. andThen
        (case password of None \<Rightarrow> returns () | Some p \<Rightarrow> checkPassword env user p attempt context)
     (\<lambda>_. if u_twoFactorSecret user = None \<or> u_twoFactorSecret user = Some []
        then throws (BadRequestException ''Request a two-factor secret before enabling it'')
        else
          andThen (acceptCode env user (the (u_twoFactorSecret user)) code attempt context)
          (\<lambda>_. andThen
             (if cl_token_use claims = ''mfa_enrolment''
              then andThen (revokeAllFamiliesForPrincipal (cl_sub claims) ''two_factor_enabled'') (\<lambda>_. endEnrolment claims)
              else revokeOtherSessions (cl_sub claims) (cl_fam claims) ''two_factor_enabled'')
          (\<lambda>_. andThen (saveUser (user\<lparr>u_isTwoFactorEnabled := True\<rparr>)) (\<lambda>_. returns ())))))))"

definition disableTwoFactor :: "'tok Env \<Rightarrow> Claims \<Rightarrow> nat \<Rightarrow> string \<Rightarrow> string \<Rightarrow> CallContext \<Rightarrow> unit act" where
  "disableTwoFactor env claims userId password code context =
     andThen (ownAccount claims userId)
     (\<lambda>user. andThen (admit env (u_email user))
     (\<lambda>attempt. andThen (checkPassword env user password attempt context)
     (\<lambda>_. if \<not> u_isTwoFactorEnabled user \<or> u_twoFactorSecret user = None \<or> u_twoFactorSecret user = Some []
        then throws (ConflictException ''Two-factor authentication is not enabled for this account'')
        else
          andThen (acceptCode env user (the (u_twoFactorSecret user)) code attempt context)
          (\<lambda>_. andThen
             (if requiresTwoFactor (u_role user)
              then andThen (revokeAllFamiliesForPrincipal (cl_sub claims) ''two_factor_disabled'')
                   (\<lambda>_. revokeAccessJti (cl_jti claims) (cl_exp claims * 1000) ''two_factor_disabled'')
              else revokeOtherSessions (cl_sub claims) (cl_fam claims) ''two_factor_disabled'')
          (\<lambda>_. andThen (saveUser (user\<lparr>u_isTwoFactorEnabled := False, u_twoFactorSecret := None\<rparr>)) (\<lambda>_. returns ()))))))"

section \<open>The invariant of the account tables\<close>

definition account_state :: "'tok Env \<Rightarrow> world \<Rightarrow> bool" where
  "account_state env w \<longleftrightarrow> users_ok w \<and> principals_ok env w \<and> sessions_ok env w"

lemma principals_ok_frame:
  "principals_ok env w \<Longrightarrow> principals t = principals w \<Longrightarrow> aliases t = aliases w \<Longrightarrow> draws w \<le> draws t \<Longrightarrow>
   principals_ok env t"
  using drawn_mono [of env w _ t] unfolding principals_ok_def by auto

lemma users_ok_maps:
  "users_ok w \<longleftrightarrow> distinct (map u_id (users w)) \<and> distinct (map (\<lambda>r. js_toLowerCase (u_email r)) (users w))
     \<and> 0 < user_seq w \<and> (\<forall>i \<in> set (map u_id (users w)). 0 < i)"
  by (simp add: users_ok_def)

lemma account_state_frame:
  assumes "account_state env w" and "users t = users w" "user_seq t = user_seq w" "principals t = principals w"
    "aliases t = aliases w" "refresh_tokens t = refresh_tokens w" "draws w \<le> draws t"
  shows "account_state env t"
proof -
  from assms have "sessions_ok env t" by (auto simp: account_state_def intro: sessions_ok_frame)
  moreover from assms have "principals_ok env t"
    by (auto simp: account_state_def intro: principals_ok_frame)
  ultimately show ?thesis using assms by (simp add: account_state_def users_ok_def)
qed

lemma account_state_other [simp]:
  "account_state env (w\<lparr>account_sign_in_attempts := a\<rparr>) = account_state env w"
  "account_state env (w\<lparr>two_factor_challenge_attempts := b\<rparr>) = account_state env w"
  "account_state env (w\<lparr>revoked_access_tokens := c\<rparr>) = account_state env w"
  "account_state env (w\<lparr>events := e\<rparr>) = account_state env w"
  by (simp_all add: account_state_def users_ok_def principals_ok_def sessions_ok_def drawn_def)

lemma account_state_draw: "account_state env w \<Longrightarrow> draws w \<le> n \<Longrightarrow> account_state env (w\<lparr>draws := n\<rparr>)"
  by (erule account_state_frame) simp_all

named_theorems account_keeps \<open>operations that keep the invariant of the account tables\<close>

lemma keeps_record_event [account_keeps]: "keeps (account_state env) (record_event e)"
  by (rule keepsI) simp

lemma keeps_randomUUID [account_keeps]: "keeps (account_state env) (randomUUID env)"
  by (rule keepsI) (simp add: account_state_draw)

lemma keeps_lockAccount [account_keeps]: "keeps (account_state env) (lockAccount k)"
  unfolding lockAccount_def by (intro keeps_rules keeps_writes) simp

lemma keeps_recordAccountAttempt [account_keeps]: "keeps (account_state env) (recordAccountAttempt k n d now)"
  unfolding recordAccountAttempt_def by (intro keeps_writes) simp

lemma keeps_AttemptAdmission [keeps_rules]:
  "(\<And>n d. x = Admitted n d \<Longrightarrow> keeps I (f n d)) \<Longrightarrow> (\<And>r. x = NotAdmitted r \<Longrightarrow> keeps I (g r)) \<Longrightarrow>
   keeps I (case x of Admitted n d \<Rightarrow> f n d | NotAdmitted r \<Rightarrow> g r)"
  by (cases x) simp_all

lemma keeps_ChallengeAdmission [keeps_rules]:
  "(\<And>n. x = ChallengeAdmitted n \<Longrightarrow> keeps I (f n)) \<Longrightarrow> (\<And>r. x = ChallengeDelayed r \<Longrightarrow> keeps I (g r)) \<Longrightarrow>
   (x = ChallengeExhausted \<Longrightarrow> keeps I h) \<Longrightarrow>
   keeps I (case x of ChallengeAdmitted n \<Rightarrow> f n | ChallengeDelayed r \<Rightarrow> g r | ChallengeExhausted \<Rightarrow> h)"
  by (cases x) simp_all

lemma keeps_admit [account_keeps]: "keeps (account_state env) (admit env' e)"
  unfolding admit_def claimAccountAttempt_def by (intro keeps_rules account_keeps)

lemma keeps_claim_challenge_row [account_keeps]: "keeps (account_state env) (claim_challenge_row c)"
  by (rule keepsI) (auto simp: claim_challenge_row_def split: option.split)

lemma keeps_admitChallengeAttempt [account_keeps]: "keeps (account_state env) (admitChallengeAttempt env' e c)"
  unfolding admitChallengeAttempt_def claimChallengeAttempt_def by (intro keeps_rules account_keeps)

lemma keeps_failed [account_keeps]: "keeps (account_state env) (failed env' f c)"
  unfolding failed_def by (intro account_keeps)

lemma keeps_succeeded [account_keeps]: "keeps (account_state env) (succeeded env' e)"
  unfolding succeeded_def clearAccountAttempts_def by (intro keeps_writes) simp

lemma keeps_findById [account_keeps]: "keeps I (findById i)"
  unfolding findById_def by (intro keeps_rules)

lemma keeps_findByEmail [account_keeps]: "keeps I (findByEmail e)"
  unfolding findByEmail_def by (intro keeps_rules)

lemma keeps_existsForUser [account_keeps]: "keeps I (existsForUser i)"
  unfolding existsForUser_def by (intro keeps_rules)

lemma keeps_verifySignature [account_keeps]: "keeps I (verifySignature env t)"
  by (rule keepsI) simp

lemma keeps_saveUser [account_keeps]: "keeps (account_state env) (saveUser u)"
proof (rule keepsI)
  fix w assume ok: "account_state env w"
  let ?t = "snd (saveUser u w)"
  have "principals ?t = principals w \<and> aliases ?t = aliases w \<and> refresh_tokens ?t = refresh_tokens w \<and> draws ?t = draws w"
    by (auto simp: saveUser_unfold split: option.split)
  then have "principals_ok env ?t" "sessions_ok env ?t"
    using ok principals_ok_frame [of env w ?t] sessions_ok_frame [of env w ?t] by (auto simp: account_state_def)
  with ok saveUser_ok [of w u] show "account_state env ?t" by (simp add: account_state_def)
qed

lemma keeps_acceptTwoFactorStep [account_keeps]: "keeps (account_state env) (acceptTwoFactorStep i s)"
proof (rule keepsI)
  fix w assume ok: "account_state env w"
  let ?t = "snd (acceptTwoFactorStep i s w)"
  let ?hit = "\<lambda>r. u_id r = i \<and> (case ur_twoFactorLastStep r of None \<Rightarrow> True | Some l \<Rightarrow> l < s)"
  have t: "?t = w\<lparr>users := update_where ?hit (\<lambda>r. r\<lparr>ur_twoFactorLastStep := Some s\<rparr>) (users w)\<rparr>"
    by (simp add: acceptTwoFactorStep_def Let_def)
  have "users_ok ?t" using ok unfolding account_state_def users_ok_maps
    by (simp add: t map_update_where_key del: set_map)
  moreover have "principals_ok env ?t" "sessions_ok env ?t"
    using ok principals_ok_frame [of env w ?t] sessions_ok_frame [of env w ?t] by (auto simp: account_state_def t)
  ultimately show "account_state env ?t" by (simp add: account_state_def)
qed

lemma keeps_resolve [account_keeps]:
  assumes "inj (uuid env)" shows "keeps (account_state env) (resolveOrMintForUser env u)"
proof (rule keepsI)
  fix w assume ok: "account_state env w"
  then have p: "principals_ok env w" by (simp add: account_state_def)
  show "account_state env (snd (resolveOrMintForUser env u w))"
  proof (cases "alias_of ''identity'' (decimal (ts_id u)) w")
    case None
    have "sessions_ok env (snd (resolveOrMintForUser env u w))"
      using ok by (auto simp: resolve_mints [OF None assms p] account_state_def intro: sessions_ok_frame)
    with ok resolve_ok [OF p assms, of u] show ?thesis
      by (simp add: resolve_mints [OF None assms p] account_state_def users_ok_def)
  next
    case (Some a)
    with ok show ?thesis by (simp add: resolve_existing)
  qed
qed

lemma keeps_syncKind [account_keeps]: "keeps (account_state env) (syncKind p r)"
  unfolding syncKind_def
proof (rule keeps_writes)
  fix w assume ok: "account_state env w"
  let ?f = "\<lambda>q. q\<lparr>pr_kind := principalKindForRole r\<rparr>"
  let ?t = "w\<lparr>principals := update_where (\<lambda>q. pr_id q = p) ?f (principals w)\<rparr>"
  have ids: "map pr_id (principals ?t) = map pr_id (principals w)" by (simp add: map_update_where_key)
  then have set_ids: "pr_id ` set (principals ?t) = pr_id ` set (principals w)" by (metis set_map)
  from ok have "sessions_ok env ?t" using set_ids by (auto simp: account_state_def intro: sessions_ok_frame)
  moreover have "principals_ok env ?t"
  proof -
    have "drawn env ?t (pr_id q)" if "q \<in> set (principals ?t)" for q
    proof -
      from that have "pr_id q \<in> pr_id ` set (principals w)" using set_ids by blast
      with ok show ?thesis by (auto simp: account_state_def principals_ok_def drawn_def)
    qed
    with ok ids set_ids show ?thesis by (simp add: account_state_def principals_ok_def)
  qed
  ultimately show "account_state env ?t" using ok by (simp add: account_state_def users_ok_def)
qed

lemma keeps_session_step:
  assumes "inj (uuid env)" and "\<And>w r t. m w = (r, t) \<Longrightarrow> session_step env w t \<and> users t = users w \<and> user_seq t = user_seq w
      \<and> principals t = principals w \<and> aliases t = aliases w \<and> draws w \<le> draws t"
  shows "keeps (account_state env) m"
proof (rule keepsI)
  fix w assume ok: "account_state env w"
  let ?t = "snd (m w)"
  have step: "session_step env w ?t" and frame: "users ?t = users w" "user_seq ?t = user_seq w"
    "principals ?t = principals w" "aliases ?t = aliases w" "draws w \<le> draws ?t"
    using assms(2) [of w "fst (m w)" ?t] by simp_all
  from ok step have "sessions_ok env ?t"
    using table_change_ok [OF assms(1) _ session_step_change] by (auto simp: account_state_def)
  with ok frame drawn_mono [OF _ frame(5), of env] show "account_state env ?t"
    unfolding account_state_def users_ok_def principals_ok_def by simp
qed

lemma mintPair_frame:
  "mintPair env u p f c w = (r, t) \<Longrightarrow> users t = users w \<and> user_seq t = user_seq w \<and> principals t = principals w
     \<and> aliases t = aliases w \<and> draws w \<le> draws t \<and> clock t = clock w"
  by (erule mintPair_cases) simp_all

lemma issuePair_frame:
  "issuePair env u p c w = (r, t) \<Longrightarrow> users t = users w \<and> user_seq t = user_seq w \<and> principals t = principals w
     \<and> aliases t = aliases w \<and> draws w \<le> draws t \<and> clock t = clock w"
  by (fastforce simp: issuePair_def andThen_run dest: mintPair_frame)

lemma keeps_issuePair [account_keeps]: "inj (uuid env) \<Longrightarrow> keeps (account_state env) (issuePair env u p c)"
  by (rule keeps_session_step) (auto intro: issuing dest: issuePair_frame)

lemma revoke_where_tables:
  "revoke_where P m w = (r, t) \<Longrightarrow> users t = users w \<and> user_seq t = user_seq w \<and> principals t = principals w
     \<and> aliases t = aliases w \<and> draws w \<le> draws t"
  by (auto simp: revoke_where_def)

lemma rotate_frame:
  "rotate env token u client w = (r, t) \<Longrightarrow> users t = users w \<and> user_seq t = user_seq w \<and> principals t = principals w
     \<and> aliases t = aliases w \<and> draws w \<le> draws t"
  by (erule rotate_cases) (simp_all add: rotated_world_def revokeFamily_def revoke_where_def)

lemma keeps_rotate [account_keeps]: "inj (uuid env) \<Longrightarrow> keeps (account_state env) (rotate env token u client)"
  by (rule keeps_session_step) (auto intro: rotating dest: rotate_frame)

lemma keeps_revokeFamily [account_keeps]: "inj (uuid env) \<Longrightarrow> keeps (account_state env) (revokeFamily f m)"
  by (rule keeps_session_step) (auto intro: revoking_family dest: revoke_where_tables simp: revokeFamily_def)

lemma keeps_revokeAll [account_keeps]: "inj (uuid env) \<Longrightarrow> keeps (account_state env) (revokeAllFamiliesForPrincipal p m)"
  by (rule keeps_session_step) (auto intro: revoking_principal dest: revoke_where_tables simp: revokeAllFamiliesForPrincipal_def)

lemma keeps_revokeOther [account_keeps]: "inj (uuid env) \<Longrightarrow> keeps (account_state env) (revokeOtherSessions p k m)"
  by (rule keeps_session_step) (auto intro: revoking_others dest: revoke_where_tables
      simp: revokeOtherSessions_def revokeAllFamiliesForPrincipal_def split: option.splits)

lemma keeps_recordRevokedJti [account_keeps]: "keeps (account_state env) (recordRevokedJti j e m)"
  by (rule keepsI) (simp add: recordRevokedJti_run)

section \<open>Every operation keeps the invariant\<close>

lemma keeps_RequestClient [keeps_rules]:
  "(\<And>n. x = Named n \<Longrightarrow> keeps I (f n)) \<Longrightarrow> (x = Unnamed \<Longrightarrow> keeps I g) \<Longrightarrow>
   keeps I (case x of Named n \<Rightarrow> f n | Unnamed \<Rightarrow> g)"
  by (cases x) simp_all

lemma keeps_refuseRevoked [account_keeps]: "keeps I (refuseRevoked c)"
  unfolding refuseRevoked_def by (intro keeps_rules)

lemma keeps_refuseSpent [account_keeps]: "keeps I (refuseSpentMfaChallenge c)"
  unfolding refuseSpentMfaChallenge_def by (intro keeps_rules)

lemma keeps_peekRefresh [account_keeps]: "keeps I (peekRefresh env t)"
  unfolding peekRefresh_def by (intro keeps_rules account_keeps)

lemma keeps_unauthorized [account_keeps]:
  "keeps I (case e of UnauthorizedException _ \<Rightarrow> throws x | _ \<Rightarrow> throws e)"
  by (cases e) (simp_all add: keeps_throws)

lemma keeps_peekMfaChallenge [account_keeps]: "keeps I (peekMfaChallenge env t)"
  unfolding peekMfaChallenge_def by (intro keeps_rules account_keeps)

lemma keeps_consume [account_keeps]: "keeps (account_state env) (consumeMfaChallenge c)"
  unfolding consumeMfaChallenge_def by (intro keeps_rules account_keeps)

lemma keeps_endEnrolment [account_keeps]: "keeps (account_state env) (endEnrolment c)"
  unfolding endEnrolment_def by (intro keeps_rules account_keeps)

lemma keeps_revokeAccessJti [account_keeps]: "keeps (account_state env) (revokeAccessJti j e m)"
  unfolding revokeAccessJti_def by (intro keeps_rules account_keeps)

lemma keeps_issueEnrolment [account_keeps]: "keeps (account_state env) (issueEnrolment env u p c)"
  unfolding issueEnrolment_def by (intro keeps_rules account_keeps)

lemma keeps_issueMfaChallenge [account_keeps]: "keeps (account_state env) (issueMfaChallenge env u p)"
  unfolding issueMfaChallenge_def by (intro keeps_rules account_keeps)

lemma keeps_mismatch [account_keeps]: "keeps (account_state env) (mismatch s c i)"
  unfolding mismatch_def by (intro keeps_rules account_keeps)

lemma keeps_bound [account_keeps]: "keeps (account_state env) (bound c i)"
  unfolding bound_def by (intro account_keeps)

lemma keeps_checkPassword [account_keeps]: "keeps (account_state env) (checkPassword env' u p a c)"
  unfolding checkPassword_def by (intro keeps_rules account_keeps)

lemma keeps_verifyPassword [account_keeps]: "keeps (account_state env) (verifyPassword env' e p c)"
  unfolding verifyPassword_def by (intro keeps_rules account_keeps)

lemma keeps_confirmPassword [account_keeps]: "keeps (account_state env) (confirmPassword env' u p c)"
  unfolding confirmPassword_def by (intro keeps_rules account_keeps)

lemma keeps_now_step [account_keeps]: "keeps I (now_step env s c)"
  unfolding now_step_def by (intro keeps_rules)

lemma keeps_acceptCode [account_keeps]: "keeps (account_state env) (acceptCode env' u s c a x)"
  unfolding acceptCode_def by (intro keeps_rules account_keeps)

lemma keeps_startSession [account_keeps]: "inj (uuid env) \<Longrightarrow> keeps (account_state env) (startSession env u c)"
  unfolding startSession_def by (intro keeps_rules account_keeps)

lemma keeps_startEnrolment [account_keeps]: "inj (uuid env) \<Longrightarrow> keeps (account_state env) (startEnrolment env u c)"
  unfolding startEnrolment_def by (intro keeps_rules account_keeps)

lemma keeps_login [account_keeps]: "inj (uuid env) \<Longrightarrow> keeps (account_state env) (login env e p c)"
  unfolding login_def by (intro keeps_rules account_keeps)

lemma keeps_next_draw [account_keeps]:
  "(\<And>d. keeps (account_state env) (f d)) \<Longrightarrow>
   keeps (account_state env) (andThen (reads draws) (\<lambda>d. andThen (writes (\<lambda>w. w\<lparr>draws := Suc d\<rparr>)) (\<lambda>_. f d)))"
  by (rule keepsI) (simp add: account_state_draw keepsD)

lemma keeps_register [account_keeps]: "inj (uuid env) \<Longrightarrow> keeps (account_state env) (register env e p c)"
  unfolding register_def Let_def
  by (intro keeps_andThen keeps_lifted keeps_findByEmail keeps_if keeps_throws keeps_next_draw keeps_saveUser keeps_startSession)

lemma keeps_openChallenge [account_keeps]: "keeps I (openChallenge env t)"
  unfolding openChallenge_def by (intro keeps_rules account_keeps)

lemma keeps_admitAnswer [account_keeps]: "keeps (account_state env) (admitAnswer env' u c)"
  unfolding admitAnswer_def by (intro keeps_rules account_keeps)

lemma keeps_verifyTwoFactor [account_keeps]: "inj (uuid env) \<Longrightarrow> keeps (account_state env) (verifyTwoFactor env t code c)"
  unfolding verifyTwoFactor_def by (intro keeps_rules account_keeps)

lemma keeps_mismatch_handler [account_keeps]:
  "keeps (account_state env) (case e of ClientMismatchError sc \<Rightarrow> andThen (mismatch sc client i) throws | _ \<Rightarrow> throws e)"
  by (cases e) (auto intro: keeps_rules account_keeps)

lemma keeps_refresh [account_keeps]: "inj (uuid env) \<Longrightarrow> keeps (account_state env) (refresh env t c)"
  unfolding refresh_def by (intro keeps_rules account_keeps)

lemma keeps_token_logout [account_keeps]: "inj (uuid env) \<Longrightarrow> keeps (account_state env) (token_logout c f)"
  unfolding token_logout_def by (intro keeps_rules account_keeps)

lemma keeps_logout [account_keeps]: "inj (uuid env) \<Longrightarrow> keeps (account_state env) (logout env c t)"
  unfolding logout_def by (intro keeps_rules account_keeps)

lemma keeps_ownAccount [account_keeps]: "keeps I (ownAccount c i)"
  unfolding ownAccount_def by (intro keeps_rules account_keeps)

lemma keeps_setupTwoFactor [account_keeps]: "keeps (account_state env) (setupTwoFactor env c i p x)"
  unfolding setupTwoFactor_def Let_def
  by (intro keeps_andThen keeps_ownAccount keeps_lifted keeps_case_option keeps_returns keeps_admit keeps_checkPassword
      keeps_if keeps_throws keeps_next_draw keeps_saveUser)

lemma keeps_enableTwoFactor [account_keeps]: "inj (uuid env) \<Longrightarrow> keeps (account_state env) (enableTwoFactor env c i p code x)"
  unfolding enableTwoFactor_def by (intro keeps_rules account_keeps)

lemma keeps_disableTwoFactor [account_keeps]: "inj (uuid env) \<Longrightarrow> keeps (account_state env) (disableTwoFactor env c i p code x)"
  unfolding disableTwoFactor_def by (intro keeps_rules account_keeps)

lemma account_state_time: "account_state env w \<Longrightarrow> account_state env (w\<lparr>clock := n\<rparr>)"
  by (erule account_state_frame) simp_all

lemma account_state_empty: "account_state env empty_world"
  by (simp add: account_state_def users_ok_def principals_ok_def sessions_ok_def empty_world_def)

text \<open>What the invariant says of the tables.\<close>

lemma account_state_tables:
  assumes ok: "account_state env w"
  shows "distinct (map u_id (users w))" "distinct (map (\<lambda>r. js_toLowerCase (u_email r)) (users w))"
    and "\<forall>a \<in> set (aliases w). al_principalId a \<in> pr_id ` set (principals w)"
    and "look (''identity'', decimal i) w = Some q \<Longrightarrow> look (''identity'', decimal j) w = Some q \<Longrightarrow> i = j"
    and "\<forall>r \<in> set (refresh_tokens w). rt_principalId r \<in> pr_id ` set (principals w)"
    and "length (filter (\<lambda>r. live r \<and> rt_familyId r = f) (refresh_tokens w)) \<le> 1"
proof -
  from ok have p: "principals_ok env w" and s: "sessions_ok env w" by (simp_all add: account_state_def)
  show "i = j" if "look (''identity'', decimal i) w = Some q" "look (''identity'', decimal j) w = Some q"
    using that userIdForPrincipal_known [OF p, of i] userIdForPrincipal_known [OF p, of j] by (auto simp: look_def)
  have "distinct (refresh_tokens w)" using sessions_okD(1) [OF s] by (simp add: distinct_map)
  then show "length (filter (\<lambda>r. live r \<and> rt_familyId r = f) (refresh_tokens w)) \<le> 1"
    using sessions_okD(7) [OF s] by (intro length_filter_at_most_one) auto
qed (use ok sessions_okD(4) [of env w] in \<open>auto simp: account_state_def users_ok_def principals_ok_def\<close>)

section \<open>What the steps of a sign-in leave alone\<close>

definition tables :: "UserRow list \<Rightarrow> RefreshTokenRow list \<Rightarrow> int \<Rightarrow> RevokedTokenRow list \<Rightarrow> world \<Rightarrow> bool" where
  "tables us rs now vs w \<longleftrightarrow> users w = us \<and> refresh_tokens w = rs \<and> clock w = now \<and> revoked_access_tokens w = vs"

named_theorems leaves \<open>operations that leave accounts, refresh tokens, revocations and the clock alone\<close>

lemma tables_other [simp]:
  "tables us rs now vs (w\<lparr>account_sign_in_attempts := a\<rparr>) = tables us rs now vs w"
  "tables us rs now vs (w\<lparr>two_factor_challenge_attempts := b\<rparr>) = tables us rs now vs w"
  "tables us rs now vs (w\<lparr>events := e\<rparr>) = tables us rs now vs w"
  "tables us rs now vs (w\<lparr>draws := d\<rparr>) = tables us rs now vs w"
  "tables us rs now vs (w\<lparr>principals := p\<rparr>) = tables us rs now vs w"
  "tables us rs now vs (w\<lparr>aliases := q\<rparr>) = tables us rs now vs w"
  by (simp_all add: tables_def)

lemma leaves_basic [leaves]:
  "keeps (tables us rs now vs) (record_event e)" "keeps (tables us rs now vs) (randomUUID env)"
  by (rule keepsI; simp)+

lemma leaves_admit [leaves]: "keeps (tables us rs now vs) (admit env e)"
proof -
  have "keeps (tables us rs now vs) (lockAccount k)" for k
    unfolding lockAccount_def by (intro keeps_rules keeps_writes) simp
  moreover have "keeps (tables us rs now vs) (recordAccountAttempt k n d t)" for k n d t
    unfolding recordAccountAttempt_def by (intro keeps_writes) simp
  ultimately show ?thesis unfolding admit_def claimAccountAttempt_def by (intro keeps_rules)
qed

lemma leaves_admitAnswer [leaves]: "keeps (tables us rs now vs) (admitAnswer env u c)"
proof -
  have "keeps (tables us rs now vs) (lockAccount k)" for k
    unfolding lockAccount_def by (intro keeps_rules keeps_writes) simp
  moreover have "keeps (tables us rs now vs) (recordAccountAttempt k n d t)" for k n d t
    unfolding recordAccountAttempt_def by (intro keeps_writes) simp
  moreover have "keeps (tables us rs now vs) (claim_challenge_row d)" for d
    by (rule keepsI) (auto simp: claim_challenge_row_def split: option.split)
  ultimately show ?thesis
    unfolding admitAnswer_def admitChallengeAttempt_def claimChallengeAttempt_def by (intro keeps_rules)
qed

lemma leaves_failed [leaves]: "keeps (tables us rs now vs) (failed env f c)"
  unfolding failed_def by (intro leaves)

lemma leaves_succeeded [leaves]: "keeps (tables us rs now vs) (succeeded env e)"
  unfolding succeeded_def clearAccountAttempts_def by (intro keeps_writes) simp

lemma leaves_insert_principal [leaves]: "keeps (tables us rs now vs) (insert_principal env k d)"
  unfolding insert_principal_def by (intro keeps_rules leaves) (auto intro!: keepsI)

lemma leaves_insert_alias [leaves]: "keeps (tables us rs now vs) (insert_alias p s l)"
  by (rule keepsI) (simp add: insert_alias_def)

lemma leaves_resolve [leaves]: "keeps (tables us rs now vs) (resolveOrMintForUser env u)"
  unfolding resolveOrMintForUser_def by (intro keeps_rules leaves)

lemma leaves_syncKind [leaves]: "keeps (tables us rs now vs) (syncKind p r)"
  unfolding syncKind_def by (intro keeps_writes) simp

lemma leaves_checkPassword [leaves]: "keeps (tables us rs now vs) (checkPassword env u p a c)"
  unfolding checkPassword_def by (intro keeps_rules leaves)

lemma leaves_verifyPassword [leaves]: "keeps (tables us rs now vs) (verifyPassword env e p c)"
  unfolding verifyPassword_def findByEmail_def by (intro keeps_rules leaves)

lemma leaves_issueEnrolment [leaves]: "keeps (tables us rs now vs) (issueEnrolment env u p c)"
  unfolding issueEnrolment_def by (intro keeps_rules leaves)

lemma leaves_issueMfaChallenge [leaves]: "keeps (tables us rs now vs) (issueMfaChallenge env u p)"
  unfolding issueMfaChallenge_def by (intro keeps_rules leaves)

lemma leaves_startEnrolment [leaves]: "keeps (tables us rs now vs) (startEnrolment env u c)"
  unfolding startEnrolment_def by (intro keeps_rules leaves)

lemma leaves_run:
  "keeps (tables (users w) (refresh_tokens w) (clock w) (revoked_access_tokens w)) m \<Longrightarrow> m w = (r, t) \<Longrightarrow>
   users t = users w \<and> refresh_tokens t = refresh_tokens w \<and> clock t = clock w \<and> revoked_access_tokens t = revoked_access_tokens w"
  by (drule keeps_run [of _ m w r t]) (simp_all add: tables_def)

text \<open>A session is started with the caller's client; the account's tables are as they were.\<close>

lemma startSession_Inr:
  assumes "startSession env u c w = (Inr out, t)"
  obtains client p where "ctx_client c = Some client" "\<not> (u_role u = Admin \<and> \<not> u_isTwoFactorEnabled u)"
    "at_userId out = u_id u" "at_role out = u_role u" "at_principalId out = p" "users t = users w" "clock t = clock w"
    "revoked_access_tokens t = revoked_access_tokens w"
    "\<exists>row. refresh_tokens t = refresh_tokens w @ [row] \<and> rt_principalId row = p \<and> rt_userId row = u_id u
       \<and> rt_client row = clientNameOf client \<and> live row"
proof -
  from assms obtain client p w1 w2 w3 pair where allowed: "\<not> (u_role u = Admin \<and> \<not> u_isTwoFactorEnabled u)"
    and client: "ctx_client c = Some client"
    and resolve: "resolveOrMintForUser env (subjectOf u) w = (Inr p, w1)"
    and sync: "syncKind p (u_role u) w1 = (Inr (), w2)" and ok: "succeeded env (u_email u) w2 = (Inr (), w3)"
    and issue: "issuePair env (subjectOf u) p (clientNameOf client) w3 = (Inr pair, t)" and out: "out = tokenOutput pair u p"
    by (auto simp: startSession_def requiresTwoFactor_def andThen_Inr checkedClient_def Let_def
        split: if_splits option.splits)
  note f = leaves_run [OF leaves_resolve resolve] leaves_run [OF leaves_syncKind sync] leaves_run [OF leaves_succeeded ok]
  from issue have "mintPair env (subjectOf u) p (uuid env (draws w3)) (clientNameOf client) (w3\<lparr>draws := Suc (draws w3)\<rparr>) = (Inr pair, t)"
    by (simp add: issuePair_def andThen_run)
  then show ?thesis
  proof (cases rule: mintPair_cases)
    case minted
    with f allowed client out show ?thesis
      by (intro that [of client p]) (auto simp: tokenOutput_def live_def)
  qed simp
qed

section \<open>What a sign-in proves\<close>

lemma verifyPassword_Inr:
  assumes "verifyPassword env e p c w = (Inr u, t)"
  obtains r where "r \<in> set (users w)" "js_toLowerCase (u_email r) = normalisedEmail e" "u = toUserEntity r"
    "bcrypt_compare env p (u_passwordHash r)"
    "users t = users w" "refresh_tokens t = refresh_tokens w" "clock t = clock w"
    "revoked_access_tokens t = revoked_access_tokens w"
proof -
  note f = leaves_run [OF leaves_verifyPassword assms]
  from assms obtain n w1 where "admit env (normalisedEmail e) w = (Inr n, w1)"
    and *: "andThen (findByEmail (normalisedEmail e)) (\<lambda>found. case found of
         None \<Rightarrow> andThen (failed env \<lparr>sf_stage = PasswordStage, sf_reason = unknown_account, sf_email = normalisedEmail e,
             sf_user = None, sf_attempts = n, sf_detail = None\<rparr> c) (\<lambda>_. throws invalidCredentials)
       | Some user \<Rightarrow> andThen (checkPassword env user p n c) (\<lambda>_. returns user)) w1 = (Inr u, t)"
    by (auto simp: verifyPassword_def Let_def andThen_Inr)
  from leaves_run [OF leaves_admit this(1)] have "users w1 = users w" by blast
  with * obtain r where "find (\<lambda>r. js_toLowerCase (u_email r) = normalisedEmail e) (users w) = Some r"
    "u = toUserEntity r" "bcrypt_compare env p (u_passwordHash r)"
    by (auto simp: andThen_Inr checkPassword_def failed_def split: option.splits if_splits)
  with f show ?thesis by (intro that [of r]) (auto dest: find_Some_mem)
qed

text \<open>
  C19. What a password sign-in gives. It succeeds only for an account with that e-mail address (in
  any case) and that password. An account whose second factor is on gets a challenge for five
  minutes and no session; an admin account without one gets only an enrolment token and no session;
  any other account gets a session.
\<close>

theorem login_outcome:
  assumes "login env e p c w = (Inr out, t)"
  shows "\<exists>r \<in> set (users w). js_toLowerCase (u_email r) = normalisedEmail e \<and> bcrypt_compare env p (u_passwordHash r) \<and>
    (case out of
       SignedIn o' \<Rightarrow> \<not> u_isTwoFactorEnabled r \<and> u_role r \<noteq> Admin \<and> at_userId o' = u_id r
         \<and> length (refresh_tokens t) = Suc (length (refresh_tokens w))
     | TwoFactorChallenge token ttl held \<Rightarrow> u_isTwoFactorEnabled r \<and> ttl = 300 \<and> refresh_tokens t = refresh_tokens w
     | TwoFactorEnrolment token ttl i \<Rightarrow> \<not> u_isTwoFactorEnabled r \<and> u_role r = Admin \<and> i = u_id r \<and> ttl = 600
         \<and> refresh_tokens t = refresh_tokens w)"
proof -
  from assms obtain u v where vp: "verifyPassword env e p c w = (Inr u, v)"
    and rest: "(if u_isTwoFactorEnabled u then
        andThen (resolveOrMintForUser env (subjectOf u))
        (\<lambda>principalId. andThen (issueMfaChallenge env (subjectOf u) principalId)
        (\<lambda>(token, expiresIn). andThen (existsForUser (u_id u))
        (\<lambda>held. returns (TwoFactorChallenge token expiresIn held))))
      else if requiresTwoFactor (u_role u) then startEnrolment env u c
      else andThen (startSession env u c) (\<lambda>out. returns (SignedIn out))) v = (Inr out, t)"
    by (auto simp: login_def andThen_Inr)
  from vp obtain r where r: "r \<in> set (users w)" "js_toLowerCase (u_email r) = normalisedEmail e" "u = toUserEntity r"
    "bcrypt_compare env p (u_passwordHash r)" and f: "refresh_tokens v = refresh_tokens w"
    by (rule verifyPassword_Inr)
  consider "u_isTwoFactorEnabled u" | "\<not> u_isTwoFactorEnabled u" "u_role u = Admin" | "\<not> u_isTwoFactorEnabled u" "u_role u \<noteq> Admin"
    by blast
  then show ?thesis
  proof cases
    case 1
    with rest obtain q x y tok where "resolveOrMintForUser env (subjectOf u) v = (Inr q, x)"
      and "issueMfaChallenge env (subjectOf u) q x = (Inr tok, y)" and "t = y" and out: "\<exists>held. out = TwoFactorChallenge (fst tok) (snd tok) held"
      by (auto simp: andThen_Inr existsForUser_def split: prod.splits)
    moreover from this(2) have "snd tok = 300" by (auto simp: issueMfaChallenge_def andThen_run MFA_CHALLENGE_TTL_SECONDS_def Let_def)
    ultimately show ?thesis
      using r f 1 leaves_run [OF leaves_resolve] leaves_run [OF leaves_issueMfaChallenge] by (intro bexI [of _ r]) fastforce+
  next
    case 2
    with rest have en: "startEnrolment env u c v = (Inr out, t)" by (simp add: requiresTwoFactor_def)
    moreover from this obtain tok where "out = TwoFactorEnrolment tok 600 (u_id u)"
      by (auto simp: startEnrolment_def andThen_Inr issueEnrolment_def Let_def MFA_ENROLMENT_TTL_SECONDS_def)
    ultimately show ?thesis using r f 2 leaves_run [OF leaves_startEnrolment en] by (intro bexI [of _ r]) auto
  next
    case 3
    with rest obtain o' where start: "startSession env u c v = (Inr o', t)" and "out = SignedIn o'"
      by (auto simp: andThen_Inr requiresTwoFactor_def)
    from start show ?thesis
      by (rule startSession_Inr) (use \<open>out = SignedIn o'\<close> r f 3 in \<open>auto intro!: bexI [of _ r]\<close>)
  qed
qed

lemma openChallenge_Inr:
  assumes "openChallenge env tok w = (Inr oc, t)"
  shows "t = w \<and> verified env tok (clock w) = Inr (oc_claims oc) \<and> cl_token_use (oc_claims oc) = ''mfa_challenge''
    \<and> revoked_row (cl_jti (oc_claims oc)) w = None
    \<and> (\<exists>r. user_row (cl_uid (oc_claims oc)) w = Some r \<and> oc_user oc = toUserEntity r \<and> u_isTwoFactorEnabled r
         \<and> u_twoFactorSecret r = Some (oc_secret oc) \<and> oc_secret oc \<noteq> [])"
  using assms
  by (auto simp: openChallenge_def peekMfaChallenge_def refuseSpentMfaChallenge_def andThen_Inr catches_run
      split: sum.splits if_splits option.splits failure.splits)

lemma now_step_run: "now_step env s code w = (acceptedStep (hmac_sha1 env) s code (clock w), w)"
  by (simp add: now_step_def)

text \<open>
  C10. What answering a challenge with a code proves. A session starts only if the challenge token
  verifies as a challenge that was not used before, names an account whose second factor is on, and
  the code is accepted for that account's secret at a step not used before. Afterwards the challenge
  is barred for as long as it would verify and the step is used up.
\<close>

theorem second_factor_session:
  assumes "verifyTwoFactor env token code c w = (Inr out, t)"
  shows "\<exists>claims r secret step. verified env token (clock w) = Inr claims \<and> cl_token_use claims = ''mfa_challenge''
    \<and> revoked_row (cl_jti claims) w = None \<and> barred claims t
    \<and> user_row (cl_uid claims) w = Some r \<and> at_userId out = cl_uid claims
    \<and> u_isTwoFactorEnabled r \<and> u_twoFactorSecret r = Some secret
    \<and> acceptedStep (hmac_sha1 env) secret code (clock w) = Inr (Some step)
    \<and> \<not> step_spent (cl_uid claims, step) w \<and> step_spent (cl_uid claims, step) t"
proof -
  from assms obtain oc w1 n w2 q where oc: "openChallenge env token w = (Inr oc, w1)"
    and admit: "admitAnswer env (oc_user oc) (oc_claims oc) w1 = (Inr n, w2)"
    and now: "now_step env (oc_secret oc) code w2 = (Inr q, w2)"
    and rest: "(case q of None \<Rightarrow>
          andThen (failed env \<lparr>sf_stage = TwoFactorStage, sf_reason = wrong_code, sf_email = u_email (oc_user oc),
            sf_user = Some (oc_user oc), sf_attempts = n, sf_detail = None\<rparr> c)
          (\<lambda>_. throws (UnauthorizedException ''WRONG_CODE''))
      | Some s \<Rightarrow>
          andThen (consumeMfaChallenge (oc_claims oc))
          (\<lambda>_. andThen (acceptTwoFactorStep (u_id (oc_user oc)) s)
          (\<lambda>fresh. if \<not> fresh then
             andThen (failed env \<lparr>sf_stage = TwoFactorStage, sf_reason = code_reused, sf_email = u_email (oc_user oc),
               sf_user = Some (oc_user oc), sf_attempts = n, sf_detail = None\<rparr> c)
             (\<lambda>_. throws (UnauthorizedException ''CHALLENGE_SPENT''))
           else startSession env (oc_user oc) c))) w2 = (Inr out, t)"
    by (auto simp: verifyTwoFactor_def Let_def andThen_Inr now_step_run)
  note open_facts = openChallenge_Inr [OF oc]
  then obtain r where r: "user_row (cl_uid (oc_claims oc)) w = Some r" "oc_user oc = toUserEntity r" "u_isTwoFactorEnabled r"
    "u_twoFactorSecret r = Some (oc_secret oc)" and "w1 = w" by blast
  from leaves_run [OF leaves_admitAnswer admit] \<open>w1 = w\<close> have f: "users w2 = users w" "clock w2 = clock w" by simp_all
  from rest obtain s w3 w4 where q: "q = Some s" and consume: "consumeMfaChallenge (oc_claims oc) w2 = (Inr (), w3)"
    and accept: "acceptTwoFactorStep (u_id (oc_user oc)) s w3 = (Inr True, w4)" and start: "startSession env (oc_user oc) c w4 = (Inr out, t)"
    by (auto simp: andThen_Inr failed_def split: option.splits if_splits)
  have id: "u_id (oc_user oc) = cl_uid (oc_claims oc)" using r user_row_Some by fastforce
  from consume have "barred (oc_claims oc) w3" and "users w3 = users w2"
    by (auto simp: consumeMfaChallenge_run barred_def split: if_splits)
  moreover have "revoked_access_tokens w4 = revoked_access_tokens w3" "clock w4 = clock w3"
    using accept by (auto simp: acceptTwoFactorStep_def Let_def)
  moreover have "users t = users w4" "clock t = clock w4" "revoked_access_tokens t = revoked_access_tokens w4" "at_userId out = u_id (oc_user oc)"
    using start by (auto elim: startSession_Inr)
  moreover note acceptTwoFactorStep_spends(2) [OF accept refl]
  ultimately show ?thesis
    using open_facts r now q f id
    by (intro exI [of _ "oc_claims oc"] exI [of _ r] exI [of _ "oc_secret oc"] exI [of _ s])
      (simp add: now_step_run barred_def step_spent_def)
qed

section \<open>Sample runs\<close>

definition sample_context :: CallContext where
  "sample_context = \<lparr>ctx_requestId = None, ctx_client = Some Unnamed\<rparr>"

text \<open>A computed outcome that is not an error is a returned value.\<close>

definition after_password :: world where
  "after_password = sample_owner_world\<lparr>account_sign_in_attempts :=
     [\<lparr>as_attempts = 1, as_lastAttemptAt = 0, as_delayedUntil = 0, aa_accountKey = ''a@b.c''\<rparr>]\<rparr>"

lemma sample_password_run:
  "verifyPassword sample_env ''A@b.c '' ''h'' sample_context sample_owner_world = (Inr (sample_user\<lparr>u_id := 1\<rparr>), after_password)"
  by code_simp

lemma sample_session_run:
  "\<not> isl (fst (startSession sample_env (sample_user\<lparr>u_id := 1\<rparr>) sample_context after_password))"
  by code_simp

lemma sample_login_run: "\<exists>out t. login sample_env ''A@b.c '' ''h'' sample_context sample_owner_world = (Inr out, t)"
proof -
  obtain o' t where "startSession sample_env (sample_user\<lparr>u_id := 1\<rparr>) sample_context after_password = (Inr o', t)"
    using returned [OF sample_session_run] by blast
  then show ?thesis
    by (simp add: login_def andThen_run sample_password_run) (simp add: sample_user_def requiresTwoFactor_def)
qed

theorem login_outcome_witness:
  "\<exists>out t. login sample_env ''A@b.c '' ''h'' sample_context sample_owner_world = (Inr out, t) \<and>
     (\<exists>r \<in> set (users sample_owner_world). bcrypt_compare sample_env ''h'' (u_passwordHash r))"
  using sample_login_run login_outcome [of sample_env "''A@b.c ''" "''h''" sample_context sample_owner_world] by blast

definition sample_protected :: world where
  "sample_protected = empty_world\<lparr>draws := 1, clock := 60000,
     users := [sample_row\<lparr>u_role := Admin, u_isTwoFactorEnabled := True, u_twoFactorSecret := Some ''AA''\<rparr>]\<rparr>"

definition sample_challenge_claims :: Claims where
  "sample_challenge_claims = \<lparr>cl_sub = ''p'', cl_jti = ''j'', cl_iss = ''identity'', cl_aud = ''kinetix'', cl_iat = 0, cl_exp = 300,
     cl_token_use = ''mfa_challenge'', cl_fam = None, cl_azp = None, cl_uid = 1, cl_email = None, cl_role = None\<rparr>"

definition sample_challenge :: "Claims \<times> KeyObject \<times> string" where
  "sample_challenge = (sample_challenge_claims, ''K'', ''1'')"

definition sample_open :: OpenChallenge where
  "sample_open = \<lparr>oc_claims = sample_challenge_claims,
     oc_user = sample_user\<lparr>u_id := 1, u_role := Admin, u_isTwoFactorEnabled := True, u_twoFactorSecret := Some ''AA''\<rparr>, oc_secret = ''AA''\<rparr>"

lemma sample_open_run: "openChallenge sample_env sample_challenge sample_protected = (Inr sample_open, sample_protected)"
  by code_simp

lemma sample_code: "base32Decode secret = Inr key \<Longrightarrow> 0 \<le> n \<Longrightarrow> n < 2 ^ 64 \<Longrightarrow> codeAt (hmac_sha1 sample_env) secret n = Inr ''000000''"
proof -
  have "truncated (replicate 20 0) = 0" by (simp add: truncated_def byte_at_def)
  moreover have "padStart DIGITS (CHR ''0'') (decimal 0) = ''000000''" by code_simp
  ultimately show "base32Decode secret = Inr key \<Longrightarrow> 0 \<le> n \<Longrightarrow> n < 2 ^ 64 \<Longrightarrow> ?thesis"
    by (simp add: codeAt_def sample_env_def)
qed

lemma sample_secret: "base32Decode ''AA'' = Inr [0]"
  by code_simp

definition after_answer :: world where
  "after_answer = sample_protected\<lparr>account_sign_in_attempts :=
     [\<lparr>as_attempts = 1, as_lastAttemptAt = 60000, as_delayedUntil = 60000, aa_accountKey = ''a@b.c''\<rparr>],
     two_factor_challenge_attempts := [\<lparr>ca_jti = ''j'', ca_attempts = 1, ca_expiresAt = 300000\<rparr>]\<rparr>"

lemma sample_answer_run: "admitAnswer sample_env (oc_user sample_open) (oc_claims sample_open) sample_protected = (Inr 1, after_answer)"
  by code_simp

lemma sample_step_run: "now_step sample_env (oc_secret sample_open) ''000000'' after_answer = (Inr (Some 3), after_answer)"
proof -
  have "clock after_answer div (1000 * PERIOD_SECONDS) = 2" "js_trim ''000000'' = ''000000''" "six_digits ''000000''"
    by code_simp+
  then show ?thesis
    by (simp add: now_step_run acceptedStep_def Let_def sample_open_def WINDOW_STEPS_def upto_rec1 sample_code [OF sample_secret])
qed

definition after_code :: world where
  "after_code = snd (acceptTwoFactorStep 1 3 (snd (consumeMfaChallenge sample_challenge_claims after_answer)))"

lemma sample_consume_run:
  "consumeMfaChallenge (oc_claims sample_open) after_answer = (Inr (), snd (consumeMfaChallenge sample_challenge_claims after_answer))"
  by code_simp

lemma sample_accept_run:
  "acceptTwoFactorStep (u_id (oc_user sample_open)) 3 (snd (consumeMfaChallenge sample_challenge_claims after_answer)) = (Inr True, after_code)"
  by code_simp

lemma sample_protected_session: "\<not> isl (fst (startSession sample_env (oc_user sample_open) sample_context after_code))"
  by code_simp

lemma sample_verify_run:
  "\<exists>out t. verifyTwoFactor sample_env sample_challenge ''000000'' sample_context sample_protected = (Inr out, t) \<and>
     at_role out = Admin \<and> at_userId out = 1"
proof -
  obtain out t where start: "startSession sample_env (oc_user sample_open) sample_context after_code = (Inr out, t)"
    using returned [OF sample_protected_session] by blast
  then have "at_role out = Admin" "at_userId out = 1" by (auto elim: startSession_Inr simp: sample_open_def)
  with start show ?thesis
    by (simp add: verifyTwoFactor_def andThen_run sample_open_run sample_answer_run sample_step_run sample_consume_run sample_accept_run Let_def)
qed

theorem second_factor_session_witness:
  "\<exists>out t step. verifyTwoFactor sample_env sample_challenge ''000000'' sample_context sample_protected = (Inr out, t) \<and>
     step_spent (1, step) t"
proof -
  obtain out t where run: "verifyTwoFactor sample_env sample_challenge ''000000'' sample_context sample_protected = (Inr out, t)"
    using sample_verify_run by blast
  have "verified sample_env sample_challenge (clock sample_protected) = Inr sample_challenge_claims" by code_simp
  with second_factor_session [OF run] run show ?thesis by (auto simp: sample_challenge_claims_def)
qed

end
