(* ===== verification/Two_Factor.thy ===== *)
theory Two_Factor
  imports Auth_Usecase
begin

text \<open>
  What the sign-in operations of \<^verbatim>\<open>auth_usecase.service.ts\<close> guarantee about sessions together: an
  operation that is refused opens none, an admin account without a second factor never has a full
  one, and turning the second factor on or off ends the sessions that were opened before.
\<close>

section \<open>A refused operation opens no session\<close>

text \<open>
  The refresh tokens ever stored, by their ids: \<open>opens_last js m\<close> says that \<open>m\<close> stores a new one only
  when it returns, so that no error can follow a stored token.
\<close>

definition stored :: "string list \<Rightarrow> world \<Rightarrow> bool" where
  "stored js w \<longleftrightarrow> map rt_jti (refresh_tokens w) = js"

definition opens_last :: "string list \<Rightarrow> 'a act \<Rightarrow> bool" where
  "opens_last js m \<longleftrightarrow> (\<forall>w. stored js w \<longrightarrow> isl (fst (m w)) \<longrightarrow> stored js (snd (m w)))"

named_theorems stores \<open>operations that store no refresh token\<close>
named_theorems opens \<open>operations that store a refresh token last\<close>

lemma opens_last_keeps: "keeps (stored js) m \<Longrightarrow> opens_last js m"
  by (simp add: opens_last_def keeps_def)

lemma opens_last_andThen [opens]:
  "keeps (stored js) m \<Longrightarrow> (\<And>x. opens_last js (f x)) \<Longrightarrow> opens_last js (andThen m f)"
  by (fastforce simp: opens_last_def keeps_def andThen_def split: prod.splits sum.splits)

lemma opens_last_returns [opens]: "opens_last js m \<Longrightarrow> opens_last js (andThen m (\<lambda>x. returns (f x)))"
  by (fastforce simp: opens_last_def andThen_def split: prod.splits sum.splits)

lemma opens_last_if [opens]:
  "(b \<Longrightarrow> opens_last js m) \<Longrightarrow> (\<not> b \<Longrightarrow> opens_last js n) \<Longrightarrow> opens_last js (if b then m else n)"
  by simp

lemma opens_last_option [opens]:
  "opens_last js m \<Longrightarrow> (\<And>x. opens_last js (f x)) \<Longrightarrow> opens_last js (case r of None \<Rightarrow> m | Some x \<Rightarrow> f x)"
  by (cases r) simp_all

lemma opens_last_Let [opens]: "(\<And>x. opens_last js (f x)) \<Longrightarrow> opens_last js (Let v f)"
  by simp

lemma opens_last_run: "opens_last (map rt_jti (refresh_tokens w)) m \<Longrightarrow> m w = (Inl e, t) \<Longrightarrow>
    map rt_jti (refresh_tokens t) = map rt_jti (refresh_tokens w)"
  by (auto simp: opens_last_def stored_def dest!: spec [of _ w])

lemma stores_leaves:
  assumes "\<And>us rs now vs. keeps (tables us rs now vs) m" shows "keeps (stored js) m"
proof (rule keepsI)
  fix w assume "stored js w"
  with leaves_run [OF assms, of w "fst (m w)" "snd (m w)"] show "stored js (snd (m w))" by (simp add: stored_def)
qed

lemma stores_basic [stores]:
  "keeps (stored js) (resolveOrMintForUser env u)" "keeps (stored js) (syncKind p r)" "keeps (stored js) (succeeded env e)"
  "keeps (stored js) (verifyPassword env e p c)" "keeps (stored js) (issueMfaChallenge env u p)"
  "keeps (stored js) (startEnrolment env v c)" "keeps (stored js) (admitAnswer env v claims)"
  "keeps (stored js) (failed env f c)" "keeps (stored js) (admit env e)" "keeps (stored js) (checkPassword env v p a c)"
  "keeps (stored js) (bound n i)"
  unfolding bound_def by (rule stores_leaves, intro leaves)+

lemma stores_saveUser [stores]: "keeps (stored js) (saveUser u)"
  by (rule keepsI) (auto simp: stored_def saveUser_unfold split: option.split)

lemma stores_accept [stores]: "keeps (stored js) (acceptTwoFactorStep i s)"
  by (rule keepsI) (simp add: stored_def acceptTwoFactorStep_def Let_def)

lemma stores_consume [stores]: "keeps (stored js) (consumeMfaChallenge c)"
  by (rule keepsI) (simp add: stored_def consumeMfaChallenge_run)

lemma stores_revoke [stores]: "keeps (stored js) (revokeFamily f m)"
  by (rule keepsI) (simp add: stored_def revokeFamily_def revoke_where_def map_update_where_key)

lemma stores_mismatch [stores]: "keeps (stored js) (mismatch s c i)"
  unfolding mismatch_def by (intro keeps_rules stores_leaves leaves)

lemma opens_issuePair [opens]: "opens_last js (issuePair env u p c)"
  unfolding opens_last_def
proof (intro allI impI)
  fix w assume s: "stored js w" and "isl (fst (issuePair env u p c w))"
  then obtain e t where run: "issuePair env u p c w = (Inl e, t)"
    by (cases "issuePair env u p c w") (auto simp: isl_def)
  then have "mintPair env u p (uuid env (draws w)) c (w\<lparr>draws := Suc (draws w)\<rparr>) = (Inl e, t)"
    by (simp add: issuePair_def andThen_run)
  then show "stored js (snd (issuePair env u p c w))"
    using s run by (cases rule: mintPair_cases) (simp_all add: stored_def)
qed

lemma opens_startSession [opens]: "opens_last js (startSession env u c)"
  unfolding startSession_def by (intro opens keeps_rules stores opens_last_keeps [of js "throws e" for e])

lemma opens_throws: "opens_last js (throws e)" "opens_last js (andThen (failed env f c) (\<lambda>_. throws e))"
  by (intro opens_last_keeps keeps_rules stores)+

lemma opens_login: "opens_last js (login env e p c)"
  unfolding login_def existsForUser_def
  by (intro opens_last_andThen opens_last_if stores opens_last_returns opens_startSession opens_last_keeps keeps_rules)

lemma opens_register: "opens_last js (register env e p c)"
  unfolding register_def findByEmail_def
  by (intro opens opens_throws keeps_rules keeps_writes stores) (simp add: stored_def)

lemma opens_verifyTwoFactor: "opens_last js (verifyTwoFactor env tok code c)"
proof -
  have "keeps (stored js) (openChallenge env tok)"
    unfolding openChallenge_def findById_def
    by (intro keeps_rules keeps_peekMfaChallenge keeps_refuseSpent)
  then show ?thesis
    unfolding verifyTwoFactor_def by (intro opens opens_throws keeps_rules keeps_now_step stores)
qed

lemma opens_last_then:
  "opens_last js m \<Longrightarrow> (\<And>x w. \<not> isl (fst (f x w))) \<Longrightarrow> opens_last js (andThen m f)"
  by (fastforce simp: opens_last_def andThen_def split: prod.splits sum.splits)

lemma opens_rotate: "opens_last js (rotate env tok u client)"
  unfolding opens_last_def
proof (intro allI impI)
  fix w assume s: "stored js w" and "isl (fst (rotate env tok u client w))"
  then obtain e t where run: "rotate env tok u client w = (Inl e, t)"
    by (cases "rotate env tok u client w") (auto simp: isl_def)
  then show "stored js (snd (rotate env tok u client w))"
    by (cases rule: rotate_cases)
      (use s run keepsD [OF stores_revoke, of js w] in \<open>simp_all add: snd_def split: prod.splits\<close>)
qed

lemma opens_last_catches:
  "opens_last js m \<Longrightarrow> (\<And>e. keeps (stored js) (h e)) \<Longrightarrow> opens_last js (catches m h)"
  by (fastforce simp: opens_last_def keeps_def catches_def split: prod.splits sum.splits)

lemma stores_mismatch_handler [stores]:
  "keeps (stored js) (case e of ClientMismatchError sc \<Rightarrow> andThen (mismatch sc client i) throws | _ \<Rightarrow> throws e)"
  by (cases e) (simp_all add: keeps_throws keeps_andThen stores)

lemma opens_refresh: "opens_last js (refresh env tok c)"
proof -
  have bound_returns: "\<not> isl (fst (andThen (case client of Named n \<Rightarrow> if b then bound n i else returns () | Unnamed \<Rightarrow> returns ())
      (\<lambda>_. returns x) w))" for client b i x w
    by (cases client) (simp_all add: andThen_run bound_def)
  show ?thesis
    unfolding refresh_def findById_def
    by (intro opens_last_andThen opens_last_if opens_last_option opens_last_Let opens_last_then [OF opens_last_catches [OF opens_rotate]]
        opens_throws opens_last_keeps [OF keeps_andThen] keeps_rules keeps_peekRefresh stores)
      (auto simp: bound_returns split: prod.split)
qed

text \<open>
  C25. No session after a refusal. A password sign-in, a registration, an answered challenge and a
  renewal that end in an error have stored no refresh token: the tokens ever stored are, by their
  ids, those stored before.
\<close>

theorem refused_operations_open_no_session:
  assumes "login env e p c w = (Inl x, t) \<or> register env e p c w = (Inl x, t)
    \<or> verifyTwoFactor env tok code c w = (Inl x, t) \<or> refresh env tok c w = (Inl x, t)"
  shows "map rt_jti (refresh_tokens t) = map rt_jti (refresh_tokens w)"
  using assms
  by (elim disjE) (erule opens_last_run [OF opens_login] opens_last_run [OF opens_register]
      opens_last_run [OF opens_verifyTwoFactor] opens_last_run [OF opens_refresh])+

theorem refused_operations_open_no_session_witness:
  "map rt_jti (refresh_tokens (snd (login sample_env ''a@b.c'' ''x'' sample_context empty_world))) = []"
proof -
  have "isl (fst (login sample_env ''a@b.c'' ''x'' sample_context empty_world))" by code_simp
  then obtain x where "login sample_env ''a@b.c'' ''x'' sample_context empty_world =
      (Inl x, snd (login sample_env ''a@b.c'' ''x'' sample_context empty_world))"
    by (metis isl_def prod.collapse)
  from refused_operations_open_no_session [OF disjI1, OF this] show ?thesis by (simp add: empty_world_def)
qed

section \<open>An admin without a second factor has no full session\<close>

lemma refresh_Inr:
  assumes "refresh env tok c w = (Inr out, t)"
  obtains r where "user_row (at_userId out) w = Some r" "at_role out = u_role r" "\<not> (u_role r = Admin \<and> \<not> u_isTwoFactorEnabled r)"
proof -
  from assms obtain claims w1 q where "peekRefresh env tok w = (Inr claims, w1)"
    and q: "user_row (cl_uid claims) w1 = Some q" and "\<not> (u_role q = Admin \<and> \<not> u_isTwoFactorEnabled q)"
    and "at_userId out = u_id q" "at_role out = u_role q"
    by (auto simp: refresh_def andThen_Inr Let_def requiresTwoFactor_def tokenOutput_def findById_run
        split: if_splits option.splits)
  moreover from this(1) have "w1 = w" by (auto simp: peekRefresh_def andThen_Inr split: if_splits)
  moreover from q have "u_id q = cl_uid claims" by (simp add: user_row_Some)
  ultimately show ?thesis using that by simp
qed

lemma register_Inr_role:
  assumes "register env e p c w = (Inr out, t)" shows "at_role out = Customer"
proof -
  from assms obtain h x u where save: "saveUser \<lparr>u_id = 0, u_email = normalisedEmail e, u_passwordHash = h,
      u_role = Customer, u_isTwoFactorEnabled = False, u_twoFactorSecret = None\<rparr> (w\<lparr>draws := Suc (draws w)\<rparr>) = (Inr x, u)"
    and "startSession env x c u = (Inr out, t)"
    by (auto simp: register_def andThen_Inr Let_def split: if_splits)
  moreover from save have "u_role x = Customer" by (cases rule: saveUser_cases) (simp_all add: overwrite_user_def)
  ultimately show ?thesis by (auto elim: startSession_Inr)
qed

text \<open>The sessions the operations of this part hand out for an admin account.\<close>

lemma second_factor_of_sessions:
  assumes "login env e p c w = (Inr (SignedIn out), t) \<or> register env e p c w = (Inr out, t)
    \<or> verifyTwoFactor env tok code c w = (Inr out, t) \<or> refresh env tok c w = (Inr out, t)"
    and "at_role out = Admin"
  shows "\<exists>r \<in> set (users w). u_id r = at_userId out \<and> u_isTwoFactorEnabled r"
  using assms(1)
proof (elim disjE)
  assume "login env e p c w = (Inr (SignedIn out), t)"
  then obtain u v where "verifyPassword env e p c w = (Inr u, v)" and start: "startSession env u c v = (Inr out, t)"
    and "\<not> u_isTwoFactorEnabled u"
    by (auto simp: login_def andThen_Inr startEnrolment_def split: if_splits prod.splits)
  with assms(2) show ?thesis by (elim startSession_Inr) simp
next
  assume "register env e p c w = (Inr out, t)"
  with assms(2) show ?thesis by (simp add: register_Inr_role)
next
  assume run: "verifyTwoFactor env tok code c w = (Inr out, t)"
  then obtain oc where oc: "openChallenge env tok w = (Inr oc, w)" and "\<exists>v. startSession env (oc_user oc) c v = (Inr out, t)"
    using openChallenge_Inr by (fastforce simp: verifyTwoFactor_def andThen_Inr Let_def split: option.splits if_splits)
  then have "at_userId out = u_id (oc_user oc)" by (auto elim: startSession_Inr)
  with openChallenge_Inr [OF oc] show ?thesis using user_row_Some by fastforce
next
  assume "refresh env tok c w = (Inr out, t)"
  then show ?thesis by (rule refresh_Inr) (use assms(2) user_row_Some in fastforce)
qed

section \<open>Turning the second factor on or off ends the other sessions\<close>

lemma acceptCode_Inr:
  assumes "acceptCode env u s code a c w = (Inr x, t)"
  shows "refresh_tokens t = refresh_tokens w \<and> revoked_access_tokens t = revoked_access_tokens w \<and> clock t = clock w"
  using assms
  by (auto simp: acceptCode_def andThen_Inr now_step_run acceptTwoFactorStep_def Let_def failed_def split: option.splits if_splits)

text \<open>\<open>ended principalId kept w\<close>: of that principal's sessions, only the kept one may still be open.\<close>

definition ended :: "string \<Rightarrow> string option \<Rightarrow> world \<Rightarrow> bool" where
  "ended principalId kept w \<longleftrightarrow> (\<forall>s \<in> set (refresh_tokens w).
     rt_principalId s = principalId \<and> kept \<noteq> Some (rt_familyId s) \<longrightarrow> rt_revokedAt s \<noteq> None)"

lemma revoke_where_ended:
  "(\<And>s. rt_principalId s = p \<and> kept \<noteq> Some (rt_familyId s) \<Longrightarrow> P s) \<Longrightarrow> ended p kept (snd (revoke_where P m w))"
  by (auto simp: revoke_where_def ended_def set_update_where)

lemma revokeOther_ended: "revokeOtherSessions p kept m w = (r, t) \<Longrightarrow> ended p kept t"
  using revoke_where_ended [of p kept "\<lambda>s. rt_principalId s = p \<and> (case kept of None \<Rightarrow> True | Some k \<Rightarrow> rt_familyId s \<noteq> k)" m w]
  by (cases kept) (auto simp: revokeOtherSessions_def revokeAllFamiliesForPrincipal_def)

lemma revokeAll_ended: "revokeAllFamiliesForPrincipal p m w = (r, t) \<Longrightarrow> ended p None t"
  using revoke_where_ended [of p None "\<lambda>s. rt_principalId s = p" m w] by (simp add: revokeAllFamiliesForPrincipal_def)

lemma ended_frame: "refresh_tokens t = refresh_tokens w \<Longrightarrow> ended p k t = ended p k w"
  by (simp add: ended_def)

lemma recordRevoked_barred:
  assumes "recordRevokedJti (cl_jti c) (cl_exp c * 1000) m w = (r, t)" and "revoked_row (cl_jti c) w = None"
  shows "barred c t \<and> refresh_tokens t = refresh_tokens w"
  using assms by (auto simp: recordRevokedJti_run barred_def)

lemma saveUser_row:
  assumes "users_ok w" and "saveUser u w = (Inr v, t)" and "0 < u_id u"
  shows "map_option toUserEntity (user_row (u_id u) t) = Some u \<and> refresh_tokens t = refresh_tokens w \<and>
    revoked_access_tokens t = revoked_access_tokens w \<and> clock t = clock w"
proof -
  from assms(2,3) have "v = u \<and> refresh_tokens t = refresh_tokens w \<and>
      revoked_access_tokens t = revoked_access_tokens w \<and> clock t = clock w"
    by (cases rule: saveUser_cases) simp_all
  with saveUser_found(1) [OF assms(1,2)] show ?thesis by simp
qed

lemma ownAccount_Inr: "ownAccount c i w = (Inr u, t) \<Longrightarrow>
    t = w \<and> cl_uid c = i \<and> (\<exists>r. user_row i w = Some r \<and> u = toUserEntity r \<and> u_id u = i)"
  using user_row_Some by (fastforce simp: ownAccount_def andThen_Inr split: if_splits option.splits)

lemma ended_save:
  assumes "users_ok w" and "saveUser u w = (Inr v, t)" and "0 < u_id u"
  shows "ended p k t = ended p k w" and "barred c t = barred c w"
  using saveUser_row [OF assms] by (simp_all add: ended_def barred_def)

lemma saved_flags:
  assumes "users_ok w" and "saveUser u w = (Inr v, t)" and "0 < u_id u"
  shows "\<exists>q. user_row (u_id u) t = Some q \<and> u_isTwoFactorEnabled q = u_isTwoFactorEnabled u \<and> u_twoFactorSecret q = u_twoFactorSecret u"
proof -
  from saveUser_row [OF assms] obtain q where "user_row (u_id u) t = Some q" "toUserEntity q = u" by auto
  then show ?thesis by auto
qed

lemma users_ok_pos: "users_ok w \<Longrightarrow> user_row i w = Some r \<Longrightarrow> 0 < i"
  using user_row_Some by (fastforce simp: users_ok_def)

text \<open>
  C24. Turning the second factor off. It succeeds only for the caller's own account with the second
  factor on; afterwards the account has no second factor and no secret, and every other session of
  the account is revoked. For an admin account every session is revoked, the caller's too, and the
  caller's access token is refused from then on.
\<close>

theorem disabling_ends_sessions:
  assumes "inj (uuid env)" and "account_state env w" and "disableTwoFactor env claims i pw code c w = (Inr (), t)"
    and "revoked_row (cl_jti claims) w = None"
  shows "\<exists>r. user_row (cl_uid claims) w = Some r \<and> u_isTwoFactorEnabled r
    \<and> (\<exists>q. user_row (cl_uid claims) t = Some q \<and> \<not> u_isTwoFactorEnabled q \<and> u_twoFactorSecret q = None)
    \<and> ended (cl_sub claims) (if u_role r = Admin then None else cl_fam claims) t
    \<and> (u_role r = Admin \<longrightarrow> barred claims t)"
proof -
  from assms(3) obtain u n w1 w2 w3 w4 v where own: "ownAccount claims i w = (Inr u, w)"
    and admit: "admit env (u_email u) w = (Inr n, w1)" and check: "checkPassword env u pw n c w1 = (Inr (), w2)"
    and on: "u_isTwoFactorEnabled u" and accept: "acceptCode env u (the (u_twoFactorSecret u)) code n c w2 = (Inr (), w3)"
    and revoke: "(if requiresTwoFactor (u_role u)
              then andThen (revokeAllFamiliesForPrincipal (cl_sub claims) ''two_factor_disabled'')
                   (\<lambda>_. revokeAccessJti (cl_jti claims) (cl_exp claims * 1000) ''two_factor_disabled'')
              else revokeOtherSessions (cl_sub claims) (cl_fam claims) ''two_factor_disabled'') w3 = (Inr (), w4)"
    and save: "saveUser (u\<lparr>u_isTwoFactorEnabled := False, u_twoFactorSecret := None\<rparr>) w4 = (Inr v, t)"
    using ownAccount_Inr by (fastforce simp: disableTwoFactor_def andThen_Inr split: if_splits)
  note keep = keeps_run [OF keeps_admit assms(2) admit, THEN keeps_run [OF keeps_checkPassword], OF check,
      THEN keeps_run [OF keeps_acceptCode], OF accept]
  have "account_state env w4"
    using keep revoke by (rule keeps_run [rotated]) (intro keeps_rules account_keeps assms(1))
  then have ok: "users_ok w4" by (simp add: account_state_def)
  have same: "revoked_access_tokens w3 = revoked_access_tokens w" "clock w3 = clock w"
    using leaves_run [OF leaves_admit admit] leaves_run [OF leaves_checkPassword check] acceptCode_Inr [OF accept] by simp_all
  obtain r where r: "user_row i w = Some r" "u = toUserEntity r" "u_id u = i" "cl_uid claims = i"
    using ownAccount_Inr [OF own] by blast
  from assms(2) r(1) have pos: "0 < i" by (auto simp: account_state_def intro: users_ok_pos)
  have "ended (cl_sub claims) (if u_role r = Admin then None else cl_fam claims) w4 \<and> (u_role r = Admin \<longrightarrow> barred claims w4)"
  proof (cases "u_role r = Admin")
    case True
    with revoke r obtain x where x: "revokeAllFamiliesForPrincipal (cl_sub claims) ''two_factor_disabled'' w3 = (Inr (), x)"
      and rec: "revokeAccessJti (cl_jti claims) (cl_exp claims * 1000) ''two_factor_disabled'' x = (Inr (), w4)"
      by (auto simp: requiresTwoFactor_def andThen_Inr)
    from x same assms(4) have "revoked_row (cl_jti claims) x = None"
      by (auto simp: revoked_row_def revokeAllFamiliesForPrincipal_def revoke_where_def)
    with rec have "barred claims w4 \<and> refresh_tokens w4 = refresh_tokens x"
      by (auto simp: revokeAccessJti_def andThen_Inr dest!: recordRevoked_barred)
    with revokeAll_ended [OF x] True show ?thesis by (simp add: ended_def)
  next
    case False
    with revoke r revokeOther_ended show ?thesis by (simp add: requiresTwoFactor_def)
  qed
  then have "ended (cl_sub claims) (if u_role r = Admin then None else cl_fam claims) t \<and> (u_role r = Admin \<longrightarrow> barred claims t)"
    using ended_save [OF ok save] pos r(3) by simp
  moreover have "\<exists>q. user_row i t = Some q \<and> \<not> u_isTwoFactorEnabled q \<and> u_twoFactorSecret q = None"
    using saved_flags [OF ok save] pos r(3) by simp
  ultimately show ?thesis using r on by auto
qed

definition sample_self :: Claims where
  "sample_self = sample_challenge_claims\<lparr>cl_token_use := ''access''\<rparr>"

definition after_confirm :: world where
  "after_confirm = sample_protected\<lparr>account_sign_in_attempts :=
     [\<lparr>as_attempts = 1, as_lastAttemptAt = 60000, as_delayedUntil = 60000, aa_accountKey = ''a@b.c''\<rparr>]\<rparr>"

lemma sample_confirm_run:
  "ownAccount sample_self 1 sample_protected = (Inr (oc_user sample_open), sample_protected)"
  "admit sample_env (u_email (oc_user sample_open)) sample_protected = (Inr 1, after_confirm)"
  "checkPassword sample_env (oc_user sample_open) ''h'' 1 sample_context after_confirm = (Inr (), after_confirm)"
  by code_simp+

lemma sample_code_run:
  "acceptCode sample_env (oc_user sample_open) ''AA'' ''000000'' 1 sample_context after_confirm =
     (Inr (), snd (acceptTwoFactorStep 1 3 after_confirm))"
proof -
  have "clock after_confirm div (1000 * PERIOD_SECONDS) = 2" "js_trim ''000000'' = ''000000''" "six_digits ''000000''"
    by code_simp+
  then have "now_step sample_env ''AA'' ''000000'' after_confirm = (Inr (Some 3), after_confirm)"
    by (simp add: now_step_run acceptedStep_def Let_def WINDOW_STEPS_def upto_rec1 sample_code [OF sample_secret])
  moreover have "acceptTwoFactorStep (u_id (oc_user sample_open)) 3 after_confirm = (Inr True, snd (acceptTwoFactorStep 1 3 after_confirm))"
    by code_simp
  ultimately show ?thesis by (simp add: acceptCode_def andThen_run)
qed

lemma returned_unit: "\<not> isl (fst r) \<Longrightarrow> \<exists>t. r = (Inr (), t)"
  using returned by (metis old.unit.exhaust)

lemma sample_disable_run: "\<exists>t. disableTwoFactor sample_env sample_self 1 ''h'' ''000000'' sample_context sample_protected = (Inr (), t)"
proof -
  let ?w = "snd (acceptTwoFactorStep 1 3 after_confirm)"
  have "\<not> isl (fst (andThen (andThen (revokeAllFamiliesForPrincipal (cl_sub sample_self) ''two_factor_disabled'')
         (\<lambda>_. revokeAccessJti (cl_jti sample_self) (cl_exp sample_self * 1000) ''two_factor_disabled''))
       (\<lambda>_. andThen (saveUser ((oc_user sample_open)\<lparr>u_isTwoFactorEnabled := False, u_twoFactorSecret := None\<rparr>)) (\<lambda>_. returns ())) ?w))"
    by code_simp
  then obtain t where "andThen (andThen (revokeAllFamiliesForPrincipal (cl_sub sample_self) ''two_factor_disabled'')
         (\<lambda>_. revokeAccessJti (cl_jti sample_self) (cl_exp sample_self * 1000) ''two_factor_disabled''))
       (\<lambda>_. andThen (saveUser ((oc_user sample_open)\<lparr>u_isTwoFactorEnabled := False, u_twoFactorSecret := None\<rparr>)) (\<lambda>_. returns ())) ?w
     = (Inr (), t)"
    using returned_unit by blast
  moreover have "u_role (oc_user sample_open) = Admin" "u_isTwoFactorEnabled (oc_user sample_open)"
    "u_twoFactorSecret (oc_user sample_open) = Some ''AA''"
    by (simp_all add: sample_open_def)
  ultimately show ?thesis
    by (simp add: disableTwoFactor_def andThen_run [of "ownAccount c i" for c i] andThen_run [of "admit e u" for e u]
        andThen_run [of "checkPassword a b c d e" for a b c d e] andThen_run [of "acceptCode a b c d e f" for a b c d e f]
        sample_confirm_run [simplified One_nat_def] sample_code_run [simplified One_nat_def] requiresTwoFactor_def)
qed

lemma sample_protected_state: "account_state sample_env sample_protected"
  by (simp add: account_state_def users_ok_def principals_ok_def sessions_ok_def sample_protected_def empty_world_def sample_row_def
      UserEntity.defs sample_user_def)

theorem disabling_ends_sessions_witness:
  "\<exists>t. disableTwoFactor sample_env sample_self 1 ''h'' ''000000'' sample_context sample_protected = (Inr (), t) \<and> barred sample_self t"
proof -
  obtain t where run: "disableTwoFactor sample_env sample_self 1 ''h'' ''000000'' sample_context sample_protected = (Inr (), t)"
    using sample_disable_run by blast
  have "revoked_row (cl_jti sample_self) sample_protected = None" by code_simp
  moreover have "map_option u_role (user_row (cl_uid sample_self) sample_protected) = Some Admin" by code_simp
  ultimately show ?thesis
    using disabling_ends_sessions [OF sample_env_uuid sample_protected_state run] run by auto
qed

end
