(* ===== verification/Passkeys.thy ===== *)
theory Passkeys
  imports Two_Factor
begin

text \<open>
  Passkeys as a second factor: the WebAuthn ceremony adapter
  (\<^verbatim>\<open>infrastructure/webauthn/simple_webauthn_ceremony.adapter.ts\<close>), its relying party
  (\<^verbatim>\<open>infrastructure/config/relying_party.ts\<close>) and the operations of
  \<^verbatim>\<open>application/services/passkey_usecase.service.ts\<close>. The functions of the package
  \<^verbatim>\<open>@simplewebauthn/server\<close>, which is not in the repository, and the platform's URL parser are the
  parameter \<open>WebAuthn\<close>.
\<close>

section \<open>The relying party\<close>

record RelyingParty =
  rp_id :: string
  rp_origin :: string
  rp_name :: string

record ParsedUrl =
  url_protocol :: string
  url_origin :: string
  url_hostname :: string

definition domain_char :: "char \<Rightarrow> bool" where
  "domain_char c \<longleftrightarrow> is_lower c \<or> is_digit c"

definition domain_label :: "string \<Rightarrow> bool" where
  "domain_label l \<longleftrightarrow> l \<noteq> [] \<and> length l \<le> 63 \<and> domain_char (hd l) \<and> domain_char (last l)
     \<and> list_all (\<lambda>c. domain_char c \<or> c = CHR ''-'') l"

definition DOMAIN_NAME :: "string \<Rightarrow> bool" where
  "DOMAIN_NAME s \<longleftrightarrow> 1 \<le> length s \<and> length s \<le> 253 \<and> list_all domain_label (js_split (CHR ''.'') s)"

text \<open>\<^verbatim>\<open>isIP\<close> of a text the domain name pattern admits: an IPv6 address has a colon, which it does not admit.\<close>

definition isIPv4 :: "string \<Rightarrow> bool" where
  "isIPv4 s \<longleftrightarrow>
     (let parts = js_split (CHR ''.'') s
      in length parts = 4 \<and>
         list_all (\<lambda>p. p \<noteq> [] \<and> list_all is_digit p \<and> length p \<le> 3 \<and> digits_value p \<le> 255
           \<and> (length p = 1 \<or> hd p \<noteq> CHR ''0'')) parts)"

definition CEREMONY_SCHEMES :: "string list" where
  "CEREMONY_SCHEMES = [''https:'', ''http:'']"

definition originHostOf :: "(string \<Rightarrow> ParsedUrl option) \<Rightarrow> string \<Rightarrow> failure + string" where
  "originHostOf parse origin =
     (case parse origin of
        None \<Rightarrow> Inl (PlainError ''IDENTITY_WEBAUTHN_ORIGIN is not a URL.'')
      | Some url \<Rightarrow>
          if url_protocol url \<notin> set CEREMONY_SCHEMES \<or> url_origin url \<noteq> origin
          then Inl (PlainError ''IDENTITY_WEBAUTHN_ORIGIN is one origin, http(s)://host[:port] in lower case, with nothing after it.'')
          else Inr (url_hostname url))"

definition relyingPartyFrom :: "(string \<Rightarrow> ParsedUrl option) \<Rightarrow> (string \<Rightarrow> string option) \<Rightarrow> failure + RelyingParty" where
  "relyingPartyFrom parse read =
     (case requiredSetting ''IDENTITY_WEBAUTHN_RP_ID'' (read ''IDENTITY_WEBAUTHN_RP_ID'') of
        Inl e \<Rightarrow> Inl e
      | Inr raw_id \<Rightarrow>
     (case requiredSetting ''IDENTITY_WEBAUTHN_ORIGIN'' (read ''IDENTITY_WEBAUTHN_ORIGIN'') of
        Inl e \<Rightarrow> Inl e
      | Inr raw_origin \<Rightarrow>
     (case requiredSetting ''IDENTITY_WEBAUTHN_RP_NAME'' (read ''IDENTITY_WEBAUTHN_RP_NAME'') of
        Inl e \<Rightarrow> Inl e
      | Inr raw_name \<Rightarrow>
          (let party = js_trim raw_id; origin = js_trim raw_origin in
           if isIPv4 party \<or> \<not> DOMAIN_NAME party
           then Inl (PlainError ''IDENTITY_WEBAUTHN_RP_ID is a lower-case domain name, never an IP address'')
           else
             (case originHostOf parse origin of
                Inl e \<Rightarrow> Inl e
              | Inr host \<Rightarrow>
                  if host \<noteq> party \<and> \<not> js_endsWith host (CHR ''.'' # party)
                  then Inl (PlainError ''IDENTITY_WEBAUTHN_ORIGIN is neither IDENTITY_WEBAUTHN_RP_ID nor under it'')
                  else Inr \<lparr>rp_id = party, rp_origin = origin, rp_name = js_trim raw_name\<rparr>)))))"

section \<open>The ceremonies\<close>

record PasskeyCredential =
  pcr_credentialId :: string
  pcr_publicKey :: "byte list"
  pcr_signCount :: nat
  pcr_transports :: "string list"
  pcr_deviceType :: PasskeyDeviceType
  pcr_backedUp :: bool

record PasskeyAccount =
  pa_userHandle :: string
  pa_userName :: string

record Descriptor =
  de_id :: string
  de_transports :: "string list"

record RegistrationRequest =
  rr_party :: RelyingParty
  rr_account :: PasskeyAccount
  rr_timeoutMs :: int
  rr_attestationType :: string
  rr_excluded :: "Descriptor list"
  rr_residentKey :: string
  rr_userVerification :: string
  rr_algorithms :: "int list"

record AuthenticationRequest =
  ar_partyId :: string
  ar_allowed :: "Descriptor list"
  ar_userVerification :: string
  ar_timeoutMs :: int

record StoredCredential =
  sc_id :: string
  sc_publicKey :: "byte list"
  sc_counter :: nat
  sc_transports :: "string list"

text \<open>
  What the library is told to insist on; \<^verbatim>\<open>requireUserPresence\<close> is not an option of the sign-in
  ceremony (\<open>None\<close>), which always requires presence.
\<close>

record ceremony_checks =
  requireUserPresence :: "bool option"
  requireUserVerification :: bool

record ('cred, 'opt) WebAuthn =
  generateRegistrationOptions :: "RegistrationRequest \<Rightarrow> nat \<Rightarrow> failure + 'opt"
  generateAuthenticationOptions :: "AuthenticationRequest \<Rightarrow> nat \<Rightarrow> failure + 'opt"
  option_challenge :: "'opt \<Rightarrow> string"
  verifyRegistrationResponse :: "'cred \<Rightarrow> string \<Rightarrow> string \<Rightarrow> string \<Rightarrow> ceremony_checks \<Rightarrow> int list \<Rightarrow> string + PasskeyCredential option"
  verifyAuthenticationResponse :: "'cred \<Rightarrow> string \<Rightarrow> string \<Rightarrow> string \<Rightarrow> StoredCredential \<Rightarrow> ceremony_checks \<Rightarrow> string + (nat \<times> bool) option"
  credential_id :: "'cred \<Rightarrow> string option"
  relyingParty :: RelyingParty

datatype PasskeyRegistrationOutcome = RegVerified PasskeyCredential | RegRefused string

datatype PasskeyAssertionOutcome =
    AssertVerified PasskeyEntity nat bool
  | AssertRefused SignInFailureReason string

definition PASSKEY_ALGORITHMS :: "int list" where
  "PASSKEY_ALGORITHMS = [-7, -257]"

definition descriptorOf :: "PasskeyEntity \<Rightarrow> Descriptor" where
  "descriptorOf passkey = \<lparr>de_id = pk_credentialId passkey, de_transports = pk_transports passkey\<rparr>"

text \<open>The library draws the challenge of the options it makes from the process's random source.\<close>

definition drawing :: "(nat \<Rightarrow> failure + 'a) \<Rightarrow> 'a act" where
  "drawing f = (\<lambda>w. (f (draws w), w\<lparr>draws := Suc (draws w)\<rparr>))"

definition ceremony_registrationOptions :: "('cred, 'opt) WebAuthn \<Rightarrow> PasskeyAccount \<Rightarrow> PasskeyEntity list \<Rightarrow> int \<Rightarrow> 'opt act" where
  "ceremony_registrationOptions wa account held lifetimeSeconds =
     drawing (generateRegistrationOptions wa
       \<lparr>rr_party = relyingParty wa, rr_account = account, rr_timeoutMs = lifetimeSeconds * 1000,
        rr_attestationType = ''none'', rr_excluded = map descriptorOf held, rr_residentKey = ''preferred'',
        rr_userVerification = ''required'', rr_algorithms = PASSKEY_ALGORITHMS\<rparr>)"

definition verifyRegistration :: "('cred, 'opt) WebAuthn \<Rightarrow> 'cred \<Rightarrow> string \<Rightarrow> PasskeyRegistrationOutcome" where
  "verifyRegistration wa credential expectedChallenge =
     (case verifyRegistrationResponse wa credential expectedChallenge (rp_origin (relyingParty wa)) (rp_id (relyingParty wa))
             \<lparr>requireUserPresence = Some True, requireUserVerification = True\<rparr> PASSKEY_ALGORITHMS of
        Inl message \<Rightarrow> RegRefused message
      | Inr None \<Rightarrow> RegRefused ''the attestation did not verify''
      | Inr (Some info) \<Rightarrow> RegVerified info)"

definition ceremony_signInOptions :: "('cred, 'opt) WebAuthn \<Rightarrow> PasskeyEntity list \<Rightarrow> int \<Rightarrow> 'opt act" where
  "ceremony_signInOptions wa held lifetimeSeconds =
     drawing (generateAuthenticationOptions wa
       \<lparr>ar_partyId = rp_id (relyingParty wa), ar_allowed = map descriptorOf held, ar_userVerification = ''required'',
        ar_timeoutMs = lifetimeSeconds * 1000\<rparr>)"

definition ceremony_verifySignIn :: "('cred, 'opt) WebAuthn \<Rightarrow> 'cred \<Rightarrow> string \<Rightarrow> PasskeyEntity list \<Rightarrow> PasskeyAssertionOutcome" where
  "ceremony_verifySignIn wa credential expectedChallenge held =
     (case find (\<lambda>candidate. Some (pk_credentialId candidate) = credential_id wa credential) held of
        None \<Rightarrow> AssertRefused unknown_passkey ''the credential is none of the account's passkeys''
      | Some passkey \<Rightarrow>
          (case verifyAuthenticationResponse wa credential expectedChallenge (rp_origin (relyingParty wa)) (rp_id (relyingParty wa))
                  \<lparr>sc_id = pk_credentialId passkey, sc_publicKey = pk_publicKey passkey, sc_counter = pk_signCount passkey,
                   sc_transports = pk_transports passkey\<rparr> \<lparr>requireUserPresence = None, requireUserVerification = True\<rparr> of
             Inl message \<Rightarrow> AssertRefused passkey_refused message
           | Inr None \<Rightarrow> AssertRefused passkey_refused ''the signature did not verify''
           | Inr (Some (newCounter, backedUp)) \<Rightarrow> AssertVerified passkey newCounter backedUp))"

section \<open>The use case\<close>

record PasskeyView =
  pv_id :: string
  pv_credentialId :: string
  pv_name :: string
  pv_createdAt :: int
  pv_lastUsedAt :: "int option"
  pv_deviceType :: PasskeyDeviceType
  pv_backedUp :: bool

definition viewOf :: "PasskeyEntity \<Rightarrow> PasskeyView" where
  "viewOf passkey = \<lparr>pv_id = pk_id passkey, pv_credentialId = pk_credentialId passkey, pv_name = pk_name passkey,
     pv_createdAt = pk_createdAt passkey, pv_lastUsedAt = pk_lastUsedAt passkey, pv_deviceType = pk_deviceType passkey,
     pv_backedUp = pk_backedUp passkey\<rparr>"

definition limitReached :: failure where
  "limitReached = ConflictException ''PASSKEY_LIMIT''"

definition requireTwoFactor :: "UserEntity \<Rightarrow> failure + unit" where
  "requireTwoFactor user = (if \<not> u_isTwoFactorEnabled user then Inl (ConflictException ''TWO_FACTOR_REQUIRED'') else Inr ())"

definition listPasskeys :: "Claims \<Rightarrow> nat \<Rightarrow> PasskeyView list act" where
  "listPasskeys claims userId =
     andThen (ownAccount claims userId)
     (\<lambda>user. andThen (listForUser (u_id user)) (\<lambda>held. returns (map viewOf held)))"

definition registrationOptions ::
    "'tok Env \<Rightarrow> ('cred, 'opt) WebAuthn \<Rightarrow> Claims \<Rightarrow> nat \<Rightarrow> string \<Rightarrow> CallContext \<Rightarrow> (string \<times> 'opt) act" where
  "registrationOptions env wa claims userId password context =
     andThen (ownAccount claims userId)
     (\<lambda>user. andThen (confirmPassword env user password context)
     (\<lambda>_. andThen (lifted (requireTwoFactor user))
     (\<lambda>_. andThen (listForUser (u_id user))
     (\<lambda>held. if length held \<ge> PASSKEYS_PER_ACCOUNT then throws limitReached
        else
          andThen (ceremony_registrationOptions wa \<lparr>pa_userHandle = cl_sub claims, pa_userName = u_email user\<rparr> held
            REGISTRATION_CHALLENGE_SECONDS)
          (\<lambda>options. andThen (issueRegistration env (u_id user) (option_challenge wa options) REGISTRATION_CHALLENGE_SECONDS)
          (\<lambda>challengeId. returns (challengeId, options)))))))"

definition registerPasskey ::
    "'tok Env \<Rightarrow> ('cred, 'opt) WebAuthn \<Rightarrow> Claims \<Rightarrow> nat \<Rightarrow> string \<Rightarrow> 'cred \<Rightarrow> string \<Rightarrow> PasskeyView act" where
  "registerPasskey env wa claims userId challengeId credential name =
     andThen (ownAccount claims userId)
     (\<lambda>user. andThen (lifted (requireTwoFactor user))
     (\<lambda>_. andThen (spendRegistration challengeId (u_id user))
     (\<lambda>expected. case expected of
        None \<Rightarrow> throws (BadRequestException ''PASSKEY_CHALLENGE_INVALID'')
      | Some expectedChallenge \<Rightarrow>
          (case verifyRegistration wa credential expectedChallenge of
             RegRefused detail \<Rightarrow>
               andThen (record_event (PasskeyRegistrationRefused (u_id user) detail))
               (\<lambda>_. throws (BadRequestException ''PASSKEY_INVALID''))
           | RegVerified c \<Rightarrow>
               andThen (addPasskey env
                  \<lparr>np_userId = u_id user, np_credentialId = pcr_credentialId c, np_publicKey = pcr_publicKey c,
                   np_signCount = pcr_signCount c, np_transports = pcr_transports c, np_deviceType = pcr_deviceType c,
                   np_backedUp = pcr_backedUp c, np_name = js_trim name\<rparr> PASSKEYS_PER_ACCOUNT)
               (\<lambda>added. case added of
                  LimitReached \<Rightarrow> throws limitReached
                | Duplicate \<Rightarrow> throws (ConflictException ''PASSKEY_EXISTS'')
                | Added passkey \<Rightarrow> returns (viewOf passkey))))))"

definition removeOwnPasskey :: "'tok Env \<Rightarrow> Claims \<Rightarrow> nat \<Rightarrow> string \<Rightarrow> string \<Rightarrow> CallContext \<Rightarrow> unit act" where
  "removeOwnPasskey env claims userId passkeyId password context =
     andThen (ownAccount claims userId)
     (\<lambda>user. andThen (confirmPassword env user password context)
     (\<lambda>_. andThen (removePasskey (u_id user) passkeyId)
     (\<lambda>removed. if \<not> removed then throws (NotFoundException ''PASSKEY_NOT_FOUND'') else returns ())))"

definition signInOptions :: "'tok Env \<Rightarrow> ('cred, 'opt) WebAuthn \<Rightarrow> 'tok \<Rightarrow> 'opt act" where
  "signInOptions env wa challengeToken =
     andThen (openChallenge env challengeToken)
     (\<lambda>oc. let user = oc_user oc; claims = oc_claims oc in
      andThen (listForUser (u_id user))
      (\<lambda>held. if held = [] then throws (ConflictException ''NO_PASSKEYS'')
         else
           andThen (ceremony_signInOptions wa held SIGN_IN_CHALLENGE_SECONDS)
           (\<lambda>options. andThen (issueSignIn env (u_id user) (cl_jti claims) (option_challenge wa options) SIGN_IN_CHALLENGE_SECONDS)
           (\<lambda>_. returns options))))"

definition refused :: "'tok Env \<Rightarrow> UserEntity \<Rightarrow> nat \<Rightarrow> SignInFailureReason \<Rightarrow> string \<Rightarrow> CallContext \<Rightarrow> 'a act" where
  "refused env user attempt reason detail context =
     andThen (failed env \<lparr>sf_stage = PasskeyStage, sf_reason = reason, sf_email = u_email user,
       sf_user = Some user, sf_attempts = attempt, sf_detail = Some detail\<rparr> context)
     (\<lambda>_. throws (UnauthorizedException ''PASSKEY_REFUSED''))"

definition verifySignIn ::
    "'tok Env \<Rightarrow> ('cred, 'opt) WebAuthn \<Rightarrow> 'tok \<Rightarrow> 'cred \<Rightarrow> CallContext \<Rightarrow> 'tok AuthTokenOutput act" where
  "verifySignIn env wa challengeToken credential context =
     andThen (openChallenge env challengeToken)
     (\<lambda>oc. let user = oc_user oc; claims = oc_claims oc in
      andThen (admitAnswer env user claims)
      (\<lambda>attempt. andThen (spendSignIn (cl_jti claims) (u_id user))
      (\<lambda>expected. case expected of
         None \<Rightarrow> refused env user attempt no_passkey_challenge ''no passkey options are open for this challenge'' context
       | Some expectedChallenge \<Rightarrow>
           andThen (listForUser (u_id user))
           (\<lambda>held. case ceremony_verifySignIn wa credential expectedChallenge held of
              AssertRefused reason detail \<Rightarrow> refused env user attempt reason detail context
            | AssertVerified passkey signCount backedUp \<Rightarrow>
                andThen (consumeMfaChallenge claims)
                (\<lambda>_. andThen (recordUse (pk_id passkey) signCount backedUp)
                (\<lambda>advanced. if \<not> advanced then
                   andThen (failed env \<lparr>sf_stage = PasskeyStage, sf_reason = sign_count_regressed, sf_email = u_email user,
                     sf_user = Some user, sf_attempts = attempt, sf_detail = None\<rparr> context)
                   (\<lambda>_. throws (UnauthorizedException ''CHALLENGE_SPENT''))
                 else startSession env user context))))))"

section \<open>What signing in with a passkey proves\<close>

lemma drawing_run [simp]: "drawing f w = (f (draws w), w\<lparr>draws := Suc (draws w)\<rparr>)"
  by (simp add: drawing_def)

lemma listForUser_run [simp]:
  "listForUser i w = (Inr (sort_key (\<lambda>p. (pk_createdAt p, pk_id p)) (filter (\<lambda>p. pk_userId p = i) (passkeys w))), w)"
  by (simp add: listForUser_def)

text \<open>Counting an answer leaves passkeys and their challenges alone.\<close>

definition passkey_tables :: "PasskeyEntity list \<Rightarrow> PasskeyChallengeRow list \<Rightarrow> world \<Rightarrow> bool" where
  "passkey_tables ps cs w \<longleftrightarrow> passkeys w = ps \<and> passkey_challenges w = cs"

lemma admitAnswer_passkeys:
  assumes "admitAnswer env u c w = (r, t)"
  shows "passkeys t = passkeys w \<and> passkey_challenges t = passkey_challenges w"
proof -
  let ?P = "passkey_tables (passkeys w) (passkey_challenges w)"
  have "keeps ?P (admitAnswer env u c)"
    unfolding admitAnswer_def admitChallengeAttempt_def claimChallengeAttempt_def lockAccount_def recordAccountAttempt_def
    by (intro keeps_rules keeps_writes)
      (auto simp: passkey_tables_def claim_challenge_row_def keeps_def split: option.splits)
  from keeps_run [OF this _ assms] show ?thesis by (simp add: passkey_tables_def)
qed


lemma ceremony_verified:
  assumes "ceremony_verifySignIn wa cred ch held = AssertVerified p n b"
  shows "p \<in> set held" and "credential_id wa cred = Some (pk_credentialId p)"
    and "verifyAuthenticationResponse wa cred ch (rp_origin (relyingParty wa)) (rp_id (relyingParty wa))
      \<lparr>sc_id = pk_credentialId p, sc_publicKey = pk_publicKey p, sc_counter = pk_signCount p, sc_transports = pk_transports p\<rparr>
      \<lparr>requireUserPresence = None, requireUserVerification = True\<rparr> = Inr (Some (n, b))"
  using assms
  by (auto simp: ceremony_verifySignIn_def find_Some_iff split: option.splits sum.splits prod.splits)

lemma recordUse_True:
  assumes "recordUse i n b w = (Inr True, t)" and "distinct (map pk_id (passkeys w))" and "p \<in> set (passkeys w)" and "pk_id p = i"
  shows "if n = 0 then pk_signCount p = 0 else pk_signCount p < n"
proof -
  from assms(1) have "affected (\<lambda>p. pk_id p = i \<and> (if n = 0 then pk_signCount p = 0 else pk_signCount p < n)) (passkeys w) = 1"
    by (simp add: recordUse_def Let_def)
  then obtain q where "q \<in> set (passkeys w)" "pk_id q = i" "if n = 0 then pk_signCount q = 0 else pk_signCount q < n"
    using affected_pos_iff [of "\<lambda>p. pk_id p = i \<and> (if n = 0 then pk_signCount p = 0 else pk_signCount p < n)" "passkeys w"] by auto
  moreover from this(1,2) assms(2-4) have "q = p" using key_unique [of pk_id] by auto
  ultimately show ?thesis by blast
qed

lemma spendSignIn_Some:
  assumes "spendSignIn j i w = (Inr (Some x), t)"
  obtains ch where "ch \<in> set (passkey_challenges w)" "pc_mfaJti ch = Some j" "pc_purpose ch = ForSignIn" "pc_userId ch = i"
    "pc_usedAt ch = None" "clock w < pc_expiresAt ch" "pc_challenge ch = x"
    and "passkeys t = passkeys w" "users t = users w" "clock t = clock w" "revoked_access_tokens t = revoked_access_tokens w"
proof -
  let ?hit = "\<lambda>c. (pc_mfaJti c = Some j \<and> pc_purpose c = ForSignIn) \<and> pc_userId c = i \<and> pc_usedAt c = None \<and> clock w < pc_expiresAt c"
  from assms have hit: "map_option pc_challenge (find ?hit (passkey_challenges w)) = Some x"
    and t: "w\<lparr>passkey_challenges := update_where ?hit (\<lambda>c. c\<lparr>pc_usedAt := Some (clock w)\<rparr>) (passkey_challenges w)\<rparr> = t"
    by (simp_all add: spendSignIn_def spend_row_def Let_def)
  from hit obtain ch where "find ?hit (passkey_challenges w) = Some ch" "pc_challenge ch = x" by auto
  with find_Some_mem [OF this(1)] show ?thesis by (intro that [of ch]) (simp_all add: t [symmetric])
qed

text \<open>
  C17. What signing in with a passkey proves. A session starts only if the challenge token verifies
  as a challenge never used before and names an account whose second factor is on; passkey options
  for that very challenge were open, unused and unexpired; the credential is one of that account's
  passkeys and its signature of the open challenge verified; and its signature counter advanced.
  Afterwards the challenge is barred for as long as it would verify.
\<close>

theorem passkey_session:
  assumes "verifySignIn env wa token cred c w = (Inr out, t)" and "passkeys_ok env w"
  shows "\<exists>claims r p ch n b. verified env token (clock w) = Inr claims \<and> cl_token_use claims = ''mfa_challenge''
    \<and> revoked_row (cl_jti claims) w = None \<and> barred claims t
    \<and> user_row (cl_uid claims) w = Some r \<and> u_isTwoFactorEnabled r \<and> at_userId out = cl_uid claims
    \<and> ch \<in> set (passkey_challenges w) \<and> pc_mfaJti ch = Some (cl_jti claims) \<and> pc_userId ch = cl_uid claims
    \<and> pc_usedAt ch = None \<and> clock w < pc_expiresAt ch
    \<and> p \<in> set (passkeys w) \<and> pk_userId p = cl_uid claims \<and> credential_id wa cred = Some (pk_credentialId p)
    \<and> verifyAuthenticationResponse wa cred (pc_challenge ch) (rp_origin (relyingParty wa)) (rp_id (relyingParty wa))
        \<lparr>sc_id = pk_credentialId p, sc_publicKey = pk_publicKey p, sc_counter = pk_signCount p, sc_transports = pk_transports p\<rparr>
        \<lparr>requireUserPresence = None, requireUserVerification = True\<rparr> = Inr (Some (n, b))
    \<and> (if n = 0 then pk_signCount p = 0 else pk_signCount p < n)"
proof -
  from assms(1) obtain oc v a w2 x w3 p n b w4 w5 where oc: "openChallenge env token w = (Inr oc, v)"
    and admitted: "admitAnswer env (oc_user oc) (oc_claims oc) v = (Inr a, w2)"
    and spend: "spendSignIn (cl_jti (oc_claims oc)) (u_id (oc_user oc)) w2 = (Inr (Some x), w3)"
    and ok: "ceremony_verifySignIn wa cred x (sort_key (\<lambda>p. (pk_createdAt p, pk_id p))
        (filter (\<lambda>p. pk_userId p = u_id (oc_user oc)) (passkeys w3))) = AssertVerified p n b"
    and consume: "consumeMfaChallenge (oc_claims oc) w3 = (Inr (), w4)"
    and use: "recordUse (pk_id p) n b w4 = (Inr True, w5)" and start: "startSession env (oc_user oc) c w5 = (Inr out, t)"
    unfolding verifySignIn_def Let_def by (elim andThen_InrE) (auto simp: refused_def elim!: andThen_InrE
        split: option.splits PasskeyAssertionOutcome.splits if_splits)
  note opened = openChallenge_Inr [OF oc]
  with admitted have admit: "admitAnswer env (oc_user oc) (oc_claims oc) w = (Inr a, w2)" by simp
  note opened
  then obtain r where r: "user_row (cl_uid (oc_claims oc)) w = Some r" "oc_user oc = toUserEntity r" "u_isTwoFactorEnabled r" by blast
  then have id: "u_id (oc_user oc) = cl_uid (oc_claims oc)" using user_row_Some by fastforce
  note same = leaves_run [OF leaves_admitAnswer admit] admitAnswer_passkeys [OF admit]
  from spend obtain ch where ch: "ch \<in> set (passkey_challenges w)" "pc_mfaJti ch = Some (cl_jti (oc_claims oc))"
    "pc_userId ch = cl_uid (oc_claims oc)" "pc_usedAt ch = None" "clock w < pc_expiresAt ch" "pc_challenge ch = x"
    and w3: "passkeys w3 = passkeys w" "clock w3 = clock w"
    by (rule spendSignIn_Some) (use same id in auto)
  have p: "p \<in> set (passkeys w)" "pk_userId p = cl_uid (oc_claims oc)" using ceremony_verified(1) [OF ok] w3 id by simp_all
  have w4: "barred (oc_claims oc) w4" "passkeys w4 = passkeys w"
    using consume w3 by (auto simp: consumeMfaChallenge_run barred_def split: if_splits)
  have "if n = 0 then pk_signCount p = 0 else pk_signCount p < n"
    using recordUse_True [OF use _ _ refl] p assms(2) w4 by (simp add: passkeys_ok_def)
  moreover have "revoked_access_tokens w5 = revoked_access_tokens w4" "clock w5 = clock w4"
    using use by (auto simp: recordUse_def Let_def)
  moreover have "clock t = clock w5" "revoked_access_tokens t = revoked_access_tokens w5" "at_userId out = u_id (oc_user oc)"
    using start by (auto elim: startSession_Inr)
  ultimately show ?thesis
    using opened r id ch p w4 ceremony_verified(2,3) [OF ok]
    by (intro exI [of _ "oc_claims oc"] exI [of _ r] exI [of _ p] exI [of _ ch] exI [of _ n] exI [of _ b]) (simp add: barred_def)
qed

definition sample_webauthn :: "(string, string) WebAuthn" where
  "sample_webauthn = \<lparr>generateRegistrationOptions = (\<lambda>r n. Inr (decimal n)), generateAuthenticationOptions = (\<lambda>r n. Inr (decimal n)),
     option_challenge = (\<lambda>x. x), verifyRegistrationResponse = (\<lambda>c ch origin rp checks algs. Inr (Some \<lparr>pcr_credentialId = c, pcr_publicKey = [2],
       pcr_signCount = 0, pcr_transports = [], pcr_deviceType = MultiDevice, pcr_backedUp = True\<rparr>)),
     verifyAuthenticationResponse = (\<lambda>c ch origin rp stored checks. if ch = ''7'' then Inr (Some (Suc (sc_counter stored), True)) else Inr None),
     credential_id = Some, relyingParty = \<lparr>rp_id = ''b.c'', rp_origin = ''https://b.c'', rp_name = ''K''\<rparr>\<rparr>"

definition sample_passkey :: PasskeyEntity where
  "sample_passkey = \<lparr>pk_id = ''0'', pk_userId = 1, pk_credentialId = ''cred'', pk_publicKey = [1], pk_signCount = 4,
     pk_transports = [], pk_deviceType = SingleDevice, pk_backedUp = False, pk_name = ''key'', pk_createdAt = 0, pk_lastUsedAt = None\<rparr>"

definition sample_keyed :: world where
  "sample_keyed = sample_protected\<lparr>passkeys := [sample_passkey], passkey_challenges := [\<lparr>pc_id = ''9'', pc_userId = 1,
     pc_purpose = ForSignIn, pc_challenge = ''7'', pc_mfaJti = Some ''j'', pc_expiresAt = 90000, pc_usedAt = None\<rparr>]\<rparr>"

definition keyed_answer :: world where
  "keyed_answer = sample_keyed\<lparr>account_sign_in_attempts :=
     [\<lparr>as_attempts = 1, as_lastAttemptAt = 60000, as_delayedUntil = 60000, aa_accountKey = ''a@b.c''\<rparr>],
     two_factor_challenge_attempts := [\<lparr>ca_jti = ''j'', ca_attempts = 1, ca_expiresAt = 300000\<rparr>]\<rparr>"

definition keyed_spent :: world where
  "keyed_spent = snd (spendSignIn ''j'' 1 keyed_answer)"

definition keyed_consumed :: world where
  "keyed_consumed = snd (consumeMfaChallenge sample_challenge_claims keyed_spent)"

definition keyed_used :: world where
  "keyed_used = snd (recordUse ''0'' 5 True keyed_consumed)"

lemma sample_keyed_run:
  "openChallenge sample_env sample_challenge sample_keyed = (Inr sample_open, sample_keyed)"
  "admitAnswer sample_env (oc_user sample_open) (oc_claims sample_open) sample_keyed = (Inr 1, keyed_answer)"
  "spendSignIn (cl_jti (oc_claims sample_open)) (u_id (oc_user sample_open)) keyed_answer = (Inr (Some ''7''), keyed_spent)"
  "listForUser (u_id (oc_user sample_open)) keyed_spent = (Inr [sample_passkey], keyed_spent)"
  "ceremony_verifySignIn sample_webauthn ''cred'' ''7'' [sample_passkey] = AssertVerified sample_passkey 5 True"
  "consumeMfaChallenge (oc_claims sample_open) keyed_spent = (Inr (), keyed_consumed)"
  "recordUse (pk_id sample_passkey) 5 True keyed_consumed = (Inr True, keyed_used)"
  by code_simp+

lemma sample_keyed_session: "\<not> isl (fst (startSession sample_env (oc_user sample_open) sample_context keyed_used))"
  by code_simp

theorem passkey_session_witness:
  "\<exists>out t. verifySignIn sample_env sample_webauthn sample_challenge ''cred'' sample_context sample_keyed = (Inr out, t) \<and>
     (\<exists>p \<in> set (passkeys sample_keyed). pk_credentialId p = ''cred'')"
proof -
  obtain out t where start: "startSession sample_env (oc_user sample_open) sample_context keyed_used = (Inr out, t)"
    using returned [OF sample_keyed_session] by blast
  have run: "verifySignIn sample_env sample_webauthn sample_challenge ''cred'' sample_context sample_keyed = (Inr out, t)"
    unfolding verifySignIn_def andThen_run Let_def
    by (simp add: sample_keyed_run del: listForUser_run) (simp add: andThen_run sample_keyed_run start del: listForUser_run)
  have "decimal 0 = ''0''" by code_simp
  then have "drawn sample_env sample_keyed ''0''"
    unfolding drawn_def by (intro exI [of _ 0]) (simp add: sample_keyed_def sample_protected_def sample_env_def)
  then have "passkeys_ok sample_env sample_keyed"
    by (simp add: passkeys_ok_def sample_keyed_def sample_passkey_def held_by_def affected_def PASSKEYS_PER_ACCOUNT_def)
  from passkey_session [OF run this] run show ?thesis by (auto simp: sample_webauthn_def)
qed

section \<open>What adding a passkey proves\<close>

lemma spendRegistration_Some:
  assumes "spendRegistration j i w = (Inr (Some x), t)"
  obtains ch where "ch \<in> set (passkey_challenges w)" "pc_id ch = j" "pc_purpose ch = ForRegister" "pc_userId ch = i"
    "pc_usedAt ch = None" "clock w < pc_expiresAt ch" "pc_challenge ch = x" and "passkeys t = passkeys w"
proof -
  let ?hit = "\<lambda>c. (pc_id c = j \<and> pc_purpose c = ForRegister) \<and> pc_userId c = i \<and> pc_usedAt c = None \<and> clock w < pc_expiresAt c"
  from assms have hit: "map_option pc_challenge (find ?hit (passkey_challenges w)) = Some x"
    and t: "w\<lparr>passkey_challenges := update_where ?hit (\<lambda>c. c\<lparr>pc_usedAt := Some (clock w)\<rparr>) (passkey_challenges w)\<rparr> = t"
    by (simp_all add: spendRegistration_def spend_row_def Let_def)
  from hit obtain ch where "find ?hit (passkey_challenges w) = Some ch" "pc_challenge ch = x" by auto
  with find_Some_mem [OF this(1)] show ?thesis by (intro that [of ch]) (simp_all add: t [symmetric])
qed

lemma addPasskey_Added:
  assumes "addPasskey env p limit w = (Inr (Added row), t)"
  shows "passkeys t = passkeys w @ [row] \<and> pk_userId row = np_userId p \<and> pk_credentialId row = np_credentialId p
    \<and> pk_publicKey row = np_publicKey p \<and> held_by (np_userId p) w < limit \<and> (\<forall>q \<in> set (passkeys w). pk_credentialId q \<noteq> np_credentialId p)"
  using assms
  by (auto simp: addPasskey_def atomically_run andThen_run insert_passkey_def randomUUID_def held_by_def Let_def
      split: option.splits if_splits prod.splits sum.splits)

text \<open>
  C28. What adding a passkey proves. One is added only by the account's own caller, only while the
  account's second factor is on, only for a registration challenge of that account that was open,
  unused and unexpired, and only with a credential whose attestation of that challenge verified, with
  the user's presence and verification required. The
  passkeys afterwards are those before and the new one, of that account, with that credential's id
  and key; the account held fewer than ten and nobody held that credential.
\<close>

theorem passkey_registration:
  assumes "registerPasskey env wa claims i challengeId cred name w = (Inr v, t)"
  shows "\<exists>r ch c row. cl_uid claims = i \<and> user_row i w = Some r \<and> u_isTwoFactorEnabled r
    \<and> ch \<in> set (passkey_challenges w) \<and> pc_id ch = challengeId \<and> pc_purpose ch = ForRegister \<and> pc_userId ch = i
    \<and> pc_usedAt ch = None \<and> clock w < pc_expiresAt ch
    \<and> verifyRegistrationResponse wa cred (pc_challenge ch) (rp_origin (relyingParty wa)) (rp_id (relyingParty wa))
        \<lparr>requireUserPresence = Some True, requireUserVerification = True\<rparr> PASSKEY_ALGORITHMS = Inr (Some c)
    \<and> passkeys t = passkeys w @ [row] \<and> pk_userId row = i \<and> pk_credentialId row = pcr_credentialId c
    \<and> pk_publicKey row = pcr_publicKey c \<and> v = viewOf row
    \<and> held_by i w < 10 \<and> (\<forall>q \<in> set (passkeys w). pk_credentialId q \<noteq> pcr_credentialId c)"
proof -
  from assms obtain u w1 x w2 c row where own: "ownAccount claims i w = (Inr u, w1)" and on: "u_isTwoFactorEnabled u"
    and spend: "spendRegistration challengeId (u_id u) w1 = (Inr (Some x), w2)"
    and ver: "verifyRegistration wa cred x = RegVerified c"
    and add: "addPasskey env \<lparr>np_userId = u_id u, np_credentialId = pcr_credentialId c, np_publicKey = pcr_publicKey c,
                   np_signCount = pcr_signCount c, np_transports = pcr_transports c, np_deviceType = pcr_deviceType c,
                   np_backedUp = pcr_backedUp c, np_name = js_trim name\<rparr> PASSKEYS_PER_ACCOUNT w2 = (Inr (Added row), t)"
    and v: "v = viewOf row"
    unfolding registerPasskey_def requireTwoFactor_def
    by (elim andThen_InrE) (auto elim!: andThen_InrE split: option.splits PasskeyRegistrationOutcome.splits PasskeyAddition.splits if_splits)
  from ownAccount_Inr [OF own] obtain r where r: "w1 = w" "cl_uid claims = i" "user_row i w = Some r" "u = toUserEntity r" "u_id u = i"
    by blast
  from spend [unfolded r] obtain ch where ch: "ch \<in> set (passkey_challenges w)" "pc_id ch = challengeId" "pc_purpose ch = ForRegister"
    "pc_userId ch = i" "pc_usedAt ch = None" "clock w < pc_expiresAt ch" "pc_challenge ch = x" and w2: "passkeys w2 = passkeys w"
    by (rule spendRegistration_Some) (use r in auto)
  have "verifyRegistrationResponse wa cred (pc_challenge ch) (rp_origin (relyingParty wa)) (rp_id (relyingParty wa))
        \<lparr>requireUserPresence = Some True, requireUserVerification = True\<rparr> PASSKEY_ALGORITHMS = Inr (Some c)"
    using ver ch by (auto simp: verifyRegistration_def split: sum.splits option.splits)
  with addPasskey_Added [OF add] r on ch v w2 show ?thesis
    by (intro exI [of _ r] exI [of _ ch] exI [of _ c] exI [of _ row]) (simp add: held_by_def PASSKEYS_PER_ACCOUNT_def)
qed

definition sample_registering :: world where
  "sample_registering = sample_protected\<lparr>passkey_challenges := [\<lparr>pc_id = ''9'', pc_userId = 1,
     pc_purpose = ForRegister, pc_challenge = ''7'', pc_mfaJti = None, pc_expiresAt = 90000, pc_usedAt = None\<rparr>]\<rparr>"

theorem passkey_registration_witness:
  "\<exists>v t row. registerPasskey sample_env sample_webauthn sample_self 1 ''9'' ''cred'' ''my key'' sample_registering = (Inr v, t) \<and>
     passkeys t = [row] \<and> pk_userId row = 1"
proof -
  have "\<not> isl (fst (registerPasskey sample_env sample_webauthn sample_self 1 ''9'' ''cred'' ''my key'' sample_registering))" by code_simp
  then obtain v t where run: "registerPasskey sample_env sample_webauthn sample_self 1 ''9'' ''cred'' ''my key'' sample_registering = (Inr v, t)"
    using returned by blast
  have "passkeys sample_registering = []" by code_simp
  with passkey_registration [OF run] run show ?thesis by auto
qed

end
