(* ===== verification/Paging.thy ===== *)
theory Paging
  imports Principals "HOL-Library.Product_Lexorder"
begin

text \<open>
  Lists that are read page by page: the queues of seller and courier applications
  (\<^verbatim>\<open>list\<close> and \<^verbatim>\<open>tally\<close> of \<^verbatim>\<open>typeorm_merchant_verification_repository.adapter.ts\<close> and
  \<^verbatim>\<open>typeorm_courier_application_repository.adapter.ts\<close>, with the query of
  \<^verbatim>\<open>adapters/mappers/application_query.mapper.ts\<close>). A page is one row more than asked for, cut
  back; its last row is the next cursor. The locale \<open>keyset_pages\<close> is the contract of such a list:
  a reader that follows the cursors gets every row once, in order, in a bounded number of pages.
  The change feed of the stores is a second client of it (theory \<open>Merchant_Feed\<close>).
\<close>

section \<open>Reading page by page\<close>

definition cut_page :: "nat \<Rightarrow> 'r list \<Rightarrow> 'r list \<times> bool" where
  "cut_page limit records =
     (let hasMore = limit < length records in (if hasMore then take limit records else records, hasMore))"

text \<open>
  A reader that starts at a cursor and follows the cursor of every page until there is none: \<open>None\<close>
  when it has not reached the end after \<open>n\<close> pages.
\<close>

fun read_pages :: "nat \<Rightarrow> ('c \<Rightarrow> 'v list \<times> 'c option) \<Rightarrow> 'c \<Rightarrow> 'v list option" where
  "read_pages 0 fetch c = None"
| "read_pages (Suc n) fetch c =
     (case fetch c of
        (vs, None) \<Rightarrow> Some vs
      | (vs, Some d) \<Rightarrow> map_option (\<lambda>rest. vs @ rest) (read_pages n fetch d))"

lemma read_pages_map:
  "(\<And>c. fetch' c = map_prod (map f) id (fetch c)) \<Longrightarrow> read_pages n fetch' c = map_option (map f) (read_pages n fetch c)"
proof (induction n arbitrary: c)
  case (Suc n)
  obtain vs d where "fetch c = (vs, d)" by fastforce
  with Suc show ?case by (cases d; cases "read_pages n fetch (the d)") simp_all
qed simp

lemma filter_beyond:
  assumes "sorted_wrt (<) (map k (rows :: 'r list))" and "filter P rows = xs @ x # ys" and "P = (\<lambda>r. (c::'k::linorder) < k r)"
  shows "filter (\<lambda>r. k x < k r) rows = ys"
proof -
  have mem: "x \<in> set (filter P rows)" by (simp add: assms(2))
  then have gt: "c < k x" using assms(3) by simp
  have "filter (\<lambda>r. k x < k r) rows = filter (\<lambda>r. k x < k r) (filter P rows)"
    using gt by (auto simp: assms(3) intro!: filter_cong)
  also have "\<dots> = filter (\<lambda>r. k x < k r) xs @ filter (\<lambda>r. k x < k r) (x # ys)" by (simp add: assms(2))
  also have "sorted_wrt (<) (map k (filter P rows))" using assms(1) by (simp add: sorted_wrt_map sorted_wrt_filter)
  then have "\<forall>r \<in> set xs. k r < k x" and "\<forall>r \<in> set ys. k x < k r"
    by (auto simp: assms(2) sorted_wrt_append sorted_wrt_map)
  then have "filter (\<lambda>r. k x < k r) xs = []" and "filter (\<lambda>r. k x < k r) (x # ys) = ys"
    by (auto simp: filter_empty_conv less_not_sym)
  ultimately show ?thesis by simp
qed

locale keyset_pages =
  fixes rows :: "'s \<Rightarrow> 'r list" and key :: "'r \<Rightarrow> 'k::linorder" and good :: "'s \<Rightarrow> bool"
    and fetch :: "'s \<Rightarrow> nat \<Rightarrow> 'k \<Rightarrow> 'r list \<times> bool"
  assumes ascending: "good s \<Longrightarrow> sorted_wrt (<) (map key (rows s))"
    and fetch_page: "good s \<Longrightarrow> fetch s limit c = cut_page limit (take (Suc limit) (filter (\<lambda>r. c < key r) (rows s)))"
begin

definition follow :: "'s \<Rightarrow> nat \<Rightarrow> 'k \<Rightarrow> 'r list \<times> 'k option" where
  "follow s limit c = (case fetch s limit c of (page, hasMore) \<Rightarrow> (page, if hasMore then Some (key (last page)) else None))"

lemma follow_last:
  "good s \<Longrightarrow> length (filter (\<lambda>r. c < key r) (rows s)) \<le> limit \<Longrightarrow> follow s limit c = (filter (\<lambda>r. c < key r) (rows s), None)"
  by (simp add: follow_def fetch_page cut_page_def)

lemma follow_more:
  assumes "good s" and "filter (\<lambda>r. c < key r) (rows s) = xs @ x # y # ys" and "length xs = n"
  shows "follow s (Suc n) c = (xs @ [x], Some (key x))"
  using assms by (simp add: follow_def fetch_page cut_page_def)

text \<open>A page never exceeds the limit, and what it leaves out comes after what it holds.\<close>

lemma page_bound: "good s \<Longrightarrow> length (fst (fetch s limit c)) \<le> limit"
  by (auto simp: fetch_page cut_page_def Let_def)

lemma page_covers:
  assumes "good s" and "fetch s limit c = (page, hasMore)" and "page \<noteq> []"
    and "r \<in> set (rows s)" and "c < key r" and "key r \<le> key (last page)"
  shows "r \<in> set page"
proof -
  let ?rs = "filter (\<lambda>r. c < key r) (rows s)"
  obtain k where page: "page = take k ?rs"
    using assms(2) by (auto simp: fetch_page [OF assms(1)] cut_page_def Let_def split: if_splits)
  have "sorted_wrt (<) (map key (take k ?rs @ drop k ?rs))"
    using ascending [OF assms(1)] by (simp add: sorted_wrt_map sorted_wrt_filter)
  then have "\<forall>x \<in> set (take k ?rs). \<forall>y \<in> set (drop k ?rs). key x < key y" by (simp only: map_append sorted_wrt_append) simp
  moreover have "last page \<in> set (take k ?rs)" using assms(3) page by (metis last_in_set)
  ultimately have "r \<notin> set (drop k ?rs)" using assms(6) by (meson leD)
  moreover have "r \<in> set (take k ?rs @ drop k ?rs)" using assms(4,5) by simp
  ultimately show ?thesis unfolding page by (simp only: set_append) blast
qed

lemma page_rows: "good s \<Longrightarrow> fetch s limit c = (page, hasMore) \<Longrightarrow> r \<in> set page \<Longrightarrow> r \<in> set (rows s) \<and> c < key r"
  by (auto simp: fetch_page cut_page_def Let_def split: if_splits dest!: in_set_takeD)

lemma reads_all:
  assumes "good s" and "length (filter (\<lambda>r. c < key r) (rows s)) \<le> Suc m * Suc n"
  shows "read_pages (Suc m) (follow s (Suc n)) c = Some (filter (\<lambda>r. c < key r) (rows s))"
  using assms(2)
proof (induction m arbitrary: c)
  case 0
  then show ?case by (simp add: follow_last [OF assms(1)])
next
  case (Suc m)
  let ?rs = "filter (\<lambda>r. c < key r) (rows s)"
  show ?case
  proof (cases "length ?rs \<le> Suc n")
    case True
    then show ?thesis by (simp add: follow_last [OF assms(1)])
  next
    case False
    then have "Suc 0 < length (drop n ?rs)" by auto
    then obtain x y ys where "drop n ?rs = x # y # ys" by (cases "drop n ?rs"; cases "tl (drop n ?rs)") auto
    then have split: "?rs = take n ?rs @ x # y # ys" by (metis append_take_drop_id)
    from filter_beyond [OF ascending [OF assms(1)] split] have rest: "filter (\<lambda>r. key x < key r) (rows s) = y # ys" by simp
    have len: "length (take n ?rs) = n" using False by simp
    from arg_cong [OF split, of length] len Suc.prems have "length (y # ys) \<le> Suc m * Suc n" by simp
    with Suc.IH [of "key x"] rest follow_more [OF assms(1) split len] split show ?thesis by simp
  qed
qed

lemma reads_everything:
  assumes "good s" and "0 < limit"
  shows "read_pages (Suc (length (rows s) div limit)) (follow s limit) c = Some (filter (\<lambda>r. c < key r) (rows s))"
proof -
  have "length (rows s) \<le> Suc (length (rows s) div limit) * limit"
    using assms(2) dividend_less_div_times [of limit "length (rows s)"] by simp
  then have "length (filter (\<lambda>r. c < key r) (rows s)) \<le> Suc (length (rows s) div limit) * limit"
    by (rule le_trans [OF length_filter_le])
  with reads_all [OF assms(1), of c "length (rows s) div limit" "limit - 1"] assms(2) show ?thesis by simp
qed

end

lemma sorted_by_key:
  fixes k :: "'r \<Rightarrow> 'k::linorder"
  shows "distinct (map k xs) \<Longrightarrow> sorted_wrt (<) (map k (sort_key k (filter P xs)))"
  by (simp add: strict_sorted_iff distinct_map inj_on_def)

lemma filter_sort_key: "filter P (sort_key k xs) = sort_key k (filter P xs)"
  by (rule filter_sort)

section \<open>The queue of seller applications\<close>

record 's ApplicationQuery =
  aq_status :: "'s option"
  aq_afterId :: nat
  aq_limit :: nat

record 'v ApplicationPage =
  ap_applications :: "'v list"
  ap_nextAfterId :: "nat option"

record ApplicationTally =
  at_since :: int
  at_approved :: nat
  at_rejected :: nat

record SellerApplicationView =
  sv_applicationId :: nat
  sv_userId :: nat
  sv_principalId :: "string option"
  sv_email :: string
  sv_storeName :: string
  sv_businessRegistrationNumber :: string
  sv_taxId :: string
  sv_streetAddress :: string
  sv_city :: string
  sv_postalCode :: string
  sv_status :: SellerApplicationStatus
  sv_verifiedAt :: "int option"
  sv_rejectedAt :: "int option"

record CourierApplicationView =
  cv_applicationId :: nat
  cv_principalId :: string
  cv_userId :: nat
  cv_email :: string
  cv_driverId :: "nat option"
  cv_status :: CourierApplicationStatus
  cv_filedAt :: int
  cv_approvedAt :: "int option"
  cv_rejectedAt :: "int option"

definition APPLICATION_PAGE_SIZE :: nat where "APPLICATION_PAGE_SIZE = 50"

definition applicationQueryOf :: "'s option \<Rightarrow> nat option \<Rightarrow> nat option \<Rightarrow> 's ApplicationQuery" where
  "applicationQueryOf status limit after =
     \<lparr>aq_status = status, aq_afterId = (case after of None \<Rightarrow> 0 | Some a \<Rightarrow> a),
      aq_limit = (case limit of None \<Rightarrow> APPLICATION_PAGE_SIZE | Some l \<Rightarrow> l)\<rparr>"

text \<open>The query string's numbers: up to ten digits, anything else is \<^verbatim>\<open>NaN\<close> (\<open>None\<close>).\<close>

definition decimalInteger :: "string \<Rightarrow> nat option" where
  "decimalInteger value =
     (if 1 \<le> length value \<and> length value \<le> 10 \<and> list_all is_digit value then Some (digits_value value) else None)"

text \<open>
  \<^verbatim>\<open>innerJoinAndSelect\<close> of an application with its account, the rows after a cursor in the order of
  their ids, and the throw of a row read without its account.
\<close>

definition joined :: "('r \<Rightarrow> nat) \<Rightarrow> 'r \<Rightarrow> world \<Rightarrow> bool" where
  "joined owner r w \<longleftrightarrow> user_row (owner r) w \<noteq> None"

definition matching :: "('r \<Rightarrow> nat) \<Rightarrow> ('r \<Rightarrow> 's) \<Rightarrow> 's option \<Rightarrow> ('r \<Rightarrow> nat) \<Rightarrow> 'r list \<Rightarrow> world \<Rightarrow> 'r list" where
  "matching owner standing wanted key rows w =
     sort_key key (filter (\<lambda>r. joined owner r w \<and> (wanted = None \<or> wanted = Some (standing r))) rows)"

definition seller_rows :: "SellerApplicationStatus option \<Rightarrow> world \<Rightarrow> MerchantVerificationEntity list" where
  "seller_rows wanted w = matching mv_userId mv_status wanted mv_id (merchant_verifications w) w"

definition courier_rows :: "CourierApplicationStatus option \<Rightarrow> world \<Rightarrow> CourierApplicationRow list" where
  "courier_rows wanted w = matching co_userId co_status wanted co_id (courier_applications w) w"

definition page_after :: "('r \<Rightarrow> nat) \<Rightarrow> 'r list \<Rightarrow> nat \<Rightarrow> nat \<Rightarrow> 'r list \<times> bool" where
  "page_after key rows limit afterId = cut_page limit (take (limit + 1) (filter (\<lambda>r. afterId < key r) rows))"

definition nextAfterId :: "('r \<Rightarrow> nat) \<Rightarrow> 'r list \<times> bool \<Rightarrow> failure + nat option" where
  "nextAfterId key p = (case p of (page, hasMore) \<Rightarrow>
     if hasMore then (if page = [] then Inl (PlainError ''TypeError'') else Inr (Some (key (last page)))) else Inr None)"

definition principalsOf :: "nat list \<Rightarrow> (string \<rightharpoonup> string) act" where
  "principalsOf userIds =
     (if userIds = [] then returns Map.empty
      else reads (\<lambda>w. map_of (rev (map (\<lambda>a. (al_localId a, al_principalId a))
             (filter (\<lambda>a. al_service a = ''identity'' \<and> al_localId a \<in> set (map decimal userIds)) (aliases w))))))"

definition emailOf :: "nat \<Rightarrow> string act" where
  "emailOf userId = (\<lambda>w. case user_row userId w of
      None \<Rightarrow> (Inl (PlainError ''the application was read without its account''), w)
    | Some u \<Rightarrow> (Inr (u_email u), w))"

fun each :: "('a \<Rightarrow> 'b act) \<Rightarrow> 'a list \<Rightarrow> 'b list act" where
  "each f [] = returns []"
| "each f (x # xs) = andThen (f x) (\<lambda>y. andThen (each f xs) (\<lambda>ys. returns (y # ys)))"

definition seller_view :: "(string \<rightharpoonup> string) \<Rightarrow> MerchantVerificationEntity \<Rightarrow> string \<Rightarrow> SellerApplicationView" where
  "seller_view found r email =
     \<lparr>sv_applicationId = mv_id r, sv_userId = mv_userId r, sv_principalId = found (decimal (mv_userId r)), sv_email = email,
      sv_storeName = mv_storeName r, sv_businessRegistrationNumber = mv_businessRegistrationNumber r, sv_taxId = mv_taxId r,
      sv_streetAddress = mv_streetAddress r, sv_city = mv_city r, sv_postalCode = mv_postalCode r, sv_status = mv_status r,
      sv_verifiedAt = mv_verifiedAt r, sv_rejectedAt = mv_rejectedAt r\<rparr>"

definition list_seller_applications :: "SellerApplicationStatus ApplicationQuery \<Rightarrow> SellerApplicationView ApplicationPage act" where
  "list_seller_applications query =
     andThen (reads (\<lambda>w. page_after mv_id (seller_rows (aq_status query) w) (aq_limit query) (aq_afterId query)))
     (\<lambda>p. andThen (principalsOf (map mv_userId (fst p)))
     (\<lambda>found. andThen (each (\<lambda>r. andThen (emailOf (mv_userId r)) (\<lambda>email. returns (seller_view found r email))) (fst p))
     (\<lambda>views. andThen (lifted (nextAfterId mv_id p))
     (\<lambda>next. returns \<lparr>ap_applications = views, ap_nextAfterId = next\<rparr>))))"

definition tally_seller_applications :: "int \<Rightarrow> ApplicationTally act" where
  "tally_seller_applications since = reads (\<lambda>w. \<lparr>at_since = since,
     at_approved = length (filter (\<lambda>r. mv_status r = SVerified \<and> (case mv_verifiedAt r of None \<Rightarrow> False | Some t \<Rightarrow> since \<le> t))
       (merchant_verifications w)),
     at_rejected = length (filter (\<lambda>r. mv_status r = SRejected \<and> (case mv_rejectedAt r of None \<Rightarrow> False | Some t \<Rightarrow> since \<le> t))
       (merchant_verifications w))\<rparr>)"

section \<open>The queue of courier applications\<close>

definition toView :: "CourierApplicationRow \<Rightarrow> CourierApplicationView act" where
  "toView r = andThen (emailOf (co_userId r)) (\<lambda>email. returns
     \<lparr>cv_applicationId = co_id r, cv_principalId = co_principalId r, cv_userId = co_userId r, cv_email = email,
      cv_driverId = co_driverId r, cv_status = co_status r, cv_filedAt = co_filedAt r, cv_approvedAt = co_approvedAt r,
      cv_rejectedAt = co_rejectedAt r\<rparr>)"

definition list_courier_applications :: "CourierApplicationStatus ApplicationQuery \<Rightarrow> CourierApplicationView ApplicationPage act" where
  "list_courier_applications query =
     andThen (reads (\<lambda>w. page_after co_id (courier_rows (aq_status query) w) (aq_limit query) (aq_afterId query)))
     (\<lambda>p. andThen (each toView (fst p))
     (\<lambda>views. andThen (lifted (nextAfterId co_id p))
     (\<lambda>next. returns \<lparr>ap_applications = views, ap_nextAfterId = next\<rparr>)))"

definition tally_courier_applications :: "int \<Rightarrow> ApplicationTally act" where
  "tally_courier_applications since = reads (\<lambda>w. \<lparr>at_since = since,
     at_approved = length (filter (\<lambda>r. co_status r = CApproved \<and> (case co_approvedAt r of None \<Rightarrow> False | Some t \<Rightarrow> since \<le> t))
       (courier_applications w)),
     at_rejected = length (filter (\<lambda>r. co_status r = CRejected \<and> (case co_rejectedAt r of None \<Rightarrow> False | Some t \<Rightarrow> since \<le> t))
       (courier_applications w))\<rparr>)"

section \<open>Every application is read once\<close>

text \<open>What a reader sees of a row.\<close>

definition seller_view_of :: "world \<Rightarrow> MerchantVerificationEntity \<Rightarrow> SellerApplicationView" where
  "seller_view_of w r =
     \<lparr>sv_applicationId = mv_id r, sv_userId = mv_userId r,
      sv_principalId = map_option al_principalId (alias_of ''identity'' (decimal (mv_userId r)) w),
      sv_email = (case user_row (mv_userId r) w of Some u \<Rightarrow> u_email u | None \<Rightarrow> []),
      sv_storeName = mv_storeName r, sv_businessRegistrationNumber = mv_businessRegistrationNumber r, sv_taxId = mv_taxId r,
      sv_streetAddress = mv_streetAddress r, sv_city = mv_city r, sv_postalCode = mv_postalCode r, sv_status = mv_status r,
      sv_verifiedAt = mv_verifiedAt r, sv_rejectedAt = mv_rejectedAt r\<rparr>"

definition courier_view_of :: "world \<Rightarrow> CourierApplicationRow \<Rightarrow> CourierApplicationView" where
  "courier_view_of w r =
     \<lparr>cv_applicationId = co_id r, cv_principalId = co_principalId r, cv_userId = co_userId r,
      cv_email = (case user_row (co_userId r) w of Some u \<Rightarrow> u_email u | None \<Rightarrow> []), cv_driverId = co_driverId r,
      cv_status = co_status r, cv_filedAt = co_filedAt r, cv_approvedAt = co_approvedAt r, cv_rejectedAt = co_rejectedAt r\<rparr>"

definition queues_ok :: "world \<Rightarrow> bool" where
  "queues_ok w \<longleftrightarrow> distinct (map mv_id (merchant_verifications w)) \<and> (\<forall>r \<in> set (merchant_verifications w). 0 < mv_id r)
     \<and> distinct (map co_id (courier_applications w)) \<and> (\<forall>r \<in> set (courier_applications w). 0 < co_id r)
     \<and> distinct (map alias_key (aliases w))"

interpretation seller_queue: keyset_pages "seller_rows wanted" mv_id queues_ok "\<lambda>w. page_after mv_id (seller_rows wanted w)" for wanted
  by unfold_locales (simp_all add: queues_ok_def seller_rows_def matching_def sorted_by_key page_after_def)

interpretation courier_queue: keyset_pages "courier_rows wanted" co_id queues_ok "\<lambda>w. page_after co_id (courier_rows wanted w)" for wanted
  by unfold_locales (simp_all add: queues_ok_def courier_rows_def matching_def sorted_by_key page_after_def)

lemma each_returns: "(\<And>x. x \<in> set xs \<Longrightarrow> f x w = (Inr (g x), w)) \<Longrightarrow> each f xs w = (Inr (map g xs), w)"
  by (induction xs) (simp_all add: andThen_run)

lemma emailOf_joined: "joined owner r w \<Longrightarrow> emailOf (owner r) w = (Inr (case user_row (owner r) w of Some u \<Rightarrow> u_email u | None \<Rightarrow> []), w)"
  by (auto simp: joined_def emailOf_def)

lemma page_after_mem: "r \<in> set (fst (page_after key rows limit c)) \<Longrightarrow> r \<in> set rows"
  by (auto simp: page_after_def cut_page_def Let_def split: if_splits dest!: in_set_takeD)

lemma rows_joined: "r \<in> set (seller_rows s w) \<Longrightarrow> joined mv_userId r w" "q \<in> set (courier_rows t w) \<Longrightarrow> joined co_userId q w"
  by (auto simp: seller_rows_def courier_rows_def matching_def)

lemma nextAfterId_run:
  "0 < limit \<Longrightarrow> nextAfterId key (page_after key rows limit c) = Inr (case page_after key rows limit c of (page, hasMore) \<Rightarrow>
     if hasMore then Some (key (last page)) else None)"
  by (auto simp: nextAfterId_def page_after_def cut_page_def Let_def split: if_splits)

text \<open>The map of one query is the directory at the ids it was asked for.\<close>

lemma alias_map_at:
  assumes "distinct (map alias_key (aliases w))" and "i \<in> set ids"
  shows "map_of (rev (map (\<lambda>a. (al_localId a, al_principalId a))
      (filter (\<lambda>a. al_service a = s \<and> al_localId a \<in> set (map decimal ids)) (aliases w)))) (decimal i)
    = map_option al_principalId (alias_of s (decimal i) w)"
proof -
  let ?P = "\<lambda>a. al_service a = s \<and> al_localId a \<in> set (map decimal ids)"
  let ?pairs = "map (\<lambda>a. (al_localId a, al_principalId a)) (filter ?P (aliases w))"
  have inj: "inj_on al_localId (set (filter ?P (aliases w)))"
    using assms(1) by (auto simp: distinct_map inj_on_def alias_key_def)
  have dist: "distinct (map fst ?pairs)"
    using assms(1) inj by (simp add: distinct_map distinct_filter comp_def)
  show ?thesis
  proof (cases "alias_of s (decimal i) w")
    case None
    then have "decimal i \<notin> fst ` set ?pairs" by (auto simp: alias_of_None alias_key_def)
    with None show ?thesis by (auto simp: map_of_eq_None_iff)
  next
    case (Some a)
    then have "(decimal i, al_principalId a) \<in> set (rev ?pairs)" using assms(2) by (auto dest!: alias_of_Some simp: image_iff)
    moreover have "distinct (map fst (rev ?pairs))" using dist by (simp only: rev_map [symmetric] distinct_rev)
    ultimately show ?thesis using Some by (simp add: map_of_eq_Some_iff)
  qed
qed

lemma principalsOf_run:
  assumes "distinct (map alias_key (aliases w))"
  obtains found where "principalsOf ids w = (Inr found, w)"
    and "\<And>i. i \<in> set ids \<Longrightarrow> found (decimal i) = map_option al_principalId (alias_of ''identity'' (decimal i) w)"
proof (cases "ids = []")
  case True
  then show ?thesis by (intro that) (simp_all add: principalsOf_def)
next
  case False
  then show ?thesis
    by (intro that [OF _ alias_map_at [OF assms]]) (simp add: principalsOf_def)
qed

definition read_page :: "'v ApplicationPage act \<Rightarrow> world \<Rightarrow> 'v list \<times> nat option" where
  "read_page m w = (case fst (m w) of Inr p \<Rightarrow> (ap_applications p, ap_nextAfterId p) | Inl e \<Rightarrow> ([], None))"

lemma seller_list_run:
  assumes "queues_ok w" and "0 < limit"
  shows "list_seller_applications \<lparr>aq_status = s, aq_afterId = c, aq_limit = limit\<rparr> w =
    (Inr \<lparr>ap_applications = map (seller_view_of w) (fst (seller_queue.follow s w limit c)),
          ap_nextAfterId = snd (seller_queue.follow s w limit c)\<rparr>, w)"
proof -
  let ?p = "page_after mv_id (seller_rows s w) limit c"
  have "distinct (map alias_key (aliases w))" using assms(1) by (simp add: queues_ok_def)
  from principalsOf_run [OF this, of "map mv_userId (fst ?p)"] obtain found
    where found: "principalsOf (map mv_userId (fst ?p)) w = (Inr found, w)"
      "\<And>i. i \<in> set (map mv_userId (fst ?p)) \<Longrightarrow> found (decimal i) = map_option al_principalId (alias_of ''identity'' (decimal i) w)"
    by blast
  have "each (\<lambda>r. andThen (emailOf (mv_userId r)) (\<lambda>email. returns (seller_view found r email))) (fst ?p) w
      = (Inr (map (seller_view_of w) (fst ?p)), w)"
  proof (rule each_returns)
    fix r assume r: "r \<in> set (fst ?p)"
    then have "joined mv_userId r w" by (rule rows_joined(1) [OF page_after_mem])
    with found(2) [of "mv_userId r"] r show "andThen (emailOf (mv_userId r)) (\<lambda>email. returns (seller_view found r email)) w = (Inr (seller_view_of w r), w)"
      by (simp add: andThen_run emailOf_joined seller_view_of_def seller_view_def)
  qed
  with found(1) assms(2) show ?thesis
    by (simp add: list_seller_applications_def andThen_run nextAfterId_run seller_queue.follow_def split: prod.split)
qed

lemma courier_list_run:
  assumes "queues_ok w" and "0 < limit"
  shows "list_courier_applications \<lparr>aq_status = s, aq_afterId = c, aq_limit = limit\<rparr> w =
    (Inr \<lparr>ap_applications = map (courier_view_of w) (fst (courier_queue.follow s w limit c)),
          ap_nextAfterId = snd (courier_queue.follow s w limit c)\<rparr>, w)"
proof -
  let ?p = "page_after co_id (courier_rows s w) limit c"
  have "each toView (fst ?p) w = (Inr (map (courier_view_of w) (fst ?p)), w)"
  proof (rule each_returns)
    fix r assume "r \<in> set (fst ?p)"
    then have "joined co_userId r w" by (rule rows_joined(2) [OF page_after_mem])
    then show "toView r w = (Inr (courier_view_of w r), w)"
      by (simp add: toView_def andThen_run emailOf_joined courier_view_of_def)
  qed
  with assms(2) show ?thesis
    by (simp add: list_courier_applications_def andThen_run nextAfterId_run courier_queue.follow_def split: prod.split)
qed

text \<open>
  The applications a reader asks for: those of an account that is there, with the status it named
  or, when it named none, with any.
\<close>

definition asked :: "('r \<Rightarrow> nat) \<Rightarrow> ('r \<Rightarrow> 's) \<Rightarrow> 's option \<Rightarrow> 'r list \<Rightarrow> world \<Rightarrow> 'r set" where
  "asked owner standing wanted rows w =
     {r \<in> set rows. owner r \<in> u_id ` set (users w) \<and> (\<forall>x. wanted = Some x \<longrightarrow> standing r = x)}"

lemma matching_asked: "set (matching owner standing wanted key rows w) = asked owner standing wanted rows w"
  by (cases wanted) (auto simp: matching_def asked_def joined_def user_row_def find_None_iff image_iff; metis)+

lemma matching_count:
  assumes "distinct (map key rows)"
  shows "length (matching owner standing wanted key rows w) = card (asked owner standing wanted rows w)"
proof -
  have "distinct (matching owner standing wanted key rows w)"
    using assms by (simp add: matching_def distinct_map)
  then show ?thesis by (simp add: distinct_card [symmetric] matching_asked)
qed

lemma seller_queue_read:
  assumes "queues_ok w" and "0 < limit"
  shows "read_pages (Suc (length (seller_rows s w) div limit))
      (\<lambda>after. read_page (list_seller_applications \<lparr>aq_status = s, aq_afterId = after, aq_limit = limit\<rparr>) w) 0
      = Some (map (seller_view_of w) (seller_rows s w))"
proof -
  have all: "filter (\<lambda>r. 0 < mv_id r) (seller_rows s w) = seller_rows s w"
    using assms(1) by (auto simp: queues_ok_def seller_rows_def matching_def intro!: filter_True)
  have "read_page (list_seller_applications \<lparr>aq_status = s, aq_afterId = after, aq_limit = limit\<rparr>) w =
      map_prod (map (seller_view_of w)) id (seller_queue.follow s w limit after)" for after
    by (simp add: read_page_def seller_list_run [OF assms] prod_eq_iff)
  from read_pages_map [OF this] seller_queue.reads_everything [OF assms, of s 0] all show ?thesis by simp
qed

lemma courier_queue_read:
  assumes "queues_ok w" and "0 < limit"
  shows "read_pages (Suc (length (courier_rows c w) div limit))
      (\<lambda>after. read_page (list_courier_applications \<lparr>aq_status = c, aq_afterId = after, aq_limit = limit\<rparr>) w) 0
      = Some (map (courier_view_of w) (courier_rows c w))"
proof -
  have all: "filter (\<lambda>r. 0 < co_id r) (courier_rows c w) = courier_rows c w"
    using assms(1) by (auto simp: queues_ok_def courier_rows_def matching_def intro!: filter_True)
  have "read_page (list_courier_applications \<lparr>aq_status = c, aq_afterId = after, aq_limit = limit\<rparr>) w =
      map_prod (map (courier_view_of w)) id (courier_queue.follow c w limit after)" for after
    by (simp add: read_page_def courier_list_run [OF assms] prod_eq_iff)
  from read_pages_map [OF this] courier_queue.reads_everything [OF assms, of c 0] all show ?thesis by simp
qed

text \<open>
  C35. Reading an application queue to its end. With any positive page size, the reader that starts
  at the beginning and follows \<open>nextAfterId\<close> stops after at most one page more than the number of
  full pages. It has then read, in ascending order of their ids and so each once, exactly the
  applications of existing accounts that have the status it asked for (all of them when it asked
  for none), with the columns, e-mail address and principal of each; this holds of the sellers'
  queue and of the couriers' queue. Ids are positive and distinct.
\<close>

theorem application_queues_read_to_the_end:
  assumes "queues_ok w" and "0 < limit"
  shows "(\<exists>views. read_pages (Suc (card (asked mv_userId mv_status s (merchant_verifications w) w) div limit))
        (\<lambda>after. read_page (list_seller_applications \<lparr>aq_status = s, aq_afterId = after, aq_limit = limit\<rparr>) w) 0 = Some views
      \<and> sorted_wrt (<) (map sv_applicationId views)
      \<and> set views = seller_view_of w ` asked mv_userId mv_status s (merchant_verifications w) w)
    \<and> (\<exists>views. read_pages (Suc (card (asked co_userId co_status c (courier_applications w) w) div limit))
        (\<lambda>after. read_page (list_courier_applications \<lparr>aq_status = c, aq_afterId = after, aq_limit = limit\<rparr>) w) 0 = Some views
      \<and> sorted_wrt (<) (map cv_applicationId views)
      \<and> set views = courier_view_of w ` asked co_userId co_status c (courier_applications w) w)"
proof
  have "length (seller_rows s w) = card (asked mv_userId mv_status s (merchant_verifications w) w)"
    using assms(1) by (simp add: seller_rows_def matching_count queues_ok_def)
  with seller_queue_read [OF assms, of s] seller_queue.ascending [OF assms(1), of s]
  show "\<exists>views. read_pages (Suc (card (asked mv_userId mv_status s (merchant_verifications w) w) div limit))
        (\<lambda>after. read_page (list_seller_applications \<lparr>aq_status = s, aq_afterId = after, aq_limit = limit\<rparr>) w) 0 = Some views
      \<and> sorted_wrt (<) (map sv_applicationId views)
      \<and> set views = seller_view_of w ` asked mv_userId mv_status s (merchant_verifications w) w"
    by (intro exI [of _ "map (seller_view_of w) (seller_rows s w)"])
      (simp add: comp_def seller_view_of_def seller_rows_def matching_asked)
  have "length (courier_rows c w) = card (asked co_userId co_status c (courier_applications w) w)"
    using assms(1) by (simp add: courier_rows_def matching_count queues_ok_def)
  with courier_queue_read [OF assms, of c] courier_queue.ascending [OF assms(1), of c]
  show "\<exists>views. read_pages (Suc (card (asked co_userId co_status c (courier_applications w) w) div limit))
        (\<lambda>after. read_page (list_courier_applications \<lparr>aq_status = c, aq_afterId = after, aq_limit = limit\<rparr>) w) 0 = Some views
      \<and> sorted_wrt (<) (map cv_applicationId views)
      \<and> set views = courier_view_of w ` asked co_userId co_status c (courier_applications w) w"
    by (intro exI [of _ "map (courier_view_of w) (courier_rows c w)"])
      (simp add: comp_def courier_view_of_def courier_rows_def matching_asked)
qed

definition sample_application :: "nat \<Rightarrow> MerchantVerificationEntity" where
  "sample_application i = \<lparr>mv_id = i, mv_userId = i, mv_storeName = ''Toko'', mv_businessRegistrationNumber = ''1'', mv_taxId = ''2'',
     mv_status = SPending, mv_verifiedAt = None, mv_streetAddress = ''Jl. 1'', mv_city = ''Jakarta'', mv_postalCode = ''1'', mv_rejectedAt = None\<rparr>"

definition sample_queue :: world where
  "sample_queue = empty_world\<lparr>users := [sample_row, sample_row\<lparr>u_id := 2\<rparr>],
     merchant_verifications := [sample_application 2, sample_application 1, (sample_application 3)\<lparr>mv_status := SRejected\<rparr>]\<rparr>"

theorem application_queues_read_to_the_end_witness:
  "\<exists>views. read_pages 3 (\<lambda>after. read_page (list_seller_applications \<lparr>aq_status = Some SPending, aq_afterId = after, aq_limit = 1\<rparr>) sample_queue) 0
     = Some views \<and> sorted_wrt (<) (map sv_applicationId views)
     \<and> set views = seller_view_of sample_queue ` {sample_application 1, sample_application 2}"
proof -
  have ok: "queues_ok sample_queue" by (simp add: queues_ok_def sample_queue_def empty_world_def sample_application_def)
  have two: "asked mv_userId mv_status (Some SPending) (merchant_verifications sample_queue) sample_queue
      = {sample_application 1, sample_application 2}"
    by (auto simp: asked_def sample_queue_def sample_application_def sample_row_def sample_user_def UserEntity.defs UserRow.defs)
  have "sample_application 1 \<noteq> sample_application 2" by (simp add: sample_application_def)
  then have "Suc (card {sample_application 1, sample_application 2} div 1) = 3" by simp
  with application_queues_read_to_the_end [OF ok, of 1 "Some SPending" None] show ?thesis
    unfolding two by (simp only: zero_less_one True_implies_equals)
qed

end
