(* ===== verification/Fleet.thy ===== *)
theory Fleet
  imports Paging Auth_Usecase
begin

text \<open>
  The fleet's registry as this service calls it (\<^verbatim>\<open>infrastructure/mesh/fleet_registry_grpc.adapter.ts\<close>)
  and the table of courier applications
  (\<^verbatim>\<open>persistence/adapters/typeorm_courier_application_repository.adapter.ts\<close>). What the fleet
  answers is the parameter \<open>FleetEnv\<close>; the adapter sorts its failures by whether the fleet can have
  done anything.
\<close>

section \<open>The gRPC client\<close>

datatype GrpcStatus =
    OK | CANCELLED | UNKNOWN | INVALID_ARGUMENT | DEADLINE_EXCEEDED | NOT_FOUND | ALREADY_EXISTS | PERMISSION_DENIED
  | RESOURCE_EXHAUSTED | FAILED_PRECONDITION | ABORTED | OUT_OF_RANGE | UNIMPLEMENTED | INTERNAL | UNAVAILABLE | DATA_LOSS
  | UNAUTHENTICATED | OtherStatus nat

fun status_name :: "GrpcStatus \<Rightarrow> string option" where
  "status_name OK = Some ''OK''"
| "status_name CANCELLED = Some ''CANCELLED''"
| "status_name UNKNOWN = Some ''UNKNOWN''"
| "status_name INVALID_ARGUMENT = Some ''INVALID_ARGUMENT''"
| "status_name DEADLINE_EXCEEDED = Some ''DEADLINE_EXCEEDED''"
| "status_name NOT_FOUND = Some ''NOT_FOUND''"
| "status_name ALREADY_EXISTS = Some ''ALREADY_EXISTS''"
| "status_name PERMISSION_DENIED = Some ''PERMISSION_DENIED''"
| "status_name RESOURCE_EXHAUSTED = Some ''RESOURCE_EXHAUSTED''"
| "status_name FAILED_PRECONDITION = Some ''FAILED_PRECONDITION''"
| "status_name ABORTED = Some ''ABORTED''"
| "status_name OUT_OF_RANGE = Some ''OUT_OF_RANGE''"
| "status_name UNIMPLEMENTED = Some ''UNIMPLEMENTED''"
| "status_name INTERNAL = Some ''INTERNAL''"
| "status_name UNAVAILABLE = Some ''UNAVAILABLE''"
| "status_name DATA_LOSS = Some ''DATA_LOSS''"
| "status_name UNAUTHENTICATED = Some ''UNAUTHENTICATED''"
| "status_name (OtherStatus n) = None"

record FleetReplyError =
  fe_error_code :: "string option"
  fe_message :: "string option"

text \<open>A reply: \<open>fr_already\<close> is \<^verbatim>\<open>already_registered\<close> of one method and \<^verbatim>\<open>already_active\<close> of the other.\<close>

record FleetReply =
  fr_success :: bool
  fr_driver_id :: nat
  fr_already :: bool
  fr_error :: "FleetReplyError option"

text \<open>
  What a call meets: the contract or the method missing from the installed package, the mesh identity
  not loading (a plain \<^verbatim>\<open>Error\<close>), an error of the transport, or a reply.
\<close>

datatype FleetAnswer =
    NoContract | NoMethod | NoIdentity string
  | ServiceError GrpcStatus string string
  | Replied FleetReply

record FleetEnv =
  fleet_register :: "string \<Rightarrow> string \<Rightarrow> rat \<Rightarrow> nat \<Rightarrow> FleetAnswer"
  fleet_activate :: "string \<Rightarrow> nat \<Rightarrow> FleetAnswer"

record FleetRegistration =
  fg_driverId :: nat
  fg_alreadyRegistered :: bool

record FleetActivation =
  fa_driverId :: nat
  fa_alreadyActive :: bool

definition refusal :: "FleetReplyError option \<Rightarrow> FleetFailure" where
  "refusal error =
     \<lparr>ff_kind = Refused,
      ff_code = (case Option.bind error fe_error_code of None \<Rightarrow> ''FLEET_REFUSED'' | Some c \<Rightarrow> c),
      ff_message = (case Option.bind error fe_message of None \<Rightarrow> ''the fleet refused the request and gave no reason'' | Some m \<Rightarrow> m)\<rparr>"

definition certainlyUntouched :: "GrpcStatus list" where
  "certainlyUntouched = [INVALID_ARGUMENT, PERMISSION_DENIED, UNAUTHENTICATED, UNIMPLEMENTED]"

definition transportFailure :: "GrpcStatus \<Rightarrow> string \<Rightarrow> string \<Rightarrow> FleetFailure" where
  "transportFailure code details message =
     \<lparr>ff_kind = (if code \<in> set certainlyUntouched then Fault else Unknown),
      ff_code = ''FLEET_'' @ (case status_name code of None \<Rightarrow> ''UNKNOWN'' | Some n \<Rightarrow> n),
      ff_message = (if details \<noteq> [] then details else message)\<rparr>"

definition call :: "FleetAnswer \<Rightarrow> failure + FleetReply" where
  "call answer =
     (case answer of
        NoContract \<Rightarrow> Inl (FleetRegistryError \<lparr>ff_kind = Fault, ff_code = ''FLEET_CONTRACT_MISSING'',
            ff_message = ''fleet/v1/registry.proto is not in the installed kinetix-contracts''\<rparr>)
      | NoMethod \<Rightarrow> Inl (FleetRegistryError \<lparr>ff_kind = Fault, ff_code = ''FLEET_METHOD_MISSING'',
            ff_message = ''fleet.v1.FleetRegistryService has no such method in the installed kinetix-contracts''\<rparr>)
      | NoIdentity message \<Rightarrow> Inl (PlainError message)
      | ServiceError code details message \<Rightarrow> Inl (FleetRegistryError (transportFailure code details message))
      | Replied reply \<Rightarrow> Inr reply)"

definition accepted_reply :: "FleetReply \<Rightarrow> FleetReply act" where
  "accepted_reply reply = (if fr_success reply then returns reply else throws (FleetRegistryError (refusal (fr_error reply))))"

text \<open>A call that reaches the network is one of the service's outgoing calls.\<close>

definition dispatch :: "FleetAnswer \<Rightarrow> outbound \<Rightarrow> unit act" where
  "dispatch answer message =
     (case answer of
        ServiceError _ _ _ \<Rightarrow> writes (\<lambda>w. w\<lparr>outbox := outbox w @ [message]\<rparr>)
      | Replied _ \<Rightarrow> writes (\<lambda>w. w\<lparr>outbox := outbox w @ [message]\<rparr>)
      | _ \<Rightarrow> returns ())"

definition registerDriver :: "FleetEnv \<Rightarrow> string \<Rightarrow> string \<Rightarrow> rat \<Rightarrow> FleetRegistration act" where
  "registerDriver fleet principalId vehiclePlate capacityKg =
     andThen (reads (\<lambda>w. length (outbox w)))
     (\<lambda>n. let answer = fleet_register fleet principalId vehiclePlate capacityKg n in
      andThen (dispatch answer (FleetRegister principalId vehiclePlate capacityKg))
     (\<lambda>_. andThen (lifted (call answer))
     (\<lambda>reply. andThen (accepted_reply reply)
     (\<lambda>r. returns \<lparr>fg_driverId = fr_driver_id r, fg_alreadyRegistered = fr_already r\<rparr>))))"

definition activateDriver :: "FleetEnv \<Rightarrow> string \<Rightarrow> FleetActivation act" where
  "activateDriver fleet principalId =
     andThen (reads (\<lambda>w. length (outbox w)))
     (\<lambda>n. let answer = fleet_activate fleet principalId n in
      andThen (dispatch answer (FleetActivate principalId))
     (\<lambda>_. andThen (lifted (call answer))
     (\<lambda>reply. andThen (accepted_reply reply)
     (\<lambda>r. returns \<lparr>fa_driverId = fr_driver_id r, fa_alreadyActive = fr_already r\<rparr>))))"

section \<open>The table of courier applications\<close>

record CourierFiling =
  cf_userId :: nat
  cf_principalId :: string
  cf_driverId :: nat

text \<open>
  \<^verbatim>\<open>INSERT .. ON CONFLICT ("userId") DO UPDATE\<close>: the sequence moves on in either case, and both foreign
  keys are checked on the row written.
\<close>

definition upsert_filing :: "CourierFiling \<Rightarrow> (nat \<Rightarrow> CourierApplicationRow) \<Rightarrow> (CourierApplicationRow \<Rightarrow> CourierApplicationRow) \<Rightarrow> unit act" where
  "upsert_filing filing new change =
     (\<lambda>w. let i = courier_seq w; t = w\<lparr>courier_seq := Suc i\<rparr>; mine = (\<lambda>r. co_userId r = cf_userId filing) in
        if (\<forall>r \<in> set (courier_applications w). \<not> mine r) \<and> (\<exists>r \<in> set (courier_applications w). co_id r = i)
        then (Inl (QueryFailed ''23505''), t)
        else if user_row (cf_userId filing) w = None \<or> (\<forall>p \<in> set (principals w). pr_id p \<noteq> cf_principalId filing)
        then (Inl (QueryFailed ''23503''), t)
        else if \<exists>r \<in> set (courier_applications w). mine r
        then (Inr (), t\<lparr>courier_applications := update_where mine change (courier_applications w)\<rparr>)
        else (Inr (), t\<lparr>courier_applications := courier_applications w @ [new i]\<rparr>))"

definition write_filing :: "unit act \<Rightarrow> unit act" where
  "write_filing m =
     catches m (\<lambda>e. if isForeignKeyViolation e
       then throws (MissingReferenceError ''No account with that principal to file a courier application for'') else throws e)"

definition recordFiled :: "CourierFiling \<Rightarrow> unit act" where
  "recordFiled filing = andThen (reads clock) (\<lambda>now. write_filing (upsert_filing filing
     (\<lambda>i. \<lparr>co_id = i, co_userId = cf_userId filing, co_principalId = cf_principalId filing, co_driverId = Some (cf_driverId filing),
        co_status = CPending, co_filedAt = now, co_approvedAt = None, co_rejectedAt = None\<rparr>)
     (\<lambda>r. r\<lparr>co_principalId := cf_principalId filing, co_driverId := Some (cf_driverId filing),
        co_filedAt := (if co_status r = CRejected then now else co_filedAt r),
        co_rejectedAt := (if co_status r = CRejected then None else co_rejectedAt r),
        co_status := (if co_status r = CRejected then CPending else co_status r)\<rparr>)))"

definition recordApproved :: "CourierFiling \<Rightarrow> unit act" where
  "recordApproved filing = andThen (reads clock) (\<lambda>now. write_filing (upsert_filing filing
     (\<lambda>i. \<lparr>co_id = i, co_userId = cf_userId filing, co_principalId = cf_principalId filing, co_driverId = Some (cf_driverId filing),
        co_status = CApproved, co_filedAt = now, co_approvedAt = Some now, co_rejectedAt = None\<rparr>)
     (\<lambda>r. r\<lparr>co_principalId := cf_principalId filing, co_driverId := Some (cf_driverId filing), co_status := CApproved,
        co_approvedAt := (case co_approvedAt r of None \<Rightarrow> Some now | Some a \<Rightarrow> Some a), co_rejectedAt := None\<rparr>)))"

definition recordRejected :: "nat \<Rightarrow> bool act" where
  "recordRejected userId =
     (\<lambda>w. let hit = (\<lambda>r. co_userId r = userId \<and> co_status r = CPending) in
        (Inr (0 < affected hit (courier_applications w)),
         w\<lparr>courier_applications := update_where hit (\<lambda>r. r\<lparr>co_status := CRejected, co_rejectedAt := Some (clock w)\<rparr>) (courier_applications w)\<rparr>))"

definition findByUser :: "nat \<Rightarrow> CourierApplicationView option act" where
  "findByUser userId =
     andThen (reads (\<lambda>w. find (\<lambda>r. co_userId r = userId \<and> joined co_userId r w) (courier_applications w)))
     (\<lambda>found. case found of None \<Rightarrow> returns None | Some r \<Rightarrow> andThen (toView r) (\<lambda>v. returns (Some v)))"

end
