(* ===== verification/Saved_Rows.thy ===== *)
theory Saved_Rows
  imports Users
begin

text \<open>
  \<^verbatim>\<open>Repository.save\<close> of a table with a serial id and unique columns, as the repositories of profiles,
  stores and seller applications use it: an \<^verbatim>\<open>UPDATE\<close> when the entity has an id that the table holds,
  an \<^verbatim>\<open>INSERT\<close> otherwise, with the next value of the sequence when it has none. The locale
  \<open>saved_table\<close> states what such a table promises its callers.
\<close>

definition save_row :: "('r \<Rightarrow> nat) \<Rightarrow> (nat \<Rightarrow> 'e \<Rightarrow> 'r) \<Rightarrow> ('e \<Rightarrow> 'r \<Rightarrow> 'r) \<Rightarrow> ('e \<Rightarrow> 'r \<Rightarrow> bool) \<Rightarrow> nat \<Rightarrow> 'e \<Rightarrow> nat \<Rightarrow> 'r list
    \<Rightarrow> 'r option \<times> nat \<times> 'r list" where
  "save_row key fresh over clash i e seq rows =
     (if 0 < i then
        (case find (\<lambda>r. key r = i) rows of
           Some r \<Rightarrow>
             if \<exists>q \<in> set rows. key q \<noteq> i \<and> clash e q then (None, seq, rows)
             else (Some (over e r), seq, update_where (\<lambda>r. key r = i) (over e) rows)
         | None \<Rightarrow>
             if \<exists>q \<in> set rows. clash e q then (None, seq, rows)
             else (Some (fresh i e), seq, rows @ [fresh i e]))
      else if \<exists>q \<in> set rows. key q = seq \<or> clash e q then (None, Suc seq, rows)
      else (Some (fresh seq e), Suc seq, rows @ [fresh seq e]))"

definition table_ok :: "('r \<Rightarrow> nat) \<Rightarrow> ('r \<Rightarrow> 'r \<Rightarrow> bool) \<Rightarrow> nat \<Rightarrow> 'r list \<Rightarrow> bool" where
  "table_ok key same seq rows \<longleftrightarrow> distinct (map key rows) \<and> 0 < seq \<and> (\<forall>r \<in> set rows. 0 < key r)
     \<and> (\<forall>r \<in> set rows. \<forall>q \<in> set rows. key r \<noteq> key q \<longrightarrow> \<not> same r q)"

lemma table_okD:
  assumes "table_ok key same seq rows"
  shows "distinct (map key rows)" "0 < seq" "r \<in> set rows \<Longrightarrow> 0 < key r"
    "r \<in> set rows \<Longrightarrow> q \<in> set rows \<Longrightarrow> same r q \<Longrightarrow> key r = key q"
  using assms by (auto simp: table_ok_def)

lemma table_ok_empty [simp]: "table_ok key same seq [] \<longleftrightarrow> 0 < seq"
  by (simp add: table_ok_def)

text \<open>Under the invariant a row is found by its key, and a unique column singles it out.\<close>

lemma table_ok_find:
  "table_ok key same seq rows \<Longrightarrow> find (\<lambda>r. key r = i) rows = Some r \<longleftrightarrow> r \<in> set rows \<and> key r = i"
  by (simp add: table_ok_def find_key_Some_iff)

lemma table_ok_same:
  "table_ok key same seq rows \<Longrightarrow> r \<in> set rows \<Longrightarrow> q \<in> set rows \<Longrightarrow> same r q \<Longrightarrow> r = q"
  using key_unique [of key rows r q] by (auto simp: table_ok_def)

locale saved_table =
  fixes key :: "'r \<Rightarrow> nat" and fresh :: "nat \<Rightarrow> 'e \<Rightarrow> 'r" and over :: "'e \<Rightarrow> 'r \<Rightarrow> 'r"
    and clash :: "'e \<Rightarrow> 'r \<Rightarrow> bool" and same :: "'r \<Rightarrow> 'r \<Rightarrow> bool"
  assumes key_fresh [simp]: "key (fresh i e) = i" and key_over [simp]: "key (over e r) = key r"
    and same_fresh: "same (fresh i e) r = clash e r" and same_over: "same (over e q) r = clash e r"
    and same_sym: "same r q \<Longrightarrow> same q r"
begin

lemma save_refused: "save_row key fresh over clash i e seq rows = (None, n, rows') \<Longrightarrow> rows' = rows"
  by (auto simp: save_row_def split: if_splits option.splits)

lemma save_cases:
  assumes "save_row key fresh over clash i e seq rows = (Some r, n, rows')"
  obtains (updated) q where "0 < i" "q \<in> set rows" "key q = i" "r = over e q" "find (\<lambda>r. key r = i) rows = Some q"
      "\<forall>p \<in> set rows. key p \<noteq> i \<longrightarrow> \<not> clash e p" "n = seq" "rows' = update_where (\<lambda>r. key r = i) (over e) rows"
  | (added) j where "r = fresh j e" "j = (if 0 < i then i else seq)" "\<forall>p \<in> set rows. key p \<noteq> j \<and> \<not> clash e p"
      "n = (if 0 < i then seq else Suc seq)" "rows' = rows @ [fresh j e]"
proof (cases "0 < i")
  case True
  show ?thesis
  proof (cases "find (\<lambda>r. key r = i) rows")
    case None
    with True assms show ?thesis by (intro added) (auto simp: save_row_def find_None_iff split: if_splits)
  next
    case (Some q)
    with True assms find_Some_mem [OF Some] show ?thesis
      by (intro updated [of q]) (auto simp: save_row_def split: if_splits)
  qed
next
  case False
  with assms show ?thesis by (intro added) (auto simp: save_row_def split: if_splits)
qed

lemma save_ok:
  assumes "table_ok key same seq rows" and "save_row key fresh over clash i e seq rows = (x, n, rows')"
  shows "table_ok key same n rows'"
proof (cases x)
  case None
  with assms save_refused [of i e seq rows n rows'] show ?thesis
    by (auto simp: table_ok_def save_row_def split: if_splits option.splits)
next
  case (Some r)
  with assms(2) have "save_row key fresh over clash i e seq rows = (Some r, n, rows')" by simp
  then show ?thesis
  proof (cases rule: save_cases)
    case (updated q)
    have keys: "map key rows' = map key rows" by (simp add: updated map_update_where_key)
    then have set_keys: "key ` set rows' = key ` set rows" by (metis set_map)
    have "\<not> same a b" if ab: "a \<in> set rows'" "b \<in> set rows'" "key a \<noteq> key b" for a b
    proof -
      from ab obtain a' b' where a': "a' \<in> set rows" "a = (if key a' = i then over e a' else a')"
        and b': "b' \<in> set rows" "b = (if key b' = i then over e b' else b')"
        unfolding updated by (auto simp: set_update_where)
      show ?thesis
      proof (cases "key a' = i")
        case True
        with ab a' b' have "key b' \<noteq> i" by (auto split: if_splits)
        with True a' b' updated show ?thesis by (simp add: same_over)
      next
        case a: False
        show ?thesis
        proof (cases "key b' = i")
          case True
          with a a' b' updated have "\<not> same b a" by (simp add: same_over)
          then show ?thesis using same_sym by blast
        next
          case False
          with a ab a' b' table_okD(4) [OF assms(1)] show ?thesis by auto
        qed
      qed
    qed
    moreover have "0 < key a" if "a \<in> set rows'" for a
      using that set_keys table_okD(3) [OF assms(1)] by (metis imageE imageI)
    ultimately show ?thesis using keys table_okD(1,2) [OF assms(1)] updated by (simp add: table_ok_def)
  next
    case (added j)
    then show ?thesis using assms(1) same_sym
      by (auto simp: table_ok_def same_fresh) (metis same_fresh same_sym)+
  qed
qed

lemma save_found:
  assumes "table_ok key same seq rows" and "save_row key fresh over clash i e seq rows = (Some r, n, rows')"
  shows "r \<in> set rows'" and "find (\<lambda>q. key q = key r) rows' = Some r"
    and "j \<noteq> key r \<Longrightarrow> find (\<lambda>q. key q = j) rows' = find (\<lambda>q. key q = j) rows"
proof -
  show mem: "r \<in> set rows'"
    using assms(2) by (cases rule: save_cases) (auto simp: set_update_where)
  from table_ok_find [OF save_ok [OF assms], of "key r" r] mem show "find (\<lambda>q. key q = key r) rows' = Some r" by simp
  assume ne: "j \<noteq> key r"
  from assms(2) show "find (\<lambda>q. key q = j) rows' = find (\<lambda>q. key q = j) rows"
  proof (cases rule: save_cases)
    case (updated q)
    with ne show ?thesis by (simp add: find_update_where_other)
  next
    case (added k)
    from ne added(1) have "k \<noteq> j" by simp
    then show ?thesis unfolding added(5) by (simp add: find_append split: option.split)
  qed
qed

lemma save_returns:
  assumes "\<forall>q \<in> set rows. key q \<noteq> i \<longrightarrow> \<not> clash e q" and "i = 0 \<Longrightarrow> \<forall>q \<in> set rows. key q \<noteq> seq \<and> \<not> clash e q"
  shows "\<exists>r n rows'. save_row key fresh over clash i e seq rows = (Some r, n, rows')"
  using assms by (auto simp: save_row_def find_None_iff split: option.split)

end

end
