(* ===== verification/Geocoding.thy ===== *)
theory Geocoding
  imports World
begin

text \<open>
  Placing an address on the map: the Nominatim adapter
  (\<^verbatim>\<open>infrastructure/geocoding/nominatim_geocoding.adapter.ts\<close>), the table of remembered addresses
  (\<^verbatim>\<open>typeorm_geocoded_address_repository.adapter.ts\<close>) and the use case over both
  (\<^verbatim>\<open>application/services/geocoding_usecase.service.ts\<close>). The geocoder itself is a service outside the
  repository: the parameter \<open>GeoEnv\<close>, whose answer depends on the query and on how many calls went out
  before. Numbers are exact: the rounding of a JavaScript number is not modelled.
\<close>

section \<open>Numbers read from JSON\<close>

datatype json = JNull | JBool bool | JNum rat | JStr string | JArr "json list" | JObj "(string \<times> json) list"

definition is_exponent_mark :: "char \<Rightarrow> bool" where
  "is_exponent_mark c \<longleftrightarrow> c = CHR ''e'' \<or> c = CHR ''E''"

definition signed :: "string \<Rightarrow> int \<times> string" where
  "signed s = (case s of
      [] \<Rightarrow> (1, [])
    | c # r \<Rightarrow> if c = CHR ''-'' then (-1, r) else if c = CHR ''+'' then (1, r) else (1, c # r))"

definition exponent_of :: "string \<Rightarrow> int option" where
  "exponent_of s = (case s of
      [] \<Rightarrow> Some 0
    | c # r \<Rightarrow>
        if \<not> is_exponent_mark c then None
        else
          (let (sign, ds) = signed r
           in if ds = [] \<or> \<not> list_all is_digit ds then None else Some (sign * int (digits_value ds))))"

definition unsigned_literal :: "string \<Rightarrow> rat option" where
  "unsigned_literal s =
     (let whole = takeWhile is_digit s;
          rest = dropWhile is_digit s;
          point = (rest \<noteq> [] \<and> hd rest = CHR ''.'');
          frac = (if point then takeWhile is_digit (tl rest) else []);
          tail = (if point then dropWhile is_digit (tl rest) else rest)
      in if whole = [] \<and> frac = [] then None
         else map_option (\<lambda>x. of_nat (digits_value (whole @ frac)) / 10 ^ length frac * 10 powi x) (exponent_of tail))"

definition hex_value :: "char \<Rightarrow> nat option" where
  "hex_value c =
     (let n = code_of c in
      if is_digit c then Some (n - 48)
      else if 97 \<le> n \<and> n \<le> 102 then Some (n - 87)
      else if 65 \<le> n \<and> n \<le> 70 then Some (n - 55)
      else None)"

fun radix_digits :: "nat \<Rightarrow> nat \<Rightarrow> string \<Rightarrow> nat option" where
  "radix_digits b a [] = Some a"
| "radix_digits b a (c # s) =
     (case hex_value c of
        None \<Rightarrow> None
      | Some d \<Rightarrow> if d < b then radix_digits b (b * a + d) s else None)"

definition radix_of :: "char \<Rightarrow> nat option" where
  "radix_of c = (if c = CHR ''x'' \<or> c = CHR ''X'' then Some 16
     else if c = CHR ''o'' \<or> c = CHR ''O'' then Some 8
     else if c = CHR ''b'' \<or> c = CHR ''B'' then Some 2 else None)"

text \<open>\<^verbatim>\<open>Number\<close> of a text, where it is finite; \<open>None\<close> stands for \<^verbatim>\<open>NaN\<close> and the infinities.\<close>

definition js_text_number :: "string \<Rightarrow> rat option" where
  "js_text_number s =
     (let t = js_trim s in
      if t = [] then Some 0
      else if length t > 2 \<and> hd t = CHR ''0'' \<and> radix_of (t ! 1) \<noteq> None
      then map_option of_nat (radix_digits (the (radix_of (t ! 1))) 0 (drop 2 t))
      else (let (sign, u) = signed t in map_option (\<lambda>q. of_int sign * q) (unsigned_literal u)))"

text \<open>\<^verbatim>\<open>Number\<close> of a JSON value. An array of one element counts as the text of that element.\<close>

fun json_number :: "json \<Rightarrow> rat option" where
  "json_number JNull = Some 0"
| "json_number (JBool b) = Some (if b then 1 else 0)"
| "json_number (JNum q) = Some q"
| "json_number (JStr s) = js_text_number s"
| "json_number (JObj fs) = None"
| "json_number (JArr []) = Some 0"
| "json_number (JArr [JNull]) = Some 0"
| "json_number (JArr [JNum q]) = Some q"
| "json_number (JArr [JStr s]) = js_text_number s"
| "json_number (JArr [JArr xs]) = json_number (JArr xs)"
| "json_number (JArr [JBool b]) = None"
| "json_number (JArr [JObj fs]) = None"
| "json_number (JArr (x # y # zs)) = None"

text \<open>A property of a JSON value: reading one of \<^verbatim>\<open>null\<close> throws, an absent one is \<^verbatim>\<open>undefined\<close>.\<close>

definition json_property :: "string \<Rightarrow> json \<Rightarrow> failure + json option" where
  "json_property name v = (case v of
      JNull \<Rightarrow> Inl (PlainError ''TypeError'')
    | JObj fs \<Rightarrow> Inr (map_of fs name)
    | _ \<Rightarrow> Inr None)"

definition property_number :: "json option \<Rightarrow> rat option" where
  "property_number v = (case v of None \<Rightarrow> None | Some x \<Rightarrow> json_number x)"

text \<open>
  The text of a JSON value as far as it is compared with words: numbers, objects and longer arrays
  have texts with digits, brackets or commas, which are none of the words.
\<close>

fun json_word :: "json \<Rightarrow> string" where
  "json_word JNull = []"
| "json_word (JStr s) = s"
| "json_word (JBool b) = (if b then ''true'' else ''false'')"
| "json_word (JArr [x]) = json_word x"
| "json_word (JArr []) = []"
| "json_word _ = ''?''"

section \<open>The geocoder\<close>

datatype GeocodeFailure = NOT_FOUND | AMBIGUOUS | PROVIDER_UNAVAILABLE | OUT_OF_SERVICE_AREA | INSUFFICIENT_ADDRESS

datatype GeocoderAnswer = FetchFailed string | Answered nat "json option"

record GeoEnv =
  geo_fetch :: "string \<Rightarrow> nat \<Rightarrow> GeocoderAnswer"

definition on_earth :: "degrees \<Rightarrow> degrees \<Rightarrow> bool" where
  "on_earth latitude longitude \<longleftrightarrow> -90 \<le> latitude \<and> latitude \<le> 90 \<and> -180 \<le> longitude \<and> longitude \<le> 180"

definition precisionOf :: "json option \<Rightarrow> GeocodePrecision" where
  "precisionOf addresstype =
     (let t = js_toLowerCase (case addresstype of None \<Rightarrow> [] | Some v \<Rightarrow> json_word v) in
      if t \<in> set [''building'', ''house'', ''amenity'', ''shop'', ''office''] then ROOFTOP
      else if t \<in> set [''road'', ''residential'', ''street''] then STREET
      else if t \<in> set [''suburb'', ''neighbourhood'', ''village'', ''quarter''] then SUBURB
      else if t \<in> set [''city'', ''town'', ''municipality'', ''county'', ''state''] then CITY
      else UNSPECIFIED)"

definition display_name_of :: "json option \<Rightarrow> string option" where
  "display_name_of v = (case v of Some (JStr s) \<Rightarrow> Some s | _ \<Rightarrow> None)"

definition point_of :: "json \<Rightarrow> failure + GeocodeFailure + ProviderPoint" where
  "point_of result =
     (case json_property ''lat'' result of
        Inl e \<Rightarrow> Inl e
      | Inr lat \<Rightarrow>
     (case json_property ''lon'' result of
        Inl e \<Rightarrow> Inl e
      | Inr lon \<Rightarrow>
     (case json_property ''addresstype'' result of
        Inl e \<Rightarrow> Inl e
      | Inr kind \<Rightarrow>
     (case json_property ''display_name'' result of
        Inl e \<Rightarrow> Inl e
      | Inr shown \<Rightarrow>
          (case (property_number lat, property_number lon) of
             (Some latitude, Some longitude) \<Rightarrow>
               if latitude < -90 \<or> latitude > 90 \<or> longitude < -180 \<or> longitude > 180
               then Inr (Inl PROVIDER_UNAVAILABLE)
               else Inr (Inr \<lparr>pp_latitude = latitude, pp_longitude = longitude, pp_precision = precisionOf kind,
                      pp_displayName = display_name_of shown\<rparr>)
           | _ \<Rightarrow> Inr (Inl PROVIDER_UNAVAILABLE))))))"

definition firstPoint :: "json \<Rightarrow> failure + GeocodeFailure + ProviderPoint" where
  "firstPoint body = (case body of
      JArr [] \<Rightarrow> Inr (Inl NOT_FOUND)
    | JArr (result # others) \<Rightarrow> point_of result
    | _ \<Rightarrow> Inr (Inl PROVIDER_UNAVAILABLE))"

definition lookup_address :: "GeoEnv \<Rightarrow> string \<Rightarrow> (GeocodeFailure + ProviderPoint) act" where
  "lookup_address geo query =
     (\<lambda>w. let t = w\<lparr>outbox := outbox w @ [GeocoderLookup query]\<rparr> in
        (case geo_fetch geo query (length (outbox w)) of
           FetchFailed message \<Rightarrow> (Inr (Inl PROVIDER_UNAVAILABLE), t)
         | Answered status body \<Rightarrow>
             if status = 429 then (Inr (Inl PROVIDER_UNAVAILABLE), t)
             else if status < 200 \<or> 299 < status then (Inr (Inl PROVIDER_UNAVAILABLE), t)
             else (case body of
                     None \<Rightarrow> (Inr (Inl PROVIDER_UNAVAILABLE), t)
                   | Some b \<Rightarrow> (firstPoint b, t))))"

section \<open>Remembered addresses\<close>

definition findByQuery :: "string \<Rightarrow> ProviderPoint option act" where
  "findByQuery q = reads (\<lambda>w. map_option ga_point (find (\<lambda>r. ga_query r = q) (geocoded_addresses w)))"

definition remember :: "string \<Rightarrow> string \<Rightarrow> ProviderPoint \<Rightarrow> unit act" where
  "remember q provider point =
     (\<lambda>w. if \<not> on_earth (pp_latitude point) (pp_longitude point) then (Inl (QueryFailed ''23514''), w)
        else if \<exists>r \<in> set (geocoded_addresses w). ga_query r = q then (Inr (), w)
        else (Inr (), w\<lparr>geocoded_addresses := geocoded_addresses w @ [\<lparr>ga_query = q, ga_provider = provider, ga_point = point\<rparr>]\<rparr>))"

definition forget_address :: "string \<Rightarrow> unit act" where
  "forget_address q = writes (\<lambda>w. w\<lparr>geocoded_addresses := delete_where (\<lambda>r. ga_query r = q) (geocoded_addresses w)\<rparr>)"

section \<open>The use case\<close>

record GeocodeQuery =
  gq_streetAddress :: string
  gq_city :: "string option"
  gq_postalCode :: "string option"

datatype GeocodeOutcome =
    Geocoded degrees degrees GeocodePrecision "string option"
  | NotGeocoded GeocodeFailure

function collapse_spaces :: "string \<Rightarrow> string" where
  "collapse_spaces [] = []"
| "collapse_spaces (c # s) =
     (if js_space c then CHR '' '' # collapse_spaces (dropWhile js_space s) else c # collapse_spaces s)"
  by pat_completeness auto

termination
  by (relation "measure length") (auto simp: le_imp_less_Suc length_dropWhile_le)

definition address_line :: "string option list \<Rightarrow> string" where
  "address_line parts = js_trim (js_join '', '' (map the (filter (\<lambda>p. p \<noteq> None \<and> js_trim (the p) \<noteq> []) parts)))"

definition normalise :: "GeocodeQuery \<Rightarrow> string" where
  "normalise query =
     collapse_spaces (js_toLowerCase (address_line [Some (gq_streetAddress query), gq_city query, gq_postalCode query]))"

definition geocode_success :: "ProviderPoint \<Rightarrow> GeocodeOutcome" where
  "geocode_success point = Geocoded (pp_latitude point) (pp_longitude point) (pp_precision point) (pp_displayName point)"

definition geocode :: "GeoEnv \<Rightarrow> GeocodeQuery \<Rightarrow> GeocodeOutcome act" where
  "geocode geo query =
     (let normalised = normalise query in
      if normalised = [] then returns (NotGeocoded INSUFFICIENT_ADDRESS)
      else
        andThen (findByQuery normalised)
        (\<lambda>remembered. case remembered of
           Some point \<Rightarrow> returns (geocode_success point)
         | None \<Rightarrow>
             andThen (lookup_address geo normalised)
             (\<lambda>answer. case answer of
                Inl problem \<Rightarrow> returns (NotGeocoded problem)
              | Inr point \<Rightarrow>
                  andThen (remember normalised ''NominatimGeocodingAdapter'' point)
                  (\<lambda>_. returns (geocode_success point)))))"

definition forget :: "GeocodeQuery \<Rightarrow> unit act" where
  "forget query = forget_address (normalise query)"

section \<open>The cache key is canonical\<close>

lemma js_space_blank [simp]: "js_space (CHR '' '')"
  by (simp add: js_space_def)

definition trimmed :: "string \<Rightarrow> bool" where
  "trimmed s \<longleftrightarrow> s = [] \<or> \<not> js_space (hd s) \<and> \<not> js_space (last s)"

lemma dropWhile_hd: "dropWhile P xs = xs \<longleftrightarrow> xs = [] \<or> \<not> P (hd xs)"
proof (cases xs)
  case (Cons y ys)
  have "length (dropWhile P ys) < length xs" using length_dropWhile_le [of P ys] Cons by simp
  then have "dropWhile P ys \<noteq> y # ys" using Cons by auto
  with Cons show ?thesis by simp
qed simp

lemma js_trim_trimmed: "trimmed s \<Longrightarrow> js_trim s = s"
proof -
  assume t: "trimmed s"
  then have "dropWhile js_space s = s" "dropWhile js_space (rev s) = rev s"
    by (auto simp: trimmed_def dropWhile_hd hd_rev)
  then show ?thesis by (simp add: js_trim_def)
qed

lemma trimmed_js_trim: "trimmed (js_trim s)"
proof -
  have first: "\<not> js_space (hd (dropWhile js_space xs))" if "dropWhile js_space xs \<noteq> []" for xs
    using that by (rule hd_dropWhile)
  have "dropWhile js_space (js_trim s) = js_trim s"
    unfolding js_trim_def by (rule dropWhile_rev_dropWhile)
  moreover have "js_trim s \<noteq> [] \<Longrightarrow> \<not> js_space (last (js_trim s))"
    using first [of "rev (dropWhile js_space s)"] by (simp add: js_trim_def last_rev)
  ultimately show ?thesis by (auto simp: trimmed_def dropWhile_hd)
qed

lemma collapse_Nil [simp]: "collapse_spaces s = [] \<longleftrightarrow> s = []"
  by (cases s) auto

lemma collapse_lower: "js_toLowerCase (collapse_spaces s) = collapse_spaces (js_toLowerCase s)"
proof (induction s rule: collapse_spaces.induct)
  case 1
  show ?case by (simp add: js_toLowerCase_def)
next
  case (2 c s)
  have "js_lower_char (CHR '' '') = CHR '' ''" by (simp add: js_lower_char_def)
  with 2 show ?case by (simp add: js_toLowerCase_def dropWhile_map_stable)
qed

lemma collapse_hd: "s \<noteq> [] \<Longrightarrow> js_space (hd (collapse_spaces s)) = js_space (hd s)"
  by (cases s) auto

lemma collapse_dropWhile: "\<not> js_space (hd (collapse_spaces (dropWhile js_space s))) \<or> dropWhile js_space s = []"
  using collapse_hd [of "dropWhile js_space s"] hd_dropWhile by blast

lemma collapse_idem [simp]: "collapse_spaces (collapse_spaces s) = collapse_spaces s"
proof (induction s rule: collapse_spaces.induct)
  case (2 c s)
  show ?case
  proof (cases "js_space c")
    case True
    have "dropWhile js_space (collapse_spaces (dropWhile js_space s)) = collapse_spaces (dropWhile js_space s)"
      unfolding dropWhile_hd collapse_Nil using collapse_dropWhile [of s] by blast
    with True "2.IH"(1) [OF True] show ?thesis by simp
  next
    case False
    with "2.IH"(2) [OF False] show ?thesis by simp
  qed
qed simp

lemma collapse_last: "s \<noteq> [] \<Longrightarrow> \<not> js_space (last s) \<Longrightarrow> last (collapse_spaces s) = last s"
proof (induction s rule: collapse_spaces.induct)
  case (2 c s)
  show ?case
  proof (cases "js_space c")
    case True
    with "2.prems" have s: "s \<noteq> []" "\<not> js_space (last s)" by (auto split: if_splits)
    then obtain x where "x \<in> set s" "\<not> js_space x" using last_in_set by blast
    then have "dropWhile js_space s \<noteq> []" by (auto simp: dropWhile_eq_Nil_conv)
    moreover from this have "last (dropWhile js_space s) = last s" by (metis last_appendR takeWhile_dropWhile_id)
    ultimately show ?thesis using 2 True s by auto
  next
    case False
    with 2 show ?thesis by (cases "s = []") auto
  qed
qed simp

lemma trimmed_collapse: "trimmed s \<Longrightarrow> trimmed (collapse_spaces s)"
  using collapse_hd [of s] collapse_last [of s] by (auto simp: trimmed_def)

lemma trimmed_lower: "trimmed (js_toLowerCase s) = trimmed s"
  by (auto simp: trimmed_def js_toLowerCase_def hd_map last_map)

lemma lower_join: "js_toLowerCase (js_join '', '' xs) = js_join '', '' (map js_toLowerCase xs)"
  by (induction "'', ''" xs rule: js_join.induct) (simp_all add: js_toLowerCase_def js_lower_char_def)

lemma js_trim_lower_Nil: "js_trim (js_toLowerCase s) = [] \<longleftrightarrow> js_trim s = []"
  unfolding js_trim_toLowerCase by (simp add: js_toLowerCase_def)

lemma address_line_lower: "address_line (map (map_option js_toLowerCase) ps) = js_toLowerCase (address_line ps)"
proof -
  have "map the (filter (\<lambda>p. p \<noteq> None \<and> js_trim (the p) \<noteq> []) (map (map_option js_toLowerCase) ps)) =
      map js_toLowerCase (map the (filter (\<lambda>p. p \<noteq> None \<and> js_trim (the p) \<noteq> []) ps))"
  proof (induction ps)
    case (Cons p ps)
    then show ?case by (cases p) (auto simp: js_trim_lower_Nil)
  qed simp
  then show ?thesis by (simp add: address_line_def js_trim_toLowerCase [symmetric] lower_join)
qed

text \<open>
  The key under which an address is remembered is canonical: normalising a key changes nothing,
  and two spellings of an address that differ only in letter case have the same key.
\<close>

theorem cache_key_canonical:
  "normalise \<lparr>gq_streetAddress = normalise q, gq_city = None, gq_postalCode = None\<rparr> = normalise q \<and>
   normalise \<lparr>gq_streetAddress = js_toLowerCase (gq_streetAddress q), gq_city = map_option js_toLowerCase (gq_city q),
     gq_postalCode = map_option js_toLowerCase (gq_postalCode q)\<rparr> = normalise q"
proof
  have n: "trimmed (normalise q)" and low: "js_toLowerCase (normalise q) = normalise q"
    unfolding normalise_def by (simp_all add: trimmed_collapse trimmed_lower address_line_def trimmed_js_trim collapse_lower)
  have same: "collapse_spaces (normalise q) = normalise q" by (simp add: normalise_def)
  have "address_line [Some (normalise q), None, None] = normalise q"
    using js_trim_trimmed [OF n] by (simp add: address_line_def)
  then show "normalise \<lparr>gq_streetAddress = normalise q, gq_city = None, gq_postalCode = None\<rparr> = normalise q"
    by (simp add: normalise_def [of "\<lparr>gq_streetAddress = s, gq_city = c, gq_postalCode = p\<rparr>" for s c p] low same)
  show "normalise \<lparr>gq_streetAddress = js_toLowerCase (gq_streetAddress q), gq_city = map_option js_toLowerCase (gq_city q),
     gq_postalCode = map_option js_toLowerCase (gq_postalCode q)\<rparr> = normalise q"
    using address_line_lower [of "[Some (gq_streetAddress q), gq_city q, gq_postalCode q]"] by (simp add: normalise_def)
qed

section \<open>Points on Earth, remembered once\<close>

lemma lookup_point:
  assumes "lookup_address geo q w = (r, t)"
  shows "r = Inr (Inr p) \<Longrightarrow> on_earth (pp_latitude p) (pp_longitude p)"
    and "r = Inl e \<Longrightarrow> e = PlainError ''TypeError''"
    and "geocoded_addresses t = geocoded_addresses w" and "outbox t = outbox w @ [GeocoderLookup q]"
  using assms
  by (auto simp: lookup_address_def Let_def firstPoint_def point_of_def json_property_def on_earth_def
      split: GeocoderAnswer.splits if_splits option.splits json.splits list.splits)

definition addresses_ok :: "world \<Rightarrow> bool" where
  "addresses_ok w \<longleftrightarrow> distinct (map ga_query (geocoded_addresses w)) \<and>
     (\<forall>r \<in> set (geocoded_addresses w). on_earth (pp_latitude (ga_point r)) (pp_longitude (ga_point r)))"

text \<open>How a geocoding ends.\<close>

lemma geocode_cases:
  assumes "geocode geo q w = (r, t)"
  obtains (empty) "normalise q = []" "r = Inr (NotGeocoded INSUFFICIENT_ADDRESS)" "t = w"
  | (known) row where "normalise q \<noteq> []" "find (\<lambda>x. ga_query x = normalise q) (geocoded_addresses w) = Some row"
      "r = Inr (geocode_success (ga_point row))" "t = w"
  | (unplaced) e where "normalise q \<noteq> []" "\<forall>x \<in> set (geocoded_addresses w). ga_query x \<noteq> normalise q"
      "r = Inr (NotGeocoded e) \<or> r = Inl (PlainError ''TypeError'')"
      "t = w\<lparr>outbox := outbox w @ [GeocoderLookup (normalise q)]\<rparr>"
  | (placed) p where "normalise q \<noteq> []" "\<forall>x \<in> set (geocoded_addresses w). ga_query x \<noteq> normalise q"
      "on_earth (pp_latitude p) (pp_longitude p)" "r = Inr (geocode_success p)"
      "t = w\<lparr>outbox := outbox w @ [GeocoderLookup (normalise q)],
         geocoded_addresses := geocoded_addresses w @ [\<lparr>ga_query = normalise q, ga_provider = ''NominatimGeocodingAdapter'', ga_point = p\<rparr>]\<rparr>"
proof (cases "normalise q = []")
  case True
  with assms show ?thesis by (intro empty) (simp_all add: geocode_def)
next
  case ne: False
  show ?thesis
  proof (cases "find (\<lambda>x. ga_query x = normalise q) (geocoded_addresses w)")
    case (Some row)
    with ne assms show ?thesis by (intro known) (auto simp: geocode_def findByQuery_def Let_def andThen_run)
  next
    case None
    then have new: "\<forall>x \<in> set (geocoded_addresses w). ga_query x \<noteq> normalise q" by (auto simp: find_None_iff)
    obtain a v where look: "lookup_address geo (normalise q) w = (a, v)" by fastforce
    have v: "v = w\<lparr>outbox := outbox w @ [GeocoderLookup (normalise q)]\<rparr>"
      using look by (auto simp: lookup_address_def Let_def split: GeocoderAnswer.splits if_splits option.splits)
    show ?thesis
    proof (cases a)
      case (Inl e)
      with ne None new look lookup_point(2) [OF look] v assms show ?thesis
        by (intro unplaced) (auto simp: geocode_def findByQuery_def Let_def andThen_run)
    next
      case (Inr b)
      show ?thesis
      proof (cases b)
        case (Inl e)
        with Inr ne None new look v assms show ?thesis
          by (intro unplaced [of e]) (auto simp: geocode_def findByQuery_def Let_def andThen_run)
      next
        case (Inr p)
        with \<open>a = Inr b\<close> lookup_point(1) [OF look] have "on_earth (pp_latitude p) (pp_longitude p)" by simp
        with Inr \<open>a = Inr b\<close> ne None new look v assms show ?thesis
          by (intro placed [of p]) (auto simp: geocode_def findByQuery_def Let_def andThen_run remember_def)
      qed
    qed
  qed
qed

lemma addresses_ok_geocode: "addresses_ok w \<Longrightarrow> geocode geo q w = (r, t) \<Longrightarrow> addresses_ok t"
  by (erule geocode_cases) (auto simp: addresses_ok_def)

lemma addresses_ok_forget: "addresses_ok w \<Longrightarrow> forget q w = (r, t) \<Longrightarrow> addresses_ok t"
  by (auto simp: addresses_ok_def forget_def forget_address_def delete_where_def distinct_map inj_on_def)

lemma geocoded_on_earth:
  assumes "addresses_ok w" and "geocode geo q w = (Inr (Geocoded a b c d), t)" shows "on_earth a b"
  using assms(2)
proof (cases rule: geocode_cases)
  case (known row)
  with assms(1) show ?thesis by (auto simp: addresses_ok_def geocode_success_def dest!: find_Some_mem)
qed (auto simp: geocode_success_def)

text \<open>
  An address that was placed stays placed where it was. After a geocoding that succeeds, every
  geocoding of an address with the same key returns the same point, whatever the geocoder would
  answer by then, without calling it and without changing anything, for as long as the table of
  remembered addresses is unchanged.
\<close>

theorem placed_address_is_remembered:
  assumes "geocode geo q w = (Inr (Geocoded a b c d), t)" and "normalise q' = normalise q"
    and "geocoded_addresses u = geocoded_addresses t"
  shows "geocode later q' u = (Inr (Geocoded a b c d), u)"
  using assms(1)
proof (cases rule: geocode_cases)
  case (known row)
  with assms show ?thesis by (simp add: geocode_def findByQuery_def Let_def andThen_run)
next
  case (placed p)
  then have "find (\<lambda>x. ga_query x = normalise q) (geocoded_addresses w) = None" by (auto simp: find_None_iff)
  with placed assms show ?thesis
    by (simp add: geocode_def findByQuery_def Let_def andThen_run find_append)
qed simp_all

definition sample_geo :: GeoEnv where
  "sample_geo = \<lparr>geo_fetch = (\<lambda>q n. Answered 200 (Some (JArr [JObj [(''lat'', JNum (-6)), (''lon'', JNum 106),
     (''addresstype'', JStr ''road''), (''display_name'', JStr ''Jakarta'')]])))\<rparr>"

definition silent_geo :: GeoEnv where
  "silent_geo = \<lparr>geo_fetch = (\<lambda>q n. FetchFailed ''timeout'')\<rparr>"

definition sample_address :: GeocodeQuery where
  "sample_address = \<lparr>gq_streetAddress = ''Jl. 1'', gq_city = Some ''Jakarta'', gq_postalCode = None\<rparr>"

definition sample_respelt :: GeocodeQuery where
  "sample_respelt = \<lparr>gq_streetAddress = '' JL.  1'', gq_city = Some ''jakarta '', gq_postalCode = Some '' ''\<rparr>"

lemma sample_geocoded: "fst (geocode sample_geo sample_address empty_world) = Inr (Geocoded (-6) 106 STREET (Some ''Jakarta''))"
  by code_simp

theorem placed_address_is_remembered_witness:
  "geocode silent_geo sample_respelt (snd (geocode sample_geo sample_address empty_world)) =
     (Inr (Geocoded (-6) 106 STREET (Some ''Jakarta'')), snd (geocode sample_geo sample_address empty_world))"
proof -
  have "geocode sample_geo sample_address empty_world =
      (Inr (Geocoded (-6) 106 STREET (Some ''Jakarta'')), snd (geocode sample_geo sample_address empty_world))"
    using sample_geocoded by (simp add: prod_eq_iff)
  moreover have "normalise sample_respelt = normalise sample_address" by code_simp
  ultimately show ?thesis by (rule placed_address_is_remembered) simp
qed

text \<open>
  The adapter refuses an answer whose coordinates are not numbers, but \<^verbatim>\<open>Number(null)\<close>,
  \<^verbatim>\<open>Number("")\<close> and \<^verbatim>\<open>Number([])\<close> are 0: an answer without coordinates is taken as the point at
  latitude 0 and longitude 0.
\<close>

theorem absent_coordinates_become_null_island:
  "lat \<in> {JNull, JStr [], JArr []} \<Longrightarrow> lon \<in> {JNull, JStr [], JArr []} \<Longrightarrow>
   firstPoint (JArr [JObj [(''lat'', lat), (''lon'', lon)]]) =
     Inr (Inr \<lparr>pp_latitude = 0, pp_longitude = 0, pp_precision = UNSPECIFIED, pp_displayName = None\<rparr>)"
proof -
  have "js_text_number [] = Some 0" and "precisionOf None = UNSPECIFIED"
    by (simp_all add: js_text_number_def precisionOf_def js_toLowerCase_def)
  then show "lat \<in> {JNull, JStr [], JArr []} \<Longrightarrow> lon \<in> {JNull, JStr [], JArr []} \<Longrightarrow> ?thesis"
    by (auto simp: firstPoint_def point_of_def json_property_def property_number_def display_name_of_def)
qed

theorem absent_coordinates_become_null_island_witness:
  "firstPoint (JArr [JObj [(''lat'', JNull), (''lon'', JNull)]]) =
     Inr (Inr \<lparr>pp_latitude = 0, pp_longitude = 0, pp_precision = UNSPECIFIED, pp_displayName = None\<rparr>)"
  by (rule absent_coordinates_become_null_island) simp_all

end
