(* ===== verification/Profiles.thy ===== *)
theory Profiles
  imports Saved_Rows Geocoding
begin

text \<open>
  The profile of an account: \<^verbatim>\<open>application/services/user_profile_usecase.service.ts\<close> over
  \<^verbatim>\<open>persistence/adapters/typeorm_profile_repository.adapter.ts\<close>. A profile has an address and,
  where the geocoder knew it, the point of that address.
\<close>

section \<open>The table\<close>

text \<open>
  The \<^verbatim>\<open>CHECK\<close> on the two coordinate columns in SQL's three-valued logic: a row passes unless the
  condition is false, so one missing coordinate passes when the other is in range.
\<close>

definition point_check :: "degrees option \<Rightarrow> degrees option \<Rightarrow> bool" where
  "point_check latitude longitude = (case (latitude, longitude) of
      (None, None) \<Rightarrow> True
    | (Some a, Some b) \<Rightarrow> on_earth a b
    | (Some a, None) \<Rightarrow> -90 \<le> a \<and> a \<le> 90
    | (None, Some b) \<Rightarrow> -180 \<le> b \<and> b \<le> 180)"

definition findProfile :: "nat \<Rightarrow> ProfileEntity option act" where
  "findProfile userId = reads (\<lambda>w. find (\<lambda>p. pf_userId p = userId) (profiles w))"

definition fresh_profile :: "nat \<Rightarrow> ProfileEntity \<Rightarrow> ProfileEntity" where
  "fresh_profile i p = p\<lparr>pf_id := i\<rparr>"

text \<open>
  A profile that is there was read from its row, so every member of it is set (an absent avatar is \<^verbatim>\<open>null\<close>) and
  overwrites the row's.
\<close>

definition overwrite_profile :: "ProfileEntity \<Rightarrow> ProfileEntity \<Rightarrow> ProfileEntity" where
  "overwrite_profile p r = p\<lparr>pf_id := pf_id r\<rparr>"

definition same_owner :: "ProfileEntity \<Rightarrow> ProfileEntity \<Rightarrow> bool" where
  "same_owner p q \<longleftrightarrow> pf_userId p = pf_userId q"

definition insert_profile :: "ProfileEntity \<Rightarrow> ProfileEntity act" where
  "insert_profile p =
     (\<lambda>w. case save_row pf_id fresh_profile overwrite_profile same_owner (pf_id p) p (profile_seq w) (profiles w) of
        (outcome, n, rows) \<Rightarrow>
          if \<not> point_check (pf_latitude p) (pf_longitude p) then (Inl (QueryFailed ''23514''), w\<lparr>profile_seq := n\<rparr>)
          else (case outcome of
                  None \<Rightarrow> (Inl (QueryFailed ''23505''), w\<lparr>profile_seq := n\<rparr>)
                | Some r \<Rightarrow>
                    if user_row (pf_userId p) w = None then (Inl (QueryFailed ''23503''), w\<lparr>profile_seq := n\<rparr>)
                    else (Inr r, w\<lparr>profile_seq := n, profiles := rows\<rparr>)))"

definition saveProfile :: "ProfileEntity \<Rightarrow> ProfileEntity act" where
  "saveProfile p =
     catches (insert_profile p)
       (\<lambda>e. if isForeignKeyViolation e then throws (MissingReferenceError ''No account with that ID'')
          else if isUniqueViolation e then throws (RecordConflictError ''The profile was created by another request at the same time'')
          else throws e)"

section \<open>The use case\<close>

text \<open>What was sent: the avatar alone may be sent as \<^verbatim>\<open>null\<close>, which clears it.\<close>

record UpdateProfileInput =
  up_fullName :: "string option"
  up_phoneNumber :: "string option"
  up_streetAddress :: "string option"
  up_city :: "string option"
  up_postalCode :: "string option"
  up_avatarUrl :: "string option option"

definition getProfile :: "nat \<Rightarrow> ProfileEntity act" where
  "getProfile userId =
     andThen (findProfile userId)
     (\<lambda>found. case found of None \<Rightarrow> throws (NotFoundException ''Profile not found'') | Some p \<Rightarrow> returns p)"

definition or_empty :: "string option \<Rightarrow> string" where
  "or_empty v = (case v of None \<Rightarrow> [] | Some s \<Rightarrow> s)"

definition new_profile :: "nat \<Rightarrow> UpdateProfileInput \<Rightarrow> ProfileEntity" where
  "new_profile userId dto =
     \<lparr>pf_id = 0, pf_userId = userId, pf_fullName = or_empty (up_fullName dto), pf_phoneNumber = or_empty (up_phoneNumber dto),
      pf_streetAddress = or_empty (up_streetAddress dto), pf_city = or_empty (up_city dto), pf_postalCode = or_empty (up_postalCode dto),
      pf_avatarUrl = (case up_avatarUrl dto of None \<Rightarrow> None | Some a \<Rightarrow> a), pf_latitude = None, pf_longitude = None, pf_geocodedAt = None\<rparr>"

definition sent :: "string option \<Rightarrow> string \<Rightarrow> string" where
  "sent v old = (case v of None \<Rightarrow> old | Some s \<Rightarrow> s)"

definition changed_profile :: "ProfileEntity \<Rightarrow> UpdateProfileInput \<Rightarrow> ProfileEntity" where
  "changed_profile p dto = p\<lparr>
     pf_fullName := sent (up_fullName dto) (pf_fullName p), pf_phoneNumber := sent (up_phoneNumber dto) (pf_phoneNumber p),
     pf_streetAddress := sent (up_streetAddress dto) (pf_streetAddress p), pf_city := sent (up_city dto) (pf_city p),
     pf_postalCode := sent (up_postalCode dto) (pf_postalCode p),
     pf_avatarUrl := (case up_avatarUrl dto of None \<Rightarrow> pf_avatarUrl p | Some a \<Rightarrow> a)\<rparr>"

definition addressOf :: "ProfileEntity \<Rightarrow> string" where
  "addressOf p = address_line [Some (pf_streetAddress p), Some (pf_city p), Some (pf_postalCode p)]"

definition profile_query :: "ProfileEntity \<Rightarrow> GeocodeQuery" where
  "profile_query p = \<lparr>gq_streetAddress = pf_streetAddress p, gq_city = Some (pf_city p), gq_postalCode = Some (pf_postalCode p)\<rparr>"

definition placeProfile :: "GeoEnv \<Rightarrow> ProfileEntity \<Rightarrow> bool \<Rightarrow> ProfileEntity act" where
  "placeProfile geo profile addressChanged =
     andThen (reads clock)
     (\<lambda>now. let p = (if addressChanged then profile\<lparr>pf_latitude := None, pf_longitude := None\<rparr> else profile)\<lparr>pf_geocodedAt := Some now\<rparr> in
        catches
          (andThen (geocode geo (profile_query p))
           (\<lambda>outcome. case outcome of
              Geocoded latitude longitude precision shown \<Rightarrow> returns (p\<lparr>pf_latitude := Some latitude, pf_longitude := Some longitude\<rparr>)
            | NotGeocoded problem \<Rightarrow> returns p))
          (\<lambda>e. returns p))"

definition updateProfile :: "GeoEnv \<Rightarrow> nat \<Rightarrow> UpdateProfileInput \<Rightarrow> ProfileEntity act" where
  "updateProfile geo userId dto =
     andThen (findProfile userId)
     (\<lambda>found.
        let addressBefore = (case found of None \<Rightarrow> [] | Some p \<Rightarrow> addressOf p);
            profile = (case found of None \<Rightarrow> new_profile userId dto | Some p \<Rightarrow> changed_profile p dto);
            addressAfter = addressOf profile;
            addressChanged = (addressAfter \<noteq> addressBefore);
            neverPlaced = (pf_latitude profile = None \<or> pf_longitude profile = None)
        in andThen
             (if addressAfter \<noteq> [] \<and> (addressChanged \<or> neverPlaced) then placeProfile geo profile addressChanged
              else returns profile)
             saveProfile)"

section \<open>The table's invariant\<close>

interpretation profile_table: saved_table pf_id fresh_profile overwrite_profile same_owner same_owner
  by unfold_locales (auto simp: fresh_profile_def overwrite_profile_def same_owner_def)

definition profiles_ok :: "world \<Rightarrow> bool" where
  "profiles_ok w \<longleftrightarrow> table_ok pf_id same_owner (profile_seq w) (profiles w)
     \<and> (\<forall>p \<in> set (profiles w). pf_id p < profile_seq w
          \<and> (pf_latitude p = None \<longleftrightarrow> pf_longitude p = None) \<and> point_check (pf_latitude p) (pf_longitude p))"

lemma find_owner:
  assumes "profiles_ok w" shows "find (\<lambda>p. pf_userId p = i) (profiles w) = Some p \<longleftrightarrow> p \<in> set (profiles w) \<and> pf_userId p = i"
proof
  assume r: "p \<in> set (profiles w) \<and> pf_userId p = i"
  then obtain q where q: "find (\<lambda>p. pf_userId p = i) (profiles w) = Some q"
    by (cases "find (\<lambda>p. pf_userId p = i) (profiles w)") (auto simp: find_None_iff)
  with r have "q = p" using table_ok_same [of pf_id same_owner "profile_seq w" "profiles w" q p] assms find_Some_mem [OF q]
    by (simp add: profiles_ok_def same_owner_def)
  with q show "find (\<lambda>p. pf_userId p = i) (profiles w) = Some p" by simp
qed (auto dest: find_Some_mem)

text \<open>A profile of the table or a new one, with a point both or neither of whose coordinates are known.\<close>

definition savable :: "world \<Rightarrow> ProfileEntity \<Rightarrow> bool" where
  "savable w p \<longleftrightarrow> (pf_id p = 0 \<and> (\<forall>q \<in> set (profiles w). pf_userId q \<noteq> pf_userId p)
       \<or> (\<exists>q \<in> set (profiles w). pf_id q = pf_id p \<and> pf_userId q = pf_userId p))
     \<and> (pf_latitude p = None \<longleftrightarrow> pf_longitude p = None) \<and> point_check (pf_latitude p) (pf_longitude p)"

lemma saveProfile_returns:
  assumes "profiles_ok w" and "savable w p" and "user_row (pf_userId p) w \<noteq> None"
  obtains r n rows where "saveProfile p w = (Inr r, w\<lparr>profile_seq := n, profiles := rows\<rparr>)"
    "save_row pf_id fresh_profile overwrite_profile same_owner (pf_id p) p (profile_seq w) (profiles w) = (Some r, n, rows)"
proof -
  from assms(1) have ok: "table_ok pf_id same_owner (profile_seq w) (profiles w)" by (simp add: profiles_ok_def)
  have one: "pf_id q = pf_id p" if q: "q \<in> set (profiles w)" "same_owner p q" for q
  proof -
    from q assms(2) obtain x where "x \<in> set (profiles w)" "pf_id x = pf_id p" "same_owner x q"
      by (auto simp: savable_def same_owner_def)
    with table_okD(4) [OF ok, of x q] q(1) show ?thesis by simp
  qed
  then have others: "\<forall>q \<in> set (profiles w). pf_id q \<noteq> pf_id p \<longrightarrow> \<not> same_owner p q" by blast
  have new: "\<forall>q \<in> set (profiles w). pf_id q \<noteq> profile_seq w \<and> \<not> same_owner p q" if "pf_id p = 0"
    using assms(1) one table_okD(3) [OF ok] that by (fastforce simp: profiles_ok_def)
  from profile_table.save_returns [OF others new] obtain r n rows where
      save: "save_row pf_id fresh_profile overwrite_profile same_owner (pf_id p) p (profile_seq w) (profiles w) = (Some r, n, rows)"
    by blast
  with assms(2,3) show ?thesis by (intro that) (auto simp: saveProfile_def insert_profile_def catches_run savable_def)
qed

lemma saved_profile_fields:
  assumes "save_row pf_id fresh_profile overwrite_profile same_owner i p seq rows = (Some r, n, rows')"
  shows "pf_userId r = pf_userId p" "pf_latitude r = pf_latitude p" "pf_longitude r = pf_longitude p" "addressOf r = addressOf p"
    "pf_fullName r = pf_fullName p" "pf_phoneNumber r = pf_phoneNumber p" "pf_geocodedAt r = pf_geocodedAt p"
  using assms by (cases rule: profile_table.save_cases; simp add: fresh_profile_def overwrite_profile_def addressOf_def)+

lemma saved_fields:
  assumes "saveProfile p w = (Inr r, t)"
  shows "pf_userId r = pf_userId p" "pf_latitude r = pf_latitude p" "pf_longitude r = pf_longitude p" "addressOf r = addressOf p"
proof -
  obtain i n rows where "save_row pf_id fresh_profile overwrite_profile same_owner i p (profile_seq w) (profiles w) = (Some r, n, rows)"
    using assms by (auto simp: saveProfile_def insert_profile_def catches_run split: if_splits prod.splits option.splits)
  from saved_profile_fields [OF this] show "pf_userId r = pf_userId p" "pf_latitude r = pf_latitude p"
    "pf_longitude r = pf_longitude p" "addressOf r = addressOf p" by simp_all
qed

lemma saveProfile_ok:
  assumes "profiles_ok w" and "savable w p" and "saveProfile p w = (Inr r, t)"
  shows "profiles_ok t" and "find (\<lambda>q. pf_userId q = pf_userId p) (profiles t) = Some r"
proof -
  have known: "user_row (pf_userId p) w \<noteq> None"
    using assms(3) by (auto simp: saveProfile_def insert_profile_def catches_run split: if_splits prod.splits option.splits)
  obtain n rows where t: "t = w\<lparr>profile_seq := n, profiles := rows\<rparr>"
    and save: "save_row pf_id fresh_profile overwrite_profile same_owner (pf_id p) p (profile_seq w) (profiles w) = (Some r, n, rows)"
    by (rule saveProfile_returns [OF assms(1,2) known]) (use assms(3) in simp)
  have ok: "table_ok pf_id same_owner (profile_seq w) (profiles w)" using assms(1) by (simp add: profiles_ok_def)
  note tab = profile_table.save_ok [OF ok save] and mem = profile_table.save_found(1) [OF ok save]
  have "pf_id q < n \<and> (pf_latitude q = None \<longleftrightarrow> pf_longitude q = None) \<and> point_check (pf_latitude q) (pf_longitude q)"
    if "q \<in> set rows" for q
    using save
  proof (cases rule: profile_table.save_cases)
    case (updated x)
    from that obtain y where y: "y \<in> set (profiles w)" "q = (if pf_id y = pf_id p then overwrite_profile p y else y)"
      unfolding updated by (auto simp: set_update_where)
    with assms(1,2) updated show ?thesis by (auto simp: profiles_ok_def savable_def overwrite_profile_def)
  next
    case (added j)
    then have "pf_id p = 0" using assms(2) by (auto simp: savable_def same_owner_def)
    with that added assms(1,2) show ?thesis by (auto simp: profiles_ok_def savable_def fresh_profile_def less_Suc_eq)
  qed
  with tab show "profiles_ok t" by (simp add: profiles_ok_def t)
  from find_owner [OF this, of "pf_userId p" r] show "find (\<lambda>q. pf_userId q = pf_userId p) (profiles t) = Some r"
    using mem saved_profile_fields(1) [OF save] by (simp add: t)
qed

section \<open>What an update does\<close>

text \<open>Placing a profile never fails and changes nothing of it but its point; a changed address loses its old point first.\<close>

lemma placeProfile_cases:
  assumes "addresses_ok w" and "placeProfile geo p changed w = (r, t)"
  obtains q where "r = Inr q" "users t = users w" "profiles t = profiles w" "profile_seq t = profile_seq w" "addresses_ok t"
    "clock t = clock w"
    "q = p\<lparr>pf_geocodedAt := Some (clock w), pf_latitude := pf_latitude q, pf_longitude := pf_longitude q\<rparr>"
    "(\<exists>a b c d. fst (geocode geo (profile_query p) w) = Inr (Geocoded a b c d) \<and> on_earth a b
        \<and> pf_latitude q = Some a \<and> pf_longitude q = Some b)
     \<or> pf_latitude q = (if changed then None else pf_latitude p) \<and> pf_longitude q = (if changed then None else pf_longitude p)
        \<and> \<not> (\<exists>a b c d. fst (geocode geo (profile_query p) w) = Inr (Geocoded a b c d))"
proof -
  obtain o' v where run: "geocode geo (profile_query p) w = (o', v)" by fastforce
  have v: "users v = users w" "profiles v = profiles w" "profile_seq v = profile_seq w" "clock v = clock w"
    using run by (cases rule: geocode_cases; simp)+
  have q: "profile_query (if changed then p\<lparr>pf_latitude := None, pf_longitude := None\<rparr> else p) = profile_query p"
    "profile_query (x\<lparr>pf_geocodedAt := y\<rparr>) = profile_query x" for x y
    by (simp_all add: profile_query_def)
  let ?p = "(if changed then p\<lparr>pf_latitude := None, pf_longitude := None\<rparr> else p)\<lparr>pf_geocodedAt := Some (clock w)\<rparr>"
  show ?thesis
  proof (cases "\<exists>a b c d. o' = Inr (Geocoded a b c d)")
    case True
    then obtain a b c d where o': "o' = Inr (Geocoded a b c d)" by blast
    with assms run have "r = Inr (?p\<lparr>pf_latitude := Some a, pf_longitude := Some b\<rparr>)" "t = v"
      by (simp_all add: placeProfile_def andThen_run catches_run Let_def q)
    with v o' run geocoded_on_earth [OF assms(1), of geo "profile_query p"] addresses_ok_geocode [OF assms(1) run] show ?thesis
      by (intro that [of "?p\<lparr>pf_latitude := Some a, pf_longitude := Some b\<rparr>"]) simp_all
  next
    case False
    with assms run have "r = Inr ?p" "t = v"
      by (auto simp: placeProfile_def andThen_run catches_run Let_def q split: sum.splits GeocodeOutcome.splits)
    with v False run addresses_ok_geocode [OF assms(1) run] show ?thesis
      by (intro that [of ?p]) simp_all
  qed
qed

definition draft :: "nat \<Rightarrow> UpdateProfileInput \<Rightarrow> world \<Rightarrow> ProfileEntity" where
  "draft userId dto w = (case find (\<lambda>p. pf_userId p = userId) (profiles w) of
     None \<Rightarrow> new_profile userId dto | Some p \<Rightarrow> changed_profile p dto)"

definition address_before :: "nat \<Rightarrow> world \<Rightarrow> string" where
  "address_before userId w = (case find (\<lambda>p. pf_userId p = userId) (profiles w) of None \<Rightarrow> [] | Some p \<Rightarrow> addressOf p)"

definition to_be_placed :: "nat \<Rightarrow> UpdateProfileInput \<Rightarrow> world \<Rightarrow> bool" where
  "to_be_placed userId dto w \<longleftrightarrow> addressOf (draft userId dto w) \<noteq> [] \<and>
     (addressOf (draft userId dto w) \<noteq> address_before userId w
      \<or> (pf_latitude (draft userId dto w) = None \<or> pf_longitude (draft userId dto w) = None))"


lemma updateProfile_run:
  "updateProfile geo i dto w =
     andThen (if to_be_placed i dto w then placeProfile geo (draft i dto w) (addressOf (draft i dto w) \<noteq> address_before i w)
              else returns (draft i dto w)) saveProfile w"
  unfolding updateProfile_def findProfile_def to_be_placed_def draft_def address_before_def Let_def by (simp only: andThen_reads)

lemma draft_savable:
  assumes "profiles_ok w" shows "savable w (draft i dto w)" and "pf_userId (draft i dto w) = i"
proof -
  show "pf_userId (draft i dto w) = i"
    by (auto simp: draft_def new_profile_def changed_profile_def dest: find_Some_mem split: option.split)
  show "savable w (draft i dto w)"
  proof (cases "find (\<lambda>p. pf_userId p = i) (profiles w)")
    case None
    then have draft: "draft i dto w = new_profile i dto" by (simp add: draft_def)
    from None have "\<forall>q \<in> set (profiles w). pf_userId q \<noteq> i" by (auto simp: find_None_iff)
    then show ?thesis by (simp add: draft savable_def new_profile_def point_check_def)
  next
    case (Some p)
    then have draft: "draft i dto w = changed_profile p dto" by (simp add: draft_def)
    from assms find_Some_mem [OF Some] show ?thesis
      by (auto simp: draft savable_def changed_profile_def profiles_ok_def)
  qed
qed

lemma savable_placed:
  assumes "savable w p" and "profiles t = profiles w" and "q = p\<lparr>pf_geocodedAt := g, pf_latitude := a, pf_longitude := b\<rparr>"
    and "a = None \<and> b = None \<or> a = pf_latitude p \<and> b = pf_longitude p \<or> (\<exists>x y. a = Some x \<and> b = Some y \<and> on_earth x y)"
  shows "savable t q"
  using assms by (auto simp: savable_def point_check_def)

lemma profiles_ok_frame: "profiles t = profiles w \<Longrightarrow> profile_seq t = profile_seq w \<Longrightarrow> profiles_ok t = profiles_ok w"
  by (simp add: profiles_ok_def)

text \<open>The point of \<open>q\<close> after an update: the geocoder's or none for a new address, the old one where there is no address.\<close>

definition right_point :: "GeoEnv \<Rightarrow> nat \<Rightarrow> UpdateProfileInput \<Rightarrow> world \<Rightarrow> ProfileEntity \<Rightarrow> bool" where
  "right_point geo i dto w q \<longleftrightarrow>
     (addressOf (draft i dto w) \<noteq> [] \<and> addressOf (draft i dto w) \<noteq> address_before i w \<longrightarrow>
       (\<exists>a b c d. fst (geocode geo (profile_query (draft i dto w)) w) = Inr (Geocoded a b c d)
          \<and> pf_latitude q = Some a \<and> pf_longitude q = Some b)
       \<or> pf_latitude q = None \<and> pf_longitude q = None)
     \<and> (addressOf (draft i dto w) = [] \<longrightarrow>
          pf_latitude q = pf_latitude (draft i dto w) \<and> pf_longitude q = pf_longitude (draft i dto w))"

text \<open>Every update saves a savable profile that is the draft with a point the geocoder gave, its own, or none.\<close>

lemma updateProfile_saves:
  assumes "profiles_ok w" and "addresses_ok w"
  obtains q v where "updateProfile geo i dto w = saveProfile q v" "savable v q" "profiles_ok v" "addresses_ok v"
    "users v = users w" "profiles v = profiles w" "pf_userId q = i" "addressOf q = addressOf (draft i dto w)"
    "pf_fullName q = pf_fullName (draft i dto w)" "pf_phoneNumber q = pf_phoneNumber (draft i dto w)"
    "right_point geo i dto w q"
proof -
  let ?p = "draft i dto w" and ?c = "addressOf (draft i dto w) \<noteq> address_before i w"
  note d = draft_savable [OF assms(1), of i dto]
  show ?thesis
  proof (cases "to_be_placed i dto w")
    case False
    then have run: "updateProfile geo i dto w = saveProfile ?p w" by (simp add: updateProfile_run andThen_run)
    from False have "\<not> (addressOf ?p \<noteq> [] \<and> ?c)" unfolding to_be_placed_def by blast
    then have "right_point geo i dto w ?p" unfolding right_point_def by blast
    then show ?thesis by (rule that [OF run d(1) assms refl refl d(2) refl refl refl])
  next
    case True
    then have "addressOf ?p \<noteq> []" by (simp add: to_be_placed_def)
    obtain r t where run: "placeProfile geo ?p ?c w = (r, t)" by fastforce
    obtain q where q: "r = Inr q" "users t = users w" "profiles t = profiles w"
      "profile_seq t = profile_seq w" "addresses_ok t"
      and eq: "q = ?p\<lparr>pf_geocodedAt := Some (clock w), pf_latitude := pf_latitude q, pf_longitude := pf_longitude q\<rparr>"
      and pt: "(\<exists>a b c d. fst (geocode geo (profile_query ?p) w) = Inr (Geocoded a b c d) \<and> on_earth a b
        \<and> pf_latitude q = Some a \<and> pf_longitude q = Some b)
       \<or> pf_latitude q = (if ?c then None else pf_latitude ?p) \<and> pf_longitude q = (if ?c then None else pf_longitude ?p)
        \<and> \<not> (\<exists>a b c d. fst (geocode geo (profile_query ?p) w) = Inr (Geocoded a b c d))"
      by (rule placeProfile_cases [OF assms(2) run], rule that, assumption+)
    have same: "pf_userId q = pf_userId ?p" "addressOf q = addressOf ?p" "pf_fullName q = pf_fullName ?p" "pf_phoneNumber q = pf_phoneNumber ?p"
      by (subst eq, simp add: addressOf_def)+
    have "savable t q" using pt by (intro savable_placed [OF d(1) q(3) eq]) (auto split: if_splits)
    have upd: "updateProfile geo i dto w = saveProfile q t"
      using True run q(1) by (simp add: updateProfile_run andThen_run)
    have point: "right_point geo i dto w q"
      using pt \<open>addressOf ?p \<noteq> []\<close> unfolding right_point_def by (elim disjE) (blast, simp)
    from profiles_ok_frame [OF q(3,4)] assms(1) have "profiles_ok t" by simp
    then show ?thesis using same(1) d(2) by (intro that [OF upd \<open>savable t q\<close> _ q(5,2,3) _ same(2-4) point]) simp_all
  qed
qed

section \<open>Properties\<close>

text \<open>
  Saving a profile does not depend on the geocoder: for every account that exists, and whatever the geocoder
  answers or fails with, \<open>updateProfile\<close> returns a profile, the profile of that account read back afterwards is
  the one returned, and it carries the address, name and phone number the request leaves the account with.
\<close>

theorem profile_update_always_saves:
  assumes "profiles_ok w" and "addresses_ok w" and "user_row i w \<noteq> None"
  shows "\<exists>p t. updateProfile geo i dto w = (Inr p, t) \<and> getProfile i t = (Inr p, t) \<and> profiles_ok t
    \<and> addressOf p = addressOf (draft i dto w) \<and> pf_fullName p = pf_fullName (draft i dto w)
    \<and> pf_phoneNumber p = pf_phoneNumber (draft i dto w)"
proof -
  obtain q v where run: "updateProfile geo i dto w = saveProfile q v"
    and q: "savable v q" "profiles_ok v" "users v = users w" "pf_userId q = i" "addressOf q = addressOf (draft i dto w)"
      "pf_fullName q = pf_fullName (draft i dto w)" "pf_phoneNumber q = pf_phoneNumber (draft i dto w)"
    by (rule updateProfile_saves [OF assms(1,2), of geo i dto], rule that, assumption+)
  have known: "user_row (pf_userId q) v \<noteq> None" using assms(3) q(3,4) by (simp add: user_row_def)
  from saveProfile_returns [OF q(2,1) known] obtain p n rows where
      save: "saveProfile q v = (Inr p, v\<lparr>profile_seq := n, profiles := rows\<rparr>)"
    and row: "save_row pf_id fresh_profile overwrite_profile same_owner (pf_id q) q (profile_seq v) (profiles v) = (Some p, n, rows)"
    by blast
  show ?thesis using saveProfile_ok [OF q(2,1) save] saved_profile_fields [OF row] q
    by (intro exI [of _ p] exI [of _ "v\<lparr>profile_seq := n, profiles := rows\<rparr>"])
      (simp add: run save getProfile_def findProfile_def)
qed

text \<open>
  A new address never keeps the point of the old one: when the address after the update is not empty and
  differs from the one before, the saved point is the one the geocoder gave for the new address in this request,
  or there is none.
\<close>

theorem new_address_drops_old_point:
  assumes "profiles_ok w" and "addresses_ok w" and "updateProfile geo i dto w = (Inr p, t)"
    and "addressOf p \<noteq> []" and "addressOf p \<noteq> address_before i w"
  shows "(\<exists>a b c d. fst (geocode geo (profile_query (draft i dto w)) w) = Inr (Geocoded a b c d)
            \<and> pf_latitude p = Some a \<and> pf_longitude p = Some b)
         \<or> pf_latitude p = None \<and> pf_longitude p = None"
proof -
  obtain q v where run: "updateProfile geo i dto w = saveProfile q v" and q: "addressOf q = addressOf (draft i dto w)"
    and point: "right_point geo i dto w q"
    by (rule updateProfile_saves [OF assms(1,2), of geo i dto], rule that, assumption+)
  from assms(3) run have save: "saveProfile q v = (Inr p, t)" by simp
  have f: "addressOf p = addressOf q" "pf_latitude p = pf_latitude q" "pf_longitude p = pf_longitude q"
    using saved_fields [OF save] by simp_all
  with point q assms(4,5) show ?thesis by (simp add: right_point_def)
qed

text \<open>
  A cleared address keeps its point: when the address after an update is empty, the point saved with it is
  the one the profile had before, so a profile without an address may still be placed on the map.
\<close>

theorem cleared_address_keeps_point:
  assumes "profiles_ok w" and "addresses_ok w" and "find (\<lambda>p. pf_userId p = i) (profiles w) = Some old"
    and "updateProfile geo i dto w = (Inr p, t)" and "addressOf p = []"
  shows "pf_latitude p = pf_latitude old \<and> pf_longitude p = pf_longitude old"
proof -
  obtain q v where run: "updateProfile geo i dto w = saveProfile q v" and q: "addressOf q = addressOf (draft i dto w)"
    and point: "right_point geo i dto w q"
    by (rule updateProfile_saves [OF assms(1,2), of geo i dto], rule that, assumption+)
  from assms(4) run have save: "saveProfile q v = (Inr p, t)" by simp
  have "draft i dto w = changed_profile old dto" using assms(3) by (simp add: draft_def)
  with point q assms(5) saved_fields [OF save] show ?thesis by (simp add: changed_profile_def right_point_def)
qed

text \<open>A customer with an address on file, who moves or clears it.\<close>

definition sample_home :: ProfileEntity where
  "sample_home = \<lparr>pf_id = 1, pf_userId = 1, pf_fullName = ''A'', pf_phoneNumber = ''1'', pf_streetAddress = ''Jl. 2'', pf_city = '''',
     pf_postalCode = '''', pf_avatarUrl = None, pf_latitude = Some 1, pf_longitude = Some 2, pf_geocodedAt = Some 0\<rparr>"

definition sample_resident :: world where
  "sample_resident = empty_world\<lparr>users := [sample_row], profiles := [sample_home], profile_seq := 2\<rparr>"

definition sample_move :: "string \<Rightarrow> UpdateProfileInput" where
  "sample_move street = \<lparr>up_fullName = None, up_phoneNumber = None, up_streetAddress = Some street, up_city = None, up_postalCode = None,
     up_avatarUrl = None\<rparr>"

lemma sample_resident_ok: "profiles_ok sample_resident" "addresses_ok sample_resident" "user_row 1 sample_resident \<noteq> None"
  by (simp_all add: sample_resident_def profiles_ok_def table_ok_def sample_home_def point_check_def on_earth_def addresses_ok_def
      empty_world_def user_row_def sample_row_def sample_user_def UserEntity.defs UserRow.defs)

lemma sample_moved: "fst (updateProfile sample_geo 1 (sample_move ''Jl. 1'') sample_resident) =
    Inr (sample_home\<lparr>pf_streetAddress := ''Jl. 1'', pf_latitude := Some (-6), pf_longitude := Some 106\<rparr>)"
  by code_simp

lemma sample_cleared: "fst (updateProfile sample_geo 1 (sample_move '''') sample_resident) = Inr (sample_home\<lparr>pf_streetAddress := ''''\<rparr>)"
  by code_simp

theorem profile_update_always_saves_witness:
  "\<exists>p t. updateProfile silent_geo 1 (sample_move ''Jl. 1'') sample_resident = (Inr p, t) \<and> getProfile 1 t = (Inr p, t)"
  using profile_update_always_saves [OF sample_resident_ok, of silent_geo "sample_move ''Jl. 1''"] by blast

theorem new_address_drops_old_point_witness:
  "fst (updateProfile sample_geo 1 (sample_move ''Jl. 1'') sample_resident) =
     Inr (sample_home\<lparr>pf_streetAddress := ''Jl. 1'', pf_latitude := Some (-6), pf_longitude := Some 106\<rparr>)
   \<and> (\<exists>c d. fst (geocode sample_geo (profile_query (draft 1 (sample_move ''Jl. 1'') sample_resident)) sample_resident)
        = Inr (Geocoded (-6) 106 c d))"
proof -
  let ?p = "sample_home\<lparr>pf_streetAddress := ''Jl. 1'', pf_latitude := Some (-6), pf_longitude := Some 106\<rparr>"
  have run: "updateProfile sample_geo 1 (sample_move ''Jl. 1'') sample_resident =
      (Inr ?p, snd (updateProfile sample_geo 1 (sample_move ''Jl. 1'') sample_resident))"
    by (rule run_fst [OF sample_moved])
  have addresses: "addressOf ?p = ''Jl. 1''" "address_before 1 sample_resident = ''Jl. 2''" by code_simp+
  from new_address_drops_old_point [OF sample_resident_ok(1,2) run] show ?thesis
    by (simp add: addresses [simplified One_nat_def] sample_moved [simplified One_nat_def])
qed

theorem cleared_address_keeps_point_witness:
  "fst (updateProfile sample_geo 1 (sample_move '''') sample_resident) = Inr (sample_home\<lparr>pf_streetAddress := ''''\<rparr>)
   \<and> addressOf (sample_home\<lparr>pf_streetAddress := ''''\<rparr>) = []
   \<and> pf_latitude (sample_home\<lparr>pf_streetAddress := ''''\<rparr>) = Some 1"
proof -
  have run: "updateProfile sample_geo 1 (sample_move '''') sample_resident =
      (Inr (sample_home\<lparr>pf_streetAddress := ''''\<rparr>), snd (updateProfile sample_geo 1 (sample_move '''') sample_resident))"
    by (rule run_fst [OF sample_cleared])
  have old: "find (\<lambda>p. pf_userId p = 1) (profiles sample_resident) = Some sample_home"
    by (simp add: sample_resident_def sample_home_def)
  have empty: "addressOf (sample_home\<lparr>pf_streetAddress := ''''\<rparr>) = []" by code_simp
  from cleared_address_keeps_point [OF sample_resident_ok(1,2) old run empty] empty sample_cleared show ?thesis
    by (simp add: sample_home_def)
qed

end
