(* ===== verification/Couriers.thy ===== *)
theory Couriers
  imports Fleet Profiles
begin

text \<open>
  Becoming a courier: \<^verbatim>\<open>application/services/courier_registration_usecase.service.ts\<close>, where an
  applicant gets an account, a profile and a vehicle filed with the fleet, and
  \<^verbatim>\<open>application/services/courier_onboarding_usecase.service.ts\<close>, where staff approve or reject. An
  approval spans two services without a transaction: the account is promoted first, and put back only
  when the fleet certainly did nothing.
\<close>

section \<open>Registration\<close>

record RegisterCourierInput =
  rc_email :: string
  rc_password :: string
  rc_fullName :: string
  rc_phoneNumber :: string
  rc_vehiclePlate :: string
  rc_capacityKg :: rat

record 'tok RegisterCourierOutput =
  ro_session :: "'tok AuthTokenOutput"
  ro_driverId :: nat

definition ROLES_THAT_MAY_DRIVE :: "UserRole list" where
  "ROLES_THAT_MAY_DRIVE = [Customer, Courier]"

definition resume :: "'tok Env \<Rightarrow> RegisterCourierInput \<Rightarrow> CallContext \<Rightarrow> 'tok AuthTokenOutput act" where
  "resume env dto context =
     andThen
       (catches (verifyPassword env (rc_email dto) (rc_password dto) context)
          (\<lambda>e. case e of
             UnauthorizedException _ \<Rightarrow> throws (ConflictException ''An account with that email address already exists'')
           | _ \<Rightarrow> throws e))
     (\<lambda>account.
        if u_role account \<notin> set ROLES_THAT_MAY_DRIVE then throws (ConflictException ''A courier registers with an account of its own'')
        else if u_isTwoFactorEnabled account
          then throws (ConflictException ''That account has two-factor authentication enabled, so registration cannot be resumed here'')
        else startSession env account context)"

definition sessionFor :: "'tok Env \<Rightarrow> RegisterCourierInput \<Rightarrow> CallContext \<Rightarrow> 'tok AuthTokenOutput act" where
  "sessionFor env dto context =
     andThen (findByEmail (normalisedEmail (rc_email dto)))
     (\<lambda>existing. case existing of
        None \<Rightarrow> register env (rc_email dto) (rc_password dto) context
      | Some _ \<Rightarrow> resume env dto context)"

definition explain :: "failure \<Rightarrow> failure" where
  "explain e =
     (case e of
        FleetRegistryError f \<Rightarrow>
          if isFault f then BadGatewayException ''FLEET_FAULT''
          else if definitelyDidNothing f then BadRequestException (ff_code f)
          else ServiceUnavailableException (ff_code f)
      | _ \<Rightarrow> e)"

definition fileVehicle :: "FleetEnv \<Rightarrow> 'tok AuthTokenOutput \<Rightarrow> RegisterCourierInput \<Rightarrow> nat act" where
  "fileVehicle fleet session dto =
     catches
       (andThen (registerDriver fleet (at_principalId session) (rc_vehiclePlate dto) (rc_capacityKg dto))
          (\<lambda>registration. returns (fg_driverId registration)))
       (\<lambda>e. throws (explain e))"

definition registerCourier :: "'tok Env \<Rightarrow> GeoEnv \<Rightarrow> FleetEnv \<Rightarrow> RegisterCourierInput \<Rightarrow> CallContext \<Rightarrow> 'tok RegisterCourierOutput act" where
  "registerCourier env geo fleet dto context =
     andThen (sessionFor env dto context)
     (\<lambda>session. andThen (updateProfile geo (at_userId session)
        \<lparr>up_fullName = Some (rc_fullName dto), up_phoneNumber = Some (rc_phoneNumber dto), up_streetAddress = None, up_city = None,
         up_postalCode = None, up_avatarUrl = None\<rparr>)
     (\<lambda>_. andThen (fileVehicle fleet session dto)
     (\<lambda>driverId. andThen (recordFiled \<lparr>cf_userId = at_userId session, cf_principalId = at_principalId session, cf_driverId = driverId\<rparr>)
     (\<lambda>_. returns \<lparr>ro_session = session, ro_driverId = driverId\<rparr>))))"

section \<open>Approval and rejection\<close>

definition NO_VEHICLE :: string where "NO_VEHICLE = ''NO_DRIVER_RECORD''"

record ApproveCourierOutput =
  ac_principalId :: string
  ac_email :: string
  ac_role :: UserRole
  ac_driverId :: "nat option"
  ac_fleetActivated :: bool

definition refusalOf :: "failure \<Rightarrow> failure" where
  "refusalOf e =
     (case e of
        FleetRegistryError f \<Rightarrow>
          if ff_code f = NO_VEHICLE then ConflictException NO_VEHICLE
          else if isFault f then BadGatewayException (ff_code f)
          else if definitelyDidNothing f then BadGatewayException (ff_code f)
          else ServiceUnavailableException (ff_code f)
      | _ \<Rightarrow> e)"

definition restoreCustomer :: "UserEntity \<Rightarrow> string \<Rightarrow> unit act" where
  "restoreCustomer user principalId =
     andThen (saveUser (user\<lparr>u_role := Customer\<rparr>)) (\<lambda>_. syncKind principalId Customer)"

definition untouched_fleet :: "failure \<Rightarrow> bool" where
  "untouched_fleet e = (case e of FleetRegistryError f \<Rightarrow> definitelyDidNothing f | _ \<Rightarrow> False)"

definition activateInFleet :: "FleetEnv \<Rightarrow> UserEntity \<Rightarrow> string \<Rightarrow> bool \<Rightarrow> FleetActivation act" where
  "activateInFleet fleet user principalId promoted =
     catches (activateDriver fleet principalId)
       (\<lambda>e. andThen (if promoted \<and> untouched_fleet e then restoreCustomer user principalId else returns ())
            (\<lambda>_. throws (refusalOf e)))"

definition approved :: "UserEntity \<Rightarrow> string \<Rightarrow> FleetActivation \<Rightarrow> ApproveCourierOutput act" where
  "approved user principalId activation =
     andThen (recordApproved \<lparr>cf_userId = u_id user, cf_principalId = principalId, cf_driverId = fa_driverId activation\<rparr>)
     (\<lambda>_. returns \<lparr>ac_principalId = principalId, ac_email = u_email user, ac_role = u_role user,
        ac_driverId = Some (fa_driverId activation), ac_fleetActivated = True\<rparr>)"

definition account_of_principal :: "string \<Rightarrow> UserEntity act" where
  "account_of_principal principalId =
     andThen (userIdForPrincipal principalId)
     (\<lambda>userId. case userId of
        None \<Rightarrow> throws (NotFoundException ''No account is registered under that principal'')
      | Some i \<Rightarrow> andThen (findById i)
          (\<lambda>found. case found of
             None \<Rightarrow> throws (NotFoundException ''No account is registered under that principal'')
           | Some user \<Rightarrow> returns user))"

definition approveCourier :: "FleetEnv \<Rightarrow> string \<Rightarrow> ApproveCourierOutput act" where
  "approveCourier fleet principalId =
     andThen (account_of_principal principalId)
     (\<lambda>user. andThen (findByUser (u_id user))
     (\<lambda>application.
        if map_option cv_status application = Some CRejected
        then throws (ConflictException ''it can be approved only after the courier registers the vehicle again'')
        else if u_role user = Courier then
          andThen (activateInFleet fleet user principalId False) (approved user principalId)
        else if u_role user \<noteq> Customer then throws (ConflictException ''promoting it to courier would revoke that role'')
        else
          (let courier = user\<lparr>u_role := Courier\<rparr> in
           andThen (saveUser courier)
           (\<lambda>_. andThen (syncKind principalId (u_role courier))
           (\<lambda>_. andThen (activateInFleet fleet courier principalId True) (approved courier principalId))))))"

definition pendingCourierApplication :: "nat \<Rightarrow> CourierApplicationView act" where
  "pendingCourierApplication userId =
     andThen (findByUser userId)
     (\<lambda>found. case found of
        None \<Rightarrow> throws (NotFoundException ''No courier application is filed under that principal'')
      | Some a \<Rightarrow> if cv_status a \<noteq> CPending then throws (ConflictException ''The courier application is not pending'') else returns a)"

definition rejectCourier :: "string \<Rightarrow> CourierApplicationView act" where
  "rejectCourier principalId =
     andThen (account_of_principal principalId)
     (\<lambda>user. andThen (pendingCourierApplication (u_id user))
     (\<lambda>_. if u_role user = Courier then throws (ConflictException ''an approval began and did not finish'')
        else
          andThen (recordRejected (u_id user))
          (\<lambda>done. if \<not> done
             then andThen (pendingCourierApplication (u_id user)) (\<lambda>_. throws (PlainError ''the application stayed pending through a rejection''))
             else
               andThen (findByUser (u_id user))
               (\<lambda>found. case found of
                  None \<Rightarrow> throws (NotFoundException ''No courier application is filed under that principal'')
                | Some rejected \<Rightarrow> returns rejected))))"

section \<open>The steps of an approval\<close>

text \<open>Asking the fleet changes nothing here but the list of outgoing calls, and the answer depends on nothing else.\<close>

lemma activateDriver_frame: "\<exists>calls. snd (activateDriver fleet pid w) = w\<lparr>outbox := calls\<rparr>"
proof -
  have same: "w = w\<lparr>outbox := outbox w\<rparr>" by simp
  show ?thesis
    by (cases "fleet_activate fleet pid (length (outbox w))")
      (auto simp: activateDriver_def dispatch_def call_def accepted_reply_def andThen_run Let_def intro: same)
qed

lemma activateDriver_answer: "outbox t = outbox w \<Longrightarrow> fst (activateDriver fleet pid t) = fst (activateDriver fleet pid w)"
  by (cases "fleet_activate fleet pid (length (outbox w))")
    (simp_all add: activateDriver_def dispatch_def call_def accepted_reply_def andThen_run Let_def)

lemma account_of_principal_Inr:
  assumes "account_of_principal pid w = (Inr u, t)"
  obtains i where "t = w" "userIdForPrincipal pid w = (Inr (Some i), w)" "map_option toUserEntity (user_row i w) = Some u" "u_id u = i"
  using assms by (auto simp: account_of_principal_def userIdForPrincipal_def andThen_run dest: user_row_Some split: option.splits)

text \<open>Promoting and demoting a customer leaves the table of accounts as it was.\<close>

lemma saveUser_role:
  assumes "users_ok w" and "user_row i w = Some r" and "u = toUserEntity r"
  shows "saveUser (u\<lparr>u_role := x\<rparr>) w =
    (Inr (u\<lparr>u_role := x\<rparr>), w\<lparr>users := update_where (\<lambda>q. u_id q = i) (\<lambda>q. q\<lparr>u_role := x\<rparr>) (users w)\<rparr>)"
proof -
  have r: "r \<in> set (users w)" "u_id r = i" using user_row_Some [OF assms(2)] by simp_all
  with assms(1) have pos: "0 < i" by (auto simp: users_ok_def)
  have other: "\<not> (\<exists>q \<in> set (users w). u_id q \<noteq> i \<and> js_toLowerCase (u_email q) = js_toLowerCase (u_email r))"
    using r assms(1) by (auto simp: users_ok_def distinct_map inj_on_def)
  have "overwrite_user (u\<lparr>u_role := x\<rparr>) q = q\<lparr>u_role := x\<rparr>" if "q \<in> set (users w)" "u_id q = i" for q
  proof -
    have "q = r" using that r assms(1) by (auto simp: users_ok_def distinct_map inj_on_def)
    then show ?thesis by (cases r) (simp add: overwrite_user_def assms(3))
  qed
  then have "update_where (\<lambda>q. u_id q = i) (overwrite_user (u\<lparr>u_role := x\<rparr>)) (users w)
      = update_where (\<lambda>q. u_id q = i) (\<lambda>q. q\<lparr>u_role := x\<rparr>) (users w)"
    by (auto simp: update_where_def)
  with r pos other show ?thesis by (auto simp: saveUser_unfold assms(3) toUserEntity_def)
qed

lemma update_where_undo:
  assumes "\<And>q. q \<in> set rows \<Longrightarrow> P q \<Longrightarrow> g (f q) = q" and "\<And>q. P (f q) = P q"
  shows "update_where P g (update_where P f rows) = rows"
  using assms(1) by (induction rows) (simp_all add: update_where_def assms(2))

lemma syncKind_kind:
  assumes "p \<in> set (principals (snd (syncKind pid role w)))" and "pr_id p = pid"
  shows "pr_kind p = principalKindForRole role"
proof -
  have "principals (snd (syncKind pid role w)) =
      update_where (\<lambda>q. pr_id q = pid) (\<lambda>q. q\<lparr>pr_kind := principalKindForRole role\<rparr>) (principals w)" by (simp add: syncKind_def)
  with assms(1) have "p \<in> (\<lambda>q. if pr_id q = pid then q\<lparr>pr_kind := principalKindForRole role\<rparr> else q) ` set (principals w)"
    by (simp only: set_update_where)
  then obtain q where p: "p = (if pr_id q = pid then q\<lparr>pr_kind := principalKindForRole role\<rparr> else q)" by (rule imageE)
  show ?thesis
  proof (cases "pr_id q = pid")
    case True
    then show ?thesis by (simp add: p)
  next
    case False
    with p assms(2) show ?thesis by simp
  qed
qed

text \<open>The state in which the fleet is asked: the account a courier, its principal a driver.\<close>

definition promoted :: "nat \<Rightarrow> string \<Rightarrow> world \<Rightarrow> world" where
  "promoted i pid w = snd (syncKind pid Courier (w\<lparr>users := update_where (\<lambda>q. u_id q = i) (\<lambda>q. q\<lparr>u_role := Courier\<rparr>) (users w)\<rparr>))"

lemma promoted_frame [simp]:
  "outbox (promoted i pid w) = outbox w" "courier_applications (promoted i pid w) = courier_applications w"
  "courier_seq (promoted i pid w) = courier_seq w" "aliases (promoted i pid w) = aliases w" "clock (promoted i pid w) = clock w"
  "users (promoted i pid w) = update_where (\<lambda>q. u_id q = i) (\<lambda>q. q\<lparr>u_role := Courier\<rparr>) (users w)"
  by (simp_all add: promoted_def syncKind_def)

lemma users_ok_role:
  "users_ok w \<Longrightarrow> users t = update_where (\<lambda>q. u_id q = i) (\<lambda>q. q\<lparr>u_role := x\<rparr>) (users w) \<Longrightarrow> user_seq t = user_seq w \<Longrightarrow> users_ok t"
  by (auto simp: users_ok_def map_update_where_key set_update_where)

lemma promoted_users_ok: "users_ok w \<Longrightarrow> users_ok (promoted i pid w)"
  by (rule users_ok_role) (simp_all add: promoted_def syncKind_def)

lemma promoted_row: "user_row i w = Some r \<Longrightarrow> user_row i (promoted i pid w) = Some (r\<lparr>u_role := Courier\<rparr>)"
  using user_row_Some [of i w r] by (simp add: user_row_def find_update_where_key)

lemma approveCourier_promotes:
  assumes "users_ok w" and "account_of_principal pid w = (Inr u, w)" and "u_role u = Customer"
    and "findByUser (u_id u) w = (Inr app, w)" and "map_option cv_status app \<noteq> Some CRejected"
  shows "approveCourier fleet pid w =
    andThen (activateInFleet fleet (u\<lparr>u_role := Courier\<rparr>) pid True) (approved (u\<lparr>u_role := Courier\<rparr>) pid) (promoted (u_id u) pid w)"
proof -
  from assms(2) obtain r where r: "user_row (u_id u) w = Some r" "u = toUserEntity r"
    by (elim account_of_principal_Inr) auto
  note save = saveUser_role [OF assms(1) r]
  show ?thesis using assms(2-5) by (cases app) (simp_all add: approveCourier_def andThen_run save Let_def promoted_def syncKind_def)
qed

lemma approval_undone:
  assumes "users_ok w" and "account_of_principal pid w = (Inr u, w)" and "u_role u = Customer"
    and "findByUser (u_id u) w = (Inr app, w)" and "map_option cv_status app \<noteq> Some CRejected"
    and "fst (activateDriver fleet pid w) = Inl e" and "untouched_fleet e"
  shows "\<exists>t. approveCourier fleet pid w = (Inl (refusalOf e), t) \<and> users t = users w
    \<and> courier_applications t = courier_applications w
    \<and> (\<forall>p \<in> set (principals t). pr_id p = pid \<longrightarrow> pr_kind p = PRINCIPAL_KIND_CUSTOMER)"
proof -
  let ?i = "u_id u" and ?c = "u\<lparr>u_role := Courier\<rparr>"
  from assms(2) obtain r where r: "user_row ?i w = Some r" "u = toUserEntity r" by (elim account_of_principal_Inr) auto
  obtain calls where asked: "activateDriver fleet pid (promoted ?i pid w) = (Inl e, (promoted ?i pid w)\<lparr>outbox := calls\<rparr>)"
    using activateDriver_frame [of fleet pid "promoted ?i pid w"] activateDriver_answer [of "promoted ?i pid w" w fleet pid] assms(6)
    by (auto simp: prod_eq_iff)
  let ?w = "(promoted ?i pid w)\<lparr>outbox := calls\<rparr>"
  have ok: "users_ok ?w" using promoted_users_ok [OF assms(1)] by (simp add: users_ok_def)
  have row: "user_row ?i ?w = Some (r\<lparr>u_role := Courier\<rparr>)" using promoted_row [OF r(1)] by (simp add: user_row_def)
  have c: "?c = toUserEntity (r\<lparr>u_role := Courier\<rparr>)" by (simp add: r(2) toUserEntity_def UserEntity.defs)
  note demoted = saveUser_role [OF ok row c, of Customer]
  have only: "q = r" if "q \<in> set (users w)" "u_id q = ?i" for q
    using that user_row_Some [OF r(1)] assms(1) by (auto simp: users_ok_def distinct_map inj_on_def)
  have "u_role r = Customer" using assms(3) r(2) by simp
  then have undone: "update_where (\<lambda>q. u_id q = ?i) (\<lambda>q. q\<lparr>u_role := Customer\<rparr>)
      (update_where (\<lambda>q. u_id q = ?i) (\<lambda>q. q\<lparr>u_role := Courier\<rparr>) (users w)) = users w"
    by (intro update_where_undo) (auto dest: only)
  let ?t = "snd (syncKind pid Customer (?w\<lparr>users := users w\<rparr>))"
  have "saveUser (u\<lparr>u_role := Customer\<rparr>) ?w = (Inr (u\<lparr>u_role := Customer\<rparr>), ?w\<lparr>users := users w\<rparr>)"
    using demoted undone by simp
  then have "restoreCustomer ?c pid ?w = (Inr (), ?t)" by (simp add: restoreCustomer_def andThen_run syncKind_def)
  then have "activateInFleet fleet ?c pid True (promoted ?i pid w) = (Inl (refusalOf e), ?t)"
    by (simp add: activateInFleet_def catches_run asked assms(7) andThen_run)
  then have run: "approveCourier fleet pid w = (Inl (refusalOf e), ?t)"
    by (simp add: approveCourier_promotes [OF assms(1-5)] andThen_run)
  have "users ?t = users w" "courier_applications ?t = courier_applications w" by (simp_all add: syncKind_def)
  moreover have "\<forall>p \<in> set (principals ?t). pr_id p = pid \<longrightarrow> pr_kind p = PRINCIPAL_KIND_CUSTOMER"
    by (intro ballI impI) (simp add: syncKind_kind [of _ pid Customer])
  ultimately show ?thesis using run by (intro exI [of _ ?t] conjI)
qed

text \<open>
  What the fleet's answer means. It declined when it answered that the activation was refused, when
  the error is one the server gives before it looks at the request, or when the installed contract
  has no such method; it is unclear whether it acted when any other error came back, and the code
  takes a mesh identity that does not load for that too. Otherwise it accepted.
\<close>

fun fleet_declined :: "FleetAnswer \<Rightarrow> bool" where
  "fleet_declined (Replied reply) \<longleftrightarrow> \<not> fr_success reply"
| "fleet_declined (ServiceError code _ _) \<longleftrightarrow> code \<in> {INVALID_ARGUMENT, PERMISSION_DENIED, UNAUTHENTICATED, UNIMPLEMENTED}"
| "fleet_declined (NoIdentity _) \<longleftrightarrow> False"
| "fleet_declined _ \<longleftrightarrow> True"

fun fleet_unclear :: "FleetAnswer \<Rightarrow> bool" where
  "fleet_unclear (ServiceError code _ _) \<longleftrightarrow> code \<notin> {INVALID_ARGUMENT, PERMISSION_DENIED, UNAUTHENTICATED, UNIMPLEMENTED}"
| "fleet_unclear (NoIdentity _) \<longleftrightarrow> True"
| "fleet_unclear _ \<longleftrightarrow> False"

lemmas fleet_answers = activateDriver_def dispatch_def call_def accepted_reply_def andThen_run Let_def refusal_def
  transportFailure_def certainlyUntouched_def untouched_fleet_def definitelyDidNothing_def refusalOf_def NO_VEHICLE_def isFault_def

lemma activateDriver_declined:
  assumes "fleet_declined (fleet_activate fleet pid (length (outbox w)))"
  obtains e where "fst (activateDriver fleet pid w) = Inl e" "untouched_fleet e"
    "refusalOf e = ConflictException ''NO_DRIVER_RECORD'' \<or> (\<exists>code. refusalOf e = BadGatewayException code)"
  using assms by (cases "fleet_activate fleet pid (length (outbox w))") (auto simp: fleet_answers)

lemma activateDriver_unclear:
  assumes "fleet_unclear (fleet_activate fleet pid (length (outbox w)))"
  obtains e where "fst (activateDriver fleet pid w) = Inl e" "\<not> untouched_fleet e"
    "(\<exists>code. refusalOf e = ServiceUnavailableException code) \<or> (\<exists>message. refusalOf e = PlainError message)"
  using assms by (cases "fleet_activate fleet pid (length (outbox w))") (auto simp: fleet_answers)

text \<open>
  C14. An approval the fleet declined leaves everything as it was. The account is a customer or a courier and its
  application, if it filed one, was not rejected. When the fleet declines the activation (it refuses it, the
  call failed with a status that says it was not taken, or the contract has no such method), the approval fails without asking to approve again, the
  accounts and the applications are exactly as before; a customer's principal is a customer's again, and on a
  repeated approval of a courier the directory is not touched and the account stays a courier.
\<close>

theorem refused_activation_restores_customer:
  assumes "users_ok w" and "account_of_principal pid w = (Inr u, w)" and "u_role u \<in> {Customer, Courier}"
    and "findByUser (u_id u) w = (Inr app, w)" and "map_option cv_status app \<noteq> Some CRejected"
    and "fleet_declined (fleet_activate fleet pid (length (outbox w)))"
  shows "\<exists>e t. approveCourier fleet pid w = (Inl e, t)
    \<and> (e = ConflictException ''NO_DRIVER_RECORD'' \<or> (\<exists>code. e = BadGatewayException code))
    \<and> users t = users w \<and> courier_applications t = courier_applications w
    \<and> (if u_role u = Courier then principals t = principals w
       else \<forall>p \<in> set (principals t). pr_id p = pid \<longrightarrow> pr_kind p = PRINCIPAL_KIND_CUSTOMER)"
proof -
  from assms(6) obtain e where e: "fst (activateDriver fleet pid w) = Inl e" "untouched_fleet e"
    "refusalOf e = ConflictException ''NO_DRIVER_RECORD'' \<or> (\<exists>code. refusalOf e = BadGatewayException code)"
    by (rule activateDriver_declined)
  show ?thesis
  proof (cases "u_role u = Courier")
    case True
    obtain calls where asked: "activateDriver fleet pid w = (Inl e, w\<lparr>outbox := calls\<rparr>)"
      using activateDriver_frame [of fleet pid w] e(1) by (auto simp: prod_eq_iff)
    have "approveCourier fleet pid w = (Inl (refusalOf e), w\<lparr>outbox := calls\<rparr>)"
      using assms(2,4,5) True asked by (cases app) (simp_all add: approveCourier_def activateInFleet_def andThen_run catches_run)
    with e(3) True show ?thesis by (intro exI [of _ "refusalOf e"] exI [of _ "w\<lparr>outbox := calls\<rparr>"]) simp
  next
    case False
    with assms(3) have "u_role u = Customer" by simp
    from approval_undone [OF assms(1,2) this assms(4,5) e(1,2)] obtain t where
      "approveCourier fleet pid w = (Inl (refusalOf e), t)" "users t = users w" "courier_applications t = courier_applications w"
      "\<forall>p \<in> set (principals t). pr_id p = pid \<longrightarrow> pr_kind p = PRINCIPAL_KIND_CUSTOMER" by blast
    with e(3) False show ?thesis by (intro exI [of _ "refusalOf e"] exI [of _ t]) simp
  qed
qed

section \<open>An approval that was cut off\<close>

definition couriers_ok :: "world \<Rightarrow> bool" where
  "couriers_ok w \<longleftrightarrow> distinct (map co_userId (courier_applications w)) \<and> (\<forall>r \<in> set (courier_applications w). co_id r < courier_seq w)"

lemma findByUser_run:
  assumes "user_row i w \<noteq> None"
  shows "\<exists>app. findByUser i w = (Inr app, w) \<and>
    map_option cv_status app = map_option co_status (find (\<lambda>r. co_userId r = i) (courier_applications w))"
proof -
  have same: "(\<lambda>r. co_userId r = i \<and> joined co_userId r w) = (\<lambda>r. co_userId r = i)" using assms by (auto simp: joined_def)
  from assms obtain u where u: "user_row i w = Some u" by blast
  show ?thesis
  proof (cases "find (\<lambda>r. co_userId r = i) (courier_applications w)")
    case None
    then show ?thesis by (simp add: findByUser_def same)
  next
    case (Some r)
    with u find_Some_mem [OF Some] show ?thesis by (simp add: findByUser_def same andThen_run toView_def emailOf_def)
  qed
qed

lemma recordApproved_run:
  assumes "couriers_ok w" and "user_row i w \<noteq> None" and "pid \<in> pr_id ` set (principals w)"
  obtains r t where "recordApproved \<lparr>cf_userId = i, cf_principalId = pid, cf_driverId = d\<rparr> w = (Inr (), t)"
    "find (\<lambda>r. co_userId r = i) (courier_applications t) = Some r" "co_status r = CApproved" "co_driverId r = Some d" "users t = users w"
proof -
  have pid: "\<not> (\<forall>p \<in> set (principals w). pr_id p \<noteq> pid)" using assms(3) by auto
  have fresh: "\<not> (\<exists>r \<in> set (courier_applications w). co_id r = courier_seq w)" using assms(1) by (auto simp: couriers_ok_def)
  show ?thesis
  proof (cases "find (\<lambda>r. co_userId r = i) (courier_applications w)")
    case None
    then have none: "\<not> (\<exists>r \<in> set (courier_applications w). co_userId r = i)" by (auto simp: find_None_iff)
    let ?r = "\<lparr>co_id = courier_seq w, co_userId = i, co_principalId = pid, co_driverId = Some d, co_status = CApproved,
      co_filedAt = clock w, co_approvedAt = Some (clock w), co_rejectedAt = None\<rparr>"
    have "recordApproved \<lparr>cf_userId = i, cf_principalId = pid, cf_driverId = d\<rparr> w = (Inr (),
        w\<lparr>courier_seq := Suc (courier_seq w), courier_applications := courier_applications w @ [?r]\<rparr>)"
      using assms(2) pid fresh none by (simp add: recordApproved_def write_filing_def upsert_filing_def catches_run Let_def)
    then show ?thesis by (rule that [of _ ?r]) (simp_all add: find_append None)
  next
    case (Some r)
    then have some: "\<exists>r \<in> set (courier_applications w). co_userId r = i" "co_userId r = i" by (auto dest: find_Some_mem)
    let ?f = "\<lambda>r. r\<lparr>co_principalId := pid, co_driverId := Some d, co_status := CApproved,
        co_approvedAt := (case co_approvedAt r of None \<Rightarrow> Some (clock w) | Some a \<Rightarrow> Some a), co_rejectedAt := None\<rparr>"
    have "recordApproved \<lparr>cf_userId = i, cf_principalId = pid, cf_driverId = d\<rparr> w = (Inr (),
        w\<lparr>courier_seq := Suc (courier_seq w), courier_applications := update_where (\<lambda>r. co_userId r = i) ?f (courier_applications w)\<rparr>)"
      using assms(2) pid some(1) by (simp add: recordApproved_def write_filing_def upsert_filing_def catches_run Let_def)
    then show ?thesis by (rule that [of _ "?f r"]) (simp_all add: find_update_where_key Some some(2))
  qed
qed

lemma approval_resumed:
  assumes "users_ok w" and "couriers_ok w" and "account_of_principal pid w = (Inr u, w)" and "u_role u = Customer"
    and "findByUser (u_id u) w = (Inr app, w)" and "map_option cv_status app \<noteq> Some CRejected"
    and "pid \<in> pr_id ` set (principals w)"
    and "fst (activateDriver fleet pid w) = Inl e" and "\<not> untouched_fleet e"
    and "fst (activateDriver later pid (snd (approveCourier fleet pid w))) = Inr activation"
  shows "\<exists>t out t'. approveCourier fleet pid w = (Inl (refusalOf e), t) \<and> courier_applications t = courier_applications w
    \<and> users t = update_where (\<lambda>q. u_id q = u_id u) (\<lambda>q. q\<lparr>u_role := Courier\<rparr>) (users w)
    \<and> (\<forall>p \<in> set (principals t). pr_id p = pid \<longrightarrow> pr_kind p = PRINCIPAL_KIND_DRIVER)
    \<and> approveCourier later pid t = (Inr out, t') \<and> ac_role out = Courier \<and> users t' = users t
    \<and> (\<exists>r. find (\<lambda>r. co_userId r = u_id u) (courier_applications t') = Some r \<and> co_status r = CApproved
         \<and> co_driverId r = Some (fa_driverId activation))"
proof -
  let ?i = "u_id u" and ?c = "u\<lparr>u_role := Courier\<rparr>" and ?p = "promoted (u_id u) pid w"
  from assms(3) obtain r where r: "user_row ?i w = Some r" "u = toUserEntity r"
    and alias_i: "userIdForPrincipal pid w = (Inr (Some ?i), w)" by (elim account_of_principal_Inr) auto
  obtain calls where asked: "activateDriver fleet pid ?p = (Inl e, ?p\<lparr>outbox := calls\<rparr>)"
    using activateDriver_frame [of fleet pid ?p] activateDriver_answer [of ?p w fleet pid] assms(8) by (auto simp: prod_eq_iff)
  let ?t = "?p\<lparr>outbox := calls\<rparr>"
  have run: "approveCourier fleet pid w = (Inl (refusalOf e), ?t)"
    using asked assms(9) by (simp add: approveCourier_promotes [OF assms(1,3-6)] activateInFleet_def andThen_run catches_run)
  have row: "user_row ?i ?t = Some (r\<lparr>u_role := Courier\<rparr>)" using promoted_row [OF r(1)] by (simp add: user_row_def)
  have c: "toUserEntity (r\<lparr>u_role := Courier\<rparr>) = ?c" by (simp add: r(2) toUserEntity_def UserEntity.defs)
  have "userIdForPrincipal pid ?t = (Inr (Some ?i), ?t)" using alias_i by (simp add: userIdForPrincipal_def)
  with row c have who: "account_of_principal pid ?t = (Inr ?c, ?t)" by (simp add: account_of_principal_def andThen_run)
  obtain a where a: "findByUser ?i ?t = (Inr a, ?t)"
    "map_option cv_status a = map_option co_status (find (\<lambda>r. co_userId r = ?i) (courier_applications ?t))"
    using findByUser_run [of ?i ?t] row by auto
  obtain b where b: "findByUser ?i w = (Inr b, w)"
    "map_option cv_status b = map_option co_status (find (\<lambda>r. co_userId r = ?i) (courier_applications w))"
    using findByUser_run [of ?i w] r(1) by auto
  have filed: "map_option cv_status a \<noteq> Some CRejected" using a(2) b assms(5,6) by simp
  obtain calls' where act: "activateDriver later pid ?t = (Inr activation, ?t\<lparr>outbox := calls'\<rparr>)"
    using activateDriver_frame [of later pid ?t] assms(10) run by (auto simp: prod_eq_iff)
  let ?v = "?t\<lparr>outbox := calls'\<rparr>"
  have "couriers_ok ?v" using assms(2) by (simp add: couriers_ok_def)
  moreover have "user_row ?i ?v \<noteq> None" using row by (simp add: user_row_def)
  moreover have "pid \<in> pr_id ` set (principals ?v)"
  proof -
    have "map pr_id (principals ?v) = map pr_id (principals w)" by (simp add: promoted_def syncKind_def map_update_where_key)
    then have "pr_id ` set (principals ?v) = pr_id ` set (principals w)" by (metis set_map)
    with assms(7) show ?thesis by simp
  qed
  ultimately obtain q t' where rec: "recordApproved \<lparr>cf_userId = ?i, cf_principalId = pid, cf_driverId = fa_driverId activation\<rparr> ?v = (Inr (), t')"
    and q: "find (\<lambda>r. co_userId r = ?i) (courier_applications t') = Some q" "co_status q = CApproved" "co_driverId q = Some (fa_driverId activation)"
      "users t' = users ?v"
    by (rule recordApproved_run)
  have "approveCourier later pid ?t = (Inr \<lparr>ac_principalId = pid, ac_email = u_email u, ac_role = Courier,
      ac_driverId = Some (fa_driverId activation), ac_fleetActivated = True\<rparr>, t')"
    using who a(1) filed act rec
    by (cases a) (simp_all add: approveCourier_def andThen_run activateInFleet_def catches_run approved_def)
  moreover have "\<forall>p \<in> set (principals ?t). pr_id p = pid \<longrightarrow> pr_kind p = PRINCIPAL_KIND_DRIVER"
    by (intro ballI impI) (simp add: promoted_def syncKind_kind [of _ pid Courier])
  ultimately show ?thesis using run q by (intro exI conjI) auto
qed

text \<open>
  C13. An approval whose outcome is unclear can be finished. The account is a customer whose application, if it
  filed one, was not rejected. When the call to the fleet fails so that it is not clear whether the fleet acted,
  or because the mesh identity does not load, which the code treats the same, the approval fails, the account is a courier and its principal a driver's, nothing else of the accounts and
  nothing of the applications has changed; approving again, once the fleet accepts, returns, leaves the account a
  courier, and the application is then approved with the driver the fleet names.
\<close>

theorem unknown_activation_can_be_finished:
  assumes "users_ok w" and "couriers_ok w" and "account_of_principal pid w = (Inr u, w)" and "u_role u = Customer"
    and "findByUser (u_id u) w = (Inr app, w)" and "map_option cv_status app \<noteq> Some CRejected"
    and "pid \<in> pr_id ` set (principals w)"
    and "fleet_unclear (fleet_activate fleet pid (length (outbox w)))"
    and "approveCourier fleet pid w = (r, t)"
    and "fleet_activate later pid (length (outbox t)) = Replied reply" and "fr_success reply"
  shows "((\<exists>code. r = Inl (ServiceUnavailableException code)) \<or> (\<exists>message. r = Inl (PlainError message)))
    \<and> users t = update_where (\<lambda>q. u_id q = u_id u) (\<lambda>q. q\<lparr>u_role := Courier\<rparr>) (users w)
    \<and> (\<forall>p \<in> set (principals t). pr_id p = pid \<longrightarrow> pr_kind p = PRINCIPAL_KIND_DRIVER)
    \<and> courier_applications t = courier_applications w
    \<and> (\<exists>out t'. approveCourier later pid t = (Inr out, t') \<and> ac_role out = Courier \<and> users t' = users t
        \<and> (\<exists>a. find (\<lambda>a. co_userId a = u_id u) (courier_applications t') = Some a \<and> co_status a = CApproved
             \<and> co_driverId a = Some (fr_driver_id reply)))"
proof -
  from assms(8) obtain e where e: "fst (activateDriver fleet pid w) = Inl e" "\<not> untouched_fleet e"
    "(\<exists>code. refusalOf e = ServiceUnavailableException code) \<or> (\<exists>message. refusalOf e = PlainError message)"
    by (rule activateDriver_unclear)
  have "fst (activateDriver later pid (snd (approveCourier fleet pid w)))
      = Inr \<lparr>fa_driverId = fr_driver_id reply, fa_alreadyActive = fr_already reply\<rparr>"
    using assms(9-11) by (simp add: activateDriver_def dispatch_def call_def accepted_reply_def andThen_run)
  from approval_resumed [OF assms(1-7) e(1,2) this] assms(9) obtain out t' where
    "r = Inl (refusalOf e)" "courier_applications t = courier_applications w"
    "users t = update_where (\<lambda>q. u_id q = u_id u) (\<lambda>q. q\<lparr>u_role := Courier\<rparr>) (users w)"
    "\<forall>p \<in> set (principals t). pr_id p = pid \<longrightarrow> pr_kind p = PRINCIPAL_KIND_DRIVER"
    and again: "approveCourier later pid t = (Inr out, t')" "ac_role out = Courier" "users t' = users t"
      "\<exists>a. find (\<lambda>a. co_userId a = u_id u) (courier_applications t') = Some a \<and> co_status a = CApproved
         \<and> co_driverId a = Some (fr_driver_id reply)" by auto
  with e(3) show ?thesis by (intro conjI exI [of _ out] exI [of _ t']) auto
qed

section \<open>The life of an application\<close>

inductive courier_table_step :: "world \<Rightarrow> world \<Rightarrow> bool" where
  filing: "recordFiled f w = (r, t) \<Longrightarrow> courier_table_step w t"
| approving_courier: "recordApproved f w = (r, t) \<Longrightarrow> courier_table_step w t"
| rejecting: "recordRejected i w = (r, t) \<Longrightarrow> courier_table_step w t"
| other_tables: "courier_applications t = courier_applications w \<Longrightarrow> courier_table_step w t"

definition approved_as :: "nat \<Rightarrow> world \<Rightarrow> bool" where
  "approved_as i w \<longleftrightarrow> (\<exists>r \<in> set (courier_applications w). co_userId r = i \<and> co_status r = CApproved)"

lemma approved_as_update:
  assumes "approved_as i w" and "courier_applications t = update_where P f (courier_applications w)"
    and "\<And>r. co_userId (f r) = co_userId r" and "\<And>r. P r \<Longrightarrow> co_status r = CApproved \<Longrightarrow> co_status (f r) = CApproved"
  shows "approved_as i t"
proof -
  obtain r where r: "r \<in> set (courier_applications w)" "co_userId r = i" "co_status r = CApproved" using assms(1) by (auto simp: approved_as_def)
  then have "(if P r then f r else r) \<in> set (courier_applications t)" by (auto simp: assms(2) set_update_where image_iff)
  with r assms(3,4) show ?thesis by (auto simp: approved_as_def split: if_splits)
qed

lemma upsert_cases:
  assumes "write_filing (upsert_filing f new change) w = (r, t)"
  obtains "courier_applications t = courier_applications w"
  | "courier_applications t = update_where (\<lambda>r. co_userId r = cf_userId f) change (courier_applications w)"
  | i where "courier_applications t = courier_applications w @ [new i]"
  using assms by (auto simp: write_filing_def upsert_filing_def catches_run Let_def split: if_splits)

lemma approved_as_upsert:
  assumes "approved_as i w" and "write_filing (upsert_filing f new change) w = (r, t)"
    and "\<And>r. co_userId (change r) = co_userId r" and "\<And>r. co_status r = CApproved \<Longrightarrow> co_status (change r) = CApproved"
  shows "approved_as i t"
  using assms(2)
proof (cases rule: upsert_cases)
  case 1
  with assms(1) show ?thesis by (simp add: approved_as_def)
next
  case 2
  with assms show ?thesis by (intro approved_as_update [OF assms(1) 2]) simp_all
next
  case (3 j)
  with assms(1) show ?thesis by (auto simp: approved_as_def)
qed

interpretation approved_courier: invariant_machine "approved_as i" courier_table_step "approved_as i" for i
proof unfold_locales
  fix s t
  assume inv: "approved_as i s" and "courier_table_step s t"
  from this(2) show "approved_as i t"
  proof cases
    case (filing f r)
    then show ?thesis unfolding recordFiled_def andThen_reads by (rule approved_as_upsert [OF inv]) simp_all
  next
    case (approving_courier f r)
    then show ?thesis unfolding recordApproved_def andThen_reads by (rule approved_as_upsert [OF inv]) simp_all
  next
    case (rejecting j r)
    then have "courier_applications t = update_where (\<lambda>r. co_userId r = j \<and> co_status r = CPending)
        (\<lambda>r. r\<lparr>co_status := CRejected, co_rejectedAt := Some (clock s)\<rparr>) (courier_applications s)"
      by (auto simp: recordRejected_def Let_def)
    then show ?thesis by (rule approved_as_update [OF inv]) simp_all
  next
    case other_tables
    with inv show ?thesis by (simp add: approved_as_def)
  qed
qed

text \<open>
  C30. An approved courier stays approved: whatever filings, approvals and rejections are written afterwards, in
  any order, the application is never rejected or pending again.
\<close>

theorem approved_courier_stays_approved:
  "approved_as i w \<Longrightarrow> courier_table_step\<^sup>*\<^sup>* w t \<Longrightarrow> approved_as i t"
  by (rule approved_courier.inv_steps)

section \<open>Whose account a vehicle is filed under\<close>

text \<open>
  C31. A vehicle is filed under an existing account only by someone who knows its password. When a courier
  registration returns and the address already had an account, the password sent was that account's, the
  account is a customer's or a courier's without a second factor, and the session is for that account.
\<close>

theorem resumed_registration_needs_password:
  assumes "registerCourier env geo fleet dto context w = (Inr out, t)"
    and "findByEmail (normalisedEmail (rc_email dto)) w = (Inr (Some existing), w)"
  shows "\<exists>r \<in> set (users w). js_toLowerCase (u_email r) = normalisedEmail (rc_email dto)
    \<and> bcrypt_compare env (rc_password dto) (u_passwordHash r) \<and> u_role r \<in> {Customer, Courier} \<and> \<not> u_isTwoFactorEnabled r
    \<and> at_userId (ro_session out) = u_id r"
proof -
  from assms(1) obtain session v where "sessionFor env dto context w = (Inr session, v)" and session: "session = ro_session out"
    by (auto simp: registerCourier_def elim!: andThen_InrE)
  with assms(2) have "resume env dto context w = (Inr session, v)" by (simp add: sessionFor_def andThen_run del: findByEmail_run)
  then obtain u v' where u: "catches (verifyPassword env (rc_email dto) (rc_password dto) context) (\<lambda>e. case e of
             UnauthorizedException _ \<Rightarrow> throws (ConflictException ''An account with that email address already exists'')
           | _ \<Rightarrow> throws e) w = (Inr u, v')"
    and role: "u_role u \<in> set ROLES_THAT_MAY_DRIVE" "\<not> u_isTwoFactorEnabled u" and start: "startSession env u context v' = (Inr session, v)"
    unfolding resume_def by (elim andThen_InrE) (simp split: if_splits)
  from u have "verifyPassword env (rc_email dto) (rc_password dto) context w = (Inr u, v')"
    by (auto simp: catches_run split: prod.splits sum.splits failure.splits)
  then obtain r where r: "r \<in> set (users w)" "js_toLowerCase (u_email r) = normalisedEmail (rc_email dto)" "u = toUserEntity r"
    "bcrypt_compare env (rc_password dto) (u_passwordHash r)" by (rule verifyPassword_Inr)
  from start have "at_userId session = u_id u"
    by (auto simp: startSession_def Let_def tokenOutput_def elim!: andThen_InrE split: if_splits)
  with r role session show ?thesis by (intro bexI [of _ r]) (simp_all add: ROLES_THAT_MAY_DRIVE_def)
qed

section \<open>Examples\<close>

definition refusing_fleet :: FleetEnv where
  "refusing_fleet = \<lparr>fleet_register = (\<lambda>p v c n. ServiceError UNAVAILABLE [] ''down''),
     fleet_activate = (\<lambda>p n. Replied \<lparr>fr_success = False, fr_driver_id = 0, fr_already = False,
       fr_error = Some \<lparr>fe_error_code = Some ''NO_DRIVER_RECORD'', fe_message = None\<rparr>\<rparr>)\<rparr>"

definition lost_fleet :: FleetEnv where
  "lost_fleet = \<lparr>fleet_register = (\<lambda>p v c n. ServiceError UNAVAILABLE [] ''down''),
     fleet_activate = (\<lambda>p n. ServiceError DEADLINE_EXCEEDED [] ''timeout'')\<rparr>"

definition working_fleet :: FleetEnv where
  "working_fleet = \<lparr>fleet_register = (\<lambda>p v c n. Replied \<lparr>fr_success = True, fr_driver_id = 7, fr_already = False, fr_error = None\<rparr>),
     fleet_activate = (\<lambda>p n. Replied \<lparr>fr_success = True, fr_driver_id = 7, fr_already = False, fr_error = None\<rparr>)\<rparr>"

definition sample_candidate :: world where
  "sample_candidate = empty_world\<lparr>draws := 1, users := [sample_row],
     principals := [\<lparr>pr_id = ''p'', pr_kind = PRINCIPAL_KIND_CUSTOMER, pr_displayName = None\<rparr>],
     aliases := [\<lparr>al_principalId = ''p'', al_service = ''identity'', al_localId = ''1''\<rparr>],
     courier_applications := [\<lparr>co_id = 1, co_userId = 1, co_principalId = ''p'', co_driverId = Some 7, co_status = CPending,
       co_filedAt = 0, co_approvedAt = None, co_rejectedAt = None\<rparr>], courier_seq := 2\<rparr>"

definition sample_view :: CourierApplicationView where
  "sample_view = \<lparr>cv_applicationId = 1, cv_principalId = ''p'', cv_userId = 1, cv_email = ''a@b.c'', cv_driverId = Some 7,
     cv_status = CPending, cv_filedAt = 0, cv_approvedAt = None, cv_rejectedAt = None\<rparr>"

lemma sample_candidate_facts:
  "users_ok sample_candidate" "couriers_ok sample_candidate"
  "''p'' \<in> pr_id ` set (principals sample_candidate)"
  by (simp_all add: users_ok_def couriers_ok_def sample_candidate_def empty_world_def sample_row_def sample_user_def UserEntity.defs UserRow.defs)

lemma sample_candidate_runs:
  "account_of_principal ''p'' sample_candidate = (Inr (toUserEntity sample_row), sample_candidate)"
  "findByUser 1 sample_candidate = (Inr (Some sample_view), sample_candidate)"
  by code_simp+

lemma sample_row_account: "u_id (toUserEntity sample_row) = 1" "u_role (toUserEntity sample_row) = Customer"
  by (simp_all add: sample_row_def sample_user_def UserEntity.defs UserRow.defs)

theorem refused_activation_restores_customer_witness:
  "\<exists>e t. approveCourier refusing_fleet ''p'' sample_candidate = (Inl e, t) \<and> users t = [sample_row]"
proof -
  have "fleet_declined (fleet_activate refusing_fleet ''p'' (length (outbox sample_candidate)))" by (simp add: refusing_fleet_def)
  moreover have "findByUser (u_id (toUserEntity sample_row)) sample_candidate = (Inr (Some sample_view), sample_candidate)"
    using sample_candidate_runs(2) sample_row_account(1) by metis
  moreover have "map_option cv_status (Some sample_view) \<noteq> Some CRejected" by (simp add: sample_view_def)
  moreover have "u_role (toUserEntity sample_row) \<in> {Customer, Courier}" using sample_row_account(2) by blast
  ultimately obtain e t where "approveCourier refusing_fleet ''p'' sample_candidate = (Inl e, t)" "users t = users sample_candidate"
    using refused_activation_restores_customer [OF sample_candidate_facts(1) sample_candidate_runs(1), of "Some sample_view" refusing_fleet]
    by blast
  then show ?thesis by (auto simp: sample_candidate_def)
qed

theorem unknown_activation_can_be_finished_witness:
  "u_role (hd (users (snd (approveCourier lost_fleet ''p'' sample_candidate)))) = Courier
   \<and> (\<exists>out t'. approveCourier working_fleet ''p'' (snd (approveCourier lost_fleet ''p'' sample_candidate)) = (Inr out, t') \<and> ac_role out = Courier)"
proof -
  let ?t = "snd (approveCourier lost_fleet ''p'' sample_candidate)"
  let ?reply = "\<lparr>fr_success = True, fr_driver_id = 7, fr_already = False, fr_error = None\<rparr>"
  have lost: "fleet_unclear (fleet_activate lost_fleet ''p'' (length (outbox sample_candidate)))" by (simp add: lost_fleet_def)
  have run: "approveCourier lost_fleet ''p'' sample_candidate = (fst (approveCourier lost_fleet ''p'' sample_candidate), ?t)" by simp
  have works: "fleet_activate working_fleet ''p'' (length (outbox ?t)) = Replied ?reply" by (simp add: working_fleet_def)
  have view: "findByUser (u_id (toUserEntity sample_row)) sample_candidate = (Inr (Some sample_view), sample_candidate)"
    using sample_candidate_runs(2) sample_row_account(1) by metis
  have "map_option cv_status (Some sample_view) \<noteq> Some CRejected" by (simp add: sample_view_def)
  note finished = unknown_activation_can_be_finished [OF sample_candidate_facts(1,2) sample_candidate_runs(1) sample_row_account(2) view this
      sample_candidate_facts(3) lost run works]
  have "users ?t = update_where (\<lambda>q. u_id q = u_id (toUserEntity sample_row)) (\<lambda>q. q\<lparr>u_role := Courier\<rparr>) (users sample_candidate)"
    and again: "\<exists>out t'. approveCourier working_fleet ''p'' ?t = (Inr out, t') \<and> ac_role out = Courier"
    using finished by (simp, force)
  then have "u_role (hd (users ?t)) = Courier"
    by (simp add: sample_candidate_def sample_row_def sample_user_def UserEntity.defs UserRow.defs)
  with again show ?thesis by blast
qed

theorem approved_courier_stays_approved_witness:
  "approved_as 1 (snd (recordRejected 1 (snd (recordApproved \<lparr>cf_userId = 1, cf_principalId = ''p'', cf_driverId = 7\<rparr> sample_candidate))))"
proof -
  let ?w = "snd (recordApproved \<lparr>cf_userId = 1, cf_principalId = ''p'', cf_driverId = 7\<rparr> sample_candidate)"
  have "approved_as 1 ?w" by code_simp
  moreover have "courier_table_step\<^sup>*\<^sup>* ?w (snd (recordRejected 1 ?w))"
    by (intro r_into_rtranclp rejecting [of 1 _ "fst (recordRejected 1 ?w)"]) simp
  ultimately show ?thesis by (rule approved_courier_stays_approved)
qed

definition sample_driver :: RegisterCourierInput where
  "sample_driver = \<lparr>rc_email = ''A@b.c'', rc_password = ''h'', rc_fullName = ''A'', rc_phoneNumber = ''62'', rc_vehiclePlate = ''B 1'', rc_capacityKg = 5\<rparr>"

lemma sample_registration: "\<not> isl (fst (registerCourier sample_env silent_geo working_fleet sample_driver sample_context sample_candidate))"
  by code_simp

theorem resumed_registration_needs_password_witness:
  "\<exists>out t. registerCourier sample_env silent_geo working_fleet sample_driver sample_context sample_candidate = (Inr out, t)
     \<and> at_userId (ro_session out) \<in> u_id ` set (users sample_candidate)"
proof -
  obtain out t where run: "registerCourier sample_env silent_geo working_fleet sample_driver sample_context sample_candidate = (Inr out, t)"
    using returned [OF sample_registration] by blast
  have "findByEmail (normalisedEmail (rc_email sample_driver)) sample_candidate = (Inr (Some (toUserEntity sample_row)), sample_candidate)"
    by code_simp
  from resumed_registration_needs_password [OF run this] run show ?thesis by auto
qed

end
