(* ===== verification/Seller_Onboarding.thy ===== *)
theory Seller_Onboarding
  imports Paging Profiles
begin

text \<open>
  Becoming a seller: \<^verbatim>\<open>application/services/seller_onboarding_usecase.service.ts\<close> over the tables
  of stores and of seller applications (\<^verbatim>\<open>typeorm_merchant_repository.adapter.ts\<close>,
  \<^verbatim>\<open>typeorm_merchant_verification_repository.adapter.ts\<close>). A customer applies, staff approve or
  reject; an approval opens the store, gives the account the seller role and names the store in the
  directory of principals.
\<close>

section \<open>The table of stores\<close>

definition toMerchantEntity :: "MerchantRow \<Rightarrow> MerchantEntity" where
  "toMerchantEntity r = MerchantEntity.truncate r"

definition findMerchantById :: "nat \<Rightarrow> MerchantEntity option act" where
  "findMerchantById i = reads (\<lambda>w. map_option toMerchantEntity (find (\<lambda>m. m_id m = i) (merchants w)))"

definition findMerchantByUserId :: "nat \<Rightarrow> MerchantEntity option act" where
  "findMerchantByUserId userId = reads (\<lambda>w. map_option toMerchantEntity (find (\<lambda>m. m_userId m = userId) (merchants w)))"

definition findBySlug :: "string \<Rightarrow> MerchantEntity option act" where
  "findBySlug slug = reads (\<lambda>w. map_option toMerchantEntity (find (\<lambda>m. m_slug m = slug) (merchants w)))"

text \<open>
  A row that is written gets the time as its \<^verbatim>\<open>updatedAt\<close> and, by the trigger of
  \<^verbatim>\<open>migrations/1789500000000-MerchantChangeTransaction.ts\<close>, the id of the writing transaction.
  A save that changes no column writes nothing.
\<close>

definition fresh_merchant :: "int \<Rightarrow> nat \<Rightarrow> nat \<Rightarrow> MerchantEntity \<Rightarrow> MerchantRow" where
  "fresh_merchant now tx i m = MerchantEntity.extend (m\<lparr>m_id := i\<rparr>) (MerchantRow.fields now tx)"

definition overwrite_merchant :: "int \<Rightarrow> nat \<Rightarrow> MerchantEntity \<Rightarrow> MerchantRow \<Rightarrow> MerchantRow" where
  "overwrite_merchant now tx m r =
     (let q = MerchantEntity.extend
                (m\<lparr>m_id := m_id r, m_verifiedAt := (case m_verifiedAt m of None \<Rightarrow> m_verifiedAt r | Some v \<Rightarrow> Some v)\<rparr>)
                (MerchantRow.fields (mr_updatedAt r) (mr_changeTransaction r))
      in if q = r then r else q\<lparr>mr_updatedAt := now, mr_changeTransaction := tx\<rparr>)"

definition store_clash :: "MerchantEntity \<Rightarrow> MerchantRow \<Rightarrow> bool" where
  "store_clash m r \<longleftrightarrow> m_userId m = m_userId r \<or> m_slug m = m_slug r"

definition save_merchant_row :: "MerchantEntity \<Rightarrow> world \<Rightarrow> MerchantRow option \<times> nat \<times> MerchantRow list" where
  "save_merchant_row m w =
     save_row m_id (fresh_merchant (clock w) (transactions w)) (overwrite_merchant (clock w) (transactions w)) store_clash
       (m_id m) m (merchant_seq w) (merchants w)"

definition insert_merchant :: "MerchantEntity \<Rightarrow> MerchantRow act" where
  "insert_merchant m =
     (\<lambda>w. case save_merchant_row m w of
        (outcome, n, rows) \<Rightarrow>
          let t = w\<lparr>merchant_seq := n, transactions := Suc (transactions w)\<rparr> in
          if \<not> point_check (m_latitude m) (m_longitude m) then (Inl (QueryFailed ''23514''), t)
          else (case outcome of
                  None \<Rightarrow> (Inl (QueryFailed ''23505''), t)
                | Some r \<Rightarrow>
                    if user_row (m_userId m) w = None then (Inl (QueryFailed ''23503''), t)
                    else (Inr r, t\<lparr>merchants := rows\<rparr>)))"

definition saveMerchant :: "MerchantEntity \<Rightarrow> MerchantEntity act" where
  "saveMerchant m =
     andThen
       (catches (insert_merchant m)
          (\<lambda>e. if isForeignKeyViolation e then throws (MissingReferenceError ''No account with that ID'')
             else if isUniqueViolation e
               then throws (RecordConflictError ''The merchant or its store slug was written by another request at the same time'')
             else throws e))
       (\<lambda>saved. returns (toMerchantEntity saved))"

section \<open>The table of seller applications\<close>

definition findVerification :: "nat \<Rightarrow> MerchantVerificationEntity option act" where
  "findVerification userId = reads (\<lambda>w. find (\<lambda>v. mv_userId v = userId) (merchant_verifications w))"

definition fresh_verification :: "nat \<Rightarrow> MerchantVerificationEntity \<Rightarrow> MerchantVerificationEntity" where
  "fresh_verification i v = v\<lparr>mv_id := i\<rparr>"

definition overwrite_verification :: "MerchantVerificationEntity \<Rightarrow> MerchantVerificationEntity \<Rightarrow> MerchantVerificationEntity" where
  "overwrite_verification v r = v\<lparr>mv_id := mv_id r,
     mv_verifiedAt := (case mv_verifiedAt v of None \<Rightarrow> mv_verifiedAt r | Some t \<Rightarrow> Some t)\<rparr>"

definition same_applicant :: "MerchantVerificationEntity \<Rightarrow> MerchantVerificationEntity \<Rightarrow> bool" where
  "same_applicant v r \<longleftrightarrow> mv_userId v = mv_userId r"

definition save_verification_row :: "MerchantVerificationEntity \<Rightarrow> world \<Rightarrow> MerchantVerificationEntity option \<times> nat \<times> MerchantVerificationEntity list" where
  "save_verification_row v w =
     save_row mv_id fresh_verification overwrite_verification same_applicant (mv_id v) v (verification_seq w) (merchant_verifications w)"

definition insert_verification :: "MerchantVerificationEntity \<Rightarrow> MerchantVerificationEntity act" where
  "insert_verification v =
     (\<lambda>w. case save_verification_row v w of
        (outcome, n, rows) \<Rightarrow>
          (case outcome of
             None \<Rightarrow> (Inl (QueryFailed ''23505''), w\<lparr>verification_seq := n\<rparr>)
           | Some r \<Rightarrow>
               if user_row (mv_userId v) w = None then (Inl (QueryFailed ''23503''), w\<lparr>verification_seq := n\<rparr>)
               else (Inr r, w\<lparr>verification_seq := n, merchant_verifications := rows\<rparr>)))"

definition saveVerification :: "MerchantVerificationEntity \<Rightarrow> MerchantVerificationEntity act" where
  "saveVerification v =
     catches (insert_verification v)
       (\<lambda>e. if isForeignKeyViolation e then throws (MissingReferenceError ''No account with that ID'')
          else if isUniqueViolation e
            then throws (RecordConflictError ''A seller application was filed by another request at the same time'')
          else throws e)"

section \<open>The use case\<close>

definition MERCHANT_ALIAS_SERVICE :: string where
  "MERCHANT_ALIAS_SERVICE = ''identity-merchant''"

definition UNTOUCHED_BY_APPROVAL :: "MerchantStatus list" where
  "UNTOUCHED_BY_APPROVAL = [MActive, MSuspended]"

record OnboardSellerInput =
  os_storeName :: string
  os_businessRegistrationNumber :: string
  os_taxId :: string
  os_streetAddress :: string
  os_city :: string
  os_postalCode :: string

record SellerApplication = MerchantVerificationEntity +
  sa_principalId :: "string option"

record ApprovedMerchant = MerchantEntity +
  am_principalId :: string

definition requireMayBecomeSeller :: "UserEntity \<Rightarrow> unit act" where
  "requireMayBecomeSeller user =
     (if u_role user = Customer \<or> u_role user = Seller then returns ()
      else throws (ConflictException ''making it a seller would revoke that role''))"

definition reapplied :: "OnboardSellerInput \<Rightarrow> MerchantVerificationEntity \<Rightarrow> MerchantVerificationEntity" where
  "reapplied dto v = v\<lparr>mv_storeName := os_storeName dto, mv_businessRegistrationNumber := os_businessRegistrationNumber dto,
     mv_taxId := os_taxId dto, mv_streetAddress := os_streetAddress dto, mv_city := os_city dto, mv_postalCode := os_postalCode dto,
     mv_status := SPending, mv_rejectedAt := None\<rparr>"

definition new_verification :: "nat \<Rightarrow> OnboardSellerInput \<Rightarrow> MerchantVerificationEntity" where
  "new_verification userId dto =
     \<lparr>mv_id = 0, mv_userId = userId, mv_storeName = os_storeName dto,
      mv_businessRegistrationNumber = os_businessRegistrationNumber dto, mv_taxId = os_taxId dto, mv_status = SPending,
      mv_verifiedAt = None, mv_streetAddress = os_streetAddress dto, mv_city = os_city dto, mv_postalCode = os_postalCode dto,
      mv_rejectedAt = None\<rparr>"

definition onboardSeller :: "nat \<Rightarrow> OnboardSellerInput \<Rightarrow> MerchantVerificationEntity act" where
  "onboardSeller userId dto =
     andThen (findById userId)
     (\<lambda>found. case found of
        None \<Rightarrow> throws (NotFoundException ''User not found'')
      | Some user \<Rightarrow>
          andThen (requireMayBecomeSeller user)
          (\<lambda>_. andThen (findVerification userId)
          (\<lambda>existing. case existing of
             Some v \<Rightarrow>
               if mv_status v = SVerified then throws (ConflictException ''This account is already a verified merchant'')
               else saveVerification (reapplied dto v)
           | None \<Rightarrow> saveVerification (new_verification userId dto))))"

definition store_query :: "MerchantEntity \<Rightarrow> GeocodeQuery" where
  "store_query m = \<lparr>gq_streetAddress = m_streetAddress m, gq_city = Some (m_city m), gq_postalCode = Some (m_postalCode m)\<rparr>"

definition placeStore :: "GeoEnv \<Rightarrow> MerchantEntity \<Rightarrow> MerchantEntity act" where
  "placeStore geo merchant =
     andThen (reads clock)
     (\<lambda>now. let m = merchant\<lparr>m_latitude := None, m_longitude := None, m_geocodedAt := Some now\<rparr> in
        if js_trim (m_streetAddress m) = [] then returns m
        else catches
          (andThen (geocode geo (store_query m))
           (\<lambda>outcome. case outcome of
              Geocoded latitude longitude precision shown \<Rightarrow> returns (m\<lparr>m_latitude := Some latitude, m_longitude := Some longitude\<rparr>)
            | NotGeocoded problem \<Rightarrow> returns m))
          (\<lambda>e. returns m))"

definition findApplication :: "nat \<Rightarrow> MerchantVerificationEntity act" where
  "findApplication userId =
     andThen (findVerification userId)
     (\<lambda>found. case found of None \<Rightarrow> throws (NotFoundException ''No seller application found'') | Some v \<Rightarrow> returns v)"

definition withPrincipal :: "MerchantVerificationEntity \<Rightarrow> SellerApplication act" where
  "withPrincipal v =
     andThen (principalIdForUser (mv_userId v))
     (\<lambda>principalId. returns (MerchantVerificationEntity.extend v (SellerApplication.fields principalId)))"

definition applicationOf :: "nat \<Rightarrow> SellerApplication act" where
  "applicationOf userId = andThen (findApplication userId) withPrincipal"

definition pendingApplicationOf :: "nat \<Rightarrow> MerchantVerificationEntity act" where
  "pendingApplicationOf userId =
     andThen (findApplication userId)
     (\<lambda>v. if mv_status v \<noteq> SPending then throws (ConflictException ''The seller application is not pending'') else returns v)"

definition rejectVerification :: "nat \<Rightarrow> SellerApplication act" where
  "rejectVerification userId =
     andThen (pendingApplicationOf userId)
     (\<lambda>v. andThen (reads clock)
     (\<lambda>now. andThen (saveVerification (v\<lparr>mv_status := SRejected, mv_rejectedAt := Some now\<rparr>)) withPrincipal))"

fun dashed :: "bool \<Rightarrow> string \<Rightarrow> string" where
  "dashed gap [] = []"
| "dashed gap (c # cs) =
     (if is_lower c \<or> is_digit c then c # dashed False cs
      else if gap then dashed True cs else CHR ''-'' # dashed True cs)"

definition undashed :: "string \<Rightarrow> string" where
  "undashed s =
     (let t = (case s of [] \<Rightarrow> [] | c # cs \<Rightarrow> if c = CHR ''-'' then cs else s)
      in if t \<noteq> [] \<and> last t = CHR ''-'' then butlast t else t)"

definition slug_base :: "string \<Rightarrow> string" where
  "slug_base storeName =
     (let base = undashed (dashed False (js_toLowerCase storeName)) in if base = [] then ''merchant'' else base)"

definition uniqueSlug :: "string \<Rightarrow> nat \<Rightarrow> string act" where
  "uniqueSlug storeName userId =
     (let base = slug_base storeName in
      andThen (findBySlug base)
      (\<lambda>taken. case taken of
         None \<Rightarrow> returns base
       | Some m \<Rightarrow> if m_userId m = userId then returns base else returns (base @ ''-'' @ decimal userId)))"

definition new_store :: "nat \<Rightarrow> MerchantVerificationEntity \<Rightarrow> string \<Rightarrow> int \<Rightarrow> MerchantEntity" where
  "new_store userId v slug verifiedAt =
     \<lparr>m_id = 0, m_userId = userId, m_storeName = mv_storeName v, m_slug = slug, m_description = None,
      m_businessRegistrationNumber = mv_businessRegistrationNumber v, m_taxId = mv_taxId v, m_status = MVerified,
      m_verifiedAt = Some verifiedAt, m_streetAddress = mv_streetAddress v, m_city = mv_city v, m_postalCode = mv_postalCode v,
      m_latitude = None, m_longitude = None, m_geocodedAt = None\<rparr>"

definition reopened :: "MerchantVerificationEntity \<Rightarrow> int \<Rightarrow> MerchantEntity \<Rightarrow> MerchantEntity" where
  "reopened v verifiedAt m = m\<lparr>m_status := MVerified, m_verifiedAt := Some verifiedAt,
     m_streetAddress := mv_streetAddress v, m_city := mv_city v, m_postalCode := mv_postalCode v\<rparr>"

definition storeFor :: "nat \<Rightarrow> MerchantVerificationEntity \<Rightarrow> int \<Rightarrow> MerchantEntity act" where
  "storeFor userId v verifiedAt =
     andThen (findMerchantByUserId userId)
     (\<lambda>found. case found of
        Some m \<Rightarrow>
          if m_status m \<in> set UNTOUCHED_BY_APPROVAL then throws (ConflictException ''an approval does not change that'')
          else returns (reopened v verifiedAt m)
      | None \<Rightarrow> andThen (uniqueSlug (mv_storeName v) userId) (\<lambda>slug. returns (new_store userId v slug verifiedAt)))"

definition becomeSeller :: "UserEntity \<Rightarrow> UserEntity act" where
  "becomeSeller user =
     (if u_role user \<noteq> Seller then andThen (saveUser (user\<lparr>u_role := Seller\<rparr>)) (\<lambda>_. returns (user\<lparr>u_role := Seller\<rparr>))
      else returns user)"

definition finishApproval ::
    "'tok Env \<Rightarrow> MerchantVerificationEntity \<Rightarrow> UserEntity \<Rightarrow> int \<Rightarrow> MerchantEntity \<Rightarrow> ApprovedMerchant act" where
  "finishApproval env verification user verifiedAt merchant =
     andThen (becomeSeller user)
     (\<lambda>seller. andThen (resolveOrMintForUser env (subjectOf seller))
     (\<lambda>principalId. andThen (syncKind principalId (u_role seller))
     (\<lambda>_. andThen (registerAlias principalId MERCHANT_ALIAS_SERVICE (decimal (m_id merchant)))
     (\<lambda>_. andThen (saveVerification (verification\<lparr>mv_status := SVerified, mv_verifiedAt := Some verifiedAt\<rparr>))
     (\<lambda>_. returns (MerchantEntity.extend merchant (ApprovedMerchant.fields principalId)))))))"

definition approveVerification :: "'tok Env \<Rightarrow> GeoEnv \<Rightarrow> nat \<Rightarrow> ApprovedMerchant act" where
  "approveVerification env geo userId =
     andThen (pendingApplicationOf userId)
     (\<lambda>verification. andThen (findById userId)
     (\<lambda>found. case found of
        None \<Rightarrow> throws (NotFoundException ''User not found'')
      | Some user \<Rightarrow>
          andThen (requireMayBecomeSeller user)
          (\<lambda>_. andThen (reads clock)
          (\<lambda>verifiedAt. andThen (storeFor userId verification verifiedAt)
          (\<lambda>draft. andThen (placeStore geo draft)
          (\<lambda>placed. andThen (saveMerchant placed)
          (\<lambda>merchant. finishApproval env verification user verifiedAt merchant)))))))"

section \<open>The tables' invariants\<close>

definition same_store :: "MerchantRow \<Rightarrow> MerchantRow \<Rightarrow> bool" where
  "same_store r q \<longleftrightarrow> m_userId r = m_userId q \<or> m_slug r = m_slug q"

lemma fresh_merchant_simps [simp]:
  "m_id (fresh_merchant now tx i m) = i" "m_userId (fresh_merchant now tx i m) = m_userId m" "m_slug (fresh_merchant now tx i m) = m_slug m"
  "m_status (fresh_merchant now tx i m) = m_status m" "toMerchantEntity (fresh_merchant now tx i m) = m\<lparr>m_id := i\<rparr>"
  "mr_changeTransaction (fresh_merchant now tx i m) = tx" "mr_updatedAt (fresh_merchant now tx i m) = now"
  by (simp_all add: fresh_merchant_def toMerchantEntity_def MerchantEntity.defs MerchantRow.defs)

lemma overwrite_merchant_simps [simp]:
  "m_id (overwrite_merchant now tx m r) = m_id r" "m_userId (overwrite_merchant now tx m r) = m_userId m"
  "m_slug (overwrite_merchant now tx m r) = m_slug m" "m_status (overwrite_merchant now tx m r) = m_status m"
  by (cases r; simp add: overwrite_merchant_def Let_def MerchantEntity.defs MerchantRow.defs)+

lemma overwrite_merchant_entity:
  "m_verifiedAt m \<noteq> None \<Longrightarrow> toMerchantEntity (overwrite_merchant now tx m r) = m\<lparr>m_id := m_id r\<rparr>"
  by (cases r) (auto simp: overwrite_merchant_def Let_def toMerchantEntity_def MerchantEntity.defs MerchantRow.defs)

lemma toMerchantEntity_simps [simp]:
  "m_id (toMerchantEntity r) = m_id r" "m_userId (toMerchantEntity r) = m_userId r" "m_slug (toMerchantEntity r) = m_slug r"
  "m_status (toMerchantEntity r) = m_status r"
  by (simp_all add: toMerchantEntity_def MerchantEntity.defs)

interpretation store_table: saved_table m_id "fresh_merchant now tx" "overwrite_merchant now tx" store_clash same_store for now tx
  by unfold_locales (auto simp: store_clash_def same_store_def)

interpretation application_table: saved_table mv_id fresh_verification overwrite_verification same_applicant same_applicant
  by unfold_locales (auto simp: fresh_verification_def overwrite_verification_def same_applicant_def)

definition stores_ok :: "world \<Rightarrow> bool" where
  "stores_ok w \<longleftrightarrow> table_ok m_id same_store (merchant_seq w) (merchants w)"

definition applications_ok :: "world \<Rightarrow> bool" where
  "applications_ok w \<longleftrightarrow> table_ok mv_id same_applicant (verification_seq w) (merchant_verifications w)"

text \<open>A save of a store: what it may change, and what a returned store says.\<close>

lemma saveMerchant_frame:
  assumes "saveMerchant m w = (r, t)"
  shows "users t = users w" "merchant_verifications t = merchant_verifications w" "verification_seq t = verification_seq w"
    "aliases t = aliases w" "principals t = principals w" "draws t = draws w" "clock t = clock w" "user_seq t = user_seq w"
  using assms by (auto simp: saveMerchant_def insert_merchant_def andThen_run catches_run Let_def split: prod.splits option.splits if_splits)

lemma saveMerchant_ok:
  assumes "stores_ok w" and "saveMerchant m w = (r, t)" shows "stores_ok t"
proof -
  obtain x n rows where row: "save_merchant_row m w = (x, n, rows)" by (cases "save_merchant_row m w") auto
  then have new: "table_ok m_id same_store n rows"
    using assms(1) store_table.save_ok by (auto simp: stores_ok_def save_merchant_row_def)
  have "table_ok m_id same_store n (merchants w)"
    using assms(1) row by (auto simp: stores_ok_def save_merchant_row_def save_row_def table_ok_def split: if_splits option.splits)
  with new row assms(2) show ?thesis
    by (auto simp: saveMerchant_def insert_merchant_def andThen_run catches_run Let_def stores_ok_def split: option.splits if_splits)
qed

lemma saveMerchant_Inr:
  assumes "saveMerchant m w = (Inr e, t)"
  obtains r n where "save_merchant_row m w = (Some r, n, merchants t)" "e = toMerchantEntity r"
  using assms by (auto simp: saveMerchant_def insert_merchant_def andThen_run catches_run Let_def split: prod.splits option.splits if_splits)

lemma saveMerchant_Inl:
  assumes "saveMerchant m w = (Inl e, t)" shows "merchants t = merchants w"
  using assms by (auto simp: saveMerchant_def insert_merchant_def andThen_run catches_run Let_def split: prod.splits option.splits if_splits)

lemma saveVerification_frame:
  assumes "saveVerification v w = (r, t)"
  shows "users t = users w" "merchants t = merchants w" "merchant_seq t = merchant_seq w" "aliases t = aliases w" "principals t = principals w"
    "draws t = draws w" "clock t = clock w" "user_seq t = user_seq w" "geocoded_addresses t = geocoded_addresses w"
  using assms by (auto simp: saveVerification_def insert_verification_def catches_run split: prod.splits option.splits if_splits)

lemma saveVerification_ok:
  assumes "applications_ok w" and "saveVerification v w = (r, t)" shows "applications_ok t"
proof -
  obtain x n rows where row: "save_verification_row v w = (x, n, rows)" by (cases "save_verification_row v w") auto
  then have new: "table_ok mv_id same_applicant n rows"
    using assms(1) application_table.save_ok by (auto simp: applications_ok_def save_verification_row_def)
  have "table_ok mv_id same_applicant n (merchant_verifications w)"
    using assms(1) row by (auto simp: applications_ok_def save_verification_row_def save_row_def table_ok_def split: if_splits option.splits)
  with new row assms(2) show ?thesis
    by (auto simp: saveVerification_def insert_verification_def catches_run applications_ok_def split: option.splits if_splits)
qed

text \<open>Under its invariant a table is read by its unique column.\<close>

lemma find_unique:
  assumes "table_ok key same seq rows" and "\<And>r q. col r = col q \<Longrightarrow> same r q"
  shows "find (\<lambda>r. col r = c) rows = Some r \<longleftrightarrow> r \<in> set rows \<and> col r = c"
proof
  assume r: "r \<in> set rows \<and> col r = c"
  then obtain q where q: "find (\<lambda>r. col r = c) rows = Some q"
    by (cases "find (\<lambda>r. col r = c) rows") (auto simp: find_None_iff)
  with r have "q = r" using table_ok_same [OF assms(1), of q r] assms(2) find_Some_mem [OF q] by simp
  with q show "find (\<lambda>r. col r = c) rows = Some r" by simp
qed (auto dest: find_Some_mem)

lemma find_applicant:
  "applications_ok w \<Longrightarrow> find (\<lambda>v. mv_userId v = i) (merchant_verifications w) = Some v \<longleftrightarrow>
     v \<in> set (merchant_verifications w) \<and> mv_userId v = i"
  using find_unique [of mv_id same_applicant "verification_seq w" "merchant_verifications w" mv_userId i v]
  by (simp add: applications_ok_def same_applicant_def)

lemma find_store:
  "stores_ok w \<Longrightarrow> find (\<lambda>m. m_userId m = i) (merchants w) = Some m \<longleftrightarrow> m \<in> set (merchants w) \<and> m_userId m = i"
  using find_unique [of m_id same_store "merchant_seq w" "merchants w" m_userId i m] by (simp add: stores_ok_def same_store_def)

lemma saveVerification_found:
  assumes "applications_ok w" and "saveVerification v w = (Inr r, t)"
  shows "find (\<lambda>q. mv_userId q = mv_userId v) (merchant_verifications t) = Some r"
    and "mv_status r = mv_status v" and "mv_userId r = mv_userId v" and "mv_verifiedAt v \<noteq> None \<Longrightarrow> mv_verifiedAt r = mv_verifiedAt v"
proof -
  from assms(2) obtain n where row: "save_verification_row v w = (Some r, n, merchant_verifications t)"
    by (auto simp: saveVerification_def insert_verification_def catches_run split: prod.splits option.splits if_splits)
  have ok: "table_ok mv_id same_applicant (verification_seq w) (merchant_verifications w)" using assms(1) by (simp add: applications_ok_def)
  have fields: "mv_status r = mv_status v \<and> mv_userId r = mv_userId v \<and> (mv_verifiedAt v \<noteq> None \<longrightarrow> mv_verifiedAt r = mv_verifiedAt v)"
    using row unfolding save_verification_row_def
    by (cases rule: application_table.save_cases) (auto simp: fresh_verification_def overwrite_verification_def)
  then show "mv_status r = mv_status v" "mv_userId r = mv_userId v" "mv_verifiedAt v \<noteq> None \<Longrightarrow> mv_verifiedAt r = mv_verifiedAt v"
    by simp_all
  have "r \<in> set (merchant_verifications t)"
    using application_table.save_found(1) [OF ok] row by (simp add: save_verification_row_def)
  with fields find_applicant [OF saveVerification_ok [OF assms], of "mv_userId v" r]
  show "find (\<lambda>q. mv_userId q = mv_userId v) (merchant_verifications t) = Some r" by simp
qed

section \<open>What an approval did\<close>

text \<open>Placing a store never fails and sets nothing of it but its point and the time it was asked for.\<close>

lemma placeStore_cases:
  assumes "placeStore geo m w = (r, t)"
  obtains a b where "r = Inr (m\<lparr>m_latitude := a, m_longitude := b, m_geocodedAt := Some (clock w)\<rparr>)"
    "addresses_ok w \<longrightarrow> point_check a b \<and> addresses_ok t" "users t = users w" "merchants t = merchants w" "merchant_seq t = merchant_seq w"
    "merchant_verifications t = merchant_verifications w" "verification_seq t = verification_seq w" "aliases t = aliases w"
    "principals t = principals w" "draws t = draws w" "clock t = clock w" "user_seq t = user_seq w"
proof -
  let ?m = "m\<lparr>m_latitude := None, m_longitude := None, m_geocodedAt := Some (clock w)\<rparr>"
  have none: "point_check None None" by (simp add: point_check_def)
  show ?thesis
  proof (cases "js_trim (m_streetAddress m) = []")
    case True
    with assms have "r = Inr ?m" "t = w" by (auto simp: placeStore_def andThen_run Let_def)
    with none show ?thesis by (intro that [of None None]) simp_all
  next
    case False
    obtain o' v where run: "geocode geo (store_query ?m) w = (o', v)" by fastforce
    have v: "users v = users w" "merchants v = merchants w" "merchant_seq v = merchant_seq w"
      "merchant_verifications v = merchant_verifications w" "verification_seq v = verification_seq w" "aliases v = aliases w"
      "principals v = principals w" "draws v = draws w" "clock v = clock w" "user_seq v = user_seq w"
      using run by (cases rule: geocode_cases; simp)+
    note okv = addresses_ok_geocode [OF _ run]
    show ?thesis
    proof (cases "\<exists>a b c d. o' = Inr (Geocoded a b c d)")
      case True
      then obtain a b c d where o': "o' = Inr (Geocoded a b c d)" by blast
      from o' run geocoded_on_earth [of w geo "store_query ?m"] have "addresses_ok w \<Longrightarrow> on_earth a b" by simp
      moreover from o' False assms run have "r = Inr (m\<lparr>m_latitude := Some a, m_longitude := Some b, m_geocodedAt := Some (clock w)\<rparr>)" "t = v"
        by (auto simp: placeStore_def andThen_run catches_run Let_def)
      ultimately show ?thesis using v okv by (intro that [of "Some b" "Some a"]) (simp_all add: point_check_def)
    next
      case no: False
      with False assms run have "r = Inr ?m" "t = v"
        by (auto simp: placeStore_def andThen_run catches_run Let_def split: sum.splits GeocodeOutcome.splits)
      then show ?thesis using v okv none by (intro that [of None None]) simp_all
    qed
  qed
qed

lemma becomeSeller_Inr:
  assumes "becomeSeller u w = (Inr s, t)" and "users_ok w" and "map_option toUserEntity (user_row (u_id u) w) = Some u" and "0 < u_id u"
  shows "s = u\<lparr>u_role := Seller\<rparr>" "map_option toUserEntity (user_row (u_id u) t) = Some s" "users_ok t"
    "merchants t = merchants w" "merchant_verifications t = merchant_verifications w" "aliases t = aliases w" "principals t = principals w"
    "draws t = draws w" "merchant_seq t = merchant_seq w" "verification_seq t = verification_seq w" "clock t = clock w"
proof -
  have "s = u\<lparr>u_role := Seller\<rparr> \<and> map_option toUserEntity (user_row (u_id u) t) = Some s \<and> users_ok t
    \<and> merchants t = merchants w \<and> merchant_verifications t = merchant_verifications w \<and> aliases t = aliases w \<and> principals t = principals w
    \<and> draws t = draws w \<and> merchant_seq t = merchant_seq w \<and> verification_seq t = verification_seq w \<and> clock t = clock w"
  proof (cases "u_role u = Seller")
    case True
    then have "u\<lparr>u_role := Seller\<rparr> = u" by simp
    with True assms show ?thesis by (simp add: becomeSeller_def)
  next
    case False
    with assms(1) obtain v where save: "saveUser (u\<lparr>u_role := Seller\<rparr>) w = (Inr v, t)" and s: "s = u\<lparr>u_role := Seller\<rparr>"
      by (auto simp: becomeSeller_def elim!: andThen_InrE)
    have v: "v = u\<lparr>u_role := Seller\<rparr>" using save assms(4) by (cases rule: saveUser_cases) auto
    have frame: "merchants t = merchants w \<and> merchant_verifications t = merchant_verifications w \<and> aliases t = aliases w \<and> principals t = principals w
      \<and> draws t = draws w \<and> merchant_seq t = merchant_seq w \<and> verification_seq t = verification_seq w \<and> clock t = clock w"
      using save by (cases rule: saveUser_cases) simp_all
    have "users_ok t" using saveUser_ok [OF assms(2), of "u\<lparr>u_role := Seller\<rparr>"] save by simp
    moreover have "map_option toUserEntity (user_row (u_id u) t) = Some s"
      using saveUser_found(1) [OF assms(2) save] unfolding v s by simp
    ultimately show ?thesis using frame s by blast
  qed
  then show "s = u\<lparr>u_role := Seller\<rparr>" "map_option toUserEntity (user_row (u_id u) t) = Some s" "users_ok t"
    "merchants t = merchants w" "merchant_verifications t = merchant_verifications w" "aliases t = aliases w" "principals t = principals w"
    "draws t = draws w" "merchant_seq t = merchant_seq w" "verification_seq t = verification_seq w" "clock t = clock w" by blast+
qed

text \<open>The steps of an approval that returned, in their order.\<close>

lemma approve_steps:
  assumes "approveVerification env geo i w = (Inr a, t)"
  obtains v u d w1 p w2 m w3 s w4 pid w5 w6 r where
    "find (\<lambda>v. mv_userId v = i) (merchant_verifications w) = Some v" "mv_status v = SPending"
    "map_option toUserEntity (user_row i w) = Some u" "u_role u = Customer \<or> u_role u = Seller"
    "storeFor i v (clock w) w = (Inr d, w1)" "placeStore geo d w1 = (Inr p, w2)" "saveMerchant p w2 = (Inr m, w3)"
    "becomeSeller u w3 = (Inr s, w4)" "resolveOrMintForUser env (subjectOf s) w4 = (Inr pid, w5)"
    "registerAlias pid MERCHANT_ALIAS_SERVICE (decimal (m_id m)) (snd (syncKind pid (u_role s) w5)) = (Inr (), w6)"
    "saveVerification (v\<lparr>mv_status := SVerified, mv_verifiedAt := Some (clock w)\<rparr>) w6 = (Inr r, t)"
    "a = MerchantEntity.extend m (ApprovedMerchant.fields pid)"
  using assms unfolding approveVerification_def finishApproval_def pendingApplicationOf_def findApplication_def findVerification_def
  by (elim andThen_InrE) (auto simp: requireMayBecomeSeller_def syncKind_def elim!: andThen_InrE split: option.splits if_splits intro: that)

lemma uniqueSlug_run:
  "\<exists>slug. uniqueSlug name i w = (Inr slug, w)"
  by (cases "find (\<lambda>m. m_slug m = slug_base name) (merchants w)") (simp_all add: uniqueSlug_def findBySlug_def Let_def)

lemma storeFor_Inr:
  assumes "storeFor i v now w = (Inr d, t)"
  obtains (renewed) m where "t = w" "m \<in> set (merchants w)" "m_userId m = i" "m_status m \<in> {MPending, MVerified}"
      "find (\<lambda>m. m_userId m = i) (merchants w) = Some m" "d = reopened v now (toMerchantEntity m)"
  | (created) slug where "t = w" "find (\<lambda>m. m_userId m = i) (merchants w) = None" "d = new_store i v slug now"
      "uniqueSlug (mv_storeName v) i w = (Inr slug, w)"
proof (cases "find (\<lambda>m. m_userId m = i) (merchants w)")
  case None
  obtain slug where "uniqueSlug (mv_storeName v) i w = (Inr slug, w)" using uniqueSlug_run by blast
  with None assms show ?thesis by (intro created [of slug]) (auto simp: storeFor_def findMerchantByUserId_def andThen_run)
next
  case (Some m)
  have "m_status m \<notin> set UNTOUCHED_BY_APPROVAL \<Longrightarrow> m_status m \<in> {MPending, MVerified}"
    by (cases "m_status m") (simp_all add: UNTOUCHED_BY_APPROVAL_def)
  with Some assms find_Some_mem [OF Some] show ?thesis
    by (intro renewed [of m]) (auto simp: storeFor_def findMerchantByUserId_def andThen_run split: if_splits)
qed

lemma resolve_frame:
  assumes "resolveOrMintForUser env u w = (r, t)"
  shows "users t = users w" "merchants t = merchants w" "merchant_seq t = merchant_seq w"
    "merchant_verifications t = merchant_verifications w" "verification_seq t = verification_seq w"
    "geocoded_addresses t = geocoded_addresses w" "user_seq t = user_seq w"
  using assms by (auto simp: resolveOrMintForUser_def insert_principal_def insert_alias_def catches_run atomically_run andThen_run Let_def
      split: option.splits if_splits sum.splits prod.splits)

lemma registerAlias_frame:
  assumes "registerAlias p s l w = (r, t)"
  shows "users t = users w" "merchants t = merchants w" "merchant_seq t = merchant_seq w"
    "merchant_verifications t = merchant_verifications w" "verification_seq t = verification_seq w" "principals t = principals w"
    "geocoded_addresses t = geocoded_addresses w" "user_seq t = user_seq w" "draws t = draws w"
  using assms by (auto simp: registerAlias_def insert_alias_def catches_run andThen_run split: option.splits if_splits)

lemma saved_store:
  assumes "stores_ok w" and "saveMerchant p w = (Inr m, t)" and "m_verifiedAt p \<noteq> None"
  shows "m = p\<lparr>m_id := m_id m\<rparr>" and "find (\<lambda>r. m_userId r = m_userId p) (merchants t) \<noteq> None"
    and "map_option toMerchantEntity (find (\<lambda>r. m_userId r = m_userId p) (merchants t)) = Some m"
proof -
  obtain r n where row: "save_merchant_row p w = (Some r, n, merchants t)" and m: "m = toMerchantEntity r"
    by (rule saveMerchant_Inr [OF assms(2)])
  note row' = row [unfolded save_merchant_row_def]
  show fields: "m = p\<lparr>m_id := m_id m\<rparr>"
    using row' assms(3) unfolding m by (cases rule: store_table.save_cases) (simp_all add: overwrite_merchant_entity)
  then have "m_userId m = m_userId p" by (cases p) (metis MerchantEntity.select_convs(2) MerchantEntity.update_convs(1))
  then have "m_userId r = m_userId p" unfolding m by simp
  moreover have "r \<in> set (merchants t)"
    using store_table.save_found(1) [OF assms(1) [unfolded stores_ok_def] row'] .
  ultimately have "find (\<lambda>r. m_userId r = m_userId p) (merchants t) = Some r"
    using find_store [OF saveMerchant_ok [OF assms(1,2)]] by simp
  then show "find (\<lambda>r. m_userId r = m_userId p) (merchants t) \<noteq> None"
    "map_option toMerchantEntity (find (\<lambda>r. m_userId r = m_userId p) (merchants t)) = Some m"
    by (simp_all add: m)
qed

definition onboarding_ok :: "'tok Env \<Rightarrow> world \<Rightarrow> bool" where
  "onboarding_ok env w \<longleftrightarrow> users_ok w \<and> stores_ok w \<and> applications_ok w \<and> principals_ok env w \<and> addresses_ok w"

lemma stores_ok_cong: "merchants t = merchants w \<Longrightarrow> merchant_seq t = merchant_seq w \<Longrightarrow> stores_ok t = stores_ok w"
  by (simp add: stores_ok_def)

lemma applications_ok_cong:
  "merchant_verifications t = merchant_verifications w \<Longrightarrow> verification_seq t = verification_seq w \<Longrightarrow> applications_ok t = applications_ok w"
  by (simp add: applications_ok_def)

lemma users_ok_cong: "users t = users w \<Longrightarrow> user_seq t = user_seq w \<Longrightarrow> users_ok t = users_ok w"
  by (simp add: users_ok_def)

lemma principals_ok_cong:
  "principals t = principals w \<Longrightarrow> aliases t = aliases w \<Longrightarrow> draws t = draws w \<Longrightarrow> principals_ok env t = principals_ok env w"
  by (simp add: principals_ok_def drawn_def)

text \<open>The store an approval saves: a new one or the account's, verified, with the application's address.\<close>

lemma storeFor_fields:
  assumes "stores_ok w" and "storeFor i v now w = (Inr d, t)"
  shows "t = w" "m_userId d = i" "m_status d = MVerified" "m_verifiedAt d = Some now" "m_streetAddress d = mv_streetAddress v"
    "m_city d = mv_city v" "m_postalCode d = mv_postalCode v"
  using assms(2) by (cases rule: storeFor_Inr; simp add: reopened_def new_store_def)+

lemma approved_store:
  assumes "onboarding_ok env w" and "storeFor i v (clock w) w = (Inr d, w1)" and "placeStore geo d w1 = (Inr p, w2)"
    and "saveMerchant p w2 = (Inr m, w3)"
  shows "m_status m = MVerified" "m_streetAddress m = mv_streetAddress v" "m_city m = mv_city v" "m_postalCode m = mv_postalCode v"
    "map_option toMerchantEntity (find (\<lambda>r. m_userId r = i) (merchants w3)) = Some m" "stores_ok w3"
    "users w3 = users w" "merchant_verifications w3 = merchant_verifications w" "aliases w3 = aliases w" "principals w3 = principals w"
    "draws w3 = draws w" "user_seq w3 = user_seq w" "verification_seq w3 = verification_seq w"
proof -
  have ok: "stores_ok w" "addresses_ok w" using assms(1) by (simp_all add: onboarding_ok_def)
  note d = storeFor_fields [OF ok(1) assms(2)]
  obtain a b where p: "p = d\<lparr>m_latitude := a, m_longitude := b, m_geocodedAt := Some (clock w1)\<rparr>"
    and f: "users w2 = users w1" "merchants w2 = merchants w1" "merchant_seq w2 = merchant_seq w1"
    "merchant_verifications w2 = merchant_verifications w1" "verification_seq w2 = verification_seq w1" "aliases w2 = aliases w1"
    "principals w2 = principals w1" "draws w2 = draws w1" "user_seq w2 = user_seq w1"
    by (rule placeStore_cases [OF assms(3)]) auto
  note g = saveMerchant_frame [OF assms(4)]
  have ok2: "stores_ok w2" using ok(1) stores_ok_cong [OF f(2,3)] d(1) by simp
  have pv: "m_verifiedAt p \<noteq> None" "m_userId p = i" by (simp_all add: p d)
  note s = saved_store [OF ok2 assms(4) pv(1)]
  show "m_status m = MVerified" "m_streetAddress m = mv_streetAddress v" "m_city m = mv_city v" "m_postalCode m = mv_postalCode v"
    by (subst s(1), simp add: p d)+
  show "map_option toMerchantEntity (find (\<lambda>r. m_userId r = i) (merchants w3)) = Some m" using s(3) pv(2) by simp
  show "stores_ok w3" by (rule saveMerchant_ok [OF ok2 assms(4)])
  show "users w3 = users w" "merchant_verifications w3 = merchant_verifications w" "aliases w3 = aliases w" "principals w3 = principals w"
    "draws w3 = draws w" "user_seq w3 = user_seq w" "verification_seq w3 = verification_seq w" using f g d(1) by simp_all
qed

lemma principals_ok_ids:
  assumes "map pr_id (principals t) = map pr_id (principals w)" and "aliases t = aliases w" and "draws t = draws w"
  shows "principals_ok env t = principals_ok env w"
proof -
  have "principals_ok env x \<longleftrightarrow> distinct (map pr_id (principals x)) \<and> distinct (map alias_key (aliases x))
     \<and> (\<forall>i \<in> set (map pr_id (principals x)). \<exists>n < draws x. i = uuid env n)
     \<and> (\<forall>a \<in> set (aliases x). al_principalId a \<in> set (map pr_id (principals x)))
     \<and> (\<forall>a \<in> set (aliases x). al_service a = ''identity'' \<longrightarrow> (\<exists>n. al_localId a = decimal n))
     \<and> (\<forall>a \<in> set (aliases x). \<forall>b \<in> set (aliases x). al_service a = ''identity'' \<longrightarrow> al_service b = ''identity'' \<longrightarrow>
          al_principalId a = al_principalId b \<longrightarrow> a = b)" for x
    by (simp add: principals_ok_def drawn_def)
  then show ?thesis by (simp only: assms)
qed

lemma syncKind_ok: "principals_ok env w \<Longrightarrow> principals_ok env (snd (syncKind pid role w))"
  using principals_ok_ids [of "snd (syncKind pid role w)" w env] by (simp add: syncKind_def map_update_where_key)

lemma registerAlias_look: "registerAlias p s l w = (Inr (), t) \<Longrightarrow> look (s, l) t = Some p"
  by (auto simp: registerAlias_def insert_alias_def catches_run look_def alias_of_def find_append split: option.splits if_splits)

lemma registerAlias_ok:
  assumes "principals_ok env w" and "registerAlias pid s l w = (r, t)" and "s \<noteq> ''identity''"
  shows "principals_ok env t"
proof (cases "alias_of s l w")
  case (Some a)
  with assms show ?thesis by (auto simp: registerAlias_def split: if_splits)
next
  case None
  show ?thesis
  proof (cases "\<forall>p \<in> set (principals w). pr_id p \<noteq> pid")
    case True
    with None assms show ?thesis by (auto simp: registerAlias_def insert_alias_def catches_run)
  next
    case False
    with None assms(2) have t: "w\<lparr>aliases := aliases w @ [\<lparr>al_principalId = pid, al_service = s, al_localId = l\<rparr>]\<rparr> = t"
      by (simp add: registerAlias_def insert_alias_def catches_run)
    from None have "(s, l) \<notin> alias_key ` set (aliases w)" by (auto simp: alias_of_None)
    with assms(1,3) False show ?thesis
      unfolding t [symmetric] by (auto simp: principals_ok_def alias_key_def drawn_def image_iff)
  qed
qed

lemma approved_principal:
  assumes "inj (uuid env)" and "principals_ok env w4" and "resolveOrMintForUser env (subjectOf s) w4 = (Inr pid, w5)"
    and "registerAlias pid MERCHANT_ALIAS_SERVICE l (snd (syncKind pid (u_role s) w5)) = (Inr (), w6)"
  shows "look (''identity'', decimal (u_id s)) w6 = Some pid" "look (MERCHANT_ALIAS_SERVICE, l) w6 = Some pid"
    "\<exists>p \<in> set (principals w6). pr_id p = pid \<and> pr_kind p = principalKindForRole (u_role s)" "principals_ok env w6"
proof -
  obtain q t where "resolveOrMintForUser env (subjectOf s) w4 = (Inr q, t)"
    "map_option al_principalId (alias_of ''identity'' (decimal (ts_id (subjectOf s))) t) = Some q" "q \<in> pr_id ` set (principals t)"
    by (rule resolve_returns [OF assms(2,1)])
  with assms(3) have five: "look (''identity'', decimal (u_id s)) w5 = Some pid" "pid \<in> pr_id ` set (principals w5)"
    by (simp_all add: look_def)
  let ?w = "snd (syncKind pid (u_role s) w5)"
  have w: "look k ?w = look k w5" for k by (simp add: syncKind_def look_def)
  show "look (MERCHANT_ALIAS_SERVICE, l) w6 = Some pid" by (rule registerAlias_look [OF assms(4)])
  show "look (''identity'', decimal (u_id s)) w6 = Some pid"
    using look_grows [OF registerAlias_grows [OF assms(4)]] five(1) w by simp
  from five(2) obtain x where x: "x \<in> set (principals w5)" "pr_id x = pid" by auto
  then have "x\<lparr>pr_kind := principalKindForRole (u_role s)\<rparr> \<in> set (principals ?w)"
    by (auto simp: syncKind_def set_update_where image_iff)
  with x(2) have "\<exists>p \<in> set (principals ?w). pr_id p = pid \<and> pr_kind p = principalKindForRole (u_role s)"
    by (intro bexI) simp_all
  with registerAlias_frame(6) [OF assms(4)] show "\<exists>p \<in> set (principals w6). pr_id p = pid \<and> pr_kind p = principalKindForRole (u_role s)"
    by simp
  have "principals_ok env w5" using resolve_ok [OF assms(2,1), of "subjectOf s"] assms(3) by simp
  from registerAlias_ok [OF syncKind_ok [OF this] assms(4)] show "principals_ok env w6" by (simp add: MERCHANT_ALIAS_SERVICE_def)
qed

section \<open>Properties\<close>

text \<open>
  C15. What an approval has done when it returns. The account had a pending application; now the
  application is verified, the account is a seller, its store is on file, verified, with the address
  of the application, and the directory names both the account and the store by the principal that
  was returned, whose kind is a merchant's.
\<close>

theorem approval_opens_store:
  assumes "inj (uuid env)" and "onboarding_ok env w" and "approveVerification env geo i w = (Inr a, t)"
  shows "(\<exists>v. find (\<lambda>v. mv_userId v = i) (merchant_verifications w) = Some v \<and> mv_status v = SPending
        \<and> m_streetAddress a = mv_streetAddress v \<and> m_city a = mv_city v \<and> m_postalCode a = mv_postalCode v)
    \<and> (\<exists>v. find (\<lambda>v. mv_userId v = i) (merchant_verifications t) = Some v \<and> mv_status v = SVerified \<and> mv_verifiedAt v = Some (clock w))
    \<and> (\<exists>u. findById i t = (Inr (Some u), t) \<and> u_role u = Seller)
    \<and> findMerchantByUserId i t = (Inr (Some (MerchantEntity.truncate a)), t) \<and> m_status a = MVerified
    \<and> look (''identity'', decimal i) t = Some (am_principalId a)
    \<and> look (MERCHANT_ALIAS_SERVICE, decimal (m_id a)) t = Some (am_principalId a)
    \<and> (\<exists>p \<in> set (principals t). pr_id p = am_principalId a \<and> pr_kind p = PRINCIPAL_KIND_MERCHANT)"
proof -
  obtain v u d w1 p w2 m w3 s w4 pid w5 w6 r where
    v: "find (\<lambda>v. mv_userId v = i) (merchant_verifications w) = Some v" "mv_status v = SPending"
    and u: "map_option toUserEntity (user_row i w) = Some u"
    and run: "storeFor i v (clock w) w = (Inr d, w1)" "placeStore geo d w1 = (Inr p, w2)" "saveMerchant p w2 = (Inr m, w3)"
    and bs: "becomeSeller u w3 = (Inr s, w4)" and rm: "resolveOrMintForUser env (subjectOf s) w4 = (Inr pid, w5)"
    and ra: "registerAlias pid MERCHANT_ALIAS_SERVICE (decimal (m_id m)) (snd (syncKind pid (u_role s) w5)) = (Inr (), w6)"
    and sv: "saveVerification (v\<lparr>mv_status := SVerified, mv_verifiedAt := Some (clock w)\<rparr>) w6 = (Inr r, t)"
    and a: "a = MerchantEntity.extend m (ApprovedMerchant.fields pid)"
    by (rule approve_steps [OF assms(3)])
  have ok: "users_ok w" "applications_ok w" "principals_ok env w" using assms(2) by (simp_all add: onboarding_ok_def)
  note st = approved_store [OF assms(2) run]
  from u obtain row where row: "user_row i w = Some row" "u = toUserEntity row" by auto
  with user_row_Some [OF row(1)] have id: "u_id u = i" by simp
  with user_row_Some [OF row(1)] ok(1) row(2) have pos: "0 < u_id u" by (auto simp: users_ok_def)
  have "users_ok w3" using ok(1) users_ok_cong [OF st(7,12)] by simp
  note b = becomeSeller_Inr [OF bs this _ pos]
  have u3: "map_option toUserEntity (user_row (u_id u) w3) = Some u" using u id user_row_cong [OF st(7)] by simp
  have "principals_ok env w4" using principals_ok_cong [of w4 w env] b(6-8) [OF u3] st(9-11) ok(3) by simp
  note pr = approved_principal [OF assms(1) this rm ra]
  have s: "s = u\<lparr>u_role := Seller\<rparr>" by (rule b(1) [OF u3])
  have sync: "users (snd (syncKind pid (u_role s) w5)) = users w5" "merchants (snd (syncKind pid (u_role s) w5)) = merchants w5"
    "merchant_verifications (snd (syncKind pid (u_role s) w5)) = merchant_verifications w5"
    "verification_seq (snd (syncKind pid (u_role s) w5)) = verification_seq w5" by (simp_all add: syncKind_def)
  note f = registerAlias_frame [OF ra, unfolded sync] resolve_frame [OF rm] saveVerification_frame [OF sv]
  have six: "merchant_verifications w6 = merchant_verifications w" "verification_seq w6 = verification_seq w"
    using f(4,5,13,14) b(5,10) [OF u3] st(8,13) by simp_all
  then have ok6: "applications_ok w6" using ok(2) applications_ok_cong by metis
  have mine: "mv_userId v = i" using find_Some_mem [OF v(1)] by simp
  note sf = saveVerification_found [OF ok6 sv]
  have app: "find (\<lambda>v. mv_userId v = i) (merchant_verifications t) = Some r" "mv_status r = SVerified" "mv_verifiedAt r = Some (clock w)"
    using sf mine by simp_all
  have "merchants t = merchants w3" using f(2,11,18) b(4) [OF u3] by simp
  then have store: "findMerchantByUserId i t = (Inr (Some m), t)" using st(5) by (simp add: findMerchantByUserId_def)
  have "users t = users w4" using f by simp
  then have seller: "findById i t = (Inr (Some s), t)" using b(2) [OF u3] id user_row_cong [of t w4 i] by simp
  have names: "look (''identity'', decimal i) t = Some pid" "look (MERCHANT_ALIAS_SERVICE, decimal (m_id m)) t = Some pid"
    using pr(1,2) s id f by (simp_all add: look_def alias_of_def)
  have kind: "\<exists>p \<in> set (principals t). pr_id p = pid \<and> pr_kind p = PRINCIPAL_KIND_MERCHANT" using pr(3) s f by simp
  have am: "MerchantEntity.truncate a = m" "am_principalId a = pid" "m_id a = m_id m" "m_status a = m_status m"
    "m_streetAddress a = m_streetAddress m" "m_city a = m_city m" "m_postalCode a = m_postalCode m"
    by (simp_all add: a MerchantEntity.defs ApprovedMerchant.defs)
  have "u_role s = Seller" by (simp add: s)
  then show ?thesis unfolding am using v app seller store names kind st(1-4) by (simp del: findById_run)
qed

section \<open>Stores in good standing or suspended\<close>

text \<open>Nothing after the save of the store touches the stores again.\<close>

lemma saveUser_stores: "merchants (snd (saveUser u w)) = merchants w" "merchant_seq (snd (saveUser u w)) = merchant_seq w"
  by (auto simp: saveUser_unfold split: option.split)

lemma finishApproval_stores:
  "keeps (\<lambda>w. merchants w = M \<and> merchant_seq w = n) (finishApproval env v u now m)"
proof -
  let ?J = "\<lambda>w. merchants w = M \<and> merchant_seq w = n"
  have user: "keeps ?J (saveUser x)" for x by (rule keepsI) (simp add: saveUser_stores)
  have resolve: "keeps ?J (resolveOrMintForUser env x)" for x
    by (rule keepsI) (metis resolve_frame(2,3) prod.collapse)
  have sync: "keeps ?J (syncKind x y)" for x y by (rule keepsI) (simp add: syncKind_def)
  have naming: "keeps ?J (registerAlias x y z)" for x y z by (rule keepsI) (metis registerAlias_frame(2,3) prod.collapse)
  have application: "keeps ?J (saveVerification x)" for x by (rule keepsI) (metis saveVerification_frame(2,3) prod.collapse)
  show ?thesis
    unfolding finishApproval_def becomeSeller_def by (intro keeps_rules user resolve sync naming application)
qed

text \<open>What any approval, returned or refused, does to the stores: nothing, or one save of a store that it may touch.\<close>

lemma approve_stores:
  assumes "approveVerification env geo i w = (r, t)"
  obtains (untouched) "merchants t = merchants w" "merchant_seq t = merchant_seq w"
  | (saved) v d p w2 x w3 where "storeFor i v (clock w) w = (Inr d, w)" "m_id p = m_id d" "merchants w2 = merchants w"
      "merchant_seq w2 = merchant_seq w" "saveMerchant p w2 = (x, w3)" "merchants t = merchants w3" "merchant_seq t = merchant_seq w3"
proof (cases "pendingApplicationOf i w")
  case (Pair pend w0)
  have w0: "w0 = w" using Pair by (auto simp: pendingApplicationOf_def findApplication_def findVerification_def andThen_run split: option.splits if_splits)
  show ?thesis
  proof (cases pend)
    case (Inl e)
    with Pair assms w0 show ?thesis by (intro untouched) (auto simp: approveVerification_def andThen_run)
  next
    case (Inr v)
    show ?thesis
    proof (cases "user_row i w")
      case None
      with Pair Inr assms w0 show ?thesis by (intro untouched) (auto simp: approveVerification_def andThen_run)
    next
      case (Some u)
      show ?thesis
      proof (cases "u_role u = Customer \<or> u_role u = Seller")
        case False
        with Some Pair Inr assms w0 show ?thesis
          by (intro untouched) (auto simp: approveVerification_def andThen_run requireMayBecomeSeller_def)
      next
        case may: True
        have from_here: "(r, t) = andThen (storeFor i v (clock w)) (\<lambda>draft. andThen (placeStore geo draft)
            (\<lambda>placed. andThen (saveMerchant placed) (finishApproval env v (toUserEntity u) (clock w)))) w"
          using Some Pair Inr assms w0 may by (simp add: approveVerification_def andThen_run requireMayBecomeSeller_def)
        have still: "snd (storeFor i v (clock w) w) = w"
          using uniqueSlug_run [of "mv_storeName v" i w]
          by (auto simp: storeFor_def findMerchantByUserId_def andThen_run split: option.split)
        show ?thesis
        proof (cases "fst (storeFor i v (clock w) w)")
          case (Inl e)
          with still from_here show ?thesis by (intro untouched) (simp_all add: andThen_run split: prod.splits)
        next
          case (Inr d)
          with still have d: "storeFor i v (clock w) w = (Inr d, w)" by (simp add: prod_eq_iff)
          obtain q w2 where place: "placeStore geo d w = (q, w2)" by fastforce
          then obtain a b where q: "q = Inr (d\<lparr>m_latitude := a, m_longitude := b, m_geocodedAt := Some (clock w)\<rparr>)"
            and f: "merchants w2 = merchants w" "merchant_seq w2 = merchant_seq w" by (rule placeStore_cases) blast
          let ?p = "d\<lparr>m_latitude := a, m_longitude := b, m_geocodedAt := Some (clock w)\<rparr>"
          obtain x w3 where save: "saveMerchant ?p w2 = (x, w3)" by fastforce
          have "merchants t = merchants w3 \<and> merchant_seq t = merchant_seq w3"
          proof (cases x)
            case (Inl e)
            with from_here d place q save show ?thesis by (simp add: andThen_run)
          next
            case (Inr m)
            with from_here d place q save have "t = snd (finishApproval env v (toUserEntity u) (clock w) m w3)"
              by (simp add: andThen_run) (metis snd_conv)
            with keepsD [OF finishApproval_stores, of w3 "merchants w3" "merchant_seq w3"] show ?thesis by simp
          qed
          with d f save show ?thesis by (intro saved [of v d ?p]) simp_all
        qed
      qed
    qed
  qed
qed

inductive store_step :: "'tok Env \<Rightarrow> GeoEnv \<Rightarrow> world \<Rightarrow> world \<Rightarrow> bool" for env :: "'tok Env" and geo :: GeoEnv where
  approving: "approveVerification env geo i w = (r, t) \<Longrightarrow> store_step env geo w t"
| no_approval: "merchants t = merchants w \<Longrightarrow> merchant_seq t = merchant_seq w \<Longrightarrow> store_step env geo w t"

definition standing :: "MerchantRow \<Rightarrow> world \<Rightarrow> bool" where
  "standing m w \<longleftrightarrow> stores_ok w \<and> m \<in> set (merchants w) \<and> m_status m \<in> {MActive, MSuspended}"

lemma standing_save:
  assumes "standing m w" and "storeFor i v now w = (Inr d, w)" and "m_id p = m_id d" and "merchants w2 = merchants w"
    "merchant_seq w2 = merchant_seq w" "saveMerchant p w2 = (x, w3)" "merchants t = merchants w3" "merchant_seq t = merchant_seq w3"
  shows "standing m t"
proof -
  have ok: "stores_ok w2" using assms(1) stores_ok_cong [OF assms(4,5)] by (simp add: standing_def)
  have ok3: "stores_ok t" using saveMerchant_ok [OF ok assms(6)] stores_ok_cong [OF assms(7,8)] by simp
  have m: "m \<in> set (merchants w2)" using assms(1,4) by (simp add: standing_def)
  have "m \<in> set (merchants w3)"
  proof (cases x)
    case (Inl e)
    with saveMerchant_Inl assms(6) m show ?thesis by metis
  next
    case (Inr e)
    with assms(6) have "saveMerchant p w2 = (Inr e, w3)" by simp
    then obtain r n where "save_merchant_row p w2 = (Some r, n, merchants w3)" by (rule saveMerchant_Inr)
    then show ?thesis unfolding save_merchant_row_def
    proof (cases rule: store_table.save_cases)
      case (updated q)
      have "m_id m \<noteq> m_id p"
        using assms(2)
      proof (cases rule: storeFor_Inr)
        case (renewed y)
        then have "y \<noteq> m" using assms(1) by (auto simp: standing_def)
        with renewed(2) m assms(4) have "m_id y \<noteq> m_id m"
          using key_unique [OF table_okD(1) [OF ok [unfolded stores_ok_def]], of y m] by auto
        with renewed assms(3) show ?thesis by (simp add: reopened_def)
      next
        case (created slug)
        with updated assms(3) show ?thesis by (simp add: new_store_def)
      qed
      with m updated show ?thesis by (auto simp: set_update_where image_iff intro!: bexI [of _ m])
    next
      case (added j)
      with m show ?thesis by simp
    qed
  qed
  with ok3 assms(1,7) show ?thesis by (simp add: standing_def)
qed

interpretation standing_store: invariant_machine "standing m" "store_step env geo" "standing m" for env geo m
proof unfold_locales
  fix s t
  assume inv: "standing m s" and "store_step env geo s t"
  from this(2) show "standing m t"
  proof cases
    case (approving i r)
    then show ?thesis
    proof (cases rule: approve_stores)
      case untouched
      with inv show ?thesis by (simp add: standing_def stores_ok_def)
    next
      case (saved v d p w2 x w3)
      with inv show ?thesis by (rule standing_save)
    qed
  next
    case no_approval
    with inv show ?thesis by (simp add: standing_def stores_ok_def)
  qed
qed

text \<open>
  C16. An approval changes no store that is active or suspended. Whatever approvals run, and however
  they end, a store that is active or suspended keeps its row unchanged: applying again does not lift a
  suspension.
\<close>

theorem suspended_store_stays_suspended:
  "standing m w \<Longrightarrow> (store_step env geo)\<^sup>*\<^sup>* w t \<Longrightarrow> m \<in> set (merchants t) \<and> m_status m \<in> {MActive, MSuspended}"
  using standing_store.inv_steps [of env geo w t m] by (simp add: standing_def)

text \<open>
  C36. A taken slug ends in a refusal that no retry lifts. The account is a customer or a seller with
  a pending application and has no store yet. When the slug made from the store's name belongs to a
  store, and so does that slug with the account's number appended, the approval fails with the
  conflict that asks for a retry, and leaves stores, applications and accounts as they were, so that
  the next approval fails the same way.
\<close>

theorem taken_slug_refuses_every_approval:
  assumes "find (\<lambda>v. mv_userId v = i) (merchant_verifications w) = Some v" and "mv_status v = SPending"
    and "user_row i w = Some u" and "u_role u = Customer \<or> u_role u = Seller" and "addresses_ok w"
    and "filter (\<lambda>m. m_userId m = i) (merchants w) = []"
    and "find (\<lambda>m. m_slug m = slug_base (mv_storeName v)) (merchants w) = Some b"
    and "find (\<lambda>m. m_slug m = slug_base (mv_storeName v) @ ''-'' @ decimal i) (merchants w) = Some c"
  shows "\<exists>t. approveVerification env geo i w =
      (Inl (RecordConflictError ''The merchant or its store slug was written by another request at the same time''), t)
    \<and> merchants t = merchants w \<and> merchant_verifications t = merchant_verifications w \<and> users t = users w"
proof -
  let ?slug = "slug_base (mv_storeName v) @ ''-'' @ decimal i" and ?d = "new_store i v (slug_base (mv_storeName v) @ ''-'' @ decimal i) (clock w)"
  have none: "find (\<lambda>m. m_userId m = i) (merchants w) = None"
    using assms(6) by (auto simp: find_None_iff filter_empty_conv)
  have "m_userId b \<noteq> i" using assms(6) find_Some_mem [OF assms(7)] by (auto simp: filter_empty_conv)
  then have "uniqueSlug (mv_storeName v) i w = (Inr ?slug, w)"
    using assms(7) by (simp add: uniqueSlug_def findBySlug_def Let_def)
  then have d: "storeFor i v (clock w) w = (Inr ?d, w)"
    using none by (simp add: storeFor_def findMerchantByUserId_def andThen_run)
  obtain q w2 where place: "placeStore geo ?d w = (q, w2)" by fastforce
  then obtain x y where q: "q = Inr (?d\<lparr>m_latitude := x, m_longitude := y, m_geocodedAt := Some (clock w)\<rparr>)" and "point_check x y"
    and f: "users w2 = users w" "merchants w2 = merchants w" "merchant_verifications w2 = merchant_verifications w"
    by (rule placeStore_cases) (use assms(5) in blast)
  let ?p = "?d\<lparr>m_latitude := x, m_longitude := y, m_geocodedAt := Some (clock w)\<rparr>"
  from find_Some_mem [OF assms(8)] f(2) have "\<exists>r \<in> set (merchants w2). m_id r = merchant_seq w2 \<or> store_clash ?p r"
    by (intro bexI [of _ c]) (simp_all add: store_clash_def new_store_def)
  then have "save_merchant_row ?p w2 = (None, Suc (merchant_seq w2), merchants w2)"
    by (simp add: save_merchant_row_def save_row_def new_store_def)
  with \<open>point_check x y\<close> have "saveMerchant ?p w2 =
      (Inl (RecordConflictError ''The merchant or its store slug was written by another request at the same time''),
       w2\<lparr>merchant_seq := Suc (merchant_seq w2), transactions := Suc (transactions w2)\<rparr>)"
    by (simp add: saveMerchant_def insert_merchant_def andThen_run catches_run isForeignKeyViolation_def isUniqueViolation_def Let_def)
  with assms(1-4) d place q f show ?thesis
    by (simp add: approveVerification_def pendingApplicationOf_def findApplication_def findVerification_def requireMayBecomeSeller_def andThen_run)
qed

section \<open>Examples\<close>

definition sample_shop :: "nat \<Rightarrow> nat \<Rightarrow> string \<Rightarrow> MerchantStatus \<Rightarrow> MerchantRow" where
  "sample_shop i owner slug status = fresh_merchant 0 0 i
     ((new_store owner (sample_application owner) slug 0)\<lparr>m_status := status\<rparr>)"

definition sample_applicant :: "MerchantRow list \<Rightarrow> world" where
  "sample_applicant shops = empty_world\<lparr>users := [sample_row], merchant_verifications := [sample_application 1], verification_seq := 2,
     merchants := shops, merchant_seq := 4\<rparr>"

lemma sample_applicant_ok: "onboarding_ok sample_env (sample_applicant [])"
  by (simp add: onboarding_ok_def users_ok_def stores_ok_def applications_ok_def principals_ok_def addresses_ok_def table_ok_def
      sample_applicant_def sample_application_def empty_world_def sample_row_def sample_user_def UserEntity.defs UserRow.defs)

lemma sample_approval: "\<not> isl (fst (approveVerification sample_env sample_geo 1 (sample_applicant [])))"
  by code_simp

theorem approval_opens_store_witness:
  "\<exists>a t. approveVerification sample_env sample_geo 1 (sample_applicant []) = (Inr a, t)
     \<and> findMerchantByUserId 1 t = (Inr (Some (MerchantEntity.truncate a)), t) \<and> m_status a = MVerified"
proof -
  obtain a t where run: "approveVerification sample_env sample_geo 1 (sample_applicant []) = (Inr a, t)"
    using returned [OF sample_approval] by blast
  from approval_opens_store [OF sample_env_uuid sample_applicant_ok run] run show ?thesis by blast
qed

theorem suspended_store_stays_suspended_witness:
  "sample_shop 1 1 ''toko'' MSuspended \<in> set (merchants (snd (approveVerification sample_env sample_geo 1
     (sample_applicant [sample_shop 1 1 ''toko'' MSuspended]))))"
proof -
  let ?w = "sample_applicant [sample_shop 1 1 ''toko'' MSuspended]"
  have "standing (sample_shop 1 1 ''toko'' MSuspended) ?w"
    by (simp add: standing_def stores_ok_def table_ok_def sample_applicant_def sample_shop_def)
  moreover have "(store_step sample_env sample_geo)\<^sup>*\<^sup>* ?w (snd (approveVerification sample_env sample_geo 1 ?w))"
    by (intro r_into_rtranclp approving [of _ _ 1 _ "fst (approveVerification sample_env sample_geo 1 ?w)"]) simp
  ultimately show ?thesis using suspended_store_stays_suspended by blast
qed

theorem taken_slug_refuses_every_approval_witness:
  "fst (approveVerification sample_env sample_geo 1 (sample_applicant [sample_shop 1 2 ''toko'' MVerified, sample_shop 2 3 ''toko-1'' MVerified]))
     = Inl (RecordConflictError ''The merchant or its store slug was written by another request at the same time'')"
proof -
  let ?w = "sample_applicant [sample_shop 1 2 ''toko'' MVerified, sample_shop 2 3 ''toko-1'' MVerified]"
  have slugs: "slug_base (mv_storeName (sample_application 1)) = ''toko''" "''toko'' @ ''-'' @ decimal 1 = ''toko-1''" by code_simp+
  have "\<exists>t. approveVerification sample_env sample_geo 1 ?w =
      (Inl (RecordConflictError ''The merchant or its store slug was written by another request at the same time''), t)
    \<and> merchants t = merchants ?w \<and> merchant_verifications t = merchant_verifications ?w \<and> users t = users ?w"
  proof (rule taken_slug_refuses_every_approval [where v = "sample_application 1" and u = sample_row
        and b = "sample_shop 1 2 ''toko'' MVerified" and c = "sample_shop 2 3 ''toko-1'' MVerified"])
    show "find (\<lambda>m. m_slug m = slug_base (mv_storeName (sample_application 1)) @ ''-'' @ decimal 1) (merchants ?w)
        = Some (sample_shop 2 3 ''toko-1'' MVerified)"
      unfolding slugs by (simp add: sample_applicant_def sample_shop_def new_store_def)
    show "find (\<lambda>m. m_slug m = slug_base (mv_storeName (sample_application 1))) (merchants ?w) = Some (sample_shop 1 2 ''toko'' MVerified)"
      unfolding slugs by (simp add: sample_applicant_def sample_shop_def new_store_def)
  qed (simp_all add: sample_applicant_def sample_application_def user_row_def sample_row_def sample_user_def addresses_ok_def empty_world_def
      sample_shop_def new_store_def UserEntity.defs UserRow.defs)
  then show ?thesis by auto
qed

end
