(* ===== verification/Merchant_Feed.thy ===== *)
theory Merchant_Feed
  imports Seller_Onboarding
begin

text \<open>
  The change feed of the stores, which other services poll to mirror them: \<^verbatim>\<open>findChangedSince\<close> and
  \<^verbatim>\<open>findChangedAfter\<close> of \<^verbatim>\<open>typeorm_merchant_repository.adapter.ts\<close>. The first orders by the time of
  the change; the second by the transaction that made it, and reports nothing from the oldest running
  transaction on, because a transaction that started earlier may still commit later.
\<close>

section \<open>The two queries\<close>

record MerchantChange =
  mc_merchant :: MerchantEntity
  mc_updatedAt :: int

record MerchantChangePage =
  mp_changes :: "MerchantChange list"
  mp_hasMore :: bool
  mp_lastTransactionId :: "nat option"

definition changeOf :: "MerchantRow \<Rightarrow> MerchantChange" where
  "changeOf m = \<lparr>mc_merchant = toMerchantEntity m, mc_updatedAt = mr_updatedAt m\<rparr>"

definition by_time :: "world \<Rightarrow> MerchantRow list" where
  "by_time w = sort_key (\<lambda>m. (mr_updatedAt m, m_id m)) (merchants w)"

definition findChangedSince :: "int option \<Rightarrow> nat \<Rightarrow> nat \<Rightarrow> MerchantChangePage act" where
  "findChangedSince updatedThrough lastId limit =
     reads (\<lambda>w.
       let records = take (limit + 1) (filter (\<lambda>m. case updatedThrough of
               None \<Rightarrow> True
             | Some t \<Rightarrow> t < mr_updatedAt m \<or> mr_updatedAt m = t \<and> lastId < m_id m) (by_time w));
           (page, hasMore) = cut_page limit records
       in \<lparr>mp_changes = map changeOf page, mp_hasMore = hasMore, mp_lastTransactionId = None\<rparr>)"

text \<open>\<open>horizon\<close> is \<^verbatim>\<open>pg_snapshot_xmin(pg_current_snapshot())\<close>: no transaction below it is still running.\<close>

definition by_transaction :: "nat \<Rightarrow> world \<Rightarrow> MerchantRow list" where
  "by_transaction horizon w =
     sort_key (\<lambda>m. (mr_changeTransaction m, m_id m)) (filter (\<lambda>m. mr_changeTransaction m < horizon) (merchants w))"

definition changed_after :: "nat \<Rightarrow> world \<Rightarrow> nat \<Rightarrow> nat \<times> nat \<Rightarrow> MerchantRow list \<times> bool" where
  "changed_after horizon w limit cursor =
     cut_page limit (take (limit + 1) (filter (\<lambda>m. cursor < (mr_changeTransaction m, m_id m)) (by_transaction horizon w)))"

definition findChangedAfter :: "nat \<Rightarrow> nat \<Rightarrow> nat \<Rightarrow> nat \<Rightarrow> MerchantChangePage act" where
  "findChangedAfter horizon transactionId lastId limit =
     reads (\<lambda>w. let (page, hasMore) = changed_after horizon w limit (transactionId, lastId) in
       \<lparr>mp_changes = map changeOf page, mp_hasMore = hasMore,
        mp_lastTransactionId = Some (if page \<noteq> [] then mr_changeTransaction (last page) else transactionId)\<rparr>)"

section \<open>Both are read to the end\<close>

definition store_ids_ok :: "world \<Rightarrow> bool" where
  "store_ids_ok w \<longleftrightarrow> distinct (map m_id (merchants w))"

lemma distinct_with_id: "store_ids_ok w \<Longrightarrow> distinct (map (\<lambda>m. (f m, m_id m)) (merchants w))"
  by (auto simp: store_ids_ok_def distinct_map inj_on_def)

interpretation transaction_feed: keyset_pages "by_transaction horizon" "\<lambda>m. (mr_changeTransaction m, m_id m)" store_ids_ok "changed_after horizon" for horizon
  by unfold_locales (simp_all add: by_transaction_def changed_after_def sorted_by_key distinct_with_id)

definition since_page :: "world \<Rightarrow> nat \<Rightarrow> int \<times> nat \<Rightarrow> MerchantRow list \<times> bool" where
  "since_page w limit cursor = cut_page limit (take (limit + 1) (filter (\<lambda>m. cursor < (mr_updatedAt m, m_id m)) (by_time w)))"

interpretation time_feed: keyset_pages by_time "\<lambda>m. (mr_updatedAt m, m_id m)" store_ids_ok since_page
proof unfold_locales
  fix s assume "store_ids_ok s"
  from sorted_by_key [OF distinct_with_id [OF this], of mr_updatedAt "\<lambda>_. True"]
  show "sorted_wrt (<) (map (\<lambda>m. (mr_updatedAt m, m_id m)) (by_time s))" by (simp add: by_time_def)
qed (simp add: since_page_def)

lemma findChangedSince_page:
  "findChangedSince (Some t) i limit w =
     (Inr \<lparr>mp_changes = map changeOf (fst (since_page w limit (t, i))), mp_hasMore = snd (since_page w limit (t, i)), mp_lastTransactionId = None\<rparr>, w)"
proof -
  have "(t < mr_updatedAt m \<or> mr_updatedAt m = t \<and> i < m_id m) \<longleftrightarrow> (t, i) < (mr_updatedAt m, m_id m)" for m :: MerchantRow
    by auto
  then have "filter (\<lambda>m. t < mr_updatedAt m \<or> mr_updatedAt m = t \<and> i < m_id m) (by_time w)
      = filter (\<lambda>m. (t, i) < (mr_updatedAt m, m_id m)) (by_time w)" by (simp only:)
  then show ?thesis unfolding findChangedSince_def since_page_def by (simp add: Let_def split: prod.split)
qed

section \<open>A reader beside running transactions\<close>

text \<open>
  The state of the database and of one reader: the tables, the ids of the transactions still running, the
  cursor the reader holds, and the changes it has been told. A transaction takes the next id when it starts
  to write and, when it commits, stamps the rows it wrote with that id; another save may commit meanwhile.
\<close>

record feed_state =
  fs_world :: world
  fs_running :: "nat list"
  fs_cursor :: "nat \<times> nat"
  fs_told :: "MerchantChange set"

definition oldest_running :: "feed_state \<Rightarrow> nat" where
  "oldest_running s = fold min (fs_running s) (transactions (fs_world s))"

definition poll :: "nat \<Rightarrow> feed_state \<Rightarrow> feed_state" where
  "poll limit s =
     (case findChangedAfter (oldest_running s) (fst (fs_cursor s)) (snd (fs_cursor s)) limit (fs_world s) of
        (Inr p, _) \<Rightarrow>
          s\<lparr>fs_told := fs_told s \<union> set (mp_changes p),
            fs_cursor := (if mp_changes p = [] then fs_cursor s
              else (the (mp_lastTransactionId p), m_id (mc_merchant (last (mp_changes p)))))\<rparr>
      | (Inl e, _) \<Rightarrow> s)"

inductive feed_step :: "feed_state \<Rightarrow> feed_state \<Rightarrow> bool" where
  starting: "feed_step s (s\<lparr>fs_running := transactions (fs_world s) # fs_running s,
      fs_world := (fs_world s)\<lparr>transactions := Suc (transactions (fs_world s))\<rparr>\<rparr>)"
| committing: "x \<in> set (fs_running s) \<Longrightarrow> distinct (map m_id rows) \<Longrightarrow>
      (\<And>m. m \<in> set rows \<Longrightarrow> m \<in> set (merchants (fs_world s)) \<or> mr_changeTransaction m = x) \<Longrightarrow>
      feed_step s (s\<lparr>fs_running := removeAll x (fs_running s), fs_world := (fs_world s)\<lparr>merchants := rows\<rparr>\<rparr>)"
| aborting: "feed_step s (s\<lparr>fs_running := removeAll x (fs_running s)\<rparr>)"
| saving: "saveMerchant m (fs_world s) = (r, w) \<Longrightarrow> feed_step s (s\<lparr>fs_world := w\<rparr>)"
| polling: "feed_step s (poll limit s)"

definition feed_ok :: "feed_state \<Rightarrow> bool" where
  "feed_ok s \<longleftrightarrow> store_ids_ok (fs_world s) \<and> fst (fs_cursor s) < oldest_running s
     \<and> (\<forall>m \<in> set (merchants (fs_world s)). (mr_changeTransaction m, m_id m) \<le> fs_cursor s \<longrightarrow> changeOf m \<in> fs_told s)"

lemma fold_min_less: "c < fold min xs (n::nat) \<longleftrightarrow> c < n \<and> (\<forall>x \<in> set xs. c < x)"
  by (induction xs arbitrary: n) auto

lemma below_oldest: "c < oldest_running s \<longleftrightarrow> c < transactions (fs_world s) \<and> (\<forall>x \<in> set (fs_running s). c < x)"
  by (simp add: oldest_running_def fold_min_less)

lemma beyond_cursor: "fst c < (x::nat) \<Longrightarrow> \<not> (x, i::nat) \<le> c"
  by (cases c) auto

lemma overwrite_merchant_stamp: "overwrite_merchant now tx m r = r \<or> mr_changeTransaction (overwrite_merchant now tx m r) = tx"
  by (simp add: overwrite_merchant_def Let_def)

lemma saveMerchant_rows:
  assumes "saveMerchant m w = (r, t)" and "store_ids_ok w"
  shows "store_ids_ok t \<and> transactions t = Suc (transactions w)
    \<and> (\<forall>q \<in> set (merchants t). q \<in> set (merchants w) \<or> mr_changeTransaction q = transactions w)"
proof -
  have tx: "transactions t = Suc (transactions w)"
    using assms(1) by (auto simp: saveMerchant_def insert_merchant_def andThen_run catches_run Let_def split: prod.splits option.splits if_splits)
  show ?thesis
  proof (cases r)
    case (Inl e)
    with assms saveMerchant_Inl [of m w e t] tx show ?thesis by (simp add: store_ids_ok_def)
  next
    case (Inr e)
    with assms(1) have "saveMerchant m w = (Inr e, t)" by simp
    then obtain x n where "save_merchant_row m w = (Some x, n, merchants t)" by (rule saveMerchant_Inr)
    then show ?thesis unfolding save_merchant_row_def
    proof (cases rule: store_table.save_cases)
      case (updated y)
      have "store_ids_ok t" using assms(2) unfolding store_ids_ok_def updated by (simp add: map_update_where_key)
      moreover have "\<forall>q \<in> set (merchants t). q \<in> set (merchants w) \<or> mr_changeTransaction q = transactions w"
      proof
        fix q assume "q \<in> set (merchants t)"
        then obtain z where z: "z \<in> set (merchants w)" "q = (if m_id z = m_id m then overwrite_merchant (clock w) (transactions w) m z else z)"
          unfolding updated by (auto simp: set_update_where)
        then show "q \<in> set (merchants w) \<or> mr_changeTransaction q = transactions w"
          using overwrite_merchant_stamp [of "clock w" "transactions w" m z] by (cases "m_id z = m_id m") auto
      qed
      ultimately show ?thesis using tx by blast
    next
      case (added j)
      with assms(2) tx show ?thesis by (auto simp: store_ids_ok_def)
    qed
  qed
qed

lemma poll_run:
  "poll limit s = (case changed_after (oldest_running s) (fs_world s) limit (fs_cursor s) of (page, hasMore) \<Rightarrow>
     s\<lparr>fs_told := fs_told s \<union> changeOf ` set page,
       fs_cursor := (if page = [] then fs_cursor s else (mr_changeTransaction (last page), m_id (last page)))\<rparr>)"
  by (auto simp: poll_def findChangedAfter_def last_map changeOf_def split: prod.split)

lemma by_transaction_set: "set (by_transaction h w) = {m \<in> set (merchants w). mr_changeTransaction m < h}"
  by (auto simp: by_transaction_def)

lemma feed_ok_poll:
  assumes "feed_ok s" shows "feed_ok (poll limit s)"
proof -
  obtain page hasMore where page: "changed_after (oldest_running s) (fs_world s) limit (fs_cursor s) = (page, hasMore)" by fastforce
  have ids: "store_ids_ok (fs_world s)" using assms by (simp add: feed_ok_def)
  note covers = transaction_feed.page_covers [OF ids page] and members = transaction_feed.page_rows [OF ids page]
  show ?thesis
  proof (cases "page = []")
    case True
    with assms page show ?thesis by (simp add: poll_run)
  next
    case False
    let ?c = "(mr_changeTransaction (last page), m_id (last page))"
    have "mr_changeTransaction (last page) < oldest_running s"
      using members [of "last page"] False by (simp add: by_transaction_set)
    moreover have "changeOf m \<in> fs_told s \<union> changeOf ` set page"
      if m: "m \<in> set (merchants (fs_world s))" "(mr_changeTransaction m, m_id m) \<le> ?c" for m
    proof (cases "(mr_changeTransaction m, m_id m) \<le> fs_cursor s")
      case True
      with assms m(1) show ?thesis by (simp add: feed_ok_def)
    next
      case later: False
      have "mr_changeTransaction m \<le> mr_changeTransaction (last page)" using m(2) by (auto simp: less_eq_prod_def)
      with \<open>mr_changeTransaction (last page) < oldest_running s\<close> m(1) have "m \<in> set (by_transaction (oldest_running s) (fs_world s))"
        by (simp add: by_transaction_set)
      from covers [OF False this] later m(2) show ?thesis by (simp add: not_le)
    qed
    ultimately show ?thesis using ids False page by (simp add: poll_run feed_ok_def oldest_running_def)
  qed
qed

lemma feed_ok_rows:
  assumes "feed_ok s" and "distinct (map m_id rows)" and "fst (fs_cursor s) < x"
    and "\<And>m. m \<in> set rows \<Longrightarrow> m \<in> set (merchants (fs_world s)) \<or> mr_changeTransaction m = x"
  shows "\<forall>m \<in> set rows. (mr_changeTransaction m, m_id m) \<le> fs_cursor s \<longrightarrow> changeOf m \<in> fs_told s"
  using assms beyond_cursor [OF assms(3)] by (auto simp: feed_ok_def)

interpretation reader: invariant_machine feed_ok feed_step feed_ok
proof unfold_locales
  fix s t
  assume ok: "feed_ok s" and "feed_step s t"
  have low: "fst (fs_cursor s) < transactions (fs_world s)" "\<forall>x \<in> set (fs_running s). fst (fs_cursor s) < x"
    using ok by (simp_all add: feed_ok_def below_oldest)
  from \<open>feed_step s t\<close> show "feed_ok t"
  proof cases
    case starting
    with ok low show ?thesis by (auto simp: feed_ok_def below_oldest store_ids_ok_def)
  next
    case (committing x rows)
    have "fst (fs_cursor s) < x" using committing(2) low(2) by blast
    from feed_ok_rows [OF ok committing(3) this committing(4)] committing(3) low show ?thesis
      by (simp add: committing(1) feed_ok_def below_oldest store_ids_ok_def)
  next
    case (aborting x)
    with ok low show ?thesis by (simp add: feed_ok_def below_oldest)
  next
    case (saving m r w)
    have ids: "store_ids_ok (fs_world s)" using ok by (simp add: feed_ok_def)
    note rows = saveMerchant_rows [OF saving(2) ids]
    then have "distinct (map m_id (merchants w))" "\<And>q. q \<in> set (merchants w) \<Longrightarrow> q \<in> set (merchants (fs_world s)) \<or> mr_changeTransaction q = transactions (fs_world s)"
      by (simp_all add: store_ids_ok_def)
    from feed_ok_rows [OF ok this(1) low(1) this(2)] rows low show ?thesis by (simp add: saving(1) feed_ok_def below_oldest)
  next
    case (polling limit)
    with feed_ok_poll [OF ok] show ?thesis by simp
  qed
qed

section \<open>A reader that keeps polling catches up\<close>

definition ahead :: "feed_state \<Rightarrow> MerchantRow set" where
  "ahead s = {m \<in> set (by_transaction (oldest_running s) (fs_world s)). fs_cursor s < (mr_changeTransaction m, m_id m)}"

lemma poll_frame [simp]:
  "fs_world (poll limit s) = fs_world s" "fs_running (poll limit s) = fs_running s" "oldest_running (poll limit s) = oldest_running s"
  by (simp_all add: poll_run oldest_running_def split: prod.split)

lemma poll_progress:
  assumes "feed_ok s" and "0 < limit" and "ahead s \<noteq> {}" shows "card (ahead (poll limit s)) < card (ahead s)"
proof -
  obtain page hasMore where page: "changed_after (oldest_running s) (fs_world s) limit (fs_cursor s) = (page, hasMore)" by fastforce
  have ids: "store_ids_ok (fs_world s)" using assms(1) by (simp add: feed_ok_def)
  from assms(3) have "filter (\<lambda>m. fs_cursor s < (mr_changeTransaction m, m_id m)) (by_transaction (oldest_running s) (fs_world s)) \<noteq> []"
    by (auto simp: ahead_def filter_empty_conv)
  with page assms(2) have "page \<noteq> []" by (auto simp: changed_after_def cut_page_def Let_def split: if_splits)
  then have "last page \<in> set page" by simp
  with transaction_feed.page_rows [OF ids page] have "last page \<in> ahead s" by (simp add: ahead_def)
  have cursor: "fs_cursor (poll limit s) = (mr_changeTransaction (last page), m_id (last page))"
    using page \<open>page \<noteq> []\<close> by (simp add: poll_run)
  then have "last page \<notin> ahead (poll limit s)" by (simp add: ahead_def)
  moreover have "ahead (poll limit s) \<subseteq> ahead s"
  proof
    fix x assume "x \<in> ahead (poll limit s)"
    then have x: "x \<in> set (by_transaction (oldest_running s) (fs_world s))" "fs_cursor (poll limit s) < (mr_changeTransaction x, m_id x)"
      unfolding ahead_def poll_frame by blast+
    have "fs_cursor s < fs_cursor (poll limit s)" using cursor \<open>last page \<in> ahead s\<close> unfolding ahead_def by simp
    from order.strict_trans [OF this x(2)] x(1) show "x \<in> ahead s" unfolding ahead_def by blast
  qed
  ultimately have "ahead (poll limit s) \<subset> ahead s" using \<open>last page \<in> ahead s\<close> by blast
  moreover have "finite (ahead s)" by (simp add: ahead_def)
  ultimately show ?thesis by (simp add: psubset_card_mono)
qed

lemma poll_empty:
  assumes "feed_ok s" and "ahead s = {}" shows "ahead (poll limit s) = {}"
proof -
  obtain page hasMore where page: "changed_after (oldest_running s) (fs_world s) limit (fs_cursor s) = (page, hasMore)" by fastforce
  have ids: "store_ids_ok (fs_world s)" using assms(1) by (simp add: feed_ok_def)
  have "x \<in> ahead s" if "x \<in> set page" for x
    using transaction_feed.page_rows [OF ids page that] by (simp add: ahead_def)
  with assms(2) have "page = []" by (cases page) auto
  then have "fs_cursor (poll limit s) = fs_cursor s" using page by (simp add: poll_run)
  with assms(2) show ?thesis unfolding ahead_def poll_frame by simp
qed

lemma polls_reach_the_end:
  assumes "feed_ok s" and "0 < limit" and "card (ahead s) \<le> n" shows "ahead ((poll limit ^^ n) s) = {} \<and> feed_ok ((poll limit ^^ n) s)"
  using assms(1,3)
proof (induction n arbitrary: s)
  case 0
  then show ?case by (simp add: ahead_def)
next
  case (Suc n)
  have "card (ahead (poll limit s)) \<le> n"
  proof (cases "ahead s = {}")
    case True
    with poll_empty [OF Suc.prems(1)] show ?thesis by simp
  next
    case False
    with poll_progress [OF Suc.prems(1) assms(2)] Suc.prems(2) show ?thesis by simp
  qed
  with Suc.IH [OF feed_ok_poll [OF Suc.prems(1)]] show ?case by (simp only: funpow_Suc_right o_apply)
qed

lemma polls_frame: "fs_world ((poll limit ^^ n) s) = fs_world s \<and> oldest_running ((poll limit ^^ n) s) = oldest_running s"
  by (induction n) simp_all

text \<open>
  C11. The feed loses no change. However transactions and saves start, commit in any order or abort between
  a reader's polls, once every change on file is older than every running transaction, a reader that goes on
  polling has, after at most as many polls as there are stores, been told the current state of every store.
\<close>

theorem feed_delivers_every_change:
  assumes "feed_ok s" and "feed_step\<^sup>*\<^sup>* s t" and "0 < limit"
    and "filter (\<lambda>m. oldest_running t \<le> mr_changeTransaction m) (merchants (fs_world t)) = []"
  shows "changeOf ` set (merchants (fs_world t)) \<subseteq> fs_told ((poll limit ^^ length (merchants (fs_world t))) t)"
proof
  let ?n = "length (merchants (fs_world t))"
  have ok: "feed_ok t" by (rule reader.inv_steps [OF assms(2,1)])
  have "ahead t \<subseteq> set (merchants (fs_world t))" by (auto simp: ahead_def by_transaction_set)
  then have "card (ahead t) \<le> ?n" by (meson List.finite_set card_length card_mono le_trans)
  from polls_reach_the_end [OF ok assms(3) this] have "ahead ((poll limit ^^ ?n) t) = {}" "feed_ok ((poll limit ^^ ?n) t)" by simp_all
  moreover fix c assume "c \<in> changeOf ` set (merchants (fs_world t))"
  then obtain m where m: "m \<in> set (merchants (fs_world t))" "c = changeOf m" by blast
  with assms(4) have "mr_changeTransaction m < oldest_running t" by (auto simp: filter_empty_conv not_le)
  ultimately show "c \<in> fs_told ((poll limit ^^ ?n) t)"
    using m polls_frame [of ?n limit t] by (auto simp: ahead_def by_transaction_set feed_ok_def not_less)
qed

definition sample_reader :: feed_state where
  "sample_reader = \<lparr>fs_world = (sample_applicant [sample_shop 1 1 ''toko'' MVerified])\<lparr>transactions := 5\<rparr>, fs_running = [],
     fs_cursor = (0, 0), fs_told = {}\<rparr>"

definition sample_busy :: feed_state where
  "sample_busy = sample_reader\<lparr>fs_running := [5], fs_world := (fs_world sample_reader)\<lparr>transactions := 6\<rparr>\<rparr>"

theorem feed_delivers_every_change_witness:
  "changeOf (sample_shop 1 1 ''toko'' MVerified) \<in> fs_told ((poll 10 ^^ 1) sample_busy)"
proof -
  have ok: "feed_ok sample_reader"
    by (simp add: feed_ok_def store_ids_ok_def sample_reader_def sample_applicant_def sample_shop_def oldest_running_def)
  have "feed_step sample_reader sample_busy"
    using feed_step.starting [of sample_reader] by (simp add: sample_busy_def) (simp add: sample_reader_def)
  then have steps: "feed_step\<^sup>*\<^sup>* sample_reader sample_busy" by (rule r_into_rtranclp)
  have rows: "merchants (fs_world sample_busy) = [sample_shop 1 1 ''toko'' MVerified]"
    by (simp add: sample_busy_def sample_reader_def sample_applicant_def)
  have "filter (\<lambda>m. oldest_running sample_busy \<le> mr_changeTransaction m) (merchants (fs_world sample_busy)) = []"
    by (simp add: oldest_running_def sample_busy_def sample_reader_def sample_shop_def sample_applicant_def)
  from feed_delivers_every_change [OF ok steps _ this, of 10] show ?thesis by (simp add: rows)
qed

end
