(* ===== verification/Wire.thy ===== *)
theory Wire
  imports Geocoding
begin

text \<open>
  What the gRPC surface puts on the wire and reads off it: \<^verbatim>\<open>adapters/mappers\<close>. Kinds and statuses are
  enums by name, times are protobuf timestamps, a transaction id is an unsigned 64-bit integer written
  in decimal.
\<close>

section \<open>Enums\<close>

fun kind_text :: "PrincipalKind \<Rightarrow> string" where
  "kind_text PRINCIPAL_KIND_UNSPECIFIED = ''PRINCIPAL_KIND_UNSPECIFIED''"
| "kind_text PRINCIPAL_KIND_CUSTOMER = ''PRINCIPAL_KIND_CUSTOMER''"
| "kind_text PRINCIPAL_KIND_MERCHANT = ''PRINCIPAL_KIND_MERCHANT''"
| "kind_text PRINCIPAL_KIND_DRIVER = ''PRINCIPAL_KIND_DRIVER''"
| "kind_text PRINCIPAL_KIND_STAFF = ''PRINCIPAL_KIND_STAFF''"
| "kind_text PRINCIPAL_KIND_SERVICE = ''PRINCIPAL_KIND_SERVICE''"

definition PRINCIPAL_KINDS :: "PrincipalKind list" where
  "PRINCIPAL_KINDS = [PRINCIPAL_KIND_UNSPECIFIED, PRINCIPAL_KIND_CUSTOMER, PRINCIPAL_KIND_MERCHANT, PRINCIPAL_KIND_DRIVER,
     PRINCIPAL_KIND_STAFF, PRINCIPAL_KIND_SERVICE]"

definition principalKindOf :: "string \<Rightarrow> PrincipalKind" where
  "principalKindOf value =
     (case find (\<lambda>k. kind_text k = value) PRINCIPAL_KINDS of Some k \<Rightarrow> k | None \<Rightarrow> PRINCIPAL_KIND_UNSPECIFIED)"

datatype ProtoMerchantStatus =
    MERCHANT_STATUS_UNSPECIFIED | MERCHANT_STATUS_PENDING | MERCHANT_STATUS_VERIFIED | MERCHANT_STATUS_SUSPENDED | MERCHANT_STATUS_CLOSED

fun merchant_status_text :: "MerchantStatus \<Rightarrow> string" where
  "merchant_status_text MPending = ''pending''"
| "merchant_status_text MVerified = ''verified''"
| "merchant_status_text MActive = ''active''"
| "merchant_status_text MSuspended = ''suspended''"

definition merchantStatusOf :: "string \<Rightarrow> ProtoMerchantStatus" where
  "merchantStatusOf status =
     (if status = ''pending'' then MERCHANT_STATUS_PENDING
      else if status = ''verified'' then MERCHANT_STATUS_VERIFIED
      else if status = ''suspended'' then MERCHANT_STATUS_SUSPENDED
      else if status = ''closed'' then MERCHANT_STATUS_CLOSED
      else MERCHANT_STATUS_UNSPECIFIED)"

lemma principalKindOf_text [simp]: "principalKindOf (kind_text k) = k"
  by (cases k) (simp_all add: principalKindOf_def PRINCIPAL_KINDS_def)

section \<open>Times\<close>

record ProtoTimestamp =
  pt_seconds :: int
  pt_nanos :: int

text \<open>A timestamp as it arrives: the text of its seconds, whatever type carries them, and its nanos.\<close>

record ProtoTimestampInput =
  pi_seconds :: "string option"
  pi_nanos :: "int option"

definition toProtoTimestamp :: "int \<Rightarrow> ProtoTimestamp" where
  "toProtoTimestamp milliseconds =
     (let seconds = milliseconds div 1000 in \<lparr>pt_seconds = seconds, pt_nanos = (milliseconds - seconds * 1000) * 1000000\<rparr>)"

text \<open>\<^verbatim>\<open>new Date(x)\<close> drops the fraction of \<open>x\<close>. A time outside the range of \<^verbatim>\<open>Date\<close> is not modelled.\<close>

definition js_integer_part :: "rat \<Rightarrow> int" where
  "js_integer_part q = (if 0 \<le> q then floor q else ceiling q)"

definition fromProtoTimestamp :: "ProtoTimestampInput option \<Rightarrow> int option" where
  "fromProtoTimestamp value =
     (case value of
        None \<Rightarrow> None
      | Some v \<Rightarrow>
          (case pi_seconds v of
             None \<Rightarrow> None
           | Some raw \<Rightarrow>
               (case js_text_number raw of
                  None \<Rightarrow> None
                | Some seconds \<Rightarrow>
                    (let nanos = (case pi_nanos v of None \<Rightarrow> 0 | Some n \<Rightarrow> n)
                     in Some (js_integer_part (seconds * 1000 + of_int (nanos div 1000000)))))))"

section \<open>Transaction ids\<close>

definition fromProtoTransactionId :: "string option \<Rightarrow> failure + nat option" where
  "fromProtoTransactionId value =
     (case value of
        None \<Rightarrow> Inr None
      | Some t \<Rightarrow>
          if \<not> (1 \<le> length t \<and> length t \<le> 20 \<and> list_all is_digit t) \<or> 18446744073709551615 < digits_value t
          then Inl (PlainError ''transaction_id is not an unsigned 64-bit integer'')
          else Inr (Some (digits_value t)))"

section \<open>Round trips\<close>

definition int_text :: "int \<Rightarrow> string" where
  "int_text i = (if i < 0 then CHR ''-'' # decimal (nat (- i)) else decimal (nat i))"

lemma takeWhile_digits: "list_all is_digit s \<Longrightarrow> takeWhile is_digit s = s" "list_all is_digit s \<Longrightarrow> dropWhile is_digit s = []"
  by (induction s) simp_all

lemma unsigned_literal_decimal: "unsigned_literal (decimal n) = Some (of_nat n)"
  by (simp add: unsigned_literal_def takeWhile_digits decimal_digits exponent_of_def)

lemma radix_of_digit: "is_digit c \<Longrightarrow> radix_of c = None"
  by (auto simp: radix_of_def is_digit_def)

lemma js_text_number_decimal: "js_text_number (decimal n) = Some (of_nat n)"
proof -
  obtain c cs where d: "decimal n = c # cs" by (cases "decimal n") auto
  then have digits: "is_digit c" "list_all is_digit cs" using decimal_digits [of n] by simp_all
  then have "c \<noteq> CHR ''-''" "c \<noteq> CHR ''+''" by (auto simp: is_digit_def)
  moreover have "radix_of ((c # cs) ! 1) = None" if "2 < length (c # cs)"
    using that digits by (cases cs) (auto intro: radix_of_digit)
  ultimately show ?thesis
    using unsigned_literal_decimal [of n] js_trim_digits [OF decimal_digits, of n]
    by (auto simp: js_text_number_def signed_def d Let_def)
qed

lemma js_trim_minus: "js_trim (CHR ''-'' # decimal n) = CHR ''-'' # decimal n"
proof -
  let ?t = "CHR ''-'' # decimal n"
  have "list_all (\<lambda>c. \<not> js_space c) ?t"
    using decimal_digits [of n] by (auto simp: list_all_iff digit_not_space) (simp add: js_space_def)
  then have "dropWhile js_space ?t = ?t" and "dropWhile js_space (rev ?t) = rev ?t"
    by (rule dropWhile_none, intro dropWhile_none) (simp only: list_all_rev)
  then show ?thesis unfolding js_trim_def by (simp only: rev_rev_ident)
qed

lemma js_text_number_int: "js_text_number (int_text i) = Some (of_int i)"
proof (cases "i < 0")
  case True
  then show ?thesis
    by (simp add: int_text_def js_text_number_def js_trim_minus signed_def unsigned_literal_decimal)
next
  case False
  then show ?thesis by (simp add: int_text_def js_text_number_decimal)
qed

text \<open>
  A time survives the wire: reading back the timestamp written for any instant, before or after the
  epoch, gives that instant to the millisecond, and the nanoseconds written are in range.
\<close>

theorem timestamp_round_trip:
  "fromProtoTimestamp (Some \<lparr>pi_seconds = Some (int_text (pt_seconds (toProtoTimestamp instant))), pi_nanos = Some (pt_nanos (toProtoTimestamp instant))\<rparr>)
     = Some instant
   \<and> 0 \<le> pt_nanos (toProtoTimestamp instant) \<and> pt_nanos (toProtoTimestamp instant) < 1000000000"
proof -
  have rest: "instant - instant div 1000 * 1000 = instant mod 1000" by (simp add: minus_div_mult_eq_mod)
  have "of_int (instant div 1000) * 1000 + of_int (instant mod 1000) = (of_int instant :: rat)"
    by (metis of_int_add of_int_mult of_int_numeral div_mult_mod_eq)
  then have "fromProtoTimestamp (Some \<lparr>pi_seconds = Some (int_text (pt_seconds (toProtoTimestamp instant))),
      pi_nanos = Some (pt_nanos (toProtoTimestamp instant))\<rparr>) = Some instant"
    by (simp add: fromProtoTimestamp_def toProtoTimestamp_def js_text_number_int js_integer_part_def Let_def rest)
  moreover have "pt_nanos (toProtoTimestamp instant) = instant mod 1000 * 1000000"
    unfolding toProtoTimestamp_def Let_def by (simp only: ProtoTimestamp.simps rest)
  ultimately show ?thesis using pos_mod_bound [of 1000 instant] by simp
qed

text \<open>
  A store that is active may sell, but its status is reported as unspecified: the mapping of statuses knows
  the status closed, which no store has, and not the status active, which the domain rule and the schema do.
\<close>

theorem active_store_has_no_wire_status:
  "maySell MActive \<and> merchantStatusOf (merchant_status_text MActive) = MERCHANT_STATUS_UNSPECIFIED
   \<and> filter (\<lambda>s. merchantStatusOf (merchant_status_text s) = MERCHANT_STATUS_UNSPECIFIED) [MPending, MVerified, MActive, MSuspended] = [MActive]
   \<and> filter (\<lambda>s. merchantStatusOf (merchant_status_text s) = MERCHANT_STATUS_CLOSED) [MPending, MVerified, MActive, MSuspended] = []"
  by (simp add: maySell_def merchantStatusOf_def)

end
