(* ===== verification/Directory_Api.thy ===== *)
theory Directory_Api
  imports Merchant_Feed Wire Token_Service
begin

text \<open>
  The gRPC surface other services call: \<^verbatim>\<open>adapters/controllers/identity_grpc.controller.ts\<close>. It answers who
  a principal is, what an account's profile and a store are, which stores changed, and whether a token is
  valid. A request runs at one instant, so the deadline of \<^verbatim>\<open>withTimeout\<close> does not pass; a message's fields
  may come in either spelling, and the first one sent counts.
\<close>

section \<open>Requests\<close>

definition sent_as :: "'a option \<Rightarrow> 'a option \<Rightarrow> 'a option" where
  "sent_as a b = (case a of Some x \<Rightarrow> Some x | None \<Rightarrow> b)"

definition text_sent :: "string option \<Rightarrow> string option \<Rightarrow> string" where
  "text_sent a b = (case sent_as a b of Some x \<Rightarrow> x | None \<Rightarrow> [])"

record ServiceLocalIdInput =
  sl_service :: "string option"
  sl_localId :: "string option"
  sl_local_id :: "string option"

record ResolvePrincipalResponse =
  rp_found :: bool
  rp_principal_id :: string
  rp_kind :: PrincipalKind
  rp_display_name :: string

record GetPrincipalResponse = ResolvePrincipalResponse +
  gp_aliases :: "(string \<times> string) list"

record GetUserProfileResponse =
  gu_found :: bool
  gu_principal_id :: string
  gu_email :: string
  gu_full_name :: string
  gu_phone_number :: string
  gu_street_address :: string
  gu_city :: string
  gu_postal_code :: string
  gu_kind :: PrincipalKind
  gu_location :: "(degrees \<times> degrees) option"

record GetMerchantInfoResponse =
  gm_found :: bool
  gm_merchant_principal_id :: string
  gm_store_name :: string
  gm_business_registration_number :: string
  gm_tax_id :: string
  gm_status :: ProtoMerchantStatus
  gm_pickup_address :: "string \<times> string \<times> string"
  gm_location :: "(degrees \<times> degrees) option"
  gm_may_sell :: bool

record ValidateTokenResponse =
  vt_valid :: bool
  vt_principal_id :: string
  vt_kind :: PrincipalKind
  vt_reason :: string

definition no_principal :: ResolvePrincipalResponse where
  "no_principal = \<lparr>rp_found = False, rp_principal_id = [], rp_kind = PRINCIPAL_KIND_UNSPECIFIED, rp_display_name = []\<rparr>"

definition principal_row :: "string \<Rightarrow> world \<Rightarrow> PrincipalRow option" where
  "principal_row i w = find (\<lambda>p. pr_id p = i) (principals w)"

definition alias_for :: "string \<Rightarrow> string \<Rightarrow> world \<Rightarrow> PrincipalAliasRow option" where
  "alias_for principalId service w = find (\<lambda>a. al_principalId a = principalId \<and> al_service a = service) (aliases w)"

section \<open>Principals\<close>

definition resolvePrincipal :: "ServiceLocalIdInput option \<Rightarrow> ServiceLocalIdInput option \<Rightarrow> ResolvePrincipalResponse act" where
  "resolvePrincipal serviceLocalId service_local_id =
     (let key = sent_as serviceLocalId service_local_id;
          service = text_sent (Option.bind key sl_service) None;
          localId = text_sent (Option.bind key sl_localId) (Option.bind key sl_local_id)
      in if service = [] \<or> localId = [] then returns no_principal
         else reads (\<lambda>w. case Option.bind (alias_of service localId w) (\<lambda>a. principal_row (al_principalId a) w) of
            None \<Rightarrow> no_principal
          | Some p \<Rightarrow> \<lparr>rp_found = True, rp_principal_id = pr_id p, rp_kind = principalKindOf (kind_text (pr_kind p)),
              rp_display_name = (case pr_displayName p of None \<Rightarrow> [] | Some d \<Rightarrow> d)\<rparr>))"

definition getPrincipal :: "string option \<Rightarrow> string option \<Rightarrow> GetPrincipalResponse act" where
  "getPrincipal principalId principal_id =
     (let i = text_sent principalId principal_id;
          absent = ResolvePrincipalResponse.extend no_principal (GetPrincipalResponse.fields [])
      in if i = [] then returns absent
         else reads (\<lambda>w. case principal_row i w of
            None \<Rightarrow> absent
          | Some p \<Rightarrow> \<lparr>rp_found = True, rp_principal_id = pr_id p, rp_kind = principalKindOf (kind_text (pr_kind p)),
              rp_display_name = (case pr_displayName p of None \<Rightarrow> [] | Some d \<Rightarrow> d),
              gp_aliases = map (\<lambda>a. (al_service a, al_localId a)) (filter (\<lambda>a. al_principalId a = i) (aliases w))\<rparr>))"

definition unavailable :: "string \<Rightarrow> failure" where
  "unavailable method = RpcException ''UNAVAILABLE''"

section \<open>Profiles and stores\<close>

definition no_profile :: GetUserProfileResponse where
  "no_profile = \<lparr>gu_found = False, gu_principal_id = [], gu_email = [], gu_full_name = [], gu_phone_number = [], gu_street_address = [],
     gu_city = [], gu_postal_code = [], gu_kind = PRINCIPAL_KIND_UNSPECIFIED, gu_location = None\<rparr>"

definition point_if_placed :: "degrees option \<Rightarrow> degrees option \<Rightarrow> (degrees \<times> degrees) option" where
  "point_if_placed latitude longitude = (case (latitude, longitude) of (Some a, Some b) \<Rightarrow> Some (a, b) | _ \<Rightarrow> None)"

definition profile_or_null :: "nat \<Rightarrow> ProfileEntity option act" where
  "profile_or_null userId =
     catches (andThen (getProfile userId) (\<lambda>p. returns (Some p)))
       (\<lambda>e. case e of NotFoundException _ \<Rightarrow> returns None | _ \<Rightarrow> throws e)"

definition profile_response :: "string \<Rightarrow> PrincipalRow \<Rightarrow> UserEntity \<Rightarrow> ProfileEntity option \<Rightarrow> GetUserProfileResponse" where
  "profile_response principalId owner user profile =
     (let part = (\<lambda>f. case profile of None \<Rightarrow> [] | Some p \<Rightarrow> f p) in
      \<lparr>gu_found = True, gu_principal_id = principalId, gu_email = u_email user, gu_full_name = part pf_fullName,
       gu_phone_number = part pf_phoneNumber, gu_street_address = part pf_streetAddress, gu_city = part pf_city,
       gu_postal_code = part pf_postalCode, gu_kind = principalKindOf (kind_text (pr_kind owner)),
       gu_location = Option.bind profile (\<lambda>p. point_if_placed (pf_latitude p) (pf_longitude p))\<rparr>)"

definition getUserProfile :: "string option \<Rightarrow> string option \<Rightarrow> GetUserProfileResponse act" where
  "getUserProfile principalId principal_id =
     (let i = text_sent principalId principal_id in
      if i = [] then returns no_profile
      else catches
        (andThen (reads (\<lambda>w. Option.bind (alias_for i ''identity'' w)
            (\<lambda>a. map_option (\<lambda>p. (a, p)) (principal_row (al_principalId a) w))))
         (\<lambda>found. case found of
            None \<Rightarrow> returns no_profile
          | Some (a, owner) \<Rightarrow>
              (case js_Number (al_localId a) of
                 None \<Rightarrow> throws (QueryFailed ''22P02'')
               | Some userId \<Rightarrow>
                   andThen (findById userId)
                   (\<lambda>user. case user of
                      None \<Rightarrow> returns no_profile
                    | Some u \<Rightarrow> andThen (profile_or_null userId) (\<lambda>profile. returns (profile_response i owner u profile))))))
        (\<lambda>e. throws (unavailable ''GetUserProfile'')))"

definition no_store :: GetMerchantInfoResponse where
  "no_store = \<lparr>gm_found = False, gm_merchant_principal_id = [], gm_store_name = [], gm_business_registration_number = [], gm_tax_id = [],
     gm_status = MERCHANT_STATUS_UNSPECIFIED, gm_pickup_address = ([], [], []), gm_location = None, gm_may_sell = False\<rparr>"

definition store_response :: "string \<Rightarrow> MerchantEntity \<Rightarrow> GetMerchantInfoResponse" where
  "store_response principalId m =
     \<lparr>gm_found = True, gm_merchant_principal_id = principalId, gm_store_name = m_storeName m,
      gm_business_registration_number = m_businessRegistrationNumber m, gm_tax_id = m_taxId m,
      gm_status = merchantStatusOf (merchant_status_text (m_status m)),
      gm_pickup_address = (m_streetAddress m, m_city m, m_postalCode m),
      gm_location = point_if_placed (m_latitude m) (m_longitude m), gm_may_sell = maySell (m_status m)\<rparr>"

definition getMerchantInfo :: "string option \<Rightarrow> string option \<Rightarrow> GetMerchantInfoResponse act" where
  "getMerchantInfo principalId principal_id =
     (let i = text_sent principalId principal_id in
      if i = [] then returns no_store
      else catches
        (andThen (reads (alias_for i MERCHANT_ALIAS_SERVICE))
         (\<lambda>found. case found of
            None \<Rightarrow> returns no_store
          | Some a \<Rightarrow>
              (case js_Number (al_localId a) of
                 None \<Rightarrow> throws (QueryFailed ''22P02'')
               | Some merchantId \<Rightarrow>
                   andThen (findMerchantById merchantId)
                   (\<lambda>merchant. case merchant of None \<Rightarrow> returns no_store | Some m \<Rightarrow> returns (store_response i m)))))
        (\<lambda>e. throws (unavailable ''GetMerchantInfo'')))"

section \<open>Tokens\<close>

definition not_valid :: "string \<Rightarrow> ValidateTokenResponse" where
  "not_valid reason = \<lparr>vt_valid = False, vt_principal_id = [], vt_kind = PRINCIPAL_KIND_UNSPECIFIED, vt_reason = reason\<rparr>"

text \<open>An empty token is the same as none. The claims of the token, or \<open>None\<close> for a token that was refused; any other failure is the caller's to retry.\<close>

definition claims_or_refusal :: "'tok Env \<Rightarrow> 'tok \<Rightarrow> Claims option act" where
  "claims_or_refusal env token =
     catches (andThen (verifyAccess env token) (\<lambda>c. returns (Some c)))
       (\<lambda>e. case e of UnauthorizedException _ \<Rightarrow> returns None | _ \<Rightarrow> throws (unavailable ''ValidateToken''))"

definition validateToken :: "'tok Env \<Rightarrow> 'tok option \<Rightarrow> ValidateTokenResponse act" where
  "validateToken env token =
     (case token of
        None \<Rightarrow> returns (not_valid ''no token supplied'')
      | Some t \<Rightarrow>
          andThen (claims_or_refusal env t)
          (\<lambda>claims. case claims of
             None \<Rightarrow> returns (not_valid ''invalid token'')
           | Some c \<Rightarrow> reads (\<lambda>w. case principal_row (cl_sub c) w of
               None \<Rightarrow> not_valid ''unknown principal''
             | Some p \<Rightarrow> \<lparr>vt_valid = True, vt_principal_id = pr_id p, vt_kind = principalKindOf (kind_text (pr_kind p)), vt_reason = []\<rparr>)))"

section \<open>Which stores changed\<close>

definition MERCHANT_PAGE_DEFAULT :: nat where "MERCHANT_PAGE_DEFAULT = 100"
definition MERCHANT_PAGE_MAX :: nat where "MERCHANT_PAGE_MAX = 500"

definition merchantPageLimitOf :: "int option \<Rightarrow> nat" where
  "merchantPageLimitOf requested =
     (case requested of
        None \<Rightarrow> MERCHANT_PAGE_DEFAULT
      | Some n \<Rightarrow> if n \<le> 0 then MERCHANT_PAGE_DEFAULT else min (nat n) MERCHANT_PAGE_MAX)"

definition latestOf :: "MerchantChange list \<Rightarrow> int" where
  "latestOf changes = foldl (\<lambda>latest c. if latest < mc_updatedAt c then mc_updatedAt c else latest) (mc_updatedAt (hd changes)) changes"

record MerchantCursorInput =
  ci_updated_through :: "ProtoTimestampInput option"
  ci_updatedThrough :: "ProtoTimestampInput option"
  ci_last_principal_id :: "string option"
  ci_lastPrincipalId :: "string option"
  ci_transaction_id :: "string option"
  ci_transactionId :: "string option"

record MerchantCursorView =
  cw_updated_through :: "ProtoTimestamp option"
  cw_last_principal_id :: string
  cw_transaction_id :: "nat option"

record MerchantRecordView =
  mw_principal_id :: string
  mw_store_name :: string
  mw_status :: ProtoMerchantStatus
  mw_may_sell :: bool
  mw_updated_at :: ProtoTimestamp

record MerchantsChangedSinceResponse =
  cs_upserted :: "MerchantRecordView list"
  cs_removed_principal_ids :: "string list"
  cs_next :: MerchantCursorView
  cs_has_more :: bool

definition transactionIdOf :: "MerchantCursorInput option \<Rightarrow> nat option act" where
  "transactionIdOf cursor =
     catches (lifted (fromProtoTransactionId (Option.bind cursor (\<lambda>c. sent_as (ci_transaction_id c) (ci_transactionId c)))))
       (\<lambda>e. throws (RpcException ''INVALID_ARGUMENT''))"

definition merchantIdOf :: "string \<Rightarrow> nat act" where
  "merchantIdOf principalId =
     (if principalId = [] then returns 0
      else reads (\<lambda>w. case Option.bind (alias_for principalId MERCHANT_ALIAS_SERVICE w) (\<lambda>a. js_Number (al_localId a)) of
        None \<Rightarrow> 0 | Some i \<Rightarrow> i))"

definition principalIdsOf :: "nat list \<Rightarrow> (string \<rightharpoonup> string) act" where
  "principalIdsOf merchantIds =
     (if merchantIds = [] then returns Map.empty
      else reads (\<lambda>w. map_of (rev (map (\<lambda>a. (al_localId a, al_principalId a))
             (filter (\<lambda>a. al_service a = MERCHANT_ALIAS_SERVICE \<and> al_localId a \<in> set (map decimal merchantIds)) (aliases w))))))"

definition recordView :: "(string \<rightharpoonup> string) \<Rightarrow> MerchantChange \<Rightarrow> MerchantRecordView act" where
  "recordView names change =
     (case names (decimal (m_id (mc_merchant change))) of
        None \<Rightarrow> throws (PlainError ''merchant has no alias, so it has no principal to report'')
      | Some principalId \<Rightarrow>
          if principalId = [] then throws (PlainError ''merchant has no alias, so it has no principal to report'')
          else returns \<lparr>mw_principal_id = principalId, mw_store_name = m_storeName (mc_merchant change),
            mw_status = merchantStatusOf (merchant_status_text (m_status (mc_merchant change))),
            mw_may_sell = maySell (m_status (mc_merchant change)), mw_updated_at = toProtoTimestamp (mc_updatedAt change)\<rparr>)"

definition next_cursor :: "nat option \<Rightarrow> int option \<Rightarrow> string \<Rightarrow> MerchantChangePage \<Rightarrow> MerchantRecordView list \<Rightarrow> MerchantCursorView" where
  "next_cursor transactionId updatedThrough lastPrincipalId page upserted =
     (let next = (if mp_changes page \<noteq> [] then
            \<lparr>cw_updated_through = Some (toProtoTimestamp
               (if transactionId = None then mc_updatedAt (last (mp_changes page)) else latestOf (mp_changes page))),
             cw_last_principal_id = mw_principal_id (last upserted), cw_transaction_id = None\<rparr>
          else \<lparr>cw_updated_through = map_option toProtoTimestamp updatedThrough, cw_last_principal_id = lastPrincipalId,
             cw_transaction_id = None\<rparr>)
      in (case transactionId of
            None \<Rightarrow> next
          | Some t \<Rightarrow> next\<lparr>cw_transaction_id := Some (case mp_lastTransactionId page of None \<Rightarrow> t | Some l \<Rightarrow> l)\<rparr>))"

definition merchantsChangedSince :: "nat \<Rightarrow> MerchantCursorInput option \<Rightarrow> int option \<Rightarrow> MerchantsChangedSinceResponse act" where
  "merchantsChangedSince horizon cursor requested =
     (let updatedThrough = fromProtoTimestamp (Option.bind cursor (\<lambda>c. sent_as (ci_updated_through c) (ci_updatedThrough c)));
          lastPrincipalId = text_sent (Option.bind cursor ci_last_principal_id) (Option.bind cursor ci_lastPrincipalId)
      in andThen (transactionIdOf cursor)
         (\<lambda>transactionId. let limit = merchantPageLimitOf requested in
          andThen (merchantIdOf lastPrincipalId)
         (\<lambda>lastId. andThen (case transactionId of
              None \<Rightarrow> findChangedSince updatedThrough lastId limit
            | Some t \<Rightarrow> findChangedAfter horizon t lastId limit)
         (\<lambda>page. andThen (principalIdsOf (map (\<lambda>c. m_id (mc_merchant c)) (mp_changes page)))
         (\<lambda>names. andThen (each (recordView names) (mp_changes page))
         (\<lambda>upserted. returns \<lparr>cs_upserted = upserted, cs_removed_principal_ids = [],
            cs_next = next_cursor transactionId updatedThrough lastPrincipalId page upserted,
            cs_has_more = mp_hasMore page\<rparr>))))))"

section \<open>The controller polls the feed\<close>

text \<open>
  Every store has its one name in the directory. This is what an approval leaves behind when it returns; the
  controller fails on a store without it.
\<close>

definition named_stores :: "world \<Rightarrow> bool" where
  "named_stores w \<longleftrightarrow> distinct (map alias_key (aliases w)) \<and> store_ids_ok w
     \<and> (\<forall>m \<in> set (merchants w). \<exists>a. alias_of MERCHANT_ALIAS_SERVICE (decimal (m_id m)) w = Some a \<and> al_principalId a \<noteq> [])
     \<and> (\<forall>a \<in> set (aliases w). \<forall>b \<in> set (aliases w). al_service a = MERCHANT_ALIAS_SERVICE \<longrightarrow> al_service b = MERCHANT_ALIAS_SERVICE \<longrightarrow>
          al_principalId a = al_principalId b \<longrightarrow> a = b)"

definition store_name :: "world \<Rightarrow> nat \<Rightarrow> string" where
  "store_name w i = (case alias_of MERCHANT_ALIAS_SERVICE (decimal i) w of Some a \<Rightarrow> al_principalId a | None \<Rightarrow> [])"

definition record_of :: "world \<Rightarrow> MerchantChange \<Rightarrow> MerchantRecordView" where
  "record_of w c = \<lparr>mw_principal_id = store_name w (m_id (mc_merchant c)), mw_store_name = m_storeName (mc_merchant c),
     mw_status = merchantStatusOf (merchant_status_text (m_status (mc_merchant c))), mw_may_sell = maySell (m_status (mc_merchant c)),
     mw_updated_at = toProtoTimestamp (mc_updatedAt c)\<rparr>"

text \<open>
  A reader sends back the cursor it was answered, every field of it. A cursor stands for a position in the feed
  when it carries the position's transaction and the name of its store (none, at the beginning).
\<close>

definition echo :: "MerchantCursorView \<Rightarrow> MerchantCursorInput" where
  "echo c = \<lparr>ci_updated_through = map_option (\<lambda>t. \<lparr>pi_seconds = Some (int_text (pt_seconds t)), pi_nanos = Some (pt_nanos t)\<rparr>) (cw_updated_through c),
     ci_updatedThrough = None, ci_last_principal_id = Some (cw_last_principal_id c), ci_lastPrincipalId = None,
     ci_transaction_id = map_option decimal (cw_transaction_id c), ci_transactionId = None\<rparr>"

definition stands_for :: "world \<Rightarrow> MerchantCursorView \<Rightarrow> nat \<times> nat \<Rightarrow> bool" where
  "stands_for w c position \<longleftrightarrow> cw_transaction_id c = Some (fst position) \<and> fst position < 2 ^ 64 \<and>
     (if cw_last_principal_id c = [] then snd position = 0
      else \<exists>a \<in> set (aliases w). al_principalId a = cw_last_principal_id c \<and> al_service a = MERCHANT_ALIAS_SERVICE
             \<and> al_localId a = decimal (snd position))"

text \<open>The changes a reader at a position is due: later in the feed, and before every running transaction.\<close>

definition feed_key :: "MerchantRow \<Rightarrow> nat \<times> nat" where
  "feed_key m = (mr_changeTransaction m, m_id m)"

definition due :: "feed_state \<Rightarrow> MerchantRow set" where
  "due s = {m \<in> set (merchants (fs_world s)). fs_cursor s < feed_key m \<and> mr_changeTransaction m < oldest_running s}"

lemma transactionIdOf_echo:
  assumes "cw_transaction_id c = Some tx" and small: "tx < 2 ^ 64"
  shows "transactionIdOf (Some (echo c)) w = (Inr (Some tx), w)"
proof -
  from small have "tx < 10 ^ 20" by (rule order.strict_trans) simp
  then have "length (decimal tx) \<le> 20" by (intro length_decimal) simp_all
  moreover have "Suc 0 \<le> length (decimal tx)" by (cases "decimal tx") simp_all
  ultimately show ?thesis
    using assms by (simp add: transactionIdOf_def echo_def sent_as_def fromProtoTransactionId_def decimal_digits catches_run)
qed

lemma merchantIdOf_stands_for:
  assumes "named_stores w" and "stands_for w c position"
  shows "merchantIdOf (cw_last_principal_id c) w = (Inr (snd position), w)"
proof (cases "cw_last_principal_id c = []")
  case True
  with assms(2) show ?thesis by (simp add: stands_for_def merchantIdOf_def)
next
  case False
  with assms(2) obtain a where a: "a \<in> set (aliases w)" "al_principalId a = cw_last_principal_id c"
    "al_service a = MERCHANT_ALIAS_SERVICE" "al_localId a = decimal (snd position)" by (auto simp: stands_for_def)
  then obtain b where b: "alias_for (cw_last_principal_id c) MERCHANT_ALIAS_SERVICE w = Some b"
    by (cases "alias_for (cw_last_principal_id c) MERCHANT_ALIAS_SERVICE w") (auto simp: alias_for_def find_None_iff)
  from find_Some_mem [OF b [unfolded alias_for_def]]
  have "b \<in> set (aliases w)" "al_service b = MERCHANT_ALIAS_SERVICE" "al_principalId b = al_principalId a"
    using a by simp_all
  with a assms(1) have "b = a" unfolding named_stores_def by blast
  with a b False show ?thesis by (simp add: merchantIdOf_def)
qed

lemma stands_for_store:
  assumes "named_stores w" and "m \<in> set (merchants w)" and "tx < 2 ^ 64"
    and "cw_transaction_id c = Some tx" and "cw_last_principal_id c = store_name w (m_id m)"
  shows "stands_for w c (tx, m_id m)"
proof -
  obtain a where a: "alias_of MERCHANT_ALIAS_SERVICE (decimal (m_id m)) w = Some a" "al_principalId a \<noteq> []"
    using assms by (auto simp: named_stores_def)
  then have "a \<in> set (aliases w)" "al_service a = MERCHANT_ALIAS_SERVICE" "al_localId a = decimal (m_id m)"
    using alias_of_Some by blast+
  with a assms show ?thesis by (auto simp: stands_for_def store_name_def)
qed

text \<open>A page of the feed, in terms of what is due.\<close>

lemma changed_after_due:
  assumes "store_ids_ok (fs_world s)" and "changed_after (oldest_running s) (fs_world s) limit (fs_cursor s) = (page, hasMore)"
  shows "sorted_wrt (<) (map feed_key page)" and "set page \<subseteq> due s" and "length page = min limit (card (due s))"
    and "\<And>m r. m \<in> due s - set page \<Longrightarrow> r \<in> set page \<Longrightarrow> feed_key r < feed_key m"
    and "hasMore \<longleftrightarrow> limit < card (due s)"
proof -
  let ?ds = "filter (\<lambda>m. fs_cursor s < feed_key m) (by_transaction (oldest_running s) (fs_world s))"
  have sorted: "sorted_wrt (<) (map feed_key ?ds)"
    using transaction_feed.ascending [OF assms(1)] by (simp add: feed_key_def [abs_def] sorted_wrt_map sorted_wrt_filter)
  have "distinct (map feed_key ?ds)" using sorted by (simp add: strict_sorted_iff)
  then have "distinct ?ds" by (simp add: distinct_map)
  moreover have all: "set ?ds = due s" by (auto simp: due_def by_transaction_set)
  ultimately have count: "length ?ds = card (due s)" by (metis distinct_card)
  have page: "page = take limit ?ds" and more: "hasMore \<longleftrightarrow> limit < length ?ds"
    using assms(2) by (auto simp: changed_after_def cut_page_def Let_def feed_key_def split: if_splits)
  show "hasMore \<longleftrightarrow> limit < card (due s)" using more count by simp
  show "length page = min limit (card (due s))" using page count by simp
  show "set page \<subseteq> due s" using page all set_take_subset [of limit ?ds] by simp
  have split: "sorted_wrt (<) (map feed_key (take limit ?ds) @ map feed_key (drop limit ?ds))"
    using sorted by (simp only: map_append [symmetric] append_take_drop_id)
  then show "sorted_wrt (<) (map feed_key page)" unfolding page sorted_wrt_append by blast
  show "feed_key r < feed_key m" if "m \<in> due s - set page" "r \<in> set page" for m r
  proof -
    have "m \<in> set (take limit ?ds @ drop limit ?ds)" using that(1) all by (simp only: append_take_drop_id) blast
    then have "m \<in> set (drop limit ?ds)" using that(1) unfolding page set_append by blast
    then show ?thesis using split that(2) unfolding page sorted_wrt_append set_map by blast
  qed
qed

lemma principalIdsOf_run:
  assumes "distinct (map alias_key (aliases w))"
  obtains names where "principalIdsOf ids w = (Inr names, w)"
    and "\<And>i. i \<in> set ids \<Longrightarrow> names (decimal i) = map_option al_principalId (alias_of MERCHANT_ALIAS_SERVICE (decimal i) w)"
proof (cases "ids = []")
  case True
  then show ?thesis by (intro that [of Map.empty]) (simp_all add: principalIdsOf_def)
next
  case False
  then show ?thesis by (intro that [OF _ alias_map_at [OF assms]]) (simp add: principalIdsOf_def)
qed

lemma merchantIdOf_run: "\<exists>i. merchantIdOf p w = (Inr i, w)"
  by (cases "p = []") (simp_all add: merchantIdOf_def)

lemma records_run:
  assumes "named_stores w" and "set changes \<subseteq> changeOf ` set (merchants w)"
  obtains names where "principalIdsOf (map (\<lambda>c. m_id (mc_merchant c)) changes) w = (Inr names, w)"
    "each (recordView names) changes w = (Inr (map (record_of w) changes), w)"
proof -
  let ?ids = "map (\<lambda>c. m_id (mc_merchant c)) changes"
  have dist: "distinct (map alias_key (aliases w))" using assms(1) by (simp add: named_stores_def)
  obtain names where names: "principalIdsOf ?ids w = (Inr names, w)"
    and at: "\<And>i. i \<in> set ?ids \<Longrightarrow> names (decimal i) = map_option al_principalId (alias_of MERCHANT_ALIAS_SERVICE (decimal i) w)"
    by (rule principalIdsOf_run [OF dist, of ?ids]) (rule that)
  have "each (recordView names) changes w = (Inr (map (record_of w) changes), w)"
  proof (rule each_returns)
    fix c assume c: "c \<in> set changes"
    with assms(2) obtain m where m: "m \<in> set (merchants w)" "c = changeOf m" by blast
    then obtain a where a: "alias_of MERCHANT_ALIAS_SERVICE (decimal (m_id m)) w = Some a" "al_principalId a \<noteq> []"
      using assms(1) by (auto simp: named_stores_def)
    have "names (decimal (m_id m)) = Some (al_principalId a)" using at [of "m_id m"] c m(2) a by (force simp: changeOf_def)
    with a m(2) show "recordView names c w = (Inr (record_of w c), w)"
      by (simp add: recordView_def record_of_def store_name_def changeOf_def)
  qed
  with names show ?thesis by (rule that)
qed

text \<open>
  C12. The call \<^verbatim>\<open>MerchantsChangedSince\<close> is a poll of the feed. Every store has its merchant alias. For a reader that
  sends back the whole cursor it was answered, one that stands for its position, the call returns and reports, in
  the order of the feed, the first of the changes the reader is due, as many as the page limit allows and no other;
  it says there are more exactly when some were left out; and the cursor it answers stands for the position after
  the poll. So such a reader is the reader of the feed.
\<close>

theorem merchantsChangedSince_refines_poll:
  assumes "named_stores (fs_world s)" and "stands_for (fs_world s) cursor (fs_cursor s)"
    and "transactions (fs_world s) \<le> 2 ^ 64"
  shows "\<exists>r rows. merchantsChangedSince (oldest_running s) (Some (echo cursor)) n (fs_world s) = (Inr r, fs_world s)
    \<and> cs_upserted r = map (\<lambda>m. record_of (fs_world s) (changeOf m)) rows
    \<and> sorted_wrt (<) (map feed_key rows) \<and> set rows \<subseteq> due s
    \<and> length rows = min (merchantPageLimitOf n) (card (due s))
    \<and> (\<forall>m \<in> due s - set rows. \<forall>r \<in> set rows. feed_key r < feed_key m)
    \<and> (cs_has_more r \<longleftrightarrow> merchantPageLimitOf n < card (due s))
    \<and> fs_told (poll (merchantPageLimitOf n) s) = fs_told s \<union> changeOf ` set rows
    \<and> stands_for (fs_world s) (cs_next r) (fs_cursor (poll (merchantPageLimitOf n) s))"
proof -
  let ?w = "fs_world s" and ?limit = "merchantPageLimitOf n"
  obtain tx i where pos: "fs_cursor s = (tx, i)" by fastforce
  with assms(2) have tx: "cw_transaction_id cursor = Some tx" "tx < 2 ^ 64" by (simp_all add: stands_for_def)
  have i: "merchantIdOf (cw_last_principal_id cursor) ?w = (Inr i, ?w)"
    using merchantIdOf_stands_for [OF assms(1,2)] pos by simp
  obtain page hasMore where page: "changed_after (oldest_running s) ?w ?limit (tx, i) = (page, hasMore)" by fastforce
  have ids: "store_ids_ok ?w" using assms(1) by (simp add: named_stores_def)
  note facts = changed_after_due [OF ids page [folded pos]]
  have rows: "m \<in> set (merchants ?w)" "mr_changeTransaction m < 2 ^ 64" if "m \<in> set page" for m
  proof -
    from facts(2) that have "m \<in> due s" by blast
    then show "m \<in> set (merchants ?w)" "mr_changeTransaction m < 2 ^ 64"
      using assms(3) by (auto simp: due_def below_oldest)
  qed
  let ?p = "\<lparr>mp_changes = map changeOf page, mp_hasMore = hasMore,
      mp_lastTransactionId = Some (if page \<noteq> [] then mr_changeTransaction (last page) else tx)\<rparr>"
  have found: "findChangedAfter (oldest_running s) tx i ?limit ?w = (Inr ?p, ?w)" using page by (simp add: findChangedAfter_def)
  have "set (map changeOf page) \<subseteq> changeOf ` set (merchants ?w)" using rows(1) by auto
  from records_run [OF assms(1) this] obtain names
    where names: "principalIdsOf (map (\<lambda>c. m_id (mc_merchant c)) (map changeOf page)) ?w = (Inr names, ?w)"
      "each (recordView names) (map changeOf page) ?w = (Inr (map (record_of ?w) (map changeOf page)), ?w)" by blast
  let ?through = "fromProtoTimestamp (sent_as (ci_updated_through (echo cursor)) (ci_updatedThrough (echo cursor)))"
  let ?next = "next_cursor (Some tx) ?through (cw_last_principal_id cursor) ?p (map (record_of ?w) (map changeOf page))"
  let ?r = "\<lparr>cs_upserted = map (record_of ?w) (map changeOf page), cs_removed_principal_ids = [], cs_next = ?next, cs_has_more = hasMore\<rparr>"
  have sent: "text_sent (ci_last_principal_id (echo cursor)) (ci_lastPrincipalId (echo cursor)) = cw_last_principal_id cursor"
    by (simp add: echo_def text_sent_def sent_as_def)
  have run: "merchantsChangedSince (oldest_running s) (Some (echo cursor)) n ?w = (Inr ?r, ?w)"
    using i found names by (simp add: merchantsChangedSince_def andThen_run transactionIdOf_echo [OF tx] sent Let_def)
  have told: "fs_told (poll ?limit s) = fs_told s \<union> changeOf ` set page" using page pos by (simp add: poll_run)
  have after: "stands_for ?w ?next (fs_cursor (poll ?limit s))"
  proof (cases "page = []")
    case True
    with page pos tx assms(2) show ?thesis
      by (cases "cw_last_principal_id cursor = []") (simp_all add: poll_run next_cursor_def stands_for_def)
  next
    case False
    then have "stands_for ?w ?next (mr_changeTransaction (last page), m_id (last page))"
      by (intro stands_for_store [OF assms(1)] rows) (simp_all add: next_cursor_def last_map record_of_def changeOf_def)
    with False page pos show ?thesis by (simp add: poll_run)
  qed
  show ?thesis
    using run told after facts by (intro exI [of _ ?r] exI [of _ page]) (simp add: comp_def)
qed

definition sample_named :: feed_state where
  "sample_named = sample_reader\<lparr>fs_world := (fs_world sample_reader)\<lparr>
     aliases := [\<lparr>al_principalId = ''p'', al_service = ''identity-merchant'', al_localId = ''1''\<rparr>]\<rparr>\<rparr>"

definition sample_cursor :: MerchantCursorView where
  "sample_cursor = \<lparr>cw_updated_through = Some \<lparr>pt_seconds = 7, pt_nanos = 0\<rparr>, cw_last_principal_id = [], cw_transaction_id = Some 0\<rparr>"

theorem merchantsChangedSince_refines_poll_witness:
  "\<exists>r rows. merchantsChangedSince (oldest_running sample_named) (Some (echo sample_cursor)) None (fs_world sample_named) = (Inr r, fs_world sample_named)
    \<and> cs_upserted r = map (\<lambda>m. record_of (fs_world sample_named) (changeOf m)) rows \<and> length rows = min 100 (card (due sample_named))"
proof -
  have one: "decimal (Suc 0) = ''1''" by code_simp
  have "alias_of MERCHANT_ALIAS_SERVICE (decimal 1) (fs_world sample_named) =
      Some \<lparr>al_principalId = ''p'', al_service = ''identity-merchant'', al_localId = ''1''\<rparr>"
    by (simp add: alias_of_def MERCHANT_ALIAS_SERVICE_def sample_named_def one)
  then have named: "named_stores (fs_world sample_named)"
    by (simp add: named_stores_def store_ids_ok_def) (simp add: sample_named_def sample_reader_def sample_applicant_def sample_shop_def)
  have start: "stands_for (fs_world sample_named) sample_cursor (fs_cursor sample_named)"
    by (simp add: sample_named_def sample_reader_def sample_cursor_def stands_for_def)
  have few: "transactions (fs_world sample_named) \<le> 2 ^ 64"
    by (simp add: sample_named_def sample_reader_def sample_applicant_def empty_world_def)
  have "merchantPageLimitOf None = 100" by (simp add: merchantPageLimitOf_def MERCHANT_PAGE_DEFAULT_def)
  with merchantsChangedSince_refines_poll [OF named start few, of None] show ?thesis by auto
qed

end
