(* ===== verification/Http_Access.thy ===== *)
theory Http_Access
  imports Auth_Usecase
begin

text \<open>
  What stands between an HTTP request and a handler: the request's context and parameters
  (\<^verbatim>\<open>adapters/decorators\<close>), the guards (\<^verbatim>\<open>adapters/guards\<close>), the audit of what admins do
  (\<^verbatim>\<open>adapters/interceptors\<close>), and the reply an exception becomes
  (\<^verbatim>\<open>unhandled_exception_filter.ts\<close>, \<^verbatim>\<open>database_unavailable.ts\<close>). The framework's throttler and its test
  for a UUID are parameters; the routes themselves are in the theory \<open>Service\<close>.
\<close>

section \<open>The request\<close>

record HttpRequest =
  hq_headers :: "string \<Rightarrow> header_value"
  hq_params :: "string \<Rightarrow> string option"
  hq_user :: "Claims option"
  hq_client :: "RequestClient option"

definition REQUEST_ID_HEADER :: string where
  "REQUEST_ID_HEADER = ''x-request-id''"

definition first_value :: "header_value \<Rightarrow> string option" where
  "first_value h = (case h of HeaderAbsent \<Rightarrow> None | HeaderText s \<Rightarrow> Some s | HeaderList l \<Rightarrow> if l = [] then None else Some (hd l))"

definition requestIdOf :: "(string \<Rightarrow> header_value) \<Rightarrow> string option" where
  "requestIdOf headers =
     (case first_value (headers REQUEST_ID_HEADER) of None \<Rightarrow> None | Some s \<Rightarrow> if s \<noteq> [] then Some s else None)"

definition callContextOf :: "HttpRequest \<Rightarrow> CallContext" where
  "callContextOf request = \<lparr>ctx_requestId = requestIdOf (hq_headers request), ctx_client = hq_client request\<rparr>"

definition LARGEST_ACCOUNT_ID :: nat where
  "LARGEST_ACCOUNT_ID = 2147483647"

definition accountIdOf :: "string option \<Rightarrow> failure + nat" where
  "accountIdOf raw =
     (case raw of
        None \<Rightarrow> Inl (BadRequestException ''An account id is a whole number from 1 to 2147483647'')
      | Some s \<Rightarrow>
          if \<not> (s \<noteq> [] \<and> hd s \<noteq> CHR ''0'' \<and> list_all is_digit s \<and> length s \<le> 10) \<or> LARGEST_ACCOUNT_ID < digits_value s
          then Inl (BadRequestException ''An account id is a whole number from 1 to 2147483647'')
          else Inr (digits_value s))"

definition accountIdParam :: "string \<Rightarrow> HttpRequest \<Rightarrow> failure + nat" where
  "accountIdParam name request = accountIdOf (hq_params request name)"

definition currentUser :: "HttpRequest \<Rightarrow> failure + Claims" where
  "currentUser request =
     (case hq_user request of
        None \<Rightarrow> Inl (PlainError ''CurrentUser was requested on a route that carries no verified token'')
      | Some claims \<Rightarrow>
          if cl_token_use claims \<noteq> ''access''
          then Inl (PlainError ''CurrentUser was requested on a route that let a two-factor enrolment token through'')
          else Inr claims)"

definition currentSession :: "HttpRequest \<Rightarrow> failure + Claims" where
  "currentSession request =
     (case hq_user request of
        None \<Rightarrow> Inl (PlainError ''CurrentSession was requested on a route that carries no verified token'')
      | Some claims \<Rightarrow> Inr claims)"

section \<open>What the decorators say of a route\<close>

datatype RouteGuard = Throttler | ClientProof | RolesCheck | SelfOrStaff

record AdminAuditPoint =
  ap_action :: string
  ap_targetParam :: "string option"

record RouteMeta =
  rm_public :: bool
  rm_acceptsEnrolment :: bool
  rm_guards :: "RouteGuard list"
  rm_roles :: "string list"
  rm_selfParam :: "string option"
  rm_ownerOnly :: bool
  rm_audit :: "AdminAuditPoint option"

record 'tok HttpEnv =
  he_env :: "'tok Env"
  he_token :: "string \<Rightarrow> 'tok"
  he_appCheck :: AppCheckEnv
  he_gate :: Gate
  he_throttled :: "RouteMeta \<Rightarrow> HttpRequest \<Rightarrow> int \<Rightarrow> bool"
  he_isUUID :: "string \<Rightarrow> bool"

section \<open>The guards\<close>

definition bearerToken :: "(string \<Rightarrow> header_value) \<Rightarrow> string option" where
  "bearerToken headers =
     (let header = (case headers ''authorization'' of HeaderAbsent \<Rightarrow> headers ''Authorization'' | h \<Rightarrow> h);
          raw = (case first_value header of None \<Rightarrow> [] | Some s \<Rightarrow> s);
          parts = js_split (CHR '' '') raw
      in if length parts \<noteq> 2 \<or> js_toLowerCase (parts ! 0) \<noteq> ''bearer'' \<or> parts ! 1 = [] then None else Some (parts ! 1))"

definition jwtAuthGuard :: "'tok HttpEnv \<Rightarrow> RouteMeta \<Rightarrow> HttpRequest \<Rightarrow> HttpRequest act" where
  "jwtAuthGuard he route request =
     (if rm_public route then returns request
      else
        (case bearerToken (hq_headers request) of
           None \<Rightarrow> throws (UnauthorizedException ''A Bearer token is required'')
         | Some token \<Rightarrow>
             andThen (verifySession (he_env he) (he_token he token))
             (\<lambda>claims. if cl_token_use claims = ''mfa_enrolment'' \<and> \<not> rm_acceptsEnrolment route
                then throws (ForbiddenException ''TWO_FACTOR_ENROLMENT_ONLY'')
                else returns (request\<lparr>hq_user := Some claims\<rparr>))))"

definition rolesGuard :: "RouteMeta \<Rightarrow> HttpRequest \<Rightarrow> failure + unit" where
  "rolesGuard route request =
     (if rm_roles route = [] then Inr ()
      else
        (let role = (case hq_user request of
               None \<Rightarrow> None
             | Some claims \<Rightarrow> if cl_token_use claims = ''access'' then cl_role claims else None)
         in (case role of
               None \<Rightarrow> Inl (ForbiddenException ''This account does not have access to this resource'')
             | Some r \<Rightarrow>
                 if r = [] \<or> r \<notin> set (rm_roles route)
                 then Inl (ForbiddenException ''This account does not have access to this resource'') else Inr ())))"

definition is_admin :: "Claims \<Rightarrow> bool" where
  "is_admin claims \<longleftrightarrow> cl_token_use claims = ''access'' \<and> cl_role claims = Some ''admin''"

definition selfOrStaffGuard :: "RouteMeta \<Rightarrow> HttpRequest \<Rightarrow> failure + unit" where
  "selfOrStaffGuard route request =
     (case rm_selfParam route of
        None \<Rightarrow> Inr ()
      | Some param \<Rightarrow>
          (case hq_user request of
             None \<Rightarrow> Inl (ForbiddenException ''This route requires a verified caller'')
           | Some claims \<Rightarrow>
               if is_admin claims \<and> \<not> rm_ownerOnly route then Inr ()
               else
                 (let requested = (case hq_params request param of None \<Rightarrow> [] | Some s \<Rightarrow> s)
                  in if requested \<noteq> decimal (cl_uid claims)
                     then Inl (ForbiddenException ''This account may only act on its own resources'') else Inr ())))"

definition clientProofGuard :: "'tok HttpEnv \<Rightarrow> HttpRequest \<Rightarrow> HttpRequest act" where
  "clientProofGuard he request =
     andThen (admit_client (he_appCheck he) (he_gate he) (hq_headers request))
     (\<lambda>client. returns (request\<lparr>hq_client := Some client\<rparr>))"

definition throttlerGuard :: "'tok HttpEnv \<Rightarrow> RouteMeta \<Rightarrow> HttpRequest \<Rightarrow> unit act" where
  "throttlerGuard he route request =
     andThen (reads clock)
     (\<lambda>now. if he_throttled he route request now then throws (HttpException 429 ''ThrottlerException: Too Many Requests'')
        else returns ())"

fun canActivate :: "'tok HttpEnv \<Rightarrow> RouteMeta \<Rightarrow> RouteGuard \<Rightarrow> HttpRequest \<Rightarrow> HttpRequest act" where
  "canActivate he route Throttler request = andThen (throttlerGuard he route request) (\<lambda>_. returns request)"
| "canActivate he route ClientProof request = clientProofGuard he request"
| "canActivate he route RolesCheck request = andThen (lifted (rolesGuard route request)) (\<lambda>_. returns request)"
| "canActivate he route SelfOrStaff request = andThen (lifted (selfOrStaffGuard route request)) (\<lambda>_. returns request)"

fun runGuards :: "'tok HttpEnv \<Rightarrow> RouteMeta \<Rightarrow> RouteGuard list \<Rightarrow> HttpRequest \<Rightarrow> HttpRequest act" where
  "runGuards he route [] request = returns request"
| "runGuards he route (g # gs) request = andThen (canActivate he route g request) (runGuards he route gs)"

text \<open>The guard of the whole application runs first, then the guards of the controller and the method.\<close>

definition admitted_request :: "'tok HttpEnv \<Rightarrow> RouteMeta \<Rightarrow> HttpRequest \<Rightarrow> HttpRequest act" where
  "admitted_request he route request = andThen (jwtAuthGuard he route request) (runGuards he route (rm_guards route))"

section \<open>Errors as replies\<close>

fun getStatus :: "failure \<Rightarrow> nat option" where
  "getStatus (BadRequestException _) = Some 400"
| "getStatus (UnauthorizedException _) = Some 401"
| "getStatus (ForbiddenException _) = Some 403"
| "getStatus (NotFoundException _) = Some 404"
| "getStatus (ConflictException _) = Some 409"
| "getStatus (UnprocessableEntityException _) = Some 422"
| "getStatus (BadGatewayException _) = Some 502"
| "getStatus (ServiceUnavailableException _) = Some 503"
| "getStatus (HttpException status _) = Some status"
| "getStatus _ = None"

definition adminActionOutcomeOf :: "failure \<Rightarrow> AdminActionOutcome" where
  "adminActionOutcomeOf error =
     (case getStatus error of
        Some status \<Rightarrow> if status < 500 then ActionRefused else ActionFailed
      | None \<Rightarrow> (case error of RecordConflictError _ \<Rightarrow> ActionRefused | MissingReferenceError _ \<Rightarrow> ActionRefused | _ \<Rightarrow> ActionFailed))"

definition UNREACHABLE_SOCKET_CODES :: "string list" where
  "UNREACHABLE_SOCKET_CODES = [''ECONNREFUSED'', ''ECONNRESET'', ''ETIMEDOUT'', ''EHOSTUNREACH'', ''ENETUNREACH'', ''ENOTFOUND'',
     ''EAI_AGAIN'', ''EPIPE'']"

definition UNAVAILABLE_SQL_STATES :: "string list" where
  "UNAVAILABLE_SQL_STATES = [''53300'', ''57P01'', ''57P02'', ''57P03'']"

text \<open>An error as \<^verbatim>\<open>isUnavailableCause\<close> reads it: its code, if it has one, and its message, or the errors it gathers.\<close>

datatype ErrorCause = OneCause "string option" string | AggregateCause "ErrorCause list"

fun isUnavailableCause :: "ErrorCause \<Rightarrow> bool" where
  "isUnavailableCause (AggregateCause inner) = list_ex isUnavailableCause inner"
| "isUnavailableCause (OneCause code message) \<longleftrightarrow>
     (case code of
        None \<Rightarrow> False
      | Some c \<Rightarrow> c \<in> set UNREACHABLE_SOCKET_CODES \<or> c \<in> set UNAVAILABLE_SQL_STATES \<or> length c = 5 \<and> js_startsWith c ''08'')
     \<or> js_startsWith message ''Connection terminated'' \<or> js_includes message ''timeout exceeded when trying to connect''"

text \<open>The driver's error behind a failed query carries its SQL state; a thrown exception of the service has no code.\<close>

fun causeOf :: "failure \<Rightarrow> ErrorCause" where
  "causeOf (QueryFailed state) = OneCause (Some state) []"
| "causeOf (PlainError message) = OneCause None message"
| "causeOf _ = OneCause None []"

definition isDatabaseUnavailable :: "failure \<Rightarrow> bool" where
  "isDatabaseUnavailable error \<longleftrightarrow> isUnavailableCause (causeOf error)"

text \<open>
  A reply to an error. Its text is the code or message the exception carries, which the body has as its
  \<^verbatim>\<open>error\<close> or \<^verbatim>\<open>message\<close>.
\<close>

record ErrorReply =
  er_status :: nat
  er_text :: string
  er_retryAfter :: "int option"
  er_traceId :: string

fun filter_refusalOf :: "failure \<Rightarrow> failure" where
  "filter_refusalOf (RecordConflictError m) = ConflictException m"
| "filter_refusalOf (MissingReferenceError m) = NotFoundException m"
| "filter_refusalOf e = e"

fun body_text :: "failure \<Rightarrow> string" where
  "body_text (BadRequestException t) = t"
| "body_text (UnauthorizedException t) = t"
| "body_text (ForbiddenException t) = t"
| "body_text (NotFoundException t) = t"
| "body_text (ConflictException t) = t"
| "body_text (UnprocessableEntityException t) = t"
| "body_text (BadGatewayException t) = t"
| "body_text (ServiceUnavailableException t) = t"
| "body_text (HttpException status t) = t"
| "body_text _ = ''INTERNAL_ERROR''"

definition errorReply :: "HttpRequest \<Rightarrow> failure \<Rightarrow> ErrorReply" where
  "errorReply request thrown =
     (let e = filter_refusalOf thrown;
          traceId = (case requestIdOf (hq_headers request) of None \<Rightarrow> ''-'' | Some i \<Rightarrow> i)
      in if isDatabaseUnavailable e
         then \<lparr>er_status = 503, er_text = ''DATABASE_UNAVAILABLE'', er_retryAfter = None, er_traceId = traceId\<rparr>
         else (case e of
                 SignInDelayedError seconds \<Rightarrow>
                   \<lparr>er_status = 429, er_text = ''SIGN_IN_DELAYED'', er_retryAfter = Some seconds, er_traceId = traceId\<rparr>
               | _ \<Rightarrow>
                   (case getStatus e of
                      Some status \<Rightarrow> \<lparr>er_status = status, er_text = body_text e, er_retryAfter = None, er_traceId = traceId\<rparr>
                    | None \<Rightarrow> \<lparr>er_status = 500, er_text = ''INTERNAL_ERROR'', er_retryAfter = None, er_traceId = traceId\<rparr>)))"

section \<open>The audit of what admins do\<close>

definition UNNAMED_TARGET :: string where
  "UNNAMED_TARGET = ''*''"

definition audit_target :: "AdminAuditPoint \<Rightarrow> HttpRequest \<Rightarrow> string" where
  "audit_target point request =
     (case ap_targetParam point of
        None \<Rightarrow> UNNAMED_TARGET
      | Some param \<Rightarrow> (case hq_params request param of None \<Rightarrow> [] | Some s \<Rightarrow> s))"

definition audited :: "RouteMeta \<Rightarrow> HttpRequest \<Rightarrow> 'a act \<Rightarrow> 'a act" where
  "audited route request handle =
     (case (rm_audit route, hq_user request) of
        (Some point, Some claims) \<Rightarrow>
          if \<not> is_admin claims then handle
          else
            (let record = (\<lambda>outcome. record_event (AdminAction (ap_action point) (cl_sub claims) (audit_target point request) outcome
                   (requestIdOf (hq_headers request))))
             in catches (andThen handle (\<lambda>value. andThen (record ActionDone) (\<lambda>_. returns value)))
                  (\<lambda>error. andThen (record (adminActionOutcomeOf error)) (\<lambda>_. throws error)))
      | _ \<Rightarrow> handle)"

section \<open>What the guards let through\<close>

lemma verifySession_run:
  "verifySession env token w =
     (case verified env token (clock w) of
        Inl e \<Rightarrow> (Inl e, w)
      | Inr c \<Rightarrow>
          if cl_token_use c \<noteq> ''access'' \<and> cl_token_use c \<noteq> ''mfa_enrolment''
          then (Inl (UnauthorizedException ''This is not an access token''), w)
          else if revoked_row (cl_jti c) w \<noteq> None then (Inl (UnauthorizedException ''This token has been revoked''), w)
          else (Inr c, w))"
  by (simp add: verifySession_def refuseRevoked_def andThen_run split: sum.split)

text \<open>The claims a request that carries a token is served under.\<close>

definition caller_of :: "'tok HttpEnv \<Rightarrow> HttpRequest \<Rightarrow> world \<Rightarrow> Claims option" where
  "caller_of he request w =
     (case bearerToken (hq_headers request) of
        None \<Rightarrow> None
      | Some token \<Rightarrow>
          (case verified (he_env he) (he_token he token) (clock w) of
             Inl e \<Rightarrow> None
           | Inr c \<Rightarrow> if revoked_row (cl_jti c) w = None then Some c else None))"

lemma jwtAuthGuard_quiet: "\<exists>r. jwtAuthGuard he route request w = (r, w)"
  by (auto simp: jwtAuthGuard_def andThen_run verifySession_run split: option.split sum.split)

lemma jwtAuthGuard_Inr:
  assumes "jwtAuthGuard he route request w = (Inr q, t)" and "\<not> rm_public route"
  shows "\<exists>c. caller_of he request w = Some c \<and> q = request\<lparr>hq_user := Some c\<rparr>
    \<and> (cl_token_use c = ''access'' \<or> cl_token_use c = ''mfa_enrolment'' \<and> rm_acceptsEnrolment route)"
  using assms
  by (auto simp: jwtAuthGuard_def andThen_run verifySession_run caller_of_def split: option.splits sum.splits if_splits)

lemma jwtAuthGuard_caller:
  assumes "caller_of he request w = Some c" and "\<not> rm_public route" and "cl_token_use c = ''access''"
  shows "jwtAuthGuard he route request w = (Inr (request\<lparr>hq_user := Some c\<rparr>), w)"
  using assms by (auto simp: jwtAuthGuard_def andThen_run verifySession_run caller_of_def split: option.splits sum.splits if_splits)

lemma selfOrStaff_pass:
  assumes "rm_selfParam route = Some param" and "hq_user request = Some c"
  shows "selfOrStaffGuard route request = Inr () \<longleftrightarrow>
    is_admin c \<and> \<not> rm_ownerOnly route \<or> hq_params request param = Some (decimal (cl_uid c))"
  using assms decimal_not_Nil [of "cl_uid c", THEN not_sym] by (auto simp: selfOrStaffGuard_def Let_def split: option.splits)

lemma roles_pass:
  assumes "rm_roles route = [''admin'']" and "hq_user request = Some c"
  shows "rolesGuard route request = Inr () \<longleftrightarrow> is_admin c"
  using assms by (auto simp: rolesGuard_def is_admin_def Let_def split: option.splits)

definition passes :: "'tok HttpEnv \<Rightarrow> RouteMeta \<Rightarrow> HttpRequest \<Rightarrow> world \<Rightarrow> RouteGuard \<Rightarrow> bool" where
  "passes he route request w g = (case g of
      Throttler \<Rightarrow> \<not> he_throttled he route request (clock w)
    | RolesCheck \<Rightarrow> rolesGuard route request = Inr ()
    | SelfOrStaff \<Rightarrow> selfOrStaffGuard route request = Inr ()
    | ClientProof \<Rightarrow> False)"

lemma canActivate_quiet:
  assumes "g \<noteq> ClientProof"
  shows "passes he route request w g \<and> canActivate he route g request w = (Inr request, w)
    \<or> \<not> passes he route request w g \<and> (\<exists>e. canActivate he route g request w = (Inl e, w))"
  using assms
  by (cases g) (auto simp: passes_def throttlerGuard_def andThen_run split: sum.split)

lemma runGuards_quiet:
  assumes "ClientProof \<notin> set gs"
  shows "list_all (passes he route request w) gs \<and> runGuards he route gs request w = (Inr request, w)
    \<or> \<not> list_all (passes he route request w) gs \<and> (\<exists>e. runGuards he route gs request w = (Inl e, w))"
  using assms
proof (induction gs)
  case (Cons g gs)
  then show ?case using canActivate_quiet [of g he route request w] by (auto simp: andThen_run)
qed simp

lemma admitted_quiet:
  assumes "\<not> rm_public route" and "ClientProof \<notin> set (rm_guards route)"
  obtains (refused) e where "admitted_request he route request w = (Inl e, w)"
  | (served) c where "caller_of he request w = Some c"
      and "admitted_request he route request w = (Inr (request\<lparr>hq_user := Some c\<rparr>), w)"
      and "cl_token_use c = ''access'' \<or> cl_token_use c = ''mfa_enrolment'' \<and> rm_acceptsEnrolment route"
      and "list_all (passes he route (request\<lparr>hq_user := Some c\<rparr>) w) (rm_guards route)"
proof -
  obtain r where r: "jwtAuthGuard he route request w = (r, w)" using jwtAuthGuard_quiet by blast
  show thesis
  proof (cases r)
    case (Inl e)
    with r show thesis by (intro refused [of e]) (simp add: admitted_request_def andThen_run)
  next
    case (Inr q)
    with r jwtAuthGuard_Inr [of he route request w q w] assms(1) obtain c where c: "caller_of he request w = Some c"
      "q = request\<lparr>hq_user := Some c\<rparr>" "cl_token_use c = ''access'' \<or> cl_token_use c = ''mfa_enrolment'' \<and> rm_acceptsEnrolment route"
      by blast
    have run: "admitted_request he route request w = runGuards he route (rm_guards route) q w"
      using r Inr by (simp add: admitted_request_def andThen_run)
    from runGuards_quiet [OF assms(2), of he route q w] show thesis
    proof (elim disjE conjE exE)
      assume "list_all (passes he route q w) (rm_guards route)" and "runGuards he route (rm_guards route) q w = (Inr q, w)"
      with run c show thesis by (intro served [of c]) simp_all
    next
      fix e
      assume "runGuards he route (rm_guards route) q w = (Inl e, w)"
      with run show thesis by (intro refused [of e]) simp
    qed
  qed
qed

section \<open>What the audit records\<close>

definition outcome_of :: "failure + 'a \<Rightarrow> AdminActionOutcome" where
  "outcome_of r = (case r of Inr _ \<Rightarrow> ActionDone | Inl e \<Rightarrow> adminActionOutcomeOf e)"

lemma audited_run:
  assumes "rm_audit route = Some point" and "hq_user request = Some c" and "is_admin c" and "handle w = (r, t)"
  shows "audited route request handle w =
    (r, t\<lparr>events := events t @ [AdminAction (ap_action point) (cl_sub c) (audit_target point request) (outcome_of r)
       (requestIdOf (hq_headers request))]\<rparr>)"
  using assms by (cases r) (simp_all add: audited_def andThen_run catches_run outcome_of_def)

lemma audited_other:
  assumes "rm_audit route = None \<or> hq_user request = None \<or> (\<exists>c. hq_user request = Some c \<and> \<not> is_admin c)"
  shows "audited route request handle = handle"
  using assms by (auto simp: audited_def split: option.split)

text \<open>The reply to an error is a refusal exactly when the audit says so, except for a delayed attempt.\<close>

lemma outcome_matches_reply:
  assumes "\<not> isDatabaseUnavailable (filter_refusalOf e)"
  shows "adminActionOutcomeOf e = ActionRefused \<longleftrightarrow> er_status (errorReply request e) < 500 \<and> (\<forall>s. e \<noteq> SignInDelayedError s)"
  using assms by (cases e) (auto simp: adminActionOutcomeOf_def errorReply_def Let_def)

end
