(* ===== verification/Service.thy ===== *)
theory Service
  imports Http_Access Passkeys Couriers Seller_Onboarding
begin

text \<open>
  The service as its callers over HTTP see it: the routes of the controllers
  (\<^verbatim>\<open>auth\<close>, \<^verbatim>\<open>passkey\<close>, \<^verbatim>\<open>courier_onboarding\<close>, \<^verbatim>\<open>seller_onboarding\<close> and \<^verbatim>\<open>user_profile.controller.ts\<close>) with
  their decorators, the whole path of a request through guards, audit, parameters and use case, and the
  sweep of expired records that runs beside them (\<^verbatim>\<open>expired_record_sweeper.service.ts\<close>). The checks the
  request classes declare on a body are the parameter \<open>sv_validate\<close>, which \<open>Request_Bodies\<close> gives.
\<close>

section \<open>Calls and replies\<close>

datatype 'tok AuthCall =
    Login string string
  | VerifyTwoFactor 'tok string
  | Register string string
  | Refresh 'tok
  | Logout "'tok option"
  | Me
  | SetupTwoFactor "string option"
  | EnableTwoFactor "string option" string
  | DisableTwoFactor string string

datatype ('tok, 'cred) PasskeyCall =
    SignInOptions 'tok
  | VerifySignIn 'tok 'cred
  | ListPasskeys
  | RegistrationOptions string
  | RegisterPasskey string 'cred string
  | RemovePasskey string

datatype CourierCall =
    RegisterCourier RegisterCourierInput
  | ListCourierApplications "CourierApplicationStatus option" "nat option" "nat option"
  | TallyCourierApplications int
  | ApproveCourier
  | RejectCourier

datatype SellerCall =
    ListSellerApplications "SellerApplicationStatus option" "nat option" "nat option"
  | TallySellerApplications int
  | ReadSellerApplication
  | OnboardSeller OnboardSellerInput
  | ApproveVerification
  | RejectVerification

datatype ProfileCall = GetProfile | UpdateProfile UpdateProfileInput

datatype ('tok, 'cred) HttpCall =
    ToAuth "'tok AuthCall"
  | ToPasskeys "('tok, 'cred) PasskeyCall"
  | ToCouriers CourierCall
  | ToSellers SellerCall
  | ToProfiles ProfileCall

record CurrentUserView =
  cu_principalId :: string
  cu_userId :: nat
  cu_email :: "string option"
  cu_role :: "string option"
  cu_expiresAt :: int

datatype ('tok, 'opt) Reply =
    LoginReply "'tok LoginOutcome"
  | TokensReply "'tok AuthTokenOutput"
  | NoContent
  | MeReply CurrentUserView
  | SetupReply TwoFactorSetup
  | EnabledReply bool
  | OptionsReply 'opt
  | PasskeysReply "PasskeyView list"
  | RegistrationOptionsReply string 'opt
  | PasskeyReply PasskeyView
  | CourierReply "'tok RegisterCourierOutput"
  | CourierPageReply "CourierApplicationView ApplicationPage"
  | TallyReply ApplicationTally
  | ApprovedCourierReply ApproveCourierOutput
  | CourierApplicationReply CourierApplicationView
  | SellerPageReply "SellerApplicationView ApplicationPage"
  | SellerApplicationReply SellerApplication
  | VerificationReply MerchantVerificationEntity
  | MerchantReply ApprovedMerchant
  | ProfileReply ProfileEntity

record ('tok, 'cred, 'opt) Service =
  sv_http :: "'tok HttpEnv"
  sv_webauthn :: "('cred, 'opt) WebAuthn"
  sv_geo :: GeoEnv
  sv_fleet :: FleetEnv
  sv_validate :: "('tok, 'cred) HttpCall \<Rightarrow> failure + unit"

section \<open>The routes and their decorators\<close>

definition open_route :: "RouteGuard list \<Rightarrow> RouteMeta" where
  "open_route guards = \<lparr>rm_public = True, rm_acceptsEnrolment = False, rm_guards = guards, rm_roles = [], rm_selfParam = None,
     rm_ownerOnly = False, rm_audit = None\<rparr>"

definition caller_route :: "RouteGuard list \<Rightarrow> RouteMeta" where
  "caller_route guards = (open_route guards)\<lparr>rm_public := False\<rparr>"

definition OwnerParam :: "string \<Rightarrow> RouteMeta \<Rightarrow> RouteMeta" where
  "OwnerParam param route = route\<lparr>rm_selfParam := Some param, rm_ownerOnly := True\<rparr>"

definition SelfParam :: "string \<Rightarrow> RouteMeta \<Rightarrow> RouteMeta" where
  "SelfParam param route = route\<lparr>rm_selfParam := Some param\<rparr>"

definition AdminAudit :: "string \<Rightarrow> string option \<Rightarrow> RouteMeta \<Rightarrow> RouteMeta" where
  "AdminAudit action targetParam route = route\<lparr>rm_audit := Some \<lparr>ap_action = action, ap_targetParam = targetParam\<rparr>\<rparr>"

definition AcceptsEnrolment :: "RouteMeta \<Rightarrow> RouteMeta" where
  "AcceptsEnrolment route = route\<lparr>rm_acceptsEnrolment := True\<rparr>"

definition Roles :: "string list \<Rightarrow> RouteMeta \<Rightarrow> RouteMeta" where
  "Roles roles route = route\<lparr>rm_roles := roles\<rparr>"

fun auth_route :: "'tok AuthCall \<Rightarrow> RouteMeta" where
  "auth_route (Login _ _) = open_route [Throttler, ClientProof]"
| "auth_route (VerifyTwoFactor _ _) = open_route [Throttler, ClientProof]"
| "auth_route (Register _ _) = open_route [Throttler, ClientProof]"
| "auth_route (Refresh _) = open_route [Throttler, ClientProof]"
| "auth_route (Logout _) = caller_route [Throttler]"
| "auth_route Me = caller_route [Throttler]"
| "auth_route (SetupTwoFactor _) = AcceptsEnrolment (OwnerParam ''id'' (caller_route [Throttler, SelfOrStaff]))"
| "auth_route (EnableTwoFactor _ _) = AcceptsEnrolment (OwnerParam ''id'' (caller_route [Throttler, SelfOrStaff]))"
| "auth_route (DisableTwoFactor _ _) = OwnerParam ''id'' (caller_route [Throttler, SelfOrStaff])"

fun passkey_route :: "('tok, 'cred) PasskeyCall \<Rightarrow> RouteMeta" where
  "passkey_route (SignInOptions _) = open_route [Throttler, ClientProof]"
| "passkey_route (VerifySignIn _ _) = open_route [Throttler, ClientProof]"
| "passkey_route ListPasskeys =
     AdminAudit ''identity.passkeys_list'' (Some ''id'') (OwnerParam ''id'' (caller_route [Throttler, SelfOrStaff]))"
| "passkey_route (RegistrationOptions _) =
     AdminAudit ''identity.passkey_options'' (Some ''id'') (OwnerParam ''id'' (caller_route [Throttler, SelfOrStaff]))"
| "passkey_route (RegisterPasskey _ _ _) =
     AdminAudit ''identity.passkey_add'' (Some ''id'') (OwnerParam ''id'' (caller_route [Throttler, SelfOrStaff]))"
| "passkey_route (RemovePasskey _) =
     AdminAudit ''identity.passkey_remove'' (Some ''id'') (OwnerParam ''id'' (caller_route [Throttler, SelfOrStaff]))"

fun courier_route :: "CourierCall \<Rightarrow> RouteMeta" where
  "courier_route (RegisterCourier _) = open_route [Throttler, ClientProof]"
| "courier_route (ListCourierApplications _ _ _) =
     AdminAudit ''identity.courier_applications_list'' None (Roles [''admin''] (caller_route [Throttler, RolesCheck]))"
| "courier_route (TallyCourierApplications _) =
     AdminAudit ''identity.courier_applications_tally'' None (Roles [''admin''] (caller_route [Throttler, RolesCheck]))"
| "courier_route ApproveCourier =
     AdminAudit ''identity.courier_approve'' (Some ''principalId'') (Roles [''admin''] (caller_route [Throttler, RolesCheck]))"
| "courier_route RejectCourier =
     AdminAudit ''identity.courier_reject'' (Some ''principalId'') (Roles [''admin''] (caller_route [Throttler, RolesCheck]))"

fun seller_route :: "SellerCall \<Rightarrow> RouteMeta" where
  "seller_route (ListSellerApplications _ _ _) =
     AdminAudit ''identity.seller_applications_list'' None (Roles [''admin''] (caller_route [RolesCheck]))"
| "seller_route (TallySellerApplications _) =
     AdminAudit ''identity.seller_applications_tally'' None (Roles [''admin''] (caller_route [RolesCheck]))"
| "seller_route ReadSellerApplication =
     AdminAudit ''identity.seller_application_read'' (Some ''id'') (SelfParam ''id'' (caller_route [SelfOrStaff]))"
| "seller_route (OnboardSeller _) =
     AdminAudit ''identity.seller_onboard'' (Some ''id'') (SelfParam ''id'' (caller_route [SelfOrStaff]))"
| "seller_route ApproveVerification =
     AdminAudit ''identity.seller_verify'' (Some ''id'') (Roles [''admin''] (caller_route [RolesCheck]))"
| "seller_route RejectVerification =
     AdminAudit ''identity.seller_reject'' (Some ''id'') (Roles [''admin''] (caller_route [RolesCheck]))"

fun profile_route :: "ProfileCall \<Rightarrow> RouteMeta" where
  "profile_route GetProfile =
     AdminAudit ''identity.profile_read'' (Some ''id'') (SelfParam ''id'' (caller_route [SelfOrStaff]))"
| "profile_route (UpdateProfile _) =
     AdminAudit ''identity.profile_update'' (Some ''id'') (SelfParam ''id'' (caller_route [SelfOrStaff]))"

fun route_of :: "('tok, 'cred) HttpCall \<Rightarrow> RouteMeta" where
  "route_of (ToAuth c) = auth_route c"
| "route_of (ToPasskeys c) = passkey_route c"
| "route_of (ToCouriers c) = courier_route c"
| "route_of (ToSellers c) = seller_route c"
| "route_of (ToProfiles c) = profile_route c"

section \<open>The handlers\<close>

definition uuidParam :: "'tok HttpEnv \<Rightarrow> string \<Rightarrow> HttpRequest \<Rightarrow> failure + string" where
  "uuidParam he name request =
     (case hq_params request name of
        Some s \<Rightarrow> if he_isUUID he s then Inr s else Inl (BadRequestException ''Validation failed (uuid is expected)'')
      | None \<Rightarrow> Inl (BadRequestException ''Validation failed (uuid is expected)''))"

definition reply_with :: "('a \<Rightarrow> 'b) \<Rightarrow> 'a act \<Rightarrow> 'b act" where
  "reply_with f m = andThen m (\<lambda>x. returns (f x))"

definition meView :: "Claims \<Rightarrow> CurrentUserView" where
  "meView claims = \<lparr>cu_principalId = cl_sub claims, cu_userId = cl_uid claims, cu_email = cl_email claims, cu_role = cl_role claims,
     cu_expiresAt = cl_exp claims * 1000\<rparr>"

text \<open>A handler that names the caller and the account of the path, reads the body and runs the use case.\<close>

definition for_account ::
    "(HttpRequest \<Rightarrow> failure + Claims) \<Rightarrow> (unit \<Rightarrow> failure + unit) \<Rightarrow> HttpRequest \<Rightarrow> (Claims \<Rightarrow> nat \<Rightarrow> 'a act) \<Rightarrow> 'a act" where
  "for_account caller body request f =
     andThen (lifted (caller request))
     (\<lambda>claims. andThen (lifted (accountIdParam ''id'' request))
     (\<lambda>userId. andThen (lifted (body ())) (\<lambda>_. f claims userId)))"

fun handle_auth :: "('tok, 'cred, 'opt) Service \<Rightarrow> 'tok AuthCall \<Rightarrow> HttpRequest \<Rightarrow> ('tok, 'opt) Reply act" where
  "handle_auth sv (Login email password) request =
     andThen (lifted (sv_validate sv (ToAuth (Login email password))))
     (\<lambda>_. reply_with LoginReply (login (he_env (sv_http sv)) email password (callContextOf request)))"
| "handle_auth sv (VerifyTwoFactor challengeToken code) request =
     andThen (lifted (sv_validate sv (ToAuth (VerifyTwoFactor challengeToken code))))
     (\<lambda>_. reply_with TokensReply (verifyTwoFactor (he_env (sv_http sv)) challengeToken code (callContextOf request)))"
| "handle_auth sv (Register email password) request =
     andThen (lifted (sv_validate sv (ToAuth (Register email password))))
     (\<lambda>_. reply_with TokensReply (register (he_env (sv_http sv)) email password (callContextOf request)))"
| "handle_auth sv (Refresh refreshToken) request =
     andThen (lifted (sv_validate sv (ToAuth (Refresh refreshToken))))
     (\<lambda>_. reply_with TokensReply (refresh (he_env (sv_http sv)) refreshToken (callContextOf request)))"
| "handle_auth sv (Logout refreshToken) request =
     andThen (lifted (currentUser request))
     (\<lambda>claims. andThen (lifted (sv_validate sv (ToAuth (Logout refreshToken))))
     (\<lambda>_. reply_with (\<lambda>_. NoContent) (logout (he_env (sv_http sv)) claims refreshToken)))"
| "handle_auth sv Me request = andThen (lifted (currentUser request)) (\<lambda>claims. returns (MeReply (meView claims)))"
| "handle_auth sv (SetupTwoFactor password) request =
     for_account currentSession (\<lambda>_. sv_validate sv (ToAuth (SetupTwoFactor password))) request
     (\<lambda>claims userId. reply_with SetupReply (setupTwoFactor (he_env (sv_http sv)) claims userId password (callContextOf request)))"
| "handle_auth sv (EnableTwoFactor password code) request =
     for_account currentSession (\<lambda>_. sv_validate sv (ToAuth (EnableTwoFactor password code))) request
     (\<lambda>claims userId. reply_with (\<lambda>_. EnabledReply True)
        (enableTwoFactor (he_env (sv_http sv)) claims userId password code (callContextOf request)))"
| "handle_auth sv (DisableTwoFactor password code) request =
     for_account currentUser (\<lambda>_. sv_validate sv (ToAuth (DisableTwoFactor password code))) request
     (\<lambda>claims userId. reply_with (\<lambda>_. EnabledReply False)
        (disableTwoFactor (he_env (sv_http sv)) claims userId password code (callContextOf request)))"

fun handle_passkey :: "('tok, 'cred, 'opt) Service \<Rightarrow> ('tok, 'cred) PasskeyCall \<Rightarrow> HttpRequest \<Rightarrow> ('tok, 'opt) Reply act" where
  "handle_passkey sv (SignInOptions challengeToken) request =
     andThen (lifted (sv_validate sv (ToPasskeys (SignInOptions challengeToken))))
     (\<lambda>_. reply_with OptionsReply (signInOptions (he_env (sv_http sv)) (sv_webauthn sv) challengeToken))"
| "handle_passkey sv (VerifySignIn challengeToken credential) request =
     andThen (lifted (sv_validate sv (ToPasskeys (VerifySignIn challengeToken credential))))
     (\<lambda>_. reply_with TokensReply
        (verifySignIn (he_env (sv_http sv)) (sv_webauthn sv) challengeToken credential (callContextOf request)))"
| "handle_passkey sv ListPasskeys request =
     for_account currentUser (\<lambda>_. Inr ()) request (\<lambda>claims userId. reply_with PasskeysReply (listPasskeys claims userId))"
| "handle_passkey sv (RegistrationOptions password) request =
     for_account currentUser (\<lambda>_. sv_validate sv (ToPasskeys (RegistrationOptions password))) request
     (\<lambda>claims userId. reply_with (\<lambda>(challengeId, options). RegistrationOptionsReply challengeId options)
        (registrationOptions (he_env (sv_http sv)) (sv_webauthn sv) claims userId password (callContextOf request)))"
| "handle_passkey sv (RegisterPasskey challengeId credential name) request =
     for_account currentUser (\<lambda>_. sv_validate sv (ToPasskeys (RegisterPasskey challengeId credential name))) request
     (\<lambda>claims userId. reply_with PasskeyReply
        (registerPasskey (he_env (sv_http sv)) (sv_webauthn sv) claims userId challengeId credential name))"
| "handle_passkey sv (RemovePasskey password) request =
     for_account currentUser (\<lambda>_. Inr ()) request
     (\<lambda>claims userId. andThen (lifted (uuidParam (sv_http sv) ''passkeyId'' request))
     (\<lambda>passkeyId. andThen (lifted (sv_validate sv (ToPasskeys (RemovePasskey password))))
     (\<lambda>_. reply_with (\<lambda>_. NoContent)
        (removeOwnPasskey (he_env (sv_http sv)) claims userId passkeyId password (callContextOf request)))))"

fun handle_courier :: "('tok, 'cred, 'opt) Service \<Rightarrow> CourierCall \<Rightarrow> HttpRequest \<Rightarrow> ('tok, 'opt) Reply act" where
  "handle_courier sv (RegisterCourier dto) request =
     andThen (lifted (sv_validate sv (ToCouriers (RegisterCourier dto))))
     (\<lambda>_. reply_with CourierReply
        (registerCourier (he_env (sv_http sv)) (sv_geo sv) (sv_fleet sv) dto (callContextOf request)))"
| "handle_courier sv (ListCourierApplications status limit after) request =
     andThen (lifted (sv_validate sv (ToCouriers (ListCourierApplications status limit after))))
     (\<lambda>_. reply_with CourierPageReply (list_courier_applications (applicationQueryOf status limit after)))"
| "handle_courier sv (TallyCourierApplications since) request =
     andThen (lifted (sv_validate sv (ToCouriers (TallyCourierApplications since))))
     (\<lambda>_. reply_with TallyReply (tally_courier_applications since))"
| "handle_courier sv ApproveCourier request =
     andThen (lifted (uuidParam (sv_http sv) ''principalId'' request))
     (\<lambda>principalId. reply_with ApprovedCourierReply (approveCourier (sv_fleet sv) principalId))"
| "handle_courier sv RejectCourier request =
     andThen (lifted (uuidParam (sv_http sv) ''principalId'' request))
     (\<lambda>principalId. reply_with CourierApplicationReply (rejectCourier principalId))"

fun handle_seller :: "('tok, 'cred, 'opt) Service \<Rightarrow> SellerCall \<Rightarrow> HttpRequest \<Rightarrow> ('tok, 'opt) Reply act" where
  "handle_seller sv (ListSellerApplications status limit after) request =
     andThen (lifted (sv_validate sv (ToSellers (ListSellerApplications status limit after))))
     (\<lambda>_. reply_with SellerPageReply (list_seller_applications (applicationQueryOf status limit after)))"
| "handle_seller sv (TallySellerApplications since) request =
     andThen (lifted (sv_validate sv (ToSellers (TallySellerApplications since))))
     (\<lambda>_. reply_with TallyReply (tally_seller_applications since))"
| "handle_seller sv ReadSellerApplication request =
     andThen (lifted (accountIdParam ''id'' request)) (\<lambda>userId. reply_with SellerApplicationReply (applicationOf userId))"
| "handle_seller sv (OnboardSeller dto) request =
     andThen (lifted (accountIdParam ''id'' request))
     (\<lambda>userId. andThen (lifted (sv_validate sv (ToSellers (OnboardSeller dto))))
     (\<lambda>_. reply_with VerificationReply (onboardSeller userId dto)))"
| "handle_seller sv ApproveVerification request =
     andThen (lifted (accountIdParam ''id'' request))
     (\<lambda>userId. reply_with MerchantReply (approveVerification (he_env (sv_http sv)) (sv_geo sv) userId))"
| "handle_seller sv RejectVerification request =
     andThen (lifted (accountIdParam ''id'' request)) (\<lambda>userId. reply_with SellerApplicationReply (rejectVerification userId))"

fun handle_profile :: "('tok, 'cred, 'opt) Service \<Rightarrow> ProfileCall \<Rightarrow> HttpRequest \<Rightarrow> ('tok, 'opt) Reply act" where
  "handle_profile sv GetProfile request =
     andThen (lifted (accountIdParam ''id'' request)) (\<lambda>userId. reply_with ProfileReply (getProfile userId))"
| "handle_profile sv (UpdateProfile dto) request =
     andThen (lifted (accountIdParam ''id'' request))
     (\<lambda>userId. andThen (lifted (sv_validate sv (ToProfiles (UpdateProfile dto))))
     (\<lambda>_. reply_with ProfileReply (updateProfile (sv_geo sv) userId dto)))"

fun handler_of :: "('tok, 'cred, 'opt) Service \<Rightarrow> ('tok, 'cred) HttpCall \<Rightarrow> HttpRequest \<Rightarrow> ('tok, 'opt) Reply act" where
  "handler_of sv (ToAuth c) request = handle_auth sv c request"
| "handler_of sv (ToPasskeys c) request = handle_passkey sv c request"
| "handler_of sv (ToCouriers c) request = handle_courier sv c request"
| "handler_of sv (ToSellers c) request = handle_seller sv c request"
| "handler_of sv (ToProfiles c) request = handle_profile sv c request"

definition serve :: "('tok, 'cred, 'opt) Service \<Rightarrow> ('tok, 'cred) HttpCall \<Rightarrow> HttpRequest \<Rightarrow> ('tok, 'opt) Reply act" where
  "serve sv action request =
     andThen (admitted_request (sv_http sv) (route_of action) request)
     (\<lambda>admitted. audited (route_of action) admitted (handler_of sv action admitted))"

section \<open>The sweep of expired records\<close>

definition sweep :: "unit act" where
  "sweep =
     catches
       (andThen sign_in_sweep
        (\<lambda>attempts. andThen sweepExpiredRevocations
        (\<lambda>revocations. andThen sweepChallenges (\<lambda>challenges. returns ()))))
       (\<lambda>error. returns ())"

end
