(* ===== verification/Frames.thy ===== *)
theory Frames
  imports Service
begin

text \<open>
  What the routes leave alone. The tables that carry authority are the accounts, the principals and their
  names, the sessions and the stores; every other write of the service happens beside them. The locales of
  this theory say what a predicate on the state has to survive (the few operations that write those
  tables) and conclude that every route of the service keeps it.
\<close>

section \<open>Writes beside the tables of authority\<close>

definition beside :: "world \<Rightarrow> world \<Rightarrow> bool" where
  "beside w t \<longleftrightarrow> users t = users w \<and> user_seq t = user_seq w \<and> principals t = principals w \<and> aliases t = aliases w
     \<and> refresh_tokens t = refresh_tokens w \<and> merchants t = merchants w \<and> merchant_seq t = merchant_seq w
     \<and> draws w \<le> draws t"

named_theorems writes_beside \<open>operations that write beside the tables of authority\<close>

lemma beside_refl [simp]: "beside w w"
  by (simp add: beside_def)

lemma beside_trans: "beside u w \<Longrightarrow> beside w t \<Longrightarrow> beside u t"
  by (auto simp: beside_def)

lemma beside_other [simp]:
  "beside u (w\<lparr>revoked_access_tokens := a\<rparr>) = beside u w" "beside u (w\<lparr>account_sign_in_attempts := b\<rparr>) = beside u w"
  "beside u (w\<lparr>two_factor_challenge_attempts := c\<rparr>) = beside u w" "beside u (w\<lparr>passkeys := d\<rparr>) = beside u w"
  "beside u (w\<lparr>passkey_challenges := e\<rparr>) = beside u w" "beside u (w\<lparr>profiles := f\<rparr>) = beside u w"
  "beside u (w\<lparr>profile_seq := g\<rparr>) = beside u w" "beside u (w\<lparr>merchant_verifications := h\<rparr>) = beside u w"
  "beside u (w\<lparr>verification_seq := i\<rparr>) = beside u w" "beside u (w\<lparr>courier_applications := j\<rparr>) = beside u w"
  "beside u (w\<lparr>courier_seq := k\<rparr>) = beside u w" "beside u (w\<lparr>geocoded_addresses := l\<rparr>) = beside u w"
  "beside u (w\<lparr>app_check_keys := m\<rparr>) = beside u w" "beside u (w\<lparr>events := n\<rparr>) = beside u w"
  "beside u (w\<lparr>outbox := p\<rparr>) = beside u w" "beside u (w\<lparr>clock := q\<rparr>) = beside u w"
  by (simp_all add: beside_def)

lemma beside_draws: "beside u w \<Longrightarrow> draws w \<le> n \<Longrightarrow> beside u (w\<lparr>draws := n\<rparr>)"
  by (auto simp: beside_def)

lemma beside_record_event [writes_beside]: "keeps (beside u) (record_event e)"
  by (rule keepsI) simp

lemma beside_randomUUID [writes_beside]: "keeps (beside u) (randomUUID env)"
  by (rule keepsI) (simp add: beside_draws)

lemma beside_drawing [writes_beside]: "keeps (beside u) (drawing f)"
  by (rule keepsI) (simp add: beside_draws)

lemma beside_drawn [writes_beside]:
  "(\<And>d. keeps (beside u) (f d)) \<Longrightarrow>
   keeps (beside u) (andThen (reads draws) (\<lambda>d. andThen (writes (\<lambda>w. w\<lparr>draws := Suc d\<rparr>)) (\<lambda>_. f d)))"
  by (rule keepsI) (simp add: beside_draws keepsD)

text \<open>Sign-in attempts, revocations and records of the token service.\<close>

lemma beside_lockAccount [writes_beside]: "keeps (beside u) (lockAccount k)"
  unfolding lockAccount_def by (intro keeps_rules keeps_writes) simp

lemma beside_recordAccountAttempt [writes_beside]: "keeps (beside u) (recordAccountAttempt k n d now)"
  unfolding recordAccountAttempt_def by (intro keeps_writes) simp

lemma beside_admit [writes_beside]: "keeps (beside u) (admit env e)"
  unfolding admit_def claimAccountAttempt_def by (intro keeps_rules writes_beside)

lemma beside_claim_challenge_row [writes_beside]: "keeps (beside u) (claim_challenge_row c)"
  by (rule keepsI) (auto simp: claim_challenge_row_def split: option.split)

lemma beside_admitChallengeAttempt [writes_beside]: "keeps (beside u) (admitChallengeAttempt env e c)"
  unfolding admitChallengeAttempt_def claimChallengeAttempt_def by (intro keeps_rules writes_beside)

lemma beside_failed [writes_beside]: "keeps (beside u) (failed env f c)"
  unfolding failed_def by (intro writes_beside)

lemma beside_succeeded [writes_beside]: "keeps (beside u) (succeeded env e)"
  unfolding succeeded_def clearAccountAttempts_def by (intro keeps_writes) simp

lemma beside_recordRevokedJti [writes_beside]: "keeps (beside u) (recordRevokedJti j e m)"
  by (rule keepsI) (simp add: recordRevokedJti_run)

lemma beside_revocations [writes_beside]:
  "keeps (beside u) (consumeMfaChallenge c)" "keeps (beside u) (endEnrolment c)" "keeps (beside u) (revokeAccessJti j x m)"
  unfolding consumeMfaChallenge_def endEnrolment_def revokeAccessJti_def by (intro keeps_rules writes_beside)+

lemma beside_issued [writes_beside]:
  "keeps (beside u) (issueEnrolment env s p c)" "keeps (beside u) (issueMfaChallenge env s p)"
  unfolding issueEnrolment_def issueMfaChallenge_def by (intro keeps_rules writes_beside)+

lemma beside_sessions_of_clients [writes_beside]: "keeps (beside u) (mismatch s c i)" "keeps (beside u) (bound n i)"
  unfolding mismatch_def bound_def by (intro keeps_rules writes_beside)+

lemma beside_passwords [writes_beside]:
  "keeps (beside u) (checkPassword env v p a c)" "keeps (beside u) (verifyPassword env e p c)"
  "keeps (beside u) (confirmPassword env v p c)" "keeps (beside u) (admitAnswer env v claims)"
  unfolding checkPassword_def verifyPassword_def confirmPassword_def admitAnswer_def
  by (intro keeps_rules writes_beside keeps_findByEmail)+

lemma beside_read [writes_beside]:
  "keeps I (verifySession env tok)" "keeps I (listForUser i)" "keeps I (principalIdForUser i)" "keeps I (userIdForPrincipal p)"
  unfolding verifySession_def listForUser_def principalIdForUser_def userIdForPrincipal_def
  by (intro keeps_rules keeps_verifySignature keeps_refuseRevoked)+

text \<open>The client gate.\<close>

lemma beside_download [writes_beside]: "keeps (beside u) (download ac)"
  unfolding download_def by (auto intro!: keeps_rules keeps_writes split: JwksAnswer.split)

lemma beside_keys [writes_beside]: "keeps (beside u) (keyFor ac k)"
  unfolding keyFor_def refetch_def fetchKeys_def by (intro keeps_rules writes_beside keeps_writes) simp_all

lemma beside_verify_proof [writes_beside]: "keeps (beside u) (verify_proof ac n p ids)"
  unfolding verify_proof_def
  by (auto intro!: keeps_rules writes_beside split: option.split SigningKeyLookup.split proof_payload.split proof_header.split)

lemma beside_admit_client [writes_beside]: "keeps (beside u) (admit_client ac gate headers)"
  unfolding admit_client_def prove_def refuse_client_def Let_def
  by (auto intro!: keeps_rules writes_beside split: option.split header_value.split RegisteredClient.split ProofVerdict.split)

lemma beside_admitted_request [writes_beside]: "keeps (beside u) (admitted_request he route request)"
proof -
  have "keeps (beside u) (canActivate he route g q)" for g q
    by (cases g) (auto simp: throttlerGuard_def clientProofGuard_def intro!: keeps_rules writes_beside)
  then have "keeps (beside u) (runGuards he route gs q)" for gs q
    by (induction gs arbitrary: q) (auto intro!: keeps_rules)
  then show ?thesis unfolding admitted_request_def jwtAuthGuard_def by (intro keeps_rules writes_beside)
qed

text \<open>Passkeys, addresses, profiles, applications and calls to the fleet.\<close>

lemma beside_passkey_tables [writes_beside]:
  "keeps (beside u) (addPasskey env p n)" "keeps (beside u) (removePasskey i j)" "keeps (beside u) (recordUse j k b)"
  "keeps (beside u) (issueRegistration env i c x)" "keeps (beside u) (issueSignIn env i j c x)"
  "keeps (beside u) (spendRegistration j i)" "keeps (beside u) (spendSignIn j i)"
  unfolding addPasskey_def insert_passkey_def removePasskey_def recordUse_def issueRegistration_def issueSignIn_def
    spendRegistration_def spendSignIn_def spend_row_def
  by ((intro keeps_rules writes_beside)?; auto simp: keeps_def Let_def)+

lemma beside_geocode [writes_beside]: "keeps (beside u) (geocode geo q)"
proof -
  have "keeps (beside u) (lookup_address geo x)" for x
    by (rule keepsI) (simp add: lookup_address_def Let_def split: GeocoderAnswer.split option.split)
  moreover have "keeps (beside u) (remember x y p)" for x y p by (rule keepsI) (simp add: remember_def)
  ultimately show ?thesis unfolding geocode_def findByQuery_def by (intro keeps_rules)
qed

lemma beside_saveProfile [writes_beside]: "keeps (beside u) (saveProfile p)"
proof -
  have "keeps (beside u) (insert_profile p)"
    by (rule keepsI) (simp add: insert_profile_def split: prod.split option.split)
  then show ?thesis unfolding saveProfile_def by (intro keeps_rules)
qed

lemma beside_profiles [writes_beside]: "keeps (beside u) (getProfile i)" "keeps (beside u) (updateProfile geo i dto)"
  unfolding getProfile_def updateProfile_def placeProfile_def findProfile_def
  by (intro keeps_rules writes_beside; auto intro!: keeps_rules split: GeocodeOutcome.split)+

lemma beside_saveVerification [writes_beside]: "keeps (beside u) (saveVerification v)"
proof -
  have "keeps (beside u) (insert_verification v)"
    by (rule keepsI) (simp add: insert_verification_def split: prod.split option.split)
  then show ?thesis unfolding saveVerification_def by (intro keeps_rules)
qed

lemma beside_applications [writes_beside]:
  "keeps (beside u) (requireMayBecomeSeller v)" "keeps (beside u) (findApplication i)" "keeps (beside u) (pendingApplicationOf i)"
  "keeps (beside u) (applicationOf i)" "keeps (beside u) (onboardSeller i dto)" "keeps (beside u) (rejectVerification i)"
  unfolding requireMayBecomeSeller_def findApplication_def pendingApplicationOf_def applicationOf_def onboardSeller_def
    rejectVerification_def withPrincipal_def findVerification_def
  by (intro keeps_rules writes_beside keeps_findById)+

lemma beside_fleet [writes_beside]: "keeps (beside u) (registerDriver fleet p v c)" "keeps (beside u) (activateDriver fleet p)"
  unfolding registerDriver_def activateDriver_def accepted_reply_def dispatch_def
  by (intro keeps_rules; auto intro!: keeps_rules keeps_writes split: FleetAnswer.split)+

lemma beside_filings [writes_beside]:
  "keeps (beside u) (recordFiled f)" "keeps (beside u) (recordApproved f)" "keeps (beside u) (recordRejected i)"
  unfolding recordFiled_def recordApproved_def recordRejected_def write_filing_def upsert_filing_def
  by ((intro keeps_rules)?; auto simp: keeps_def Let_def)+

lemma beside_queues [writes_beside]:
  "keeps I (emailOf i)" "keeps I (toView r)" "keeps I (findByUser i)" "keeps I (principalsOf ids)"
  unfolding emailOf_def toView_def findByUser_def principalsOf_def
  by ((intro keeps_rules)?; auto simp: keeps_def andThen_def split: option.split)+

lemma keeps_each [keeps_rules]: "(\<And>x. keeps I (f x)) \<Longrightarrow> keeps I (each f xs)"
  by (induction xs) (auto intro!: keeps_rules)

lemma beside_queue_pages [writes_beside]:
  "keeps I (list_courier_applications q)" "keeps I (tally_courier_applications d)"
  "keeps I (list_seller_applications q')" "keeps I (tally_seller_applications d)"
  unfolding list_courier_applications_def tally_courier_applications_def list_seller_applications_def tally_seller_applications_def
  by (intro keeps_rules writes_beside)+

lemma beside_courier_steps [writes_beside]:
  "keeps (beside u) (account_of_principal p)" "keeps (beside u) (pendingCourierApplication i)"
  "keeps (beside u) (rejectCourier p)" "keeps (beside u) (approved v p a)" "keeps (beside u) (fileVehicle fleet session dto)"
  unfolding account_of_principal_def pendingCourierApplication_def rejectCourier_def approved_def fileVehicle_def
  by (intro keeps_rules writes_beside keeps_findById)+

lemma beside_passkey_calls [writes_beside]:
  "keeps (beside u) (listPasskeys claims i)" "keeps (beside u) (registrationOptions env wa claims i p c)"
  "keeps (beside u) (removeOwnPasskey env claims i j p c)" "keeps (beside u) (signInOptions env wa tok)"
  "keeps (beside u) (refused env v a r d c)"
  unfolding listPasskeys_def registrationOptions_def removeOwnPasskey_def signInOptions_def refused_def
    ceremony_registrationOptions_def ceremony_signInOptions_def
  by (intro keeps_rules writes_beside keeps_ownAccount keeps_openChallenge)+

lemma beside_registerPasskey [writes_beside]: "keeps (beside u) (registerPasskey env wa claims i j cred n)"
  unfolding registerPasskey_def
  by (auto intro!: keeps_rules writes_beside keeps_ownAccount split: option.split PasskeyRegistrationOutcome.split PasskeyAddition.split)

lemma beside_sweep [writes_beside]: "keeps (beside u) sweep"
  unfolding sweep_def sign_in_sweep_def attempts_sweep_def sweepExpiredRevocations_def sweepChallenges_def
  by ((intro keeps_rules)?; auto simp: keeps_def Let_def)+

lemma keeps_reply_with [keeps_rules]: "keeps I m \<Longrightarrow> keeps I (reply_with f m)"
  unfolding reply_with_def by (intro keeps_rules)

lemma keeps_for_account [keeps_rules]: "(\<And>c i. keeps I (f c i)) \<Longrightarrow> keeps I (for_account caller body request f)"
  unfolding for_account_def by (intro keeps_rules)

text \<open>The two calls that give an account a role.\<close>

fun gives_role :: "('tok, 'cred) HttpCall \<Rightarrow> bool" where
  "gives_role (ToCouriers c) = (c = ApproveCourier)"
| "gives_role (ToSellers c) = (c = ApproveVerification)"
| "gives_role _ = False"

section \<open>What survives the writers survives the service\<close>

text \<open>
  A predicate \<open>I\<close> of the state that writes beside the tables of authority cannot disturb, and that the
  writers of those tables keep: a save of an account only where the account saved is \<open>good\<close>, as every
  account read from a state with \<open>I\<close> is.
\<close>

locale account_frame =
  fixes env :: "'tok Env" and I :: "world \<Rightarrow> bool" and good :: "UserEntity \<Rightarrow> bool"
  assumes frame: "I w \<Longrightarrow> beside w t \<Longrightarrow> I t"
    and read_good: "I w \<Longrightarrow> user_row i w = Some r \<Longrightarrow> good (toUserEntity r)"
    and customer_good: "u_role u = Customer \<Longrightarrow> good u"
    and factor_good: "good u \<Longrightarrow> good (u\<lparr>u_isTwoFactorEnabled := b, u_twoFactorSecret := x\<rparr>)"
    and save: "good u \<Longrightarrow> keeps I (saveUser u)"
    and accept: "keeps I (acceptTwoFactorStep i n)"
    and resolve: "keeps I (resolveOrMintForUser env s)"
    and kind: "keeps I (syncKind p role)"
    and issue: "keeps I (issuePair env s p c)"
    and rotation: "keeps I (rotate env tok s c')"
    and revoke_family: "keeps I (revokeFamily f m)"
    and revoke_all: "keeps I (revokeAllFamiliesForPrincipal p m)"
    and revoke_other: "keeps I (revokeOtherSessions p k m)"
begin

lemma aside: "(\<And>w. keeps (beside w) m) \<Longrightarrow> keeps I m"
  by (rule keepsI) (rule frame, assumption, drule_tac x = s in meta_spec, drule_tac s = s in keepsD, simp_all)

lemma drawing_then:
  "(\<And>d. keeps I (f d)) \<Longrightarrow> keeps I (andThen (reads draws) (\<lambda>d. andThen (writes (\<lambda>w. w\<lparr>draws := Suc d\<rparr>)) (\<lambda>_. f d)))"
  by (rule keepsI) (simp add: keepsD frame beside_draws)

lemma own_then:
  assumes "\<And>u. good u \<Longrightarrow> keeps I (f u)" shows "keeps I (andThen (ownAccount c i) f)"
proof (rule keepsI)
  fix w assume I: "I w"
  have "I (snd (f (toUserEntity r) w))" if "user_row i w = Some r" for r
    by (rule keepsD [OF assms [OF read_good [OF I that]] I])
  with I show "I (snd (andThen (ownAccount c i) f w))"
    by (simp add: ownAccount_def andThen_run split: option.split)
qed

lemma logging_out: "keeps I (token_logout claims fam)"
  unfolding token_logout_def by (intro keeps_rules revoke_family revoke_all aside writes_beside)

lemma starting: "keeps I (startSession env u c)" "keeps I (startEnrolment env u c)"
  unfolding startSession_def startEnrolment_def
  by (intro keeps_rules resolve kind issue aside [OF beside_succeeded] aside [OF beside_issued(1)])+

lemma accepting: "keeps I (acceptCode env u s code a c)"
  unfolding acceptCode_def by (intro keeps_rules accept keeps_now_step aside [OF beside_failed])

lemma signing_in: "keeps I (login env e p c)"
  unfolding login_def
  by (intro keeps_rules resolve starting aside [OF beside_passwords(2)] aside [OF beside_issued(2)] keeps_existsForUser)

lemma registering: "keeps I (register env e p c)"
proof -
  have new: "keeps I (saveUser \<lparr>u_id = 0, u_email = x, u_passwordHash = h, u_role = Customer, u_isTwoFactorEnabled = False,
      u_twoFactorSecret = None\<rparr>)" for x h
    by (rule save [OF customer_good]) simp
  show ?thesis unfolding register_def Let_def
    by (intro keeps_andThen keeps_lifted keeps_findByEmail keeps_if keeps_throws drawing_then new starting)
qed

lemma answering: "keeps I (verifyTwoFactor env tok code c)"
  unfolding verifyTwoFactor_def
  by (intro keeps_rules keeps_openChallenge keeps_now_step accept starting aside [OF beside_passwords(4)] aside [OF beside_failed]
      aside [OF beside_revocations(1)])

lemma answering_with_passkey: "keeps I (verifySignIn env wa tok cred c)"
proof -
  have ceremony: "keeps I (case x of AssertRefused r d \<Rightarrow> refused env u a r d c | AssertVerified k n b \<Rightarrow> f k n b)"
    if "\<And>k n b. keeps I (f k n b)" for x u a f
    using that by (cases x) (simp_all add: aside [OF beside_passkey_calls(5)])
  show ?thesis unfolding verifySignIn_def
    by (intro keeps_rules ceremony keeps_openChallenge starting aside [OF beside_passwords(4)] aside [OF beside_failed]
        aside [OF beside_revocations(1)] aside [OF beside_passkey_tables(7)] aside [OF beside_passkey_tables(3)]
        aside [OF beside_read(2)] aside [OF beside_passkey_calls(5)])
qed

lemma renewing: "keeps I (refresh env tok c)"
proof -
  have handler: "keeps I (case e of ClientMismatchError sc \<Rightarrow> andThen (mismatch sc client i) throws | _ \<Rightarrow> throws e)" for e client i
    by (cases e) (auto intro!: keeps_rules aside [OF beside_sessions_of_clients(1)])
  show ?thesis unfolding refresh_def
    by (intro keeps_rules handler keeps_peekRefresh keeps_findById resolve rotation revoke_family
        aside [OF beside_sessions_of_clients(1)] aside [OF beside_sessions_of_clients(2)])
qed

lemma leaving: "keeps I (logout env claims tok')"
  unfolding logout_def by (intro keeps_rules keeps_peekRefresh logging_out)

lemma factor_set_up: "keeps I (setupTwoFactor env claims i p c)"
proof -
  have saved: "keeps I (saveUser (u\<lparr>u_twoFactorSecret := s, u_isTwoFactorEnabled := b\<rparr>))" if "good u" for u s b
    using save [OF factor_good [OF that, where b = b and x = s]] by (cases u) simp
  show ?thesis unfolding setupTwoFactor_def Let_def
    by (intro own_then keeps_andThen keeps_lifted keeps_case_option keeps_returns keeps_if keeps_throws drawing_then saved
        aside [OF beside_admit] aside [OF beside_passwords(1)])
qed

lemma factor_on: "keeps I (enableTwoFactor env claims i p code c)"
proof -
  have saved: "keeps I (saveUser (u\<lparr>u_isTwoFactorEnabled := b\<rparr>))" if "good u" for u b
    using save [OF factor_good [OF that, where b = b and x = "u_twoFactorSecret u"]] by (cases u) simp
  show ?thesis unfolding enableTwoFactor_def
    by (intro own_then keeps_rules accepting saved revoke_all revoke_other aside [OF beside_admit] aside [OF beside_passwords(1)]
        aside [OF beside_revocations(2)])
qed

lemma factor_off: "keeps I (disableTwoFactor env claims i p code c)"
  unfolding disableTwoFactor_def
  by (intro own_then keeps_rules accepting save factor_good revoke_all revoke_other aside [OF beside_admit] aside [OF beside_passwords(1)]
      aside [OF beside_revocations(3)])

lemma courier_registering: "keeps I (registerCourier env geo fleet dto c)"
proof -
  have "keeps I (case e of UnauthorizedException _ \<Rightarrow> throws x | _ \<Rightarrow> throws e)" for e x
    by (rule keeps_unauthorized)
  then show ?thesis unfolding registerCourier_def sessionFor_def resume_def
    by (intro keeps_rules keeps_findByEmail registering starting aside [OF beside_passwords(2)] aside [OF beside_profiles(2)]
        aside [OF beside_courier_steps(5)] aside [OF beside_filings(1)])
qed

lemma handling:
  assumes "he_env (sv_http sv) = env" and "\<not> gives_role action"
  shows "keeps I (handler_of sv action request)"
proof (cases action)
  case (ToAuth c)
  have "keeps I (handle_auth sv c request)"
    by (cases c) (simp_all add: assms(1) keeps_rules signing_in answering registering renewing leaving factor_set_up factor_on factor_off)
  with ToAuth show ?thesis by simp
next
  case (ToPasskeys c)
  have "keeps I (handle_passkey sv c request)"
    by (cases c) (simp_all add: assms(1) keeps_rules answering_with_passkey aside [OF beside_registerPasskey]
        aside [OF beside_passkey_calls(1)] aside [OF beside_passkey_calls(2)] aside [OF beside_passkey_calls(3)]
        aside [OF beside_passkey_calls(4)])
  with ToPasskeys show ?thesis by simp
next
  case (ToCouriers c)
  with assms(2) have "keeps I (handle_courier sv c request)"
    by (cases c) (simp_all add: assms(1) keeps_rules courier_registering beside_queue_pages aside [OF beside_courier_steps(3)])
  with ToCouriers show ?thesis by simp
next
  case (ToSellers c)
  with assms(2) have "keeps I (handle_seller sv c request)"
    by (cases c) (simp_all add: keeps_rules beside_queue_pages aside [OF beside_applications(4)] aside [OF beside_applications(5)]
        aside [OF beside_applications(6)])
  with ToSellers show ?thesis by simp
next
  case (ToProfiles c)
  have "keeps I (handle_profile sv c request)"
    by (cases c) (simp_all add: keeps_rules aside [OF beside_profiles(1)] aside [OF beside_profiles(2)])
  with ToProfiles show ?thesis by simp
qed

lemma auditing: "keeps I m \<Longrightarrow> keeps I (audited route request m)"
  unfolding audited_def by (auto intro!: keeps_rules aside [OF beside_record_event] split: option.split)

lemma serving_with:
  assumes "\<And>q. keeps I (handler_of sv action q)" shows "keeps I (serve sv action request)"
  unfolding serve_def by (intro keeps_rules auditing assms aside [OF beside_admitted_request])

lemma serving: "he_env (sv_http sv) = env \<Longrightarrow> \<not> gives_role action \<Longrightarrow> keeps I (serve sv action request)"
  by (rule serving_with) (rule handling)

lemma sweeping: "keeps I sweep"
  by (rule aside [OF beside_sweep])

end

locale courier_frame = account_frame +
  assumes courier_good: "u_role u = Courier \<Longrightarrow> good u"
begin

lemma approving_courier: "keeps I (approveCourier fleet p)"
proof -
  have saved: "keeps I (saveUser (u\<lparr>u_role := Courier\<rparr>))" "keeps I (saveUser (u\<lparr>u_role := Customer\<rparr>))" for u
    by (rule save, simp add: courier_good customer_good)+
  then show ?thesis unfolding approveCourier_def activateInFleet_def restoreCustomer_def Let_def
    by (intro keeps_rules saved kind aside [OF beside_courier_steps(1)] aside [OF beside_courier_steps(4)]
        aside [OF beside_queues(3)] aside [OF beside_fleet(2)])
qed

lemma serving_courier_approval: "keeps I (serve sv (ToCouriers ApproveCourier) request)"
  by (rule serving_with) (simp add: keeps_rules approving_courier)

end

locale seller_frame = account_frame +
  assumes seller_good: "u_role u = Seller \<Longrightarrow> good u"
    and naming: "keeps I (registerAlias p MERCHANT_ALIAS_SERVICE j)"
    and store: "keeps I (saveMerchant m)"
begin

lemma approving_seller: "keeps I (approveVerification env geo i)"
proof -
  have saved: "keeps I (saveUser (u\<lparr>u_role := Seller\<rparr>))" for u by (rule save) (simp add: seller_good)
  have placed: "keeps I (placeStore geo m)" for m
    unfolding placeStore_def
    by (intro keeps_rules; auto intro!: keeps_rules aside [OF beside_geocode] split: GeocodeOutcome.split)
  have chosen: "keeps I (storeFor i v d)" for v d
    unfolding storeFor_def findMerchantByUserId_def uniqueSlug_def findBySlug_def by (intro keeps_rules)
  show ?thesis unfolding approveVerification_def finishApproval_def becomeSeller_def
    by (intro keeps_rules saved placed chosen resolve kind naming store keeps_findById aside [OF beside_applications(1)]
        aside [OF beside_applications(3)] aside [OF beside_saveVerification])
qed

lemma serving_seller_approval: "he_env (sv_http sv) = env \<Longrightarrow> keeps I (serve sv (ToSellers ApproveVerification) request)"
  by (rule serving_with) (simp add: keeps_rules approving_seller)

end

section \<open>The predicates that survive\<close>

text \<open>The operations on sessions and principals touch neither accounts nor stores.\<close>

definition shops :: "UserRow list \<Rightarrow> MerchantRow list \<Rightarrow> world \<Rightarrow> bool" where
  "shops us ms w \<longleftrightarrow> users w = us \<and> merchants w = ms"

lemma shopsI:
  assumes "\<And>w r t. m w = (r, t) \<Longrightarrow> users t = users w \<and> merchants t = merchants w" shows "keeps (shops us ms) m"
proof (rule keepsI)
  fix w assume "shops us ms w"
  with assms [of w "fst (m w)" "snd (m w)"] show "shops us ms (snd (m w))" by (simp add: shops_def)
qed

lemma mintPair_shops: "mintPair env s p f c w = (r, t) \<Longrightarrow> users t = users w \<and> merchants t = merchants w"
  by (erule mintPair_cases) simp_all

lemma rotate_shops: "rotate env tok s c w = (r, t) \<Longrightarrow> users t = users w \<and> merchants t = merchants w"
  by (erule rotate_cases) (simp_all add: rotated_world_def revokeFamily_def revoke_where_def)

lemma shops_session:
  "keeps (shops us ms) (issuePair env s p c)" "keeps (shops us ms) (rotate env tok s c')"
  "keeps (shops us ms) (revokeFamily f m)" "keeps (shops us ms) (revokeAllFamiliesForPrincipal p m)"
  "keeps (shops us ms) (revokeOtherSessions p k m)"
  by (rule shopsI, auto simp: issuePair_def andThen_run revokeFamily_def revokeAllFamiliesForPrincipal_def revokeOtherSessions_def
      revoke_where_def dest: mintPair_shops rotate_shops split: option.splits)+

lemma shops_principals:
  "keeps (shops us ms) (syncKind p role)" "keeps (shops us ms) (resolveOrMintForUser env s)" "keeps (shops us ms) (registerAlias p x j)"
  by (rule shopsI, auto simp: syncKind_def dest: resolve_frame(1,2) registerAlias_frame(1,2))+

text \<open>A predicate of accounts and stores alone.\<close>

lemma keeps_from_shops:
  assumes "\<And>us ms. keeps (shops us ms) m" and "\<And>w t. users t = users w \<Longrightarrow> merchants t = merchants w \<Longrightarrow> I w \<Longrightarrow> I t"
  shows "keeps I m"
proof (rule keepsI)
  fix w assume I: "I w"
  have "shops (users w) (merchants w) (snd (m w))" by (rule keepsD [OF assms(1)]) (simp add: shops_def)
  with I assms(2) [of "snd (m w)" w] show "I (snd (m w))" by (simp add: shops_def)
qed

text \<open>The stores themselves: no request but an approval of a seller changes them.\<close>

interpretation stores: courier_frame env "\<lambda>w. merchants w = M" "\<lambda>_. True" for env M
proof
  show "keeps (\<lambda>w. merchants w = M) (saveUser u)" "keeps (\<lambda>w. merchants w = M) (acceptTwoFactorStep i n)" for u i n
    by (auto simp: keeps_def saveUser_stores acceptTwoFactorStep_def Let_def)
qed (auto simp: beside_def intro: keeps_from_shops [OF shops_session(1)] keeps_from_shops [OF shops_session(2)]
  keeps_from_shops [OF shops_session(3)] keeps_from_shops [OF shops_session(4)] keeps_from_shops [OF shops_session(5)]
  keeps_from_shops [OF shops_principals(1)] keeps_from_shops [OF shops_principals(2)])

text \<open>The roles of accounts: those in \<open>X\<close> may appear, any other was there before.\<close>

definition role_held :: "UserRole set \<Rightarrow> (nat \<times> UserRole) set \<Rightarrow> 'a UserEntity_scheme \<Rightarrow> bool" where
  "role_held X R u \<longleftrightarrow> u_role u \<in> X \<or> (u_id u, u_role u) \<in> R \<and> 0 < u_id u"

definition roles_within :: "UserRole set \<Rightarrow> (nat \<times> UserRole) set \<Rightarrow> world \<Rightarrow> bool" where
  "roles_within X R w \<longleftrightarrow> (\<forall>r \<in> set (users w). role_held X R r)"

lemma roles_shops: "users t = users w \<Longrightarrow> roles_within X R w \<Longrightarrow> roles_within X R t"
  by (simp add: roles_within_def)

lemma roles_save:
  assumes "role_held X R u" shows "keeps (roles_within X R) (saveUser u)"
proof (rule keepsI)
  fix w assume old: "roles_within X R w"
  have same: "role_held X R (overwrite_user u r)" if "u_id r = u_id u" for r
    using assms that by (simp add: role_held_def overwrite_user_def)
  obtain r t where run: "saveUser u w = (r, t)" by fastforce
  show "roles_within X R (snd (saveUser u w))"
  proof (cases r)
    case (Inl e)
    with run have "users t = users w" by (auto simp: saveUser_unfold split: option.splits if_splits)
    with old run show ?thesis by (simp add: roles_within_def)
  next
    case (Inr v)
    with run have "saveUser u w = (Inr v, t)" by simp
    then show ?thesis
    proof (cases rule: saveUser_cases)
      case (updated r)
      with old run same show ?thesis by (auto simp: roles_within_def set_update_where)
    next
      case (added i n)
      with old run assms show ?thesis by (auto simp: roles_within_def role_held_def UserEntity.defs)
    qed
  qed
qed

lemma roles_accept: "keeps (roles_within X R) (acceptTwoFactorStep i n)"
  by (rule keepsI) (auto simp: roles_within_def role_held_def acceptTwoFactorStep_def Let_def set_update_where)

lemma role_held_laws:
  "roles_within X R w \<Longrightarrow> user_row i w = Some r \<Longrightarrow> role_held X R (toUserEntity r)"
  "role_held X R u \<Longrightarrow> role_held X R (u\<lparr>u_isTwoFactorEnabled := b, u_twoFactorSecret := x\<rparr>)"
  "roles_within X R w \<Longrightarrow> beside w t \<Longrightarrow> roles_within X R t"
  by (auto simp: role_held_def roles_within_def beside_def dest: user_row_Some)

lemmas roles_elsewhere = keeps_from_shops [where I = "roles_within X R", OF _ roles_shops] for X R

lemma role_heldI: "u_role u \<in> X \<Longrightarrow> role_held X R u"
  by (simp add: role_held_def)

lemma roles_store: "keeps (roles_within X R) (saveMerchant m)"
  by (rule keepsI) (rule roles_shops, rule saveMerchant_frame(1) [OF prod.collapse [symmetric]])

lemma roles_frame: "Customer \<in> X \<Longrightarrow> account_frame env (roles_within X R) (role_held X R)"
  by unfold_locales
    ((erule (1) role_held_laws(3) | erule (1) role_held_laws(1) | erule role_held_laws(2) | erule roles_save | rule role_heldI, simp
      | rule roles_accept roles_elsewhere shops_session shops_principals | assumption)+)

interpretation roles: account_frame env "roles_within {Customer} R" "role_held {Customer} R" for env R
  by (rule roles_frame) simp

interpretation courier_roles: courier_frame env "roles_within {Customer, Courier} R" "role_held {Customer, Courier} R" for env R
  by (intro courier_frame.intro courier_frame_axioms.intro roles_frame role_heldI) simp_all

interpretation seller_roles: seller_frame env "roles_within {Customer, Seller} R" "role_held {Customer, Seller} R" for env R
  by (intro seller_frame.intro seller_frame_axioms.intro roles_frame role_heldI roles_store roles_elsewhere [OF shops_principals(3)]) simp_all

text \<open>The consistency of the account tables.\<close>

lemma account_state_beside: "account_state env w \<Longrightarrow> beside w t \<Longrightarrow> account_state env t"
  by (erule account_state_frame) (simp_all add: beside_def)

definition consistent :: "'tok Env \<Rightarrow> world \<Rightarrow> bool" where
  "consistent env w \<longleftrightarrow> inj (uuid env) \<and> account_state env w"

lemma consistent_beside: "consistent env w \<Longrightarrow> beside w t \<Longrightarrow> consistent env t"
  using account_state_beside by (auto simp: consistent_def)

lemma consistent_keeps: "(inj (uuid env) \<Longrightarrow> keeps (account_state env) m) \<Longrightarrow> keeps (consistent env) m"
  by (auto simp: keeps_def consistent_def)

lemma keeps_registerAlias: "keeps (account_state env) (registerAlias p MERCHANT_ALIAS_SERVICE j)"
proof (rule keepsI)
  fix w assume ok: "account_state env w"
  obtain r t where run: "registerAlias p MERCHANT_ALIAS_SERVICE j w = (r, t)" by fastforce
  have "refresh_tokens t = refresh_tokens w"
    using run by (auto simp: registerAlias_def insert_alias_def catches_run andThen_run split: option.splits if_splits)
  with registerAlias_frame [OF run] ok have "sessions_ok env t" "users_ok t"
    by (auto simp: account_state_def users_ok_def intro: sessions_ok_frame)
  moreover have "principals_ok env t"
    using ok registerAlias_ok [OF _ run, of env] by (simp add: account_state_def MERCHANT_ALIAS_SERVICE_def)
  ultimately show "account_state env (snd (registerAlias p MERCHANT_ALIAS_SERVICE j w))" by (simp add: run account_state_def)
qed

lemma keeps_saveMerchant: "keeps (account_state env) (saveMerchant m)"
proof (rule keepsI)
  fix w assume ok: "account_state env w"
  obtain r t where run: "saveMerchant m w = (r, t)" by fastforce
  have "refresh_tokens t = refresh_tokens w"
    using run by (auto simp: saveMerchant_def insert_merchant_def andThen_run catches_run Let_def split: prod.splits option.splits if_splits)
  with saveMerchant_frame [OF run] show "account_state env (snd (saveMerchant m w))"
    by (intro account_state_frame [OF ok]) (simp_all add: run)
qed

interpretation consistency: courier_frame env "consistent env" "\<lambda>_. True" for env
  by unfold_locales
    (erule (1) consistent_beside | rule TrueI | (rule consistent_keeps, intro account_keeps, assumption?))+

interpretation seller_consistency: seller_frame env "consistent env" "\<lambda>_. True" for env
  by unfold_locales (intro consistent_keeps keeps_registerAlias keeps_saveMerchant TrueI)+

end
