(* ===== verification/Access_Control.thy ===== *)
theory Access_Control
  imports Frames
begin

text \<open>
  What the routes of the service protect: who may call what, stated independently of the guards and
  decorators, and the proofs that the decorated routes enforce it, that what an admin does to accounts is
  recorded, and that stores change only by an admin's approval.
\<close>

section \<open>Who may do what\<close>

text \<open>
  What each call asks of its caller, independently of guards and decorators: nothing, a session, the
  account it names, that account or an admin, an admin.
\<close>

datatype access = Anyone | Caller | Owner | OwnerOrAdmin | AdminOnly

fun access_of :: "('tok, 'cred) HttpCall \<Rightarrow> access" where
  "access_of (ToAuth c) = (case c of
      Logout _ \<Rightarrow> Caller | Me \<Rightarrow> Caller
    | SetupTwoFactor _ \<Rightarrow> Owner | EnableTwoFactor _ _ \<Rightarrow> Owner | DisableTwoFactor _ _ \<Rightarrow> Owner | _ \<Rightarrow> Anyone)"
| "access_of (ToPasskeys c) = (case c of SignInOptions _ \<Rightarrow> Anyone | VerifySignIn _ _ \<Rightarrow> Anyone | _ \<Rightarrow> Owner)"
| "access_of (ToCouriers c) = (case c of RegisterCourier _ \<Rightarrow> Anyone | _ \<Rightarrow> AdminOnly)"
| "access_of (ToSellers c) = (case c of ReadSellerApplication \<Rightarrow> OwnerOrAdmin | OnboardSeller _ \<Rightarrow> OwnerOrAdmin | _ \<Rightarrow> AdminOnly)"
| "access_of (ToProfiles c) = OwnerOrAdmin"

text \<open>The calls that set up a second factor, which alone also take the token of an account that has to.\<close>

fun sets_up_factor :: "('tok, 'cred) HttpCall \<Rightarrow> bool" where
  "sets_up_factor (ToAuth c) = (case c of SetupTwoFactor _ \<Rightarrow> True | EnableTwoFactor _ _ \<Rightarrow> True | _ \<Rightarrow> False)"
| "sets_up_factor _ = False"

definition owns :: "Claims \<Rightarrow> HttpRequest \<Rightarrow> bool" where
  "owns c request \<longleftrightarrow> hq_params request ''id'' = Some (decimal (cl_uid c))"

definition entitled :: "('tok, 'cred) HttpCall \<Rightarrow> HttpRequest \<Rightarrow> Claims \<Rightarrow> bool" where
  "entitled action request c \<longleftrightarrow>
     (cl_token_use c = ''access'' \<or> cl_token_use c = ''mfa_enrolment'' \<and> sets_up_factor action)
     \<and> (case access_of action of
          Anyone \<Rightarrow> True
        | Caller \<Rightarrow> True
        | Owner \<Rightarrow> owns c request
        | OwnerOrAdmin \<Rightarrow> owns c request \<or> is_admin c
        | AdminOnly \<Rightarrow> is_admin c)"

definition authorised :: "('tok, 'cred, 'opt) Service \<Rightarrow> ('tok, 'cred) HttpCall \<Rightarrow> HttpRequest \<Rightarrow> world \<Rightarrow> bool" where
  "authorised sv action request w \<longleftrightarrow>
     (case caller_of (sv_http sv) request w of None \<Rightarrow> False | Some c \<Rightarrow> entitled action request c)"

lemmas route_simps = open_route_def caller_route_def OwnerParam_def SelfParam_def AdminAudit_def AcceptsEnrolment_def Roles_def

text \<open>What the decorators of a route have to say for what the call asks.\<close>

definition decorated_for :: "access \<Rightarrow> bool \<Rightarrow> RouteMeta \<Rightarrow> bool" where
  "decorated_for a enrolling route \<longleftrightarrow>
     (rm_public route \<longleftrightarrow> a = Anyone) \<and> (a \<noteq> Anyone \<longrightarrow> ClientProof \<notin> set (rm_guards route))
     \<and> (rm_acceptsEnrolment route \<longleftrightarrow> enrolling)
     \<and> (a = Owner \<or> a = OwnerOrAdmin \<longrightarrow> SelfOrStaff \<in> set (rm_guards route) \<and> rm_selfParam route = Some ''id''
          \<and> (rm_ownerOnly route \<longleftrightarrow> a = Owner) \<and> rm_roles route = [])
     \<and> (a = AdminOnly \<longrightarrow> RolesCheck \<in> set (rm_guards route) \<and> rm_roles route = [''admin''] \<and> rm_selfParam route = None)
     \<and> (a = OwnerOrAdmin \<or> a = AdminOnly \<longrightarrow> rm_audit route \<noteq> None)"

lemma decorated_controllers:
  "decorated_for (access_of (ToAuth a)) (sets_up_factor (ToAuth a)) (auth_route a)"
  "decorated_for (access_of (ToPasskeys p)) False (passkey_route p)"
  "decorated_for (access_of (ToCouriers c)) False (courier_route c)"
  "decorated_for (access_of (ToSellers s)) False (seller_route s)"
  "decorated_for (access_of (ToProfiles u)) False (profile_route u)"
  by ((cases a; simp add: decorated_for_def route_simps), (cases p; simp add: decorated_for_def route_simps),
      (cases c; simp add: decorated_for_def route_simps), (cases s; simp add: decorated_for_def route_simps),
      (cases u; simp add: decorated_for_def route_simps))

lemma decorated_route: "decorated_for (access_of action) (sets_up_factor action) (route_of action)"
  by (cases action) (simp_all only: route_of.simps sets_up_factor.simps(2-5) decorated_controllers)

lemma guards_entitle:
  assumes "list_all (passes he route (request\<lparr>hq_user := Some c\<rparr>) w) (rm_guards route)" and "decorated_for a enrolling route"
  shows "(a = Owner \<longrightarrow> owns c request) \<and> (a = OwnerOrAdmin \<longrightarrow> owns c request \<or> is_admin c) \<and> (a = AdminOnly \<longrightarrow> is_admin c)"
proof -
  have guard: "passes he route (request\<lparr>hq_user := Some c\<rparr>) w g" if "g \<in> set (rm_guards route)" for g
    using assms(1) that by (simp add: list_all_iff)
  have self: "owns c request \<or> is_admin c \<and> a \<noteq> Owner" if "a = Owner \<or> a = OwnerOrAdmin"
  proof -
    from assms(2) that have "rm_selfParam route = Some ''id''" "rm_ownerOnly route \<longleftrightarrow> a = Owner" "SelfOrStaff \<in> set (rm_guards route)"
      by (simp_all add: decorated_for_def)
    with guard [of SelfOrStaff] selfOrStaff_pass [of route "''id''" "request\<lparr>hq_user := Some c\<rparr>" c] show ?thesis
      by (auto simp: passes_def owns_def)
  qed
  have "is_admin c" if "a = AdminOnly"
  proof -
    from assms(2) that have "rm_roles route = [''admin'']" "RolesCheck \<in> set (rm_guards route)" by (simp_all add: decorated_for_def)
    with guard [of RolesCheck] roles_pass [of route "request\<lparr>hq_user := Some c\<rparr>" c] show ?thesis by (simp add: passes_def)
  qed
  with self show ?thesis by auto
qed

lemma audit_target_user [simp]: "audit_target point (request\<lparr>hq_user := u\<rparr>) = audit_target point request"
  by (simp add: audit_target_def split: option.split)

lemma admin_passes:
  assumes "is_admin c" and "decorated_for a enrolling route" and "a \<in> {OwnerOrAdmin, AdminOnly}"
  shows "selfOrStaffGuard route (request\<lparr>hq_user := Some c\<rparr>) = Inr () \<and> rolesGuard route (request\<lparr>hq_user := Some c\<rparr>) = Inr ()"
proof (cases "a = AdminOnly")
  case True
  with assms(2) have "rm_roles route = [''admin'']" "rm_selfParam route = None" by (simp_all add: decorated_for_def)
  with assms(1) roles_pass [of route "request\<lparr>hq_user := Some c\<rparr>" c] show ?thesis by (simp add: selfOrStaffGuard_def)
next
  case False
  with assms(2,3) have "rm_roles route = []" "rm_selfParam route = Some ''id''" "\<not> rm_ownerOnly route" by (simp_all add: decorated_for_def)
  with assms(1) selfOrStaff_pass [of route "''id''" "request\<lparr>hq_user := Some c\<rparr>" c] show ?thesis by (simp add: rolesGuard_def)
qed

lemma authorised_or_refused:
  assumes "access_of action \<noteq> Anyone"
  obtains (refused) e where "serve sv action request w = (Inl e, w)"
  | (served) c where "caller_of (sv_http sv) request w = Some c" and "entitled action request c"
      and "serve sv action request w = audited (route_of action) (request\<lparr>hq_user := Some c\<rparr>)
             (handler_of sv action (request\<lparr>hq_user := Some c\<rparr>)) w"
proof -
  let ?route = "route_of action"
  have route: "decorated_for (access_of action) (sets_up_factor action) ?route" by (rule decorated_route)
  with assms have closed: "\<not> rm_public ?route" "ClientProof \<notin> set (rm_guards ?route)" by (simp_all add: decorated_for_def)
  show thesis
  proof (rule admitted_quiet [OF closed, of "sv_http sv" request w])
    fix e
    assume "admitted_request (sv_http sv) ?route request w = (Inl e, w)"
    then show thesis by (intro refused [of e]) (simp add: serve_def andThen_run)
  next
    fix c
    assume c: "caller_of (sv_http sv) request w = Some c"
      and run: "admitted_request (sv_http sv) ?route request w = (Inr (request\<lparr>hq_user := Some c\<rparr>), w)"
      and use: "cl_token_use c = ''access'' \<or> cl_token_use c = ''mfa_enrolment'' \<and> rm_acceptsEnrolment ?route"
      and guards: "list_all (passes (sv_http sv) ?route (request\<lparr>hq_user := Some c\<rparr>) w) (rm_guards ?route)"
    from use route guards_entitle [OF guards route] have "entitled action request c"
      by (cases "access_of action") (auto simp: entitled_def decorated_for_def)
    with c run show thesis by (intro served [of c]) (simp_all add: serve_def andThen_run)
  qed
qed

text \<open>
  C3. A request that is not entitled changes nothing. A call that is not open to everyone, made without a
  bearer token that verifies, is not revoked and entitles its bearer (to the own account, to that or an
  admin's, to an admin's only), ends in an error and leaves the whole state as it was: accounts, sessions,
  applications, stores, sign-in attempts, outbound calls and records alike.
\<close>

theorem unauthorised_requests_change_nothing:
  assumes "access_of action \<noteq> Anyone" and "\<not> authorised sv action request w"
  shows "\<exists>e. serve sv action request w = (Inl e, w)"
proof (rule authorised_or_refused [OF assms(1), of sv request w])
  fix c
  assume "caller_of (sv_http sv) request w = Some c" and "entitled action request c"
  with assms(2) show ?thesis by (simp add: authorised_def)
qed blast

text \<open>
  C8. An admin never touches an application, a profile or a store unseen. When a call that an admin may
  make on another account, or that only an admin may make, is served for an admin, its effect is that of
  the handler, and exactly one record follows: who acted, which action, on which target, and whether it
  was done, refused or failed.
\<close>

theorem admin_access_is_recorded:
  assumes "access_of action \<in> {OwnerOrAdmin, AdminOnly}" and "caller_of (sv_http sv) request w = Some c" and "is_admin c"
    and "\<not> he_throttled (sv_http sv) (route_of action) (request\<lparr>hq_user := Some c\<rparr>) (clock w)"
    and "serve sv action request w = (r, t)"
  shows "\<exists>u point. handler_of sv action (request\<lparr>hq_user := Some c\<rparr>) w = (r, u) \<and> rm_audit (route_of action) = Some point
    \<and> t = u\<lparr>events := events u @ [AdminAction (ap_action point) (cl_sub c) (audit_target point request) (outcome_of r)
         (requestIdOf (hq_headers request))]\<rparr>"
proof -
  let ?route = "route_of action" and ?q = "request\<lparr>hq_user := Some c\<rparr>"
  have route: "decorated_for (access_of action) (sets_up_factor action) ?route" by (rule decorated_route)
  with assms(1) have closed: "\<not> rm_public ?route" "ClientProof \<notin> set (rm_guards ?route)" and audit: "rm_audit ?route \<noteq> None"
    by (auto simp: decorated_for_def)
  have "passes (sv_http sv) ?route ?q w g" if "g \<in> set (rm_guards ?route)" for g
    using admin_passes [OF assms(3) route assms(1), of request] assms(4) closed(2) that by (cases g) (auto simp: passes_def)
  then have "runGuards (sv_http sv) ?route (rm_guards ?route) ?q w = (Inr ?q, w)"
    using runGuards_quiet [OF closed(2), of "sv_http sv" ?route ?q w] by (auto simp: list_all_iff)
  moreover have "jwtAuthGuard (sv_http sv) ?route request w = (Inr ?q, w)"
    using jwtAuthGuard_caller [OF assms(2) closed(1)] assms(3) by (simp add: is_admin_def)
  ultimately have served: "serve sv action request w = audited ?route ?q (handler_of sv action ?q) w"
    by (simp add: serve_def admitted_request_def andThen_run)
  obtain point where point: "rm_audit ?route = Some point" using audit by blast
  obtain r' u where handled: "handler_of sv action ?q w = (r', u)" by fastforce
  from audited_run [of ?route point ?q c "handler_of sv action ?q" w r' u, OF point _ assms(3) handled] served assms(5) handled point show ?thesis
    by auto
qed

section \<open>Authority comes from admins\<close>

text \<open>The roles that the accounts of a state have.\<close>

definition roles_of :: "world \<Rightarrow> (nat \<times> UserRole) set" where
  "roles_of w = (\<lambda>r. (u_id r, u_role r)) ` set (users w)"

lemma roles_start: "users_ok w \<Longrightarrow> roles_within X (roles_of w) w"
  by (auto simp: users_ok_def roles_within_def role_held_def roles_of_def)

lemma admin_or_unchanged:
  assumes "access_of action = AdminOnly" and "serve sv action request w = (r, t)"
  obtains "t = w" | c where "caller_of (sv_http sv) request w = Some c" "is_admin c"
proof -
  from assms(1) have "access_of action \<noteq> Anyone" by simp
  then show ?thesis
    using assms that by (cases rule: authorised_or_refused [of action sv request w]) (auto simp: entitled_def)
qed

lemma gives_role_cases:
  assumes "gives_role action" obtains "action = ToCouriers ApproveCourier" | "action = ToSellers ApproveVerification"
  using assms by (cases action rule: gives_role.cases) auto

text \<open>
  C4. Roles come from admins. If a request leaves an account with a role other than customer that it did not
  have before, then an admin made it, and it was the approval of a courier, which gives the courier role, or
  of a seller, which gives the seller role. No request makes an admin.
\<close>

theorem roles_come_from_admins:
  assumes "users_ok w" and "serve sv action request w = (r, t)"
    and "q \<in> set (users t)" and "u_role q \<noteq> Customer" and "(u_id q, u_role q) \<notin> roles_of w"
  shows "\<exists>c. caller_of (sv_http sv) request w = Some c \<and> is_admin c \<and>
    (action = ToCouriers ApproveCourier \<and> u_role q = Courier \<or> action = ToSellers ApproveVerification \<and> u_role q = Seller)"
proof -
  have new: "t \<noteq> w" using assms(3,5) by (auto simp: roles_of_def)
  have held: "u_role q \<in> X" if "keeps (roles_within X (roles_of w)) (serve sv action request)" for X
    using keeps_run [OF that roles_start [OF assms(1)] assms(2)] assms(3,5) by (auto simp: roles_within_def role_held_def)
  have "gives_role action"
    using held [OF roles.serving [OF refl]] assms(4) by blast
  then show ?thesis
  proof (cases rule: gives_role_cases)
    case 1
    with held [of "{Customer, Courier}"] courier_roles.serving_courier_approval assms(4) have "u_role q = Courier" by blast
    with 1 new show ?thesis by (cases rule: admin_or_unchanged [OF _ assms(2)]) auto
  next
    case 2
    with held [of "{Customer, Seller}"] seller_roles.serving_seller_approval [OF refl] assms(4) have "u_role q = Seller" by blast
    with 2 new show ?thesis by (cases rule: admin_or_unchanged [OF _ assms(2)]) auto
  qed
qed

text \<open>
  C9. Stores change only when an admin approves a seller: a request that changes any row of the table of
  stores, whether it returns or fails, is the approval of a seller's application, made by an admin.
\<close>

theorem stores_change_by_admin_approval:
  assumes "serve sv action request w = (r, t)" and "merchants t \<noteq> merchants w"
  shows "\<exists>c. caller_of (sv_http sv) request w = Some c \<and> is_admin c \<and> action = ToSellers ApproveVerification"
proof -
  have changed: "\<not> keeps (\<lambda>u. merchants u = merchants w) (serve sv action request)"
    using keeps_run [of "\<lambda>u. merchants u = merchants w" "serve sv action request" w, OF _ refl assms(1)] assms(2) by blast
  have "gives_role action" using changed stores.serving [OF refl] by blast
  moreover have "action \<noteq> ToCouriers ApproveCourier" using changed stores.serving_courier_approval by blast
  ultimately have "action = ToSellers ApproveVerification" by (blast elim: gives_role_cases)
  with assms(2) show ?thesis by (cases rule: admin_or_unchanged [OF _ assms(1)]) auto
qed

section \<open>The service at work\<close>

text \<open>Requests of any kind, whatever their outcome, sweeps of expired records, and time passing between them.\<close>

inductive service_step :: "('tok, 'cred, 'opt) Service \<Rightarrow> world \<Rightarrow> world \<Rightarrow> bool" for sv :: "('tok, 'cred, 'opt) Service" where
  a_request: "serve sv action request w = (r, t) \<Longrightarrow> service_step sv w t"
| a_sweep: "sweep w = (r', t) \<Longrightarrow> service_step sv w t"
| a_pause: "0 \<le> ms \<Longrightarrow> service_step sv w (w\<lparr>clock := clock w + ms\<rparr>)"

lemma serve_consistent: "keeps (consistent (he_env (sv_http sv))) (serve sv action request)"
proof (cases "gives_role action")
  case True
  then show ?thesis
    by (cases rule: gives_role_cases)
      (simp_all add: consistency.serving_courier_approval seller_consistency.serving_seller_approval)
qed (rule consistency.serving [OF refl])

lemma service_step_consistent:
  assumes "service_step sv w t" and "consistent (he_env (sv_http sv)) w" shows "consistent (he_env (sv_http sv)) t"
  using assms
proof cases
  case a_request
  with assms(2) show ?thesis by (blast intro: keeps_run [OF serve_consistent])
next
  case a_sweep
  with assms(2) show ?thesis by (blast intro: keeps_run [OF consistency.sweeping])
next
  case a_pause
  with assms(2) show ?thesis by (simp add: consistent_def account_state_time)
qed

interpretation service: invariant_machine "\<lambda>w. w = empty_world" "service_step sv"
  "\<lambda>w. inj (uuid (he_env (sv_http sv))) \<longrightarrow> consistent (he_env (sv_http sv)) w" for sv
  by unfold_locales (use account_state_empty service_step_consistent in \<open>auto simp: consistent_def\<close>)

text \<open>
  C5. The account tables stay consistent. In every state the service reaches from an empty database, over any
  requests to any of its routes, sweeps and time: no two accounts share an id or an e-mail address, whatever
  its case; every name of a principal stands for a principal that exists, and two accounts never share one;
  every session belongs to an existing principal, and no session has two usable refresh tokens.
\<close>

theorem service_keeps_accounts_consistent:
  assumes "inj (uuid (he_env (sv_http sv)))" and "reaches (\<lambda>w. w = empty_world) (service_step sv) w"
  shows "distinct (map u_id (users w)) \<and> distinct (map (\<lambda>r. js_toLowerCase (u_email r)) (users w))
    \<and> (\<forall>a \<in> set (aliases w). al_principalId a \<in> pr_id ` set (principals w))
    \<and> (\<forall>i j p. look (''identity'', decimal i) w = Some p \<longrightarrow> look (''identity'', decimal j) w = Some p \<longrightarrow> i = j)
    \<and> (\<forall>r \<in> set (refresh_tokens w). rt_principalId r \<in> pr_id ` set (principals w))
    \<and> (\<forall>f. length (filter (\<lambda>r. live r \<and> rt_familyId r = f) (refresh_tokens w)) \<le> 1)"
proof -
  have "account_state (he_env (sv_http sv)) w" using service.inv_reaches [OF assms(2)] assms(1) by (simp add: consistent_def)
  note t = account_state_tables [OF this]
  show ?thesis by (intro conjI t(1-3,5) allI impI) (blast intro: t(4), rule t(6))
qed

section \<open>Sessions of admins\<close>

text \<open>The session a reply hands out, if it hands out one.\<close>

fun session_in :: "('tok, 'opt) Reply \<Rightarrow> 'tok AuthTokenOutput option" where
  "session_in (LoginReply (SignedIn out)) = Some out"
| "session_in (TokensReply out) = Some out"
| "session_in (CourierReply out) = Some (ro_session out)"
| "session_in _ = None"

lemma reply_with_Inr: "reply_with f m w = (Inr y, t) \<longleftrightarrow> (\<exists>x. m w = (Inr x, t) \<and> y = f x)"
  by (auto simp: reply_with_def andThen_Inr)

lemma for_account_Inr: "for_account caller body q f w = (Inr y, t) \<Longrightarrow> \<exists>c i. f c i w = (Inr y, t)"
  by (auto simp: for_account_def andThen_Inr)

text \<open>A reply that holds a session is the reply of one of these.\<close>

lemma handler_session:
  assumes "handler_of sv c q w = (Inr reply, t)" and "session_in reply = Some out"
  obtains (login) e p where "login (he_env (sv_http sv)) e p (callContextOf q) w = (Inr (SignedIn out), t)"
  | (code) tok code where "verifyTwoFactor (he_env (sv_http sv)) tok code (callContextOf q) w = (Inr out, t)"
  | (registered) e p where "register (he_env (sv_http sv)) e p (callContextOf q) w = (Inr out, t)"
  | (renewed) tok where "refresh (he_env (sv_http sv)) tok (callContextOf q) w = (Inr out, t)"
  | (passkey) tok cred where "verifySignIn (he_env (sv_http sv)) (sv_webauthn sv) tok cred (callContextOf q) w = (Inr out, t)"
  | (courier) dto r where "registerCourier (he_env (sv_http sv)) (sv_geo sv) (sv_fleet sv) dto (callContextOf q) w = (Inr r, t)" "out = ro_session r"
proof (cases c)
  case (ToAuth a)
  show thesis
  proof (cases a)
    case (Login e p)
    with ToAuth assms obtain o' where "login (he_env (sv_http sv)) e p (callContextOf q) w = (Inr o', t)" "reply = LoginReply o'"
      by (auto simp: andThen_Inr reply_with_Inr)
    with assms(2) show thesis by (cases o') (auto intro: login)
  qed (use ToAuth assms in \<open>auto simp: andThen_Inr reply_with_Inr dest!: for_account_Inr intro: code registered renewed\<close>)
next
  case (ToPasskeys a)
  with assms show thesis
    by (cases a) (auto simp: andThen_Inr reply_with_Inr dest!: for_account_Inr intro: passkey split: prod.splits)
next
  case (ToCouriers a)
  with assms show thesis by (cases a) (auto simp: andThen_Inr reply_with_Inr intro: courier)
next
  case (ToSellers a)
  with assms show thesis by (cases a) (auto simp: andThen_Inr reply_with_Inr)
next
  case (ToProfiles a)
  with assms show thesis by (cases a) (auto simp: andThen_Inr reply_with_Inr)
qed

lemma audited_Inr: "audited route q m w = (Inr y, t) \<Longrightarrow> \<exists>u. m w = (Inr y, u)"
  by (auto simp: audited_def catches_run andThen_run Let_def split: option.splits if_splits prod.splits sum.splits)

lemma registerCourier_role:
  assumes "registerCourier env geo fleet dto c w = (Inr r, t)"
  shows "at_role (ro_session r) \<noteq> Admin"
proof -
  from assms obtain session v where run: "sessionFor env dto c w = (Inr session, v)" and session: "session = ro_session r"
    by (auto simp: registerCourier_def elim!: andThen_InrE)
  from run consider (new) "register env (rc_email dto) (rc_password dto) c w = (Inr session, v)"
    | (known) u v' where "u_role u \<in> set ROLES_THAT_MAY_DRIVE" "startSession env u c v' = (Inr session, v)"
    unfolding sessionFor_def resume_def by (elim andThen_InrE) (auto elim!: andThen_InrE split: option.splits if_splits)
  then have "at_role session \<noteq> Admin"
  proof cases
    case new
    then show ?thesis by (simp add: register_Inr_role)
  next
    case known
    then show ?thesis by (elim startSession_Inr) (auto simp: ROLES_THAT_MAY_DRIVE_def)
  qed
  with session show ?thesis by simp
qed

lemma verifySignIn_second_factor:
  assumes "verifySignIn env wa tok cred c w = (Inr out, t)"
  shows "\<exists>r \<in> set (users w). u_id r = at_userId out \<and> u_isTwoFactorEnabled r"
proof -
  from assms obtain oc x v where oc: "openChallenge env tok w = (Inr oc, x)" and "startSession env (oc_user oc) c v = (Inr out, t)"
    unfolding verifySignIn_def Let_def refused_def
    by (elim andThen_InrE) (auto elim!: andThen_InrE split: option.splits PasskeyAssertionOutcome.splits if_splits)
  then have "at_userId out = u_id (oc_user oc)" by (elim startSession_Inr)
  moreover from openChallenge_Inr [OF oc] obtain r where "user_row (cl_uid (oc_claims oc)) w = Some r" "oc_user oc = toUserEntity r"
    "u_isTwoFactorEnabled r" by blast
  ultimately show ?thesis using user_row_Some [of "cl_uid (oc_claims oc)" w r] by (intro bexI [of _ r]) simp_all
qed

text \<open>
  C23. Every session of an admin account has its second factor. Whatever request is served, if the reply hands out
  a session (a password sign-in, a code or a passkey presented for a challenge, a registration, a courier's
  registration, a renewal: no other reply holds one) and the session is an admin's, then that account's second
  factor was on when the request came.
\<close>

theorem admin_session_has_second_factor:
  assumes "serve sv c request w = (Inr reply, t)" and "session_in reply = Some out" and "at_role out = Admin"
  shows "\<exists>r \<in> set (users w). u_id r = at_userId out \<and> u_isTwoFactorEnabled r"
proof -
  from assms(1) obtain q v where guards: "admitted_request (sv_http sv) (route_of c) request w = (Inr q, v)"
    and handled: "audited (route_of c) q (handler_of sv c q) v = (Inr reply, t)" unfolding serve_def by (elim andThen_InrE)
  from audited_Inr [OF handled] obtain u where run: "handler_of sv c q v = (Inr reply, u)" by blast
  have same: "users v = users w"
    using keeps_run [OF beside_admitted_request [of w] _ guards] by (simp add: beside_def)
  from run assms(2) have "\<exists>r \<in> set (users v). u_id r = at_userId out \<and> u_isTwoFactorEnabled r"
  proof (cases rule: handler_session)
    case (courier dto r)
    with assms(3) registerCourier_role [OF courier(1)] show ?thesis by simp
  next
    case (passkey tok cred)
    then show ?thesis by (rule verifySignIn_second_factor)
  next
    case (login e p)
    from second_factor_of_sessions [OF disjI1 [OF login] assms(3)] show ?thesis .
  next
    case (registered e p)
    from second_factor_of_sessions [OF disjI2 [OF disjI1 [OF registered]] assms(3)] show ?thesis .
  next
    case (code tok code)
    from second_factor_of_sessions [OF disjI2 [OF disjI2 [OF disjI1 [OF code]]] assms(3)] show ?thesis .
  next
    case (renewed tok)
    from second_factor_of_sessions [OF disjI2 [OF disjI2 [OF disjI2 [OF renewed]]] assms(3)] show ?thesis .
  qed
  then show ?thesis by (simp add: same)
qed

section \<open>Examples\<close>

text \<open>A customer and an admin with access tokens, and requests that carry them.\<close>

definition sample_boss :: Claims where
  "sample_boss = sample_self\<lparr>cl_role := Some ''admin'', cl_uid := 9, cl_sub := ''boss'', cl_jti := ''b''\<rparr>"

definition sample_customer :: Claims where
  "sample_customer = sample_self\<lparr>cl_role := Some ''customer''\<rparr>"

definition sample_http :: "(Claims \<times> KeyObject \<times> string) HttpEnv" where
  "sample_http = \<lparr>he_env = sample_env, he_token = (\<lambda>s. (if s = ''boss'' then sample_boss else sample_customer, ''K'', ''1'')),
     he_appCheck = silent_app_check, he_gate = sample_gate, he_throttled = (\<lambda>_ _ _. False), he_isUUID = (\<lambda>_. True)\<rparr>"

definition sample_service :: "(Claims \<times> KeyObject \<times> string, string, string) Service" where
  "sample_service = \<lparr>sv_http = sample_http, sv_webauthn = sample_webauthn, sv_geo = sample_geo, sv_fleet = working_fleet,
     sv_validate = (\<lambda>_. Inr ())\<rparr>"

definition sample_request :: "string \<Rightarrow> string \<Rightarrow> HttpRequest" where
  "sample_request token i = \<lparr>hq_headers = (\<lambda>h. if h = ''authorization'' then HeaderText (''Bearer '' @ token) else HeaderAbsent),
     hq_params = (\<lambda>p. if p = ''id'' then Some i else if p = ''principalId'' then Some ''p'' else None), hq_user = None, hq_client = None\<rparr>"

lemma sample_caller_resident: "caller_of (sv_http sample_service) (sample_request ''boss'' ''1'') sample_resident = Some sample_boss"
  by code_simp

theorem unauthorised_requests_change_nothing_witness:
  "\<exists>e. serve sample_service (ToSellers ApproveVerification) (sample_request ''me'' ''1'') (sample_applicant [])
     = (Inl e, sample_applicant [])"
proof (rule unauthorised_requests_change_nothing)
  show "access_of (ToSellers ApproveVerification :: (Claims \<times> KeyObject \<times> string, string) HttpCall) \<noteq> Anyone" by simp
  show "\<not> authorised sample_service (ToSellers ApproveVerification) (sample_request ''me'' ''1'') (sample_applicant [])" by code_simp
qed

theorem admin_access_is_recorded_witness:
  "\<exists>t e. snd (serve sample_service (ToProfiles GetProfile) (sample_request ''boss'' ''1'') sample_resident) = t
     \<and> events t = events sample_resident @ [e]"
proof -
  let ?run = "serve sample_service (ToProfiles GetProfile) (sample_request ''boss'' ''1'') sample_resident"
  have run: "?run = (fst ?run, snd ?run)" by simp
  have quiet: "\<not> he_throttled (sv_http sample_service) r q n" for r q n by (simp add: sample_service_def sample_http_def)
  have admin: "is_admin sample_boss" by code_simp
  have "access_of (ToProfiles GetProfile :: (Claims \<times> KeyObject \<times> string, string) HttpCall) \<in> {OwnerOrAdmin, AdminOnly}" by simp
  note recorded = admin_access_is_recorded [OF this sample_caller_resident admin quiet run]
  have id_read: "accountIdParam ''id'' ((sample_request ''boss'' ''1'')\<lparr>hq_user := Some sample_boss\<rparr>) = Inr 1"
    by (simp add: accountIdParam_def sample_request_def accountIdOf_def LARGEST_ACCOUNT_ID_def digits_value_def is_digit_def)
  have "snd (getProfile 1 sample_resident) = sample_resident"
    by (simp add: getProfile_def andThen_run findProfile_def split: option.split)
  then have "snd (handler_of sample_service (ToProfiles GetProfile)
      ((sample_request ''boss'' ''1'')\<lparr>hq_user := Some sample_boss\<rparr>) sample_resident) = sample_resident"
    by (auto simp: id_read reply_with_def andThen_run split: prod.split sum.split)
  with recorded show ?thesis by (elim exE conjE) simp
qed

text \<open>The bound on account ids as an integer, which the kernel evaluates.\<close>

lemma accountIdOf_code [code]:
  "accountIdOf raw =
     (case raw of
        None \<Rightarrow> Inl (BadRequestException ''An account id is a whole number from 1 to 2147483647'')
      | Some s \<Rightarrow>
          if \<not> (s \<noteq> [] \<and> hd s \<noteq> CHR ''0'' \<and> list_all is_digit s \<and> length s \<le> 10) \<or> (2147483647 :: int) < int (digits_value s)
          then Inl (BadRequestException ''An account id is a whole number from 1 to 2147483647'')
          else Inr (digits_value s))"
  by (auto simp: accountIdOf_def LARGEST_ACCOUNT_ID_def split: option.split)

lemma sample_promoted:
  "map u_role (users (snd (serve sample_service (ToCouriers ApproveCourier) (sample_request ''boss'' ''1'') sample_candidate))) = [Courier]"
  by code_simp

lemma sample_opened:
  "map m_userId (merchants (snd (serve sample_service (ToSellers ApproveVerification) (sample_request ''boss'' ''1'') (sample_applicant [])))) = [1]"
  by code_simp

theorem roles_come_from_admins_witness:
  "\<exists>c. caller_of (sv_http sample_service) (sample_request ''boss'' ''1'') sample_candidate = Some c \<and> is_admin c"
proof -
  let ?run = "serve sample_service (ToCouriers ApproveCourier) (sample_request ''boss'' ''1'') sample_candidate"
  have run: "?run = (fst ?run, snd ?run)" by simp
  obtain q where q: "q \<in> set (users (snd ?run))" "u_role q = Courier" using sample_promoted by auto
  have "(u_id q, Courier) \<notin> roles_of sample_candidate"
    by (simp add: roles_of_def sample_candidate_def sample_row_def sample_user_def UserEntity.defs UserRow.defs)
  with roles_come_from_admins [OF sample_candidate_facts(1) run q(1)] q(2) show ?thesis by auto
qed

theorem stores_change_by_admin_approval_witness:
  "\<exists>c. caller_of (sv_http sample_service) (sample_request ''boss'' ''1'') (sample_applicant []) = Some c \<and> is_admin c"
proof -
  let ?run = "serve sample_service (ToSellers ApproveVerification) (sample_request ''boss'' ''1'') (sample_applicant [])"
  have run: "?run = (fst ?run, snd ?run)" by simp
  have "merchants (snd ?run) \<noteq> merchants (sample_applicant [])" using sample_opened by (auto simp: sample_applicant_def)
  from stores_change_by_admin_approval [OF run this] show ?thesis by blast
qed

theorem service_keeps_accounts_consistent_witness:
  "distinct (map u_id (users (snd (serve sample_service (ToAuth (Register ''A@b.c'' ''secret'')) (sample_request ''me'' ''1'') empty_world))))"
proof -
  let ?run = "serve sample_service (ToAuth (Register ''A@b.c'' ''secret'')) (sample_request ''me'' ''1'') empty_world"
  have "service_step sample_service empty_world (snd ?run)" by (rule a_request [of _ _ _ _ "fst ?run"]) simp
  then have "reaches (\<lambda>w. w = empty_world) (service_step sample_service) (snd ?run)"
    by (rule by_step [OF at_start [of "\<lambda>w. w = empty_world" empty_world, OF refl]])
  moreover have "inj (uuid (he_env (sv_http sample_service)))" by (simp add: sample_service_def sample_http_def)
  ultimately show ?thesis using service_keeps_accounts_consistent by blast
qed

lemma sample_admin_signs_in:
  "map_option (\<lambda>out. (at_role out, at_userId out))
     (case fst (serve sample_service (ToPasskeys (VerifySignIn sample_challenge ''cred'')) (sample_request ''me'' ''1'') sample_keyed) of
        Inr reply \<Rightarrow> session_in reply | Inl _ \<Rightarrow> None) = Some (Admin, 1)"
  by code_simp

theorem admin_session_has_second_factor_witness:
  "\<exists>r \<in> set (users sample_keyed). u_id r = 1 \<and> u_isTwoFactorEnabled r"
proof -
  let ?run = "serve sample_service (ToPasskeys (VerifySignIn sample_challenge ''cred'')) (sample_request ''me'' ''1'') sample_keyed"
  obtain reply out where "fst ?run = Inr reply" and out: "session_in reply = Some out" "at_role out = Admin" "at_userId out = 1"
    using sample_admin_signs_in by (auto split: sum.splits)
  then have "?run = (Inr reply, snd ?run)" by (simp add: prod_eq_iff)
  from admin_session_has_second_factor [OF this out(1,2)] out(3) show ?thesis by simp
qed

end
