(* ===== verification/Operators.thy ===== *)
theory Operators
  imports Seller_Onboarding
begin

text \<open>
  The programs operators run against the database of the service: \<^verbatim>\<open>bootstrap-admin.ts\<close>, which makes the
  first admin, and the scripts \<^verbatim>\<open>promote_account.ts\<close>, \<^verbatim>\<open>purge_anonymous_rows.ts\<close> and
  \<^verbatim>\<open>backfill_principal_aliases.ts\<close>. The environment of the process and the databases of the other services
  are arguments; so are the creation times of stores and profiles, a column that no other operation reads.
  What a script prints is left out.
\<close>

section \<open>Reaching a database\<close>

type_synonym settings = "string \<Rightarrow> string option"

text \<open>A setting that is there and not the empty text, as JavaScript's \<^verbatim>\<open>||\<close> and \<^verbatim>\<open>if (x)\<close> read it.\<close>

definition truthy :: "string option \<Rightarrow> string option" where
  "truthy v = (case v of None \<Rightarrow> None | Some s \<Rightarrow> if s = [] then None else Some s)"

definition nullish :: "string option \<Rightarrow> string \<Rightarrow> string" where
  "nullish v other = (case v of None \<Rightarrow> other | Some s \<Rightarrow> s)"

definition postgres_url :: "string \<Rightarrow> string \<Rightarrow> string \<Rightarrow> string \<Rightarrow> string" where
  "postgres_url user password host database =
     ''postgres://'' @ user @ '':'' @ encodeURIComponent password @ ''@'' @ host @ '':5432/'' @ database"

definition dsn :: "settings \<Rightarrow> failure + string" where
  "dsn env =
     (case truthy (env ''IDENTITY_DATABASE_URL'') of
        Some explicit \<Rightarrow> Inr explicit
      | None \<Rightarrow>
          (case truthy (case env ''IDENTITY_DB_PASSWORD'' of None \<Rightarrow> env ''DB_PASSWORD'' | Some p \<Rightarrow> Some p) of
             None \<Rightarrow> Inl (PlainError ''IDENTITY_DATABASE_URL or IDENTITY_DB_PASSWORD must be set'')
           | Some password \<Rightarrow>
               Inr (postgres_url (nullish (env ''IDENTITY_DB_USERNAME'') (nullish (env ''DB_USERNAME'') ''kinetix_identity_app''))
                 password (nullish (env ''IDENTITY_DB_HOST'') (nullish (env ''DB_HOST'') ''kinetix-identity-db''))
                 (nullish (env ''IDENTITY_DB_DATABASE'') (nullish (env ''DB_DATABASE'') ''kinetix_identity_dev'')))))"

definition service_dsn :: "settings \<Rightarrow> string \<Rightarrow> failure + string" where
  "service_dsn env service =
     (let name = js_toUpperCase service in
      case truthy (env (name @ ''_DATABASE_URL'')) of
        Some explicit \<Rightarrow> Inr explicit
      | None \<Rightarrow>
          (case truthy (env (name @ ''_DB_PASSWORD'')) of
             None \<Rightarrow> Inl (PlainError (name @ ''_DATABASE_URL or '' @ name @ ''_DB_PASSWORD must be set''))
           | Some password \<Rightarrow>
               Inr (postgres_url (nullish (env (name @ ''_DB_USERNAME'')) (''kinetix_'' @ service @ ''_app''))
                 password (nullish (env (name @ ''_DB_HOST'')) (''kinetix-'' @ service @ ''-db''))
                 (''kinetix_'' @ service @ ''_dev''))))"

section \<open>The first admin\<close>

definition bootstrapAdmin :: "'tok Env \<Rightarrow> settings \<Rightarrow> UserRow option act" where
  "bootstrapAdmin env read =
     (case (truthy (read ''KINETIX_BOOTSTRAP_ADMIN_EMAIL''), truthy (read ''KINETIX_BOOTSTRAP_ADMIN_PASSWORD'')) of
        (Some configuredEmail, Some password) \<Rightarrow>
          (let email = normalisedEmail configuredEmail in
           if length password < 12 then throws (PlainError ''the bootstrap admin password must be at least 12 characters'')
           else
             andThen (reads (\<lambda>w. affected (\<lambda>r. u_role r = Admin) (users w)))
             (\<lambda>existingAdmins. if existingAdmins > 0 then returns None
              else
                andThen (reads (\<lambda>w. find (\<lambda>r. js_toLowerCase (u_email r) = js_toLowerCase email) (users w)))
                (\<lambda>taken. if taken \<noteq> None then throws (PlainError ''choose an address that is not in use'')
                 else
                   andThen (reads draws)
                   (\<lambda>d. andThen (writes (\<lambda>w. w\<lparr>draws := Suc d\<rparr>))
                   (\<lambda>_. andThen (users_upsert None \<lparr>u_id = 0, u_email = email, u_passwordHash = bcrypt_hash env d password 10,
                          u_role = Admin, u_isTwoFactorEnabled = False, u_twoFactorSecret = None\<rparr>)
                   (\<lambda>created. returns (Some created)))))))
      | _ \<Rightarrow> throws (PlainError ''KINETIX_BOOTSTRAP_ADMIN_EMAIL and KINETIX_BOOTSTRAP_ADMIN_PASSWORD are both required and have no defaults''))"

section \<open>Giving an account a role\<close>

datatype PromoteOutcome = PromoteUsage | PromoteUnknownRole | PromoteNoAccount | PromoteDryRun | Promoted

definition ROLES :: "UserRole list" where
  "ROLES = [Customer, Seller, Courier, Admin]"

definition role_named :: "string \<Rightarrow> UserRole option" where
  "role_named text = find (\<lambda>r. role_text r = text) ROLES"

definition set_role :: "nat \<Rightarrow> UserRole \<Rightarrow> unit act" where
  "set_role i role = writes (\<lambda>w. w\<lparr>users := update_where (\<lambda>r. u_id r = i) (\<lambda>r. r\<lparr>u_role := role\<rparr>) (users w)\<rparr>)"

definition kind_of_account :: "nat \<Rightarrow> UserRole \<Rightarrow> unit act" where
  "kind_of_account i role =
     andThen (reads (alias_of ''identity'' (decimal i)))
     (\<lambda>alias_row. case alias_row of None \<Rightarrow> returns () | Some a \<Rightarrow> syncKind (al_principalId a) role)"

definition promoteAccount :: "settings \<Rightarrow> string option \<Rightarrow> string option \<Rightarrow> bool \<Rightarrow> PromoteOutcome act" where
  "promoteAccount env email_arg role_arg apply_arg =
     (case (truthy email_arg, truthy role_arg) of
        (Some email, Some text) \<Rightarrow>
          (case role_named text of
             None \<Rightarrow> returns PromoteUnknownRole
           | Some role \<Rightarrow>
               andThen (lifted (dsn env))
               (\<lambda>_. andThen (reads (\<lambda>w. find (\<lambda>r. js_toLowerCase (u_email r) = js_toLowerCase email) (users w)))
               (\<lambda>found. case found of
                  None \<Rightarrow> returns PromoteNoAccount
                | Some account \<Rightarrow>
                    if \<not> apply_arg then returns PromoteDryRun
                    else
                      andThen (atomically (andThen (set_role (u_id account) role) (\<lambda>_. kind_of_account (u_id account) role)))
                      (\<lambda>_. andThen (reads (user_row (u_id account)))
                      (\<lambda>after_row. if map_option u_role after_row \<noteq> Some role
                         then throws (PlainError ''the role is unchanged after the update'') else returns Promoted)))))
      | _ \<Rightarrow> returns PromoteUsage)"

section \<open>Purging rows from before the guards\<close>

record CreatedAt =
  store_created :: "nat \<Rightarrow> int"
  profile_created :: "nat \<Rightarrow> int"

datatype PurgeOutcome = PurgeUsage | NothingToPurge | PurgeDryRun | Purged nat nat nat

definition old_store :: "CreatedAt \<Rightarrow> int \<Rightarrow> MerchantRow \<Rightarrow> bool" where
  "old_store created before m \<longleftrightarrow> store_created created (m_id m) < before"

definition old_profile :: "CreatedAt \<Rightarrow> int \<Rightarrow> ProfileEntity \<Rightarrow> bool" where
  "old_profile created before p \<longleftrightarrow> profile_created created (pf_id p) < before"

definition old_verification :: "int \<Rightarrow> MerchantVerificationEntity \<Rightarrow> bool" where
  "old_verification before v \<longleftrightarrow> (case mv_verifiedAt v of None \<Rightarrow> False | Some t \<Rightarrow> t < before)"

definition unname_store :: "nat \<Rightarrow> unit act" where
  "unname_store i = writes (\<lambda>w. w\<lparr>aliases := delete_where (\<lambda>a. al_service a = ''identity-merchant'' \<and> al_localId a = decimal i) (aliases w)\<rparr>)"

definition demote_seller :: "nat \<Rightarrow> unit act" where
  "demote_seller i = writes (\<lambda>w. w\<lparr>users := update_where (\<lambda>r. u_id r = i \<and> u_role r = Seller) (\<lambda>r. r\<lparr>u_role := Customer\<rparr>) (users w)\<rparr>)"

fun demote_owners :: "MerchantRow list \<Rightarrow> unit act" where
  "demote_owners [] = returns ()"
| "demote_owners (m # ms) =
     andThen (unname_store (m_id m))
     (\<lambda>_. andThen (demote_seller (m_userId m))
     (\<lambda>_. andThen (kind_of_account (m_userId m) Customer) (\<lambda>_. demote_owners ms)))"

definition delete_old :: "CreatedAt \<Rightarrow> int \<Rightarrow> unit act" where
  "delete_old created before =
     writes (\<lambda>w. w\<lparr>merchants := delete_where (old_store created before) (merchants w),
       merchant_verifications := delete_where (old_verification before) (merchant_verifications w),
       profiles := delete_where (old_profile created before) (profiles w)\<rparr>)"

definition purgeAnonymousRows :: "settings \<Rightarrow> CreatedAt \<Rightarrow> int option \<Rightarrow> bool \<Rightarrow> PurgeOutcome act" where
  "purgeAnonymousRows env created before_arg apply_arg =
     (case before_arg of
        None \<Rightarrow> returns PurgeUsage
      | Some before \<Rightarrow>
          andThen (lifted (dsn env))
          (\<lambda>_. andThen (reads (\<lambda>w. (sort_key m_id (filter (old_store created before) (merchants w)),
                 affected (old_verification before) (merchant_verifications w), affected (old_profile created before) (profiles w))))
          (\<lambda>(stores, verifications, held).
             if length stores + verifications + held = 0 then returns NothingToPurge
             else if \<not> apply_arg then returns PurgeDryRun
             else
               andThen (atomically (andThen (demote_owners stores) (\<lambda>_. delete_old created before)))
               (\<lambda>_. andThen (reads (\<lambda>w. affected (old_store created before) (merchants w) + affected (old_profile created before) (profiles w)))
               (\<lambda>left. if left \<noteq> 0 then throws (PlainError ''untrusted rows survived the purge'')
                  else returns (Purged (length stores) verifications held))))))"

section \<open>Naming the accounts of other services\<close>

record BackfillSource =
  bs_service :: string
  bs_table :: string
  bs_column :: string
  bs_kind :: PrincipalKind

record BackfillOrphan = BackfillSource +
  bo_localId :: string

record BackfillKindMismatch = BackfillSource +
  bm_localId :: string
  bm_actual :: PrincipalKind

definition from_source :: "string \<Rightarrow> string \<Rightarrow> string \<Rightarrow> PrincipalKind \<Rightarrow> BackfillSource" where
  "from_source service table column kind = \<lparr>bs_service = service, bs_table = table, bs_column = column, bs_kind = kind\<rparr>"

definition SOURCES :: "BackfillSource list" where
  "SOURCES =
     [from_source ''order'' ''orders'' ''customer_id'' PRINCIPAL_KIND_CUSTOMER,
      from_source ''catalog'' ''products'' ''merchant_id'' PRINCIPAL_KIND_MERCHANT,
      from_source ''matching'' ''orders'' ''merchant_id'' PRINCIPAL_KIND_MERCHANT,
      from_source ''matching'' ''orders'' ''driver_id'' PRINCIPAL_KIND_DRIVER,
      from_source ''matching'' ''location_pings'' ''driver_id'' PRINCIPAL_KIND_DRIVER,
      from_source ''payment'' ''escrow_holds'' ''customer_id'' PRINCIPAL_KIND_CUSTOMER,
      from_source ''payment'' ''escrow_holds'' ''merchant_id'' PRINCIPAL_KIND_MERCHANT,
      from_source ''payment'' ''escrow_holds'' ''driver_id'' PRINCIPAL_KIND_DRIVER,
      from_source ''payment'' ''customer_wallets'' ''customer_id'' PRINCIPAL_KIND_CUSTOMER,
      from_source ''payment'' ''merchant_wallets'' ''merchant_id'' PRINCIPAL_KIND_MERCHANT,
      from_source ''payment'' ''driver_wallets'' ''driver_id'' PRINCIPAL_KIND_DRIVER,
      from_source ''payment'' ''payment_transactions'' ''user_id'' PRINCIPAL_KIND_CUSTOMER,
      from_source ''review'' ''product_reviews'' ''customer_id'' PRINCIPAL_KIND_CUSTOMER,
      from_source ''review'' ''product_reviews'' ''merchant_id'' PRINCIPAL_KIND_MERCHANT,
      from_source ''review'' ''driver_ratings'' ''customer_id'' PRINCIPAL_KIND_CUSTOMER,
      from_source ''review'' ''driver_ratings'' ''driver_id'' PRINCIPAL_KIND_DRIVER]"

text \<open>The databases of the other services: whether an address answers, and the values of a column, if it can be read.\<close>

record OtherDatabases =
  db_reachable :: "string \<Rightarrow> bool"
  db_values :: "string \<Rightarrow> BackfillSource \<Rightarrow> string list option"

record BackfillReport =
  br_minted :: nat
  br_linked :: nat
  br_orphans :: "BackfillOrphan list"
  br_mismatches :: "BackfillKindMismatch list"

definition insert_alias_if_free :: "string \<Rightarrow> string \<Rightarrow> string \<Rightarrow> unit act" where
  "insert_alias_if_free principalId service localId =
     andThen (reads (alias_of service localId))
     (\<lambda>taken. if taken \<noteq> None then returns () else insert_alias principalId service localId)"

fun mint_missing :: "'tok Env \<Rightarrow> bool \<Rightarrow> UserRow list \<Rightarrow> nat act" where
  "mint_missing env apply_arg [] = returns 0"
| "mint_missing env apply_arg (user # rest) =
     andThen (reads (alias_of ''identity'' (decimal (u_id user))))
     (\<lambda>existing. if existing \<noteq> None then mint_missing env apply_arg rest
      else
        andThen
          (if \<not> apply_arg then returns ()
           else
             andThen (insert_principal env (principalKindForRole (u_role user)) (u_email user))
             (\<lambda>created. insert_alias_if_free created ''identity'' (decimal (u_id user))))
        (\<lambda>_. andThen (mint_missing env apply_arg rest) (\<lambda>n. returns (Suc n))))"

definition byLocalId :: "bool \<Rightarrow> UserRow list \<Rightarrow> world \<Rightarrow> string \<rightharpoonup> string" where
  "byLocalId apply_arg us w =
     (let named = map_of (rev (map (\<lambda>a. (al_localId a, al_principalId a)) (filter (\<lambda>a. al_service a = ''identity'') (aliases w))))
      in (\<lambda>i. case named i of
            Some p \<Rightarrow> Some p
          | None \<Rightarrow> if \<not> apply_arg \<and> i \<in> (\<lambda>u. decimal (u_id u)) ` set us then Some ''(would be minted)'' else None))"

definition kindByLocalId :: "bool \<Rightarrow> UserRow list \<Rightarrow> world \<Rightarrow> string \<rightharpoonup> PrincipalKind" where
  "kindByLocalId apply_arg us w =
     (let joined_rows = concat (map (\<lambda>a. map (\<lambda>p. (al_localId a, pr_kind p)) (filter (\<lambda>p. pr_id p = al_principalId a) (principals w)))
            (filter (\<lambda>a. al_service a = ''identity'') (aliases w)));
          minted = (if apply_arg then [] else map (\<lambda>u. (decimal (u_id u), principalKindForRole (u_role u))) us)
      in map_of (rev joined_rows @ minted))"

definition link_value :: "bool \<Rightarrow> (string \<rightharpoonup> string) \<Rightarrow> (string \<rightharpoonup> PrincipalKind) \<Rightarrow> BackfillSource \<Rightarrow> string \<Rightarrow> BackfillReport \<Rightarrow> BackfillReport act" where
  "link_value apply_arg names kinds source localId report =
     (case truthy (names localId) of
        None \<Rightarrow> returns (report\<lparr>br_orphans := br_orphans report @ [BackfillSource.extend source (BackfillOrphan.fields localId)]\<rparr>)
      | Some principalId \<Rightarrow>
          (let mismatch_rows = (case kinds localId of
                 None \<Rightarrow> []
               | Some actual \<Rightarrow>
                   if bs_kind source \<noteq> PRINCIPAL_KIND_DRIVER \<and> actual \<noteq> bs_kind source
                   then [BackfillSource.extend source (BackfillKindMismatch.fields localId actual)] else [])
           in andThen (if apply_arg then insert_alias_if_free principalId (bs_service source) localId else returns ())
              (\<lambda>_. returns (report\<lparr>br_mismatches := br_mismatches report @ mismatch_rows, br_linked := Suc (br_linked report)\<rparr>))))"

fun link_values :: "bool \<Rightarrow> (string \<rightharpoonup> string) \<Rightarrow> (string \<rightharpoonup> PrincipalKind) \<Rightarrow> BackfillSource \<Rightarrow> string list \<Rightarrow> BackfillReport \<Rightarrow> BackfillReport act" where
  "link_values apply_arg names kinds source [] report = returns report"
| "link_values apply_arg names kinds source (v # vs) report =
     andThen (link_value apply_arg names kinds source v report) (link_values apply_arg names kinds source vs)"

fun link_sources ::
    "bool \<Rightarrow> (string \<rightharpoonup> string) \<Rightarrow> (string \<rightharpoonup> PrincipalKind) \<Rightarrow> (BackfillSource \<Rightarrow> string list option) \<Rightarrow> BackfillSource list
      \<Rightarrow> BackfillReport \<Rightarrow> BackfillReport act" where
  "link_sources apply_arg names kinds values [] report = returns report"
| "link_sources apply_arg names kinds values (source # rest) report =
     andThen
       (case values source of
          None \<Rightarrow> returns report
        | Some vs \<Rightarrow> link_values apply_arg names kinds source vs report)
       (link_sources apply_arg names kinds values rest)"

fun link_services ::
    "settings \<Rightarrow> OtherDatabases \<Rightarrow> bool \<Rightarrow> (string \<rightharpoonup> string) \<Rightarrow> (string \<rightharpoonup> PrincipalKind) \<Rightarrow> string list
      \<Rightarrow> BackfillReport \<Rightarrow> BackfillReport act" where
  "link_services read other apply_arg names kinds [] report = returns report"
| "link_services read other apply_arg names kinds (service # rest) report =
     andThen (lifted (service_dsn read service))
     (\<lambda>url. andThen
        (if \<not> db_reachable other url then returns report
         else link_sources apply_arg names kinds (db_values other url) (filter (\<lambda>s. bs_service s = service) SOURCES) report)
        (link_services read other apply_arg names kinds rest))"

definition services :: "string list" where
  "services = rev (remdups (rev (map bs_service SOURCES)))"

definition backfillPrincipalAliases :: "'tok Env \<Rightarrow> settings \<Rightarrow> OtherDatabases \<Rightarrow> bool \<Rightarrow> BackfillReport act" where
  "backfillPrincipalAliases env read other apply_arg =
     andThen (lifted (service_dsn read ''identity''))
     (\<lambda>_. andThen (reads (\<lambda>w. sort_key u_id (users w)))
     (\<lambda>us. andThen (mint_missing env apply_arg us)
     (\<lambda>minted. andThen (reads (byLocalId apply_arg us))
     (\<lambda>names. andThen (reads (kindByLocalId apply_arg us))
     (\<lambda>kinds. link_services read other apply_arg names kinds services
        \<lparr>br_minted = minted, br_linked = 0, br_orphans = [], br_mismatches = []\<rparr>)))))"

section \<open>Reports write nothing\<close>

lemma keeps_minting_report: "keeps I (mint_missing env False us)"
proof (induction us)
  case (Cons u us)
  then show ?case unfolding mint_missing.simps by (intro keeps_rules) simp_all
qed (unfold mint_missing.simps, rule keeps_returns)

lemma keeps_value_report: "keeps I (link_value False names kinds source v report)"
  unfolding link_value_def by (intro keeps_rules) simp_all

lemma keeps_values_report: "keeps I (link_values False names kinds source vs report)"
proof (induction vs arbitrary: report)
  case (Cons v vs)
  then show ?case unfolding link_values.simps by (intro keeps_rules keeps_value_report)
qed (unfold link_values.simps, rule keeps_returns)

lemma keeps_sources_report: "keeps I (link_sources False names kinds values ss report)"
proof (induction ss arbitrary: report)
  case (Cons v vs)
  then show ?case unfolding link_sources.simps by (intro keeps_rules keeps_values_report)
qed (unfold link_sources.simps, rule keeps_returns)

lemma keeps_services_report: "keeps I (link_services read other False names kinds xs report)"
proof (induction xs arbitrary: report)
  case (Cons v vs)
  then show ?case unfolding link_services.simps by (intro keeps_rules keeps_sources_report)
qed (unfold link_services.simps, rule keeps_returns)

lemma backfill_report: "snd (backfillPrincipalAliases env read other False w) = w"
proof -
  have "keeps (\<lambda>t. t = w) (backfillPrincipalAliases env read other False)"
    unfolding backfillPrincipalAliases_def by (intro keeps_rules keeps_minting_report keeps_services_report)
  then show ?thesis by (simp add: keeps_def)
qed

text \<open>
  Without \<^verbatim>\<open>--apply\<close> the three scripts only report: whatever their arguments and whatever the databases
  hold, they leave the state exactly as it was.
\<close>

theorem reports_write_nothing:
  "snd (promoteAccount read email role False w) = w \<and> snd (purgeAnonymousRows read created before False w) = w
   \<and> snd (backfillPrincipalAliases env read other False w) = w"
proof -
  have "keeps (\<lambda>t. t = w) (promoteAccount read email role False)"
    unfolding promoteAccount_def by (intro keeps_rules) simp_all
  moreover have "keeps (\<lambda>t. t = w) (purgeAnonymousRows read created before False)"
    unfolding purgeAnonymousRows_def by (intro keeps_rules) simp_all
  ultimately show ?thesis by (simp add: keeps_def backfill_report)
qed

section \<open>What the backfill leaves\<close>

definition linked :: "'tok Env \<Rightarrow> world \<Rightarrow> world \<Rightarrow> bool" where
  "linked env w t \<longleftrightarrow> principals_ok env t \<and> principals t = principals w \<and> users t = users w
     \<and> (\<exists>new. aliases t = aliases w @ new \<and> (\<forall>a \<in> set new. al_service a \<noteq> ''identity''))"

lemma linked_refl: "principals_ok env w \<Longrightarrow> linked env w w"
  by (simp add: linked_def)

lemma linked_trans: "linked env u w \<Longrightarrow> linked env w t \<Longrightarrow> linked env u t"
  by (auto simp: linked_def)

lemma linked_look: "linked env w t \<Longrightarrow> look k w = Some p \<Longrightarrow> look k t = Some p"
  by (rule look_grows) (auto simp: linked_def grows_def)

lemma linked_names: "linked env w t \<Longrightarrow> byLocalId True us t = byLocalId True us w"
  by (auto simp: linked_def byLocalId_def Let_def filter_empty_conv fun_eq_iff split: option.split)

lemma insert_alias_if_free_run:
  assumes "principals_ok env w" and "p \<in> pr_id ` set (principals w)" and "s \<noteq> ''identity''"
  shows "\<exists>t. insert_alias_if_free p s l w = (Inr (), t) \<and> linked env w t \<and> look (s, l) t \<noteq> None"
proof (cases "alias_of s l w")
  case None
  let ?t = "w\<lparr>aliases := aliases w @ [\<lparr>al_principalId = p, al_service = s, al_localId = l\<rparr>]\<rparr>"
  have run: "insert_alias_if_free p s l w = (Inr (), ?t)"
    using None assms(2) by (auto simp: insert_alias_if_free_def insert_alias_def)
  then have "registerAlias p s l w = (Inr (), ?t)"
    using None assms(2) by (auto simp: registerAlias_def insert_alias_def catches_run)
  from registerAlias_ok [OF assms(1) this assms(3)] run None assms(3) show ?thesis
    by (auto simp: linked_def look_def alias_of_def find_append)
next
  case (Some a)
  with assms(1) show ?thesis by (auto simp: insert_alias_if_free_def look_def linked_refl)
qed

text \<open>A principal for every account: the one it had, or a new one of the kind of its role.\<close>

definition accounted :: "world \<Rightarrow> world \<Rightarrow> UserRow \<Rightarrow> bool" where
  "accounted w t u \<longleftrightarrow>
     (case look (''identity'', decimal (u_id u)) w of
        Some p \<Rightarrow> look (''identity'', decimal (u_id u)) t = Some p
      | None \<Rightarrow> \<exists>q \<in> set (principals t). look (''identity'', decimal (u_id u)) t = Some (pr_id q)
          \<and> pr_kind q = principalKindForRole (u_role u))"

definition extended :: "'tok Env \<Rightarrow> world \<Rightarrow> world \<Rightarrow> bool" where
  "extended env w t \<longleftrightarrow> principals_ok env t \<and> users t = users w \<and> grows w t \<and> (\<exists>ps. principals t = principals w @ ps)"

lemma extended_trans: "extended env u w \<Longrightarrow> extended env w t \<Longrightarrow> extended env u t"
  by (auto simp: extended_def grows_def)

lemma linked_extended: "linked env w t \<Longrightarrow> extended env w t"
  by (auto simp: linked_def extended_def grows_def)

lemma extended_accounted: "accounted u w r \<Longrightarrow> extended env w t \<Longrightarrow> accounted u t r"
  by (auto simp: accounted_def extended_def dest: look_grows split: option.splits)

lemma mint_one:
  assumes "alias_of ''identity'' (decimal i) w = None" and "inj (uuid env)" and "principals_ok env w"
  shows "\<exists>t q. andThen (insert_principal env k d) (\<lambda>created. insert_alias_if_free created ''identity'' (decimal i)) w = (Inr (), t)
    \<and> extended env w t \<and> q \<in> set (principals t) \<and> look (''identity'', decimal i) t = Some (pr_id q) \<and> pr_kind q = k
    \<and> (\<forall>j. j \<noteq> i \<longrightarrow> look (''identity'', decimal j) t = look (''identity'', decimal j) w)"
proof -
  let ?q = "\<lparr>pr_id = uuid env (draws w), pr_kind = k, pr_displayName = Some d\<rparr>"
  let ?t = "w\<lparr>draws := Suc (draws w), principals := principals w @ [?q],
    aliases := aliases w @ [\<lparr>al_principalId = uuid env (draws w), al_service = ''identity'', al_localId = decimal i\<rparr>]\<rparr>"
  have "andThen (insert_principal env k d) (\<lambda>created. insert_alias_if_free created ''identity'' (decimal i)) w = (Inr (), ?t)"
    using assms fresh_principal [OF assms(2,3)]
    by (simp add: andThen_run insert_principal_def insert_alias_if_free_def insert_alias_def)
  moreover have "extended env w ?t" using principals_ok_mint [OF assms(3,2,1), of k "Some d"] by (simp add: extended_def grows_def)
  moreover have "look (''identity'', decimal i) ?t = Some (pr_id ?q)" using assms(1) by (simp add: look_def alias_of_def find_append)
  moreover have "look (''identity'', decimal j) ?t = look (''identity'', decimal j) w" if "j \<noteq> i" for j
    using that by (auto simp: look_def alias_of_def find_append dest: decimal_inj split: option.split)
  ultimately show ?thesis by (intro exI [of _ ?t] exI [of _ ?q]) simp
qed

lemma mint_missing_run:
  assumes "inj (uuid env)" and "principals_ok env w" and "distinct (map u_id us)"
  shows "\<exists>n t. mint_missing env True us w = (Inr n, t) \<and> extended env w t \<and> (\<forall>u \<in> set us. accounted w t u)"
  using assms(2,3)
proof (induction us arbitrary: w)
  case Nil
  then show ?case by (simp add: extended_def)
next
  case (Cons u us)
  show ?case
  proof (cases "alias_of ''identity'' (decimal (u_id u)) w")
    case (Some a)
    obtain n t where "mint_missing env True us w = (Inr n, t)" "extended env w t" "\<forall>u \<in> set us. accounted w t u"
      using Cons.IH [of w] Cons.prems by auto
    moreover from this(2) Some have "accounted w t u" by (auto simp: accounted_def look_def extended_def grows_def alias_of_def find_append)
    ultimately show ?thesis using Some by simp
  next
    case None
    obtain x q where x: "andThen (insert_principal env (principalKindForRole (u_role u)) (u_email u))
          (\<lambda>created. insert_alias_if_free created ''identity'' (decimal (u_id u))) w = (Inr (), x)" "extended env w x"
        "q \<in> set (principals x)" "look (''identity'', decimal (u_id u)) x = Some (pr_id q)" "pr_kind q = principalKindForRole (u_role u)"
        "\<forall>j. j \<noteq> u_id u \<longrightarrow> look (''identity'', decimal j) x = look (''identity'', decimal j) w"
      using mint_one [OF None assms(1) Cons.prems(1)] by blast
    have "principals_ok env x" using x(2) by (simp add: extended_def)
    then obtain n t where t: "mint_missing env True us x = (Inr n, t)" "extended env x t" "\<forall>u \<in> set us. accounted x t u"
      using Cons.IH [of x] Cons.prems by auto
    have "accounted w t v" if v: "v \<in> set us" for v
    proof -
      have "u_id v \<noteq> u_id u" using v Cons.prems(2) by (metis distinct.simps(2) image_eqI list.simps(9) set_map)
      with x(6) have "look (''identity'', decimal (u_id v)) x = look (''identity'', decimal (u_id v)) w" by blast
      moreover from v t(3) have "accounted x t v" by blast
      ultimately show ?thesis by (simp add: accounted_def)
    qed
    moreover have "accounted w t u"
      using x(3-5) None t(2) extended_accounted [of w x u env t] by (auto simp: accounted_def look_def)
    ultimately show ?thesis using None x(1) t extended_trans [OF x(2) t(2)] by (simp add: andThen_run)
  qed
qed

text \<open>A value of a column has its name in the directory once the backfill has seen it, if an account has that id.\<close>

definition covered :: "(string \<rightharpoonup> string) \<Rightarrow> world \<Rightarrow> string \<Rightarrow> string \<Rightarrow> bool" where
  "covered names t s v \<longleftrightarrow> (truthy (names v) \<noteq> None \<longrightarrow> look (s, v) t \<noteq> None)"

definition names_known :: "(string \<rightharpoonup> string) \<Rightarrow> world \<Rightarrow> bool" where
  "names_known names w \<longleftrightarrow> (\<forall>v p. truthy (names v) = Some p \<longrightarrow> p \<in> pr_id ` set (principals w))"

lemma covered_linked: "covered names w s v \<Longrightarrow> linked env w t \<Longrightarrow> covered names t s v"
  using linked_look [of env w t "(s, v)"] by (auto simp: covered_def)

lemma names_known_linked: "names_known names w \<Longrightarrow> linked env w t \<Longrightarrow> names_known names t"
  by (simp add: names_known_def linked_def)

lemma linked_ok: "linked env w t \<Longrightarrow> principals_ok env t"
  by (simp add: linked_def)

lemma link_value_run:
  assumes "principals_ok env w" and "names_known names w" and "bs_service source \<noteq> ''identity''"
  shows "\<exists>r t. link_value True names kinds source v report w = (Inr r, t) \<and> linked env w t \<and> covered names t (bs_service source) v"
proof (cases "truthy (names v)")
  case None
  with assms(1) show ?thesis by (auto simp: link_value_def covered_def linked_refl)
next
  case (Some p)
  with assms(2) have "p \<in> pr_id ` set (principals w)" by (auto simp: names_known_def)
  from insert_alias_if_free_run [OF assms(1) this assms(3), of v] Some show ?thesis
    by (auto simp: link_value_def Let_def andThen_run covered_def)
qed

lemma link_values_run:
  assumes "principals_ok env w" and "names_known names w" and "bs_service source \<noteq> ''identity''"
  shows "\<exists>r t. link_values True names kinds source vs report w = (Inr r, t) \<and> linked env w t
    \<and> (\<forall>v \<in> set vs. covered names t (bs_service source) v)"
  using assms(1,2)
proof (induction vs arbitrary: w report)
  case (Cons v vs)
  obtain r x where x: "link_value True names kinds source v report w = (Inr r, x)" "linked env w x" "covered names x (bs_service source) v"
    using link_value_run [OF Cons.prems assms(3)] by blast
  obtain s t where "link_values True names kinds source vs r x = (Inr s, t)" "linked env x t" "\<forall>v \<in> set vs. covered names t (bs_service source) v"
    using Cons.IH [OF linked_ok [OF x(2)] names_known_linked [OF Cons.prems(2) x(2)]] by blast
  with x covered_linked [OF x(3)] linked_trans [OF x(2)] show ?case by (auto simp: andThen_run)
qed (simp add: linked_refl)

definition sources_covered :: "(string \<rightharpoonup> string) \<Rightarrow> (BackfillSource \<Rightarrow> string list option) \<Rightarrow> BackfillSource list \<Rightarrow> world \<Rightarrow> bool" where
  "sources_covered names values ss t \<longleftrightarrow>
     (\<forall>source \<in> set ss. \<forall>vs. values source = Some vs \<longrightarrow> (\<forall>v \<in> set vs. covered names t (bs_service source) v))"

lemma sources_covered_linked: "sources_covered names values ss w \<Longrightarrow> linked env w t \<Longrightarrow> sources_covered names values ss t"
  using covered_linked by (fastforce simp: sources_covered_def)

lemma link_sources_run:
  assumes "principals_ok env w" and "names_known names w" and "\<forall>source \<in> set ss. bs_service source \<noteq> ''identity''"
  shows "\<exists>r t. link_sources True names kinds values ss report w = (Inr r, t) \<and> linked env w t \<and> sources_covered names values ss t"
  using assms
proof (induction ss arbitrary: w report)
  case (Cons source ss)
  have "\<exists>r x. (case values source of None \<Rightarrow> returns report | Some vs \<Rightarrow> link_values True names kinds source vs report) w = (Inr r, x)
      \<and> linked env w x \<and> sources_covered names values [source] x"
    using link_values_run [OF Cons.prems(1,2), of source kinds] Cons.prems(3) linked_refl [OF Cons.prems(1)]
    by (cases "values source") (auto simp: sources_covered_def)
  then obtain r x where x: "(case values source of None \<Rightarrow> returns report | Some vs \<Rightarrow> link_values True names kinds source vs report) w = (Inr r, x)"
    "linked env w x" "sources_covered names values [source] x" by blast
  obtain s t where t: "link_sources True names kinds values ss r x = (Inr s, t)" "linked env x t" "sources_covered names values ss t"
    using Cons.IH [OF linked_ok [OF x(2)] names_known_linked [OF Cons.prems(2) x(2)], of r] Cons.prems(3) by auto
  have "sources_covered names values (source # ss) t"
    using t(3) sources_covered_linked [OF x(3) t(2)] by (auto simp: sources_covered_def)
  then show ?case using t x(1) linked_trans [OF x(2) t(2)] by (simp add: andThen_run)
qed (auto simp: linked_refl sources_covered_def)

definition services_covered :: "settings \<Rightarrow> OtherDatabases \<Rightarrow> (string \<rightharpoonup> string) \<Rightarrow> string list \<Rightarrow> world \<Rightarrow> bool" where
  "services_covered read other names xs t \<longleftrightarrow>
     (\<forall>s \<in> set xs. \<forall>url. service_dsn read s = Inr url \<longrightarrow> db_reachable other url \<longrightarrow>
        sources_covered names (db_values other url) (filter (\<lambda>q. bs_service q = s) SOURCES) t)"

lemma sources_elsewhere: "\<forall>source \<in> set SOURCES. bs_service source \<noteq> ''identity''"
  by (simp add: SOURCES_def from_source_def)

lemma link_services_run:
  assumes "principals_ok env w" and "names_known names w" and "\<forall>s \<in> set xs. \<exists>url. service_dsn read s = Inr url"
  shows "\<exists>r t. link_services read other True names kinds xs report w = (Inr r, t) \<and> linked env w t
    \<and> services_covered read other names xs t"
  using assms
proof (induction xs arbitrary: w report)
  case (Cons s xs)
  from Cons.prems(3) obtain url where url: "service_dsn read s = Inr url" by auto
  let ?ss = "filter (\<lambda>q. bs_service q = s) SOURCES"
  have "\<exists>r x. (if \<not> db_reachable other url then returns report else link_sources True names kinds (db_values other url) ?ss report) w = (Inr r, x)
      \<and> linked env w x \<and> services_covered read other names [s] x"
  proof (cases "db_reachable other url")
    case True
    have "\<forall>source \<in> set ?ss. bs_service source \<noteq> ''identity''" using sources_elsewhere by auto
    from link_sources_run [OF Cons.prems(1,2) this, of kinds "db_values other url" report] True url show ?thesis
      by (simp add: services_covered_def)
  next
    case False
    with url linked_refl [OF Cons.prems(1)] show ?thesis by (auto simp: services_covered_def)
  qed
  then obtain r x where x: "(if \<not> db_reachable other url then returns report
        else link_sources True names kinds (db_values other url) ?ss report) w = (Inr r, x)"
    "linked env w x" "services_covered read other names [s] x" by blast
  obtain r' t where t: "link_services read other True names kinds xs r x = (Inr r', t)" "linked env x t" "services_covered read other names xs t"
    using Cons.IH [OF linked_ok [OF x(2)] names_known_linked [OF Cons.prems(2) x(2)], of r] Cons.prems(3) by auto
  have "services_covered read other names (s # xs) t"
    using t(3) x(3) sources_covered_linked [OF _ t(2)] by (auto simp: services_covered_def)
  then show ?case using t x(1) url linked_trans [OF x(2) t(2)] by (simp add: andThen_run)
qed (auto simp: linked_refl services_covered_def)

text \<open>Where every value has its name already, linking writes nothing and counts no mint.\<close>

lemma link_value_again:
  "covered names w (bs_service source) v \<Longrightarrow>
   \<exists>r. link_value True names kinds source v report w = (Inr r, w) \<and> br_minted r = br_minted report"
  by (auto simp: link_value_def covered_def insert_alias_if_free_def look_def Let_def andThen_run split: option.split)

lemma link_values_again:
  "\<forall>v \<in> set vs. covered names w (bs_service source) v \<Longrightarrow>
   \<exists>r. link_values True names kinds source vs report w = (Inr r, w) \<and> br_minted r = br_minted report"
proof (induction vs arbitrary: report)
  case (Cons v vs)
  then obtain r where r: "link_value True names kinds source v report w = (Inr r, w)" "br_minted r = br_minted report"
    using link_value_again [of names w source v kinds report] by auto
  with Cons.IH [of r] Cons.prems show ?case by (auto simp: andThen_run)
qed simp

lemma link_sources_again:
  "sources_covered names values ss w \<Longrightarrow>
   \<exists>r. link_sources True names kinds values ss report w = (Inr r, w) \<and> br_minted r = br_minted report"
proof (induction ss arbitrary: report)
  case (Cons q ss)
  have rest: "sources_covered names values ss w" using Cons.prems by (simp add: sources_covered_def)
  show ?case
  proof (cases "values q")
    case None
    with Cons.IH [OF rest, of report] show ?thesis by (simp add: andThen_run)
  next
    case (Some vs)
    with Cons.prems have "\<forall>v \<in> set vs. covered names w (bs_service q) v" by (simp add: sources_covered_def)
    from link_values_again [OF this, of kinds report] obtain r
      where "link_values True names kinds q vs report w = (Inr r, w)" "br_minted r = br_minted report" by blast
    with Some Cons.IH [OF rest, of r] show ?thesis by (auto simp: andThen_run)
  qed
qed simp

lemma link_services_again:
  "services_covered read other names xs w \<Longrightarrow> \<forall>s \<in> set xs. \<exists>url. service_dsn read s = Inr url \<Longrightarrow>
   \<exists>r. link_services read other True names kinds xs report w = (Inr r, w) \<and> br_minted r = br_minted report"
proof (induction xs arbitrary: report)
  case (Cons s xs)
  then obtain url where url: "service_dsn read s = Inr url" by auto
  have rest: "services_covered read other names xs w" "\<forall>s \<in> set xs. \<exists>url. service_dsn read s = Inr url"
    using Cons.prems by (simp_all add: services_covered_def)
  show ?case
  proof (cases "db_reachable other url")
    case False
    with url Cons.IH [OF rest, of report] show ?thesis by (simp add: andThen_run)
  next
    case True
    with Cons.prems url have "sources_covered names (db_values other url) (filter (\<lambda>q. bs_service q = s) SOURCES) w"
      by (simp add: services_covered_def)
    from link_sources_again [OF this, of kinds report] obtain r
      where "link_sources True names kinds (db_values other url) (filter (\<lambda>q. bs_service q = s) SOURCES) report w = (Inr r, w)"
        "br_minted r = br_minted report" by blast
    with True url Cons.IH [OF rest, of r] show ?thesis by (auto simp: andThen_run)
  qed
qed simp

lemma mint_missing_again: "\<forall>u \<in> set us. look (''identity'', decimal (u_id u)) w \<noteq> None \<Longrightarrow> mint_missing env True us w = (Inr 0, w)"
  by (induction us) (auto simp: look_def)

lemma accounted_named: "accounted w t u \<Longrightarrow> look (''identity'', decimal (u_id u)) t \<noteq> None"
  by (auto simp: accounted_def split: option.splits)

lemma byLocalId_known:
  assumes "principals_ok env w" shows "names_known (byLocalId True us w) w"
proof -
  have "p \<in> pr_id ` set (principals w)" if "byLocalId True us w v = Some p" for v p
    using that assms by (auto simp: byLocalId_def principals_ok_def split: option.splits dest!: map_of_SomeD)
  then show ?thesis by (auto simp: names_known_def truthy_def split: option.splits if_splits)
qed

text \<open>
  C34. The backfill names every account. With \<^verbatim>\<open>--apply\<close> and the addresses of its own and of all the other
  services' databases configured, whichever of them answer and whatever they hold, it returns; every account then
  has a principal, the one it had or a new one of the kind of its role; no account and no name that existed has
  changed; and a second run mints nothing and writes nothing. Without \<^verbatim>\<open>--apply\<close> it writes nothing at all.
\<close>

theorem backfill_names_every_account:
  assumes "inj (uuid env)" and "users_ok w" and "principals_ok env w"
    and "\<forall>s \<in> set (''identity'' # services). \<exists>url. service_dsn read s = Inr url"
  shows "\<exists>report t. backfillPrincipalAliases env read other True w = (Inr report, t)
    \<and> principals_ok env t \<and> users t = users w \<and> (\<forall>k p. look k w = Some p \<longrightarrow> look k t = Some p)
    \<and> (\<forall>u \<in> set (users w). accounted w t u)
    \<and> (\<exists>again. backfillPrincipalAliases env read other True t = (Inr again, t) \<and> br_minted again = 0)
    \<and> snd (backfillPrincipalAliases env read other False w) = w"
proof -
  let ?us = "sort_key u_id (users w)"
  from assms(4) obtain url where url: "service_dsn read ''identity'' = Inr url"
    and configured: "\<forall>s \<in> set services. \<exists>url. service_dsn read s = Inr url" by auto
  have "distinct (map u_id (users w))" using assms(2) by (simp add: users_ok_def)
  then have "distinct (map u_id ?us)" by (simp add: distinct_map)
  then obtain n x where x: "mint_missing env True ?us w = (Inr n, x)" "extended env w x" "\<forall>u \<in> set ?us. accounted w x u"
    using mint_missing_run [OF assms(1,3)] by blast
  have ok: "principals_ok env x" using x(2) by (simp add: extended_def)
  let ?names = "byLocalId True ?us x"
  let ?start = "\<lparr>br_minted = n, br_linked = 0, br_orphans = [], br_mismatches = []\<rparr>"
  obtain r t where t: "link_services read other True ?names (kindByLocalId True ?us x) services ?start x = (Inr r, t)"
    "linked env x t" "services_covered read other ?names services t"
    using link_services_run [OF ok byLocalId_known [OF ok] configured] by blast
  have ext: "extended env w t" using x(2) linked_extended [OF t(2)] by (rule extended_trans)
  have all: "\<forall>u \<in> set (users w). accounted w t u" using x(3) linked_extended [OF t(2)] by (auto intro: extended_accounted)
  have run: "backfillPrincipalAliases env read other True w = (Inr r, t)"
    using url x(1) t(1) by (simp add: backfillPrincipalAliases_def andThen_run)
  have us: "users t = users w" using ext by (simp add: extended_def)
  have "mint_missing env True ?us t = (Inr 0, t)" using all accounted_named by (intro mint_missing_again) auto
  moreover have "byLocalId True ?us t = ?names" by (rule linked_names [OF t(2)])
  ultimately have "\<exists>again. backfillPrincipalAliases env read other True t = (Inr again, t) \<and> br_minted again = 0"
    using link_services_again [OF t(3) configured, of "kindByLocalId True ?us t" "\<lparr>br_minted = 0, br_linked = 0, br_orphans = [], br_mismatches = []\<rparr>"]
      url by (auto simp: backfillPrincipalAliases_def andThen_run us)
  then show ?thesis using run ext all us look_grows [of w t] backfill_report unfolding extended_def by blast
qed

section \<open>What the other programs leave\<close>

text \<open>
  The first admin, and no other. A run of the bootstrap either leaves every account as it was, or there was no
  admin and it adds one account: an admin under an address no account has, with its second factor off. It
  never changes an account that exists.
\<close>

theorem bootstrap_makes_the_first_admin:
  assumes "bootstrapAdmin env read w = (r, t)"
  shows "users t = users w \<and> (\<forall>a. r \<noteq> Inr (Some a))
    \<or> (\<exists>a. r = Inr (Some a) \<and> users t = users w @ [a] \<and> u_role a = Admin \<and> \<not> u_isTwoFactorEnabled a
        \<and> (\<forall>u \<in> set (users w). u_role u \<noteq> Admin \<and> js_toLowerCase (u_email u) \<noteq> js_toLowerCase (u_email a)))"
  using assms
  by (auto simp: bootstrapAdmin_def andThen_run users_upsert_def Let_def affected_def filter_empty_conv find_None_iff
      UserEntity.defs UserRow.defs split: option.splits if_splits)

definition demoted :: "nat set \<Rightarrow> UserRow \<Rightarrow> UserRow" where
  "demoted owners r = (if u_role r = Seller \<and> u_id r \<in> owners then r\<lparr>u_role := Customer\<rparr> else r)"

definition customers :: "string set \<Rightarrow> PrincipalRow \<Rightarrow> PrincipalRow" where
  "customers ps q = (if pr_id q \<in> ps then q\<lparr>pr_kind := PRINCIPAL_KIND_CUSTOMER\<rparr> else q)"

definition principals_of :: "nat set \<Rightarrow> world \<Rightarrow> string set" where
  "principals_of owners w = {p. \<exists>i \<in> owners. look (''identity'', decimal i) w = Some p}"

lemma find_delete_where_disjoint: "(\<And>x. P x \<Longrightarrow> \<not> Q x) \<Longrightarrow> find P (delete_where Q rows) = find P rows"
  by (induction rows) auto

lemma demote_one:
  "\<exists>t. andThen (unname_store j) (\<lambda>_. andThen (demote_seller i) (\<lambda>_. kind_of_account i Customer)) w = (Inr (), t)
    \<and> users t = map (demoted {i}) (users w) \<and> principals t = map (customers (principals_of {i} w)) (principals w)
    \<and> (\<forall>k. look (''identity'', k) t = look (''identity'', k) w) \<and> merchants t = merchants w \<and> profiles t = profiles w
    \<and> merchant_verifications t = merchant_verifications w"
proof -
  let ?x = "snd (demote_seller i (snd (unname_store j w)))"
  have found: "alias_of ''identity'' k ?x = alias_of ''identity'' k w" for k
    by (auto simp: alias_of_def unname_store_def demote_seller_def intro!: find_delete_where_disjoint)
  have us: "users ?x = map (demoted {i}) (users w)"
    by (auto simp: unname_store_def demote_seller_def update_where_def demoted_def)
  have ps: "update_where (\<lambda>p. pr_id p = al_principalId a) (\<lambda>p. p\<lparr>pr_kind := principalKindForRole Customer\<rparr>) (principals w)
      = map (customers (principals_of {i} w)) (principals w)" if "alias_of ''identity'' (decimal i) w = Some a" for a
    using that by (auto simp: update_where_def customers_def principals_of_def look_def)
  have none: "map (customers (principals_of {i} w)) (principals w) = principals w" if "alias_of ''identity'' (decimal i) w = None"
    using that by (auto simp: customers_def principals_of_def look_def intro: map_idI)
  show ?thesis
    using found us ps none
    by (cases "alias_of ''identity'' (decimal i) w")
      (auto simp: andThen_run kind_of_account_def look_def unname_store_def demote_seller_def syncKind_def alias_of_def)
qed


definition after_demotion :: "nat set \<Rightarrow> world \<Rightarrow> world \<Rightarrow> bool" where
  "after_demotion owners w t \<longleftrightarrow> users t = map (demoted owners) (users w)
     \<and> principals t = map (customers (principals_of owners w)) (principals w)
     \<and> (\<forall>k. look (''identity'', k) t = look (''identity'', k) w) \<and> merchants t = merchants w \<and> profiles t = profiles w
     \<and> merchant_verifications t = merchant_verifications w"

lemma after_demotion_step:
  assumes "after_demotion {i} w x" and "after_demotion owners x t" shows "after_demotion (insert i owners) w t"
proof -
  have "principals_of owners x = principals_of owners w" using assms(1) by (auto simp: after_demotion_def principals_of_def)
  moreover have "principals_of (insert i owners) w = principals_of {i} w \<union> principals_of owners w" by (auto simp: principals_of_def)
  moreover have "demoted owners (demoted {i} r) = demoted (insert i owners) r" for r by (auto simp: demoted_def)
  moreover have "customers P (customers Q q) = customers (Q \<union> P) q" for P Q q by (auto simp: customers_def)
  ultimately show ?thesis using assms by (auto simp: after_demotion_def)
qed

lemma demote_owners_run: "\<exists>t. demote_owners ms w = (Inr (), t) \<and> after_demotion (m_userId ` set ms) w t"
proof (induction ms arbitrary: w)
  case Nil
  have "demoted {} = id" "customers (principals_of {} w) = id" by (auto simp: demoted_def customers_def principals_of_def)
  then show ?case by (simp add: after_demotion_def)
next
  case (Cons m ms)
  obtain x where x: "andThen (unname_store (m_id m)) (\<lambda>_. andThen (demote_seller (m_userId m)) (\<lambda>_. kind_of_account (m_userId m) Customer)) w = (Inr (), x)"
    "after_demotion {m_userId m} w x"
    using demote_one [of "m_id m" "m_userId m" w] by (auto simp: after_demotion_def)
  obtain t where "demote_owners ms x = (Inr (), t)" "after_demotion (m_userId ` set ms) x t" using Cons.IH by blast
  with x after_demotion_step [OF x(2)] show ?case by (auto simp: andThen_run split: prod.splits sum.splits)
qed

text \<open>
  What a purge leaves. When it has purged, exactly the stores, profiles and verified applications from before
  the instant are gone; the owners of those stores who were sellers are customers, and no other account has
  changed. The principal of every owner, whatever the role it keeps, is a customer's.
\<close>

theorem purge_outcome:
  assumes "purgeAnonymousRows read created (Some before) True w = (Inr (Purged a b c), t)"
  shows "merchants t = filter (\<lambda>m. \<not> old_store created before m) (merchants w)
    \<and> profiles t = filter (\<lambda>p. \<not> old_profile created before p) (profiles w)
    \<and> merchant_verifications t = filter (\<lambda>v. \<not> old_verification before v) (merchant_verifications w)
    \<and> users t = map (demoted (m_userId ` {m \<in> set (merchants w). old_store created before m})) (users w)
    \<and> principals t = map (customers (principals_of (m_userId ` {m \<in> set (merchants w). old_store created before m}) w)) (principals w)"
proof -
  let ?ms = "sort_key m_id (filter (old_store created before) (merchants w))"
  obtain x where x: "demote_owners ?ms w = (Inr (), x)" "after_demotion (m_userId ` set ?ms) w x" using demote_owners_run by blast
  let ?t = "x\<lparr>merchants := delete_where (old_store created before) (merchants x),
       merchant_verifications := delete_where (old_verification before) (merchant_verifications x),
       profiles := delete_where (old_profile created before) (profiles x)\<rparr>"
  have "atomically (andThen (demote_owners ?ms) (\<lambda>_. delete_old created before)) w = (Inr (), ?t)"
    using x(1) by (simp add: atomically_run andThen_run delete_old_def)
  with assms have "t = ?t" by (auto simp: purgeAnonymousRows_def andThen_run split: sum.splits if_splits)
  with x(2) show ?thesis by (simp add: after_demotion_def delete_where_def)
qed

text \<open>
  Giving an account a role by hand. For a known role and an account with that address, however it is spelt, the
  script succeeds: that account has the role, its principal, if it has one, the kind of the role, and no other
  account has changed.
\<close>

theorem promote_outcome:
  assumes "users_ok w" and "dsn read = Inr url" and "email \<noteq> []" and "role_named text = Some role"
    and "find (\<lambda>r. js_toLowerCase (u_email r) = js_toLowerCase email) (users w) = Some u"
  shows "\<exists>t. promoteAccount read (Some email) (Some text) True w = (Inr Promoted, t)
    \<and> users t = update_where (\<lambda>r. u_id r = u_id u) (\<lambda>r. r\<lparr>u_role := role\<rparr>) (users w)
    \<and> (\<forall>p. look (''identity'', decimal (u_id u)) w = Some p \<longrightarrow>
         (\<forall>q \<in> set (principals t). pr_id q = p \<longrightarrow> pr_kind q = principalKindForRole role))"
proof -
  have filled: "text \<noteq> []" using assms(4) by (cases role) (auto simp: role_named_def ROLES_def split: if_splits)
  let ?x = "w\<lparr>users := update_where (\<lambda>r. u_id r = u_id u) (\<lambda>r. r\<lparr>u_role := role\<rparr>) (users w)\<rparr>"
  have "\<exists>t. kind_of_account (u_id u) role ?x = (Inr (), t) \<and> users t = users ?x \<and> (\<forall>a. alias_of ''identity'' (decimal (u_id u)) w = Some a \<longrightarrow>
      principals t = update_where (\<lambda>p. pr_id p = al_principalId a) (\<lambda>p. p\<lparr>pr_kind := principalKindForRole role\<rparr>) (principals w))"
    by (cases "alias_of ''identity'' (decimal (u_id u)) w")
      (auto simp: kind_of_account_def andThen_run syncKind_def alias_of_def)
  then obtain t where t: "kind_of_account (u_id u) role ?x = (Inr (), t)" "users t = users ?x"
    "\<And>a. alias_of ''identity'' (decimal (u_id u)) w = Some a \<Longrightarrow>
      principals t = update_where (\<lambda>p. pr_id p = al_principalId a) (\<lambda>p. p\<lparr>pr_kind := principalKindForRole role\<rparr>) (principals w)"
    by blast
  have "u \<in> set (users w)" using find_Some_mem [OF assms(5)] by simp
  then have "user_row (u_id u) w = Some u" using assms(1) by (simp add: users_ok_def user_row_def find_key_Some_iff)
  then have "user_row (u_id u) t = Some (u\<lparr>u_role := role\<rparr>)"
    using t(2) by (simp add: user_row_def find_update_where_key)
  then have "promoteAccount read (Some email) (Some text) True w = (Inr Promoted, t)"
    using assms(2-5) filled t(1) by (simp add: promoteAccount_def truthy_def andThen_run atomically_run set_role_def)
  moreover have "pr_kind q = principalKindForRole role"
    if p: "look (''identity'', decimal (u_id u)) w = Some p" and q: "q \<in> set (principals t)" "pr_id q = p" for p q
  proof -
    from p obtain a where a: "alias_of ''identity'' (decimal (u_id u)) w = Some a" "al_principalId a = p" by (auto simp: look_def)
    with q(1) obtain o' where o': "q = (if pr_id o' = p then o'\<lparr>pr_kind := principalKindForRole role\<rparr> else o')"
      unfolding t(3) [OF a(1)] by (auto simp only: set_update_where)
    with q(2) show ?thesis by (cases "pr_id o' = p") simp_all
  qed
  moreover have "users t = update_where (\<lambda>r. u_id r = u_id u) (\<lambda>r. r\<lparr>u_role := role\<rparr>) (users w)" using t(2) by simp
  ultimately show ?thesis by (intro exI [of _ t] conjI allI impI ballI)
qed

section \<open>Examples\<close>

text \<open>An old store of a seller and one of an admin, and the settings and databases of a deployment.\<close>

definition sample_deployment :: settings where
  "sample_deployment name =
     (if name = ''KINETIX_BOOTSTRAP_ADMIN_EMAIL'' then Some ''Root@b.c'' else if name = ''KINETIX_BOOTSTRAP_ADMIN_PASSWORD'' then Some ''correct horse''
      else Some ''postgres://db'')"

definition sample_databases :: OtherDatabases where
  "sample_databases = \<lparr>db_reachable = (\<lambda>_. True), db_values = (\<lambda>_ s. if bs_service s = ''order'' then Some [''1'', ''9''] else None)\<rparr>"

definition sample_old_stores :: world where
  "sample_old_stores = (sample_applicant [sample_shop 1 1 ''toko'' MVerified, sample_shop 2 2 ''warung'' MVerified])
     \<lparr>users := [sample_row\<lparr>u_role := Seller\<rparr>, sample_row\<lparr>u_id := 2, u_email := ''x@b.c'', u_role := Admin\<rparr>]\<rparr>"

theorem bootstrap_makes_the_first_admin_witness:
  "\<exists>a. users (snd (bootstrapAdmin sample_env sample_deployment empty_world)) = [a] \<and> u_role a = Admin"
proof -
  have "\<not> isl (fst (bootstrapAdmin sample_env sample_deployment empty_world))
      \<and> fst (bootstrapAdmin sample_env sample_deployment empty_world) \<noteq> Inr None" by code_simp
  then obtain a t where run: "bootstrapAdmin sample_env sample_deployment empty_world = (Inr (Some a), t)"
    using returned by (metis fst_conv not_None_eq)
  from bootstrap_makes_the_first_admin [OF run] run show ?thesis by (auto simp: empty_world_def)
qed

theorem purge_outcome_witness:
  "map u_role (users (snd (purgeAnonymousRows sample_deployment \<lparr>store_created = (\<lambda>_. 0), profile_created = (\<lambda>_. 0)\<rparr> (Some 5) True sample_old_stores)))
     = [Customer, Admin]"
proof -
  let ?run = "purgeAnonymousRows sample_deployment \<lparr>store_created = (\<lambda>_. 0), profile_created = (\<lambda>_. 0)\<rparr> (Some 5) True sample_old_stores"
  have "fst ?run = Inr (Purged 2 0 0)" by code_simp
  from purge_outcome [OF run_fst [OF this]] have "users (snd ?run) = map (demoted (m_userId ` {m \<in> set (merchants sample_old_stores).
      old_store \<lparr>store_created = (\<lambda>_. 0), profile_created = (\<lambda>_. 0)\<rparr> 5 m})) (users sample_old_stores)" by blast
  moreover have "m_userId ` {m \<in> set (merchants sample_old_stores).
      old_store \<lparr>store_created = (\<lambda>_. 0), profile_created = (\<lambda>_. 0)\<rparr> 5 m} = {1, 2}"
    by code_simp
  ultimately show ?thesis
    by (simp add: sample_old_stores_def demoted_def sample_row_def sample_user_def UserEntity.defs UserRow.defs)
qed

theorem backfill_names_every_account_witness:
  "\<exists>report t. backfillPrincipalAliases sample_env sample_deployment sample_databases True (sample_applicant []) = (Inr report, t)
     \<and> accounted (sample_applicant []) t sample_row"
proof -
  have "users_ok (sample_applicant [])" "principals_ok sample_env (sample_applicant [])"
    using sample_applicant_ok by (simp_all add: onboarding_ok_def)
  moreover have "\<forall>s \<in> set (''identity'' # services). \<exists>url. service_dsn sample_deployment s = Inr url"
    by (simp add: service_dsn_def sample_deployment_def truthy_def Let_def)
  ultimately show ?thesis
    using backfill_names_every_account [OF sample_env_uuid, of "sample_applicant []" sample_deployment sample_databases]
    by (auto simp: sample_applicant_def)
qed

end
