(* ===== verification/Signing_Keys.thy ===== *)
theory Signing_Keys
  imports Token_Service
begin

text \<open>
  The keys tokens are signed and verified with: \<^verbatim>\<open>infrastructure/crypto/jwt_key_provider.ts\<close>, read from the
  settings when the process starts, and the document \<^verbatim>\<open>jwks.controller.ts\<close> publishes. Decoding base64,
  parsing keys and hashing are Node's, the parameter \<open>KeyLibrary\<close>.
\<close>

section \<open>Reading the keys\<close>

record KeyLibrary =
  kl_base64 :: "string \<Rightarrow> string"
  kl_createPrivateKey :: "string \<Rightarrow> string + KeyObject"
  kl_createPublicKey :: "string \<Rightarrow> string + KeyObject"
  kl_publicOf :: "KeyObject \<Rightarrow> KeyObject"
  kl_keyType :: "KeyObject \<Rightarrow> string"
  kl_modulusLength :: "KeyObject \<Rightarrow> nat option"
  kl_jwk :: "KeyObject \<Rightarrow> string \<times> string \<times> string"
  kl_sha256 :: "string \<Rightarrow> string"

record KeyProvider =
  kp_privateKey :: KeyObject
  kp_publicKey :: KeyObject
  kp_keyId :: string
  kp_previousKeys :: "(string \<times> KeyObject) list"

definition BEGIN_KEY :: string where "BEGIN_KEY = ''-----BEGIN PUBLIC KEY-----''"
definition END_KEY :: string where "END_KEY = ''-----END PUBLIC KEY-----''"

text \<open>
  The matches of \<^verbatim>\<open>PUBLIC_KEY_BLOCK\<close>: from a first line to the nearest last line after it, with at least one
  character between, each search starting where the last match ended.
\<close>

fun to_end :: "string \<Rightarrow> (string \<times> string) option" where
  "to_end [] = None"
| "to_end (c # cs) =
     (if js_startsWith cs END_KEY then Some (c # END_KEY, drop (length END_KEY) cs)
      else map_option (\<lambda>(block, rest). (c # block, rest)) (to_end cs))"

lemma to_end_shorter: "to_end s = Some (block, rest) \<Longrightarrow> length rest < length s"
  by (induction s arbitrary: block) (auto split: if_splits)

function key_blocks :: "string \<Rightarrow> string list" where
  "key_blocks [] = []"
| "key_blocks (c # cs) =
     (if js_startsWith (c # cs) BEGIN_KEY
      then (case to_end (drop (length BEGIN_KEY) (c # cs)) of
              None \<Rightarrow> key_blocks cs
            | Some (block, rest) \<Rightarrow> (BEGIN_KEY @ block) # key_blocks rest)
      else key_blocks cs)"
  by pat_completeness auto
termination
  by (relation "measure length") (auto dest!: to_end_shorter)

text \<open>\<^verbatim>\<open>JSON.stringify\<close> of the three members of a public key; they are base64url text, which needs no escape.\<close>

definition canonical_jwk :: "string \<times> string \<times> string \<Rightarrow> string" where
  "canonical_jwk jwk = (case jwk of (e, kty, n) \<Rightarrow>
     ''{'' @ [CHR 0x22] @ ''e'' @ [CHR 0x22] @ '':'' @ [CHR 0x22] @ e @ [CHR 0x22] @ '',''
     @ [CHR 0x22] @ ''kty'' @ [CHR 0x22] @ '':'' @ [CHR 0x22] @ kty @ [CHR 0x22] @ '',''
     @ [CHR 0x22] @ ''n'' @ [CHR 0x22] @ '':'' @ [CHR 0x22] @ n @ [CHR 0x22] @ ''}'')"

definition thumbprint :: "KeyLibrary \<Rightarrow> KeyObject \<Rightarrow> string" where
  "thumbprint lib key = kl_sha256 lib (canonical_jwk (kl_jwk lib key))"

definition modulus_bits :: "KeyLibrary \<Rightarrow> KeyObject \<Rightarrow> nat" where
  "modulus_bits lib key = (case kl_modulusLength lib key of None \<Rightarrow> 0 | Some n \<Rightarrow> n)"

fun add_previous :: "KeyLibrary \<Rightarrow> string \<Rightarrow> string list \<Rightarrow> (string \<times> KeyObject) list \<Rightarrow> failure + (string \<times> KeyObject) list" where
  "add_previous lib currentKeyId [] keys = Inr keys"
| "add_previous lib currentKeyId (block # rest) keys =
     (case kl_createPublicKey lib block of
        Inl cause \<Rightarrow> Inl (PlainError (''A previous signing key is not a usable public key: '' @ cause))
      | Inr key \<Rightarrow>
          if kl_keyType lib key \<noteq> ''rsa'' \<or> modulus_bits lib key < 2048
          then Inl (PlainError ''A previous signing key must be RSA of at least 2048 bits.'')
          else if thumbprint lib key = currentKeyId
          then Inl (PlainError ''A previous signing key is the current one; list only keys that signed before it.'')
          else add_previous lib currentKeyId rest (map_set (thumbprint lib key) key keys))"

definition previous :: "KeyLibrary \<Rightarrow> string option \<Rightarrow> string \<Rightarrow> failure + (string \<times> KeyObject) list" where
  "previous lib encoded currentKeyId =
     (case encoded of
        None \<Rightarrow> Inr []
      | Some text \<Rightarrow>
          if js_trim text = [] then Inr []
          else
            (let blocks = key_blocks (kl_base64 lib (js_trim text)) in
             if blocks = [] then Inl (PlainError ''KINETIX_IDENTITY_JWT_PREVIOUS_PUBLIC_KEYS_B64 holds no PEM public key.'')
             else add_previous lib currentKeyId blocks []))"

definition from_config :: "(string \<Rightarrow> string option) \<Rightarrow> (string \<Rightarrow> string option) \<Rightarrow> string \<Rightarrow> string option" where
  "from_config config env name = (case config name of None \<Rightarrow> env name | Some v \<Rightarrow> Some v)"

definition jwtKeyProvider :: "KeyLibrary \<Rightarrow> (string \<Rightarrow> string option) \<Rightarrow> (string \<Rightarrow> string option) \<Rightarrow> failure + KeyProvider" where
  "jwtKeyProvider lib config env =
     (case from_config config env ''KINETIX_IDENTITY_JWT_PRIVATE_KEY_B64'' of
        None \<Rightarrow> Inl (PlainError ''KINETIX_IDENTITY_JWT_PRIVATE_KEY_B64 is required and has no default.'')
      | Some encoded \<Rightarrow>
          if js_trim encoded = [] then Inl (PlainError ''KINETIX_IDENTITY_JWT_PRIVATE_KEY_B64 is required and has no default.'')
          else
            (let pem = kl_base64 lib (js_trim encoded) in
             if \<not> js_includes pem ''PRIVATE KEY''
             then Inl (PlainError ''KINETIX_IDENTITY_JWT_PRIVATE_KEY_B64 did not decode to a PEM private key.'')
             else
               (case kl_createPrivateKey lib pem of
                  Inl cause \<Rightarrow> Inl (PlainError (''KINETIX_IDENTITY_JWT_PRIVATE_KEY_B64 is not a usable private key: '' @ cause))
                | Inr parsed \<Rightarrow>
                    if kl_keyType lib parsed \<noteq> ''rsa'' then Inl (PlainError ''The signing key must be RSA for RS256'')
                    else if modulus_bits lib parsed < 2048 then Inl (PlainError ''RS256 requires at least 2048 bits.'')
                    else
                      (let public = kl_publicOf lib parsed; kid = thumbprint lib public in
                       case previous lib (from_config config env ''KINETIX_IDENTITY_JWT_PREVIOUS_PUBLIC_KEYS_B64'') kid of
                         Inl e \<Rightarrow> Inl e
                       | Inr keys \<Rightarrow> Inr \<lparr>kp_privateKey = parsed, kp_publicKey = public, kp_keyId = kid, kp_previousKeys = keys\<rparr>))))"

text \<open>The keys of the published document, each under its key id; \<^verbatim>\<open>use\<close> and \<^verbatim>\<open>alg\<close> are the same for all.\<close>

definition jwks :: "KeyProvider \<Rightarrow> (string \<times> KeyObject) list" where
  "jwks provider = (kp_keyId provider, kp_publicKey provider) # kp_previousKeys provider"

text \<open>The token service works with the keys of the provider.\<close>

definition keyed_by :: "'tok Env \<Rightarrow> KeyProvider \<Rightarrow> bool" where
  "keyed_by env provider \<longleftrightarrow> privateKey env = kp_privateKey provider \<and> publicKey env = kp_publicKey provider
     \<and> keyId env = kp_keyId provider \<and> previousKeys env = kp_previousKeys provider"

section \<open>The published keys\<close>

definition well_kept :: "KeyLibrary \<Rightarrow> string \<Rightarrow> (string \<times> KeyObject) list \<Rightarrow> bool" where
  "well_kept lib kid keys \<longleftrightarrow> distinct (map fst keys) \<and> kid \<notin> fst ` set keys
     \<and> (\<forall>(k, key) \<in> set keys. k = thumbprint lib key \<and> kl_keyType lib key = ''rsa'' \<and> 2048 \<le> modulus_bits lib key)"

lemma well_kept_add:
  assumes "well_kept lib kid keys" and "thumbprint lib key \<noteq> kid" and "kl_keyType lib key = ''rsa''" and "2048 \<le> modulus_bits lib key"
  shows "well_kept lib kid (map_set (thumbprint lib key) key keys)"
proof -
  have "distinct (map fst (map_set (thumbprint lib key) key keys))" using assms(1) by (simp add: map_set_fst well_kept_def)
  moreover have "kid \<notin> fst ` set (map_set (thumbprint lib key) key keys)"
    using assms(1,2) by (auto simp: well_kept_def dest!: map_set_mem)
  ultimately show ?thesis using assms by (fastforce simp: well_kept_def dest!: map_set_mem)
qed

lemma add_previous_kept:
  "add_previous lib kid blocks keys = Inr result \<Longrightarrow> well_kept lib kid keys \<Longrightarrow> well_kept lib kid result"
  by (induction blocks arbitrary: keys) (auto simp: well_kept_add split: sum.splits if_splits)

lemma well_kept_empty: "well_kept lib kid []"
  by (simp add: well_kept_def)

lemma previous_kept: "previous lib encoded kid = Inr keys \<Longrightarrow> well_kept lib kid keys"
  by (auto simp: previous_def well_kept_empty Let_def split: option.splits if_splits dest!: add_previous_kept)

text \<open>
  C33. The keys that are published are the keys that verify. When the provider starts, each key of the document has
  its own key id, which is the key's thumbprint, and every key but the current one is an RSA key of at least 2048 bits;
  a token that names a key id is checked with a key exactly when the document lists that key under that id.
\<close>

theorem published_keys_verify:
  assumes "jwtKeyProvider lib config env = Inr provider" and "keyed_by tokens provider"
  shows "distinct (map fst (jwks provider))
    \<and> (\<forall>(k, key) \<in> set (jwks provider). k = thumbprint lib key)
    \<and> (\<forall>(k, key) \<in> set (kp_previousKeys provider). kl_keyType lib key = ''rsa'' \<and> 2048 \<le> modulus_bits lib key)
    \<and> (verificationKey tokens (Some kid) = Some key \<longleftrightarrow> (kid, key) \<in> set (jwks provider))"
proof -
  have kept: "well_kept lib (kp_keyId provider) (kp_previousKeys provider)" "kp_keyId provider = thumbprint lib (kp_publicKey provider)"
    using assms(1) by (auto simp: jwtKeyProvider_def Let_def split: option.splits if_splits sum.splits dest: previous_kept)
  then have distinct: "distinct (map fst (kp_previousKeys provider))" "kp_keyId provider \<notin> fst ` set (kp_previousKeys provider)"
    by (simp_all add: well_kept_def)
  have "verificationKey tokens (Some kid) = Some key \<longleftrightarrow> (kid, key) \<in> set (jwks provider)"
    using assms(2) distinct map_of_eq_Some_iff [OF distinct(1), of kid key]
    by (auto simp: verificationKey_def keyed_by_def jwks_def image_iff)
  with kept distinct show ?thesis by (auto simp: jwks_def well_kept_def)
qed

definition sample_library :: KeyLibrary where
  "sample_library = \<lparr>kl_base64 = (\<lambda>s. s), kl_createPrivateKey = Inr, kl_createPublicKey = Inr, kl_publicOf = (\<lambda>_. ''current''),
     kl_keyType = (\<lambda>_. ''rsa''), kl_modulusLength = (\<lambda>_. Some 4096), kl_jwk = (\<lambda>k. (''AQAB'', ''RSA'', k)), kl_sha256 = (\<lambda>s. s)\<rparr>"

definition sample_key_settings :: "string \<Rightarrow> string option" where
  "sample_key_settings name =
     (if name = ''KINETIX_IDENTITY_JWT_PRIVATE_KEY_B64'' then Some ''PRIVATE KEY''
      else if name = ''KINETIX_IDENTITY_JWT_PREVIOUS_PUBLIC_KEYS_B64''
      then Some ''-----BEGIN PUBLIC KEY-----a-----END PUBLIC KEY-----'' else None)"

definition sample_provider :: KeyProvider where
  "sample_provider = projr (jwtKeyProvider sample_library (\<lambda>_. None) sample_key_settings)"

theorem published_keys_verify_witness:
  "length (jwks sample_provider) = 2 \<and> distinct (map fst (jwks sample_provider))"
proof -
  have "\<not> isl (jwtKeyProvider sample_library (\<lambda>_. None) sample_key_settings)" by code_simp
  then have run: "jwtKeyProvider sample_library (\<lambda>_. None) sample_key_settings = Inr sample_provider"
    by (simp add: sample_provider_def)
  have "keyed_by (sample_env\<lparr>privateKey := kp_privateKey sample_provider, publicKey := kp_publicKey sample_provider,
      keyId := kp_keyId sample_provider, previousKeys := kp_previousKeys sample_provider\<rparr>) sample_provider"
    by (simp add: keyed_by_def)
  from published_keys_verify [OF run this] have "distinct (map fst (jwks sample_provider))" by blast
  moreover have "length (jwks sample_provider) = 2" by code_simp
  ultimately show ?thesis by simp
qed

end
