(* ===== verification/Geo_Api.thy ===== *)
theory Geo_Api
  imports Geocoding
begin

text \<open>
  The geocoding gRPC service (\<^verbatim>\<open>adapters/controllers/geo_grpc.controller.ts\<close>, \<^verbatim>\<open>types/geo_grpc.type.ts\<close>): one address,
  or a batch of at most 25. A member of a request that is not sent is \<^const>\<open>None\<close>, and the snake-case spelling of a
  member comes before the camel-case one. The prose that goes with a failure is not in the replies, as it is
  not in \<^typ>\<open>GeocodeOutcome\<close>.
\<close>

record GeoAddressWire =
  gw_street_address :: "string option"
  gw_streetAddress :: "string option"
  gw_city :: "string option"
  gw_postal_code :: "string option"
  gw_postalCode :: "string option"

record GeocodeAddressResponseWire =
  gr_geocoded :: bool
  gr_location :: "degrees \<times> degrees"
  gr_failure :: string
  gr_precision :: string

definition MAX_BATCH :: nat where
  "MAX_BATCH = 25"

definition coalesce :: "'a option \<Rightarrow> 'a option \<Rightarrow> 'a option" where
  "coalesce a b = (case a of None \<Rightarrow> b | Some x \<Rightarrow> Some x)"

definition geo_queryOf :: "GeoAddressWire option \<Rightarrow> GeocodeQuery" where
  "geo_queryOf address =
     (case address of
        None \<Rightarrow> \<lparr>gq_streetAddress = [], gq_city = None, gq_postalCode = None\<rparr>
      | Some a \<Rightarrow>
          \<lparr>gq_streetAddress = (case coalesce (gw_street_address a) (gw_streetAddress a) of None \<Rightarrow> [] | Some s \<Rightarrow> s),
           gq_city = gw_city a, gq_postalCode = coalesce (gw_postal_code a) (gw_postalCode a)\<rparr>)"

fun precision_text :: "GeocodePrecision \<Rightarrow> string" where
  "precision_text UNSPECIFIED = ''UNSPECIFIED''"
| "precision_text ROOFTOP = ''ROOFTOP''"
| "precision_text STREET = ''STREET''"
| "precision_text SUBURB = ''SUBURB''"
| "precision_text CITY = ''CITY''"

fun failure_text :: "GeocodeFailure \<Rightarrow> string" where
  "failure_text NOT_FOUND = ''NOT_FOUND''"
| "failure_text AMBIGUOUS = ''AMBIGUOUS''"
| "failure_text PROVIDER_UNAVAILABLE = ''PROVIDER_UNAVAILABLE''"
| "failure_text OUT_OF_SERVICE_AREA = ''OUT_OF_SERVICE_AREA''"
| "failure_text INSUFFICIENT_ADDRESS = ''INSUFFICIENT_ADDRESS''"

definition no_point :: "string \<Rightarrow> GeocodeAddressResponseWire" where
  "no_point problem =
     \<lparr>gr_geocoded = False, gr_location = (0, 0), gr_failure = ''GEOCODE_FAILURE_'' @ problem,
      gr_precision = ''GEOCODE_PRECISION_UNSPECIFIED''\<rparr>"

fun geo_responseOf :: "GeocodeOutcome \<Rightarrow> GeocodeAddressResponseWire" where
  "geo_responseOf (Geocoded latitude longitude precision shown) =
     \<lparr>gr_geocoded = True, gr_location = (latitude, longitude), gr_failure = ''GEOCODE_FAILURE_UNSPECIFIED'',
      gr_precision = ''GEOCODE_PRECISION_'' @ precision_text precision\<rparr>"
| "geo_responseOf (NotGeocoded problem) = no_point (failure_text problem)"

definition geocodeAddress :: "GeoEnv \<Rightarrow> GeoAddressWire option \<Rightarrow> GeocodeAddressResponseWire act" where
  "geocodeAddress geo address = andThen (geocode geo (geo_queryOf address)) (\<lambda>outcome. returns (geo_responseOf outcome))"

text \<open>The loop over a batch, which waits for each address before it asks for the next.\<close>

fun geocode_each :: "GeoEnv \<Rightarrow> GeoAddressWire list \<Rightarrow> GeocodeAddressResponseWire list act" where
  "geocode_each geo [] = returns []"
| "geocode_each geo (address # addresses) =
     andThen (geocode geo (geo_queryOf (Some address)))
     (\<lambda>outcome. andThen (geocode_each geo addresses) (\<lambda>results. returns (geo_responseOf outcome # results)))"

definition geocodeAddresses :: "GeoEnv \<Rightarrow> GeoAddressWire list option \<Rightarrow> GeocodeAddressResponseWire list act" where
  "geocodeAddresses geo batch =
     (let addresses = (case batch of None \<Rightarrow> [] | Some l \<Rightarrow> l) in
      if MAX_BATCH < length addresses then returns (map (\<lambda>_. no_point ''UNSPECIFIED'') addresses)
      else geocode_each geo addresses)"

section \<open>What a batch costs and answers\<close>

text \<open>A reply is honest when a point in it is a point of the Earth and a reply without one says so.\<close>

definition honest :: "GeocodeAddressResponseWire \<Rightarrow> bool" where
  "honest r \<longleftrightarrow> (if gr_geocoded r then on_earth (fst (gr_location r)) (snd (gr_location r)) else gr_location r = (0, 0))"

text \<open>The look-ups of a run: at most \<^term>\<open>n\<close>, and only of the addresses asked for.\<close>

definition looked_up :: "nat \<Rightarrow> string set \<Rightarrow> world \<Rightarrow> world \<Rightarrow> bool" where
  "looked_up n asked w t \<longleftrightarrow> (\<exists>qs. outbox t = outbox w @ map GeocoderLookup qs \<and> length qs \<le> n \<and> set qs \<subseteq> asked)"

lemma looked_up_refl: "looked_up n asked w w"
  by (auto simp: looked_up_def)

lemma looked_up_trans:
  assumes "looked_up m asked w u" and "looked_up n asked u t" shows "looked_up (m + n) asked w t"
proof -
  from assms obtain qs rs where "outbox u = outbox w @ map GeocoderLookup qs" "length qs \<le> m" "set qs \<subseteq> asked"
    and "outbox t = outbox u @ map GeocoderLookup rs" "length rs \<le> n" "set rs \<subseteq> asked"
    by (auto simp: looked_up_def)
  then show ?thesis by (auto simp: looked_up_def intro!: exI [of _ "qs @ rs"])
qed

lemma looked_up_geocode:
  assumes "geocode geo q w = (r, t)" and "normalise q \<in> asked" shows "looked_up 1 asked w t"
  using assms(1)
proof (cases rule: geocode_cases)
  case unplaced
  with assms(2) show ?thesis by (auto simp: looked_up_def intro!: exI [of _ "[normalise q]"])
next
  case placed
  with assms(2) show ?thesis by (auto simp: looked_up_def intro!: exI [of _ "[normalise q]"])
qed (simp_all add: looked_up_refl)

lemma honest_no_point: "honest (no_point p)"
  by (simp add: honest_def no_point_def)

lemma honest_geocode:
  assumes "addresses_ok w" and "geocode geo q w = (Inr outcome, t)" shows "honest (geo_responseOf outcome)"
  using assms geocoded_on_earth by (cases outcome) (auto simp: honest_def no_point_def)

text \<open>The addresses of a batch, as they are looked up.\<close>

definition asked_of :: "GeoAddressWire list \<Rightarrow> string set" where
  "asked_of addresses = (\<lambda>a. normalise (geo_queryOf (Some a))) ` set addresses"

lemma geocode_each_costs:
  assumes "addresses_ok w" and "geocode_each geo addresses w = (r, t)" and "asked_of addresses \<subseteq> asked"
  shows "addresses_ok t \<and> looked_up (length addresses) asked w t
     \<and> (\<forall>results. r = Inr results \<longrightarrow> length results = length addresses \<and> (\<forall>x \<in> set results. honest x))"
  using assms
proof (induction addresses arbitrary: w r t)
  case Nil
  then show ?case by (auto simp: looked_up_refl)
next
  case (Cons a as)
  obtain g u where g: "geocode geo (geo_queryOf (Some a)) w = (g, u)" by fastforce
  from Cons.prems(3) have asked: "normalise (geo_queryOf (Some a)) \<in> asked" "asked_of as \<subseteq> asked"
    by (auto simp: asked_of_def)
  note u = addresses_ok_geocode [OF Cons.prems(1) g] and first = looked_up_geocode [OF g asked(1)]
  show ?case
  proof (cases g)
    case (Inl e)
    with Cons.prems g have "r = Inl e" "t = u" by (auto simp: andThen_run)
    with u looked_up_trans [OF first looked_up_refl, of "length as"] show ?thesis by simp
  next
    case (Inr outcome)
    obtain r' t' where rest: "geocode_each geo as u = (r', t')" by fastforce
    note later = Cons.IH [OF u rest asked(2)]
    have t: "t = t'" and r: "r = (case r' of Inl e \<Rightarrow> Inl e | Inr results \<Rightarrow> Inr (geo_responseOf outcome # results))"
      using Cons.prems(2) g Inr rest by (auto simp: andThen_run split: sum.splits)
    have "honest (geo_responseOf outcome)" using honest_geocode [OF Cons.prems(1)] g Inr by blast
    with later r have "\<forall>results. r = Inr results \<longrightarrow> length results = length (a # as) \<and> (\<forall>x \<in> set results. honest x)"
      by (cases r') auto
    with later t looked_up_trans [OF first, of "length as" t'] show ?thesis by simp
  qed
qed

text \<open>
  A batch is bounded and answered address by address. Whatever number of addresses a caller sends, the outside
  geocoder is asked at most 25 times, and only for addresses of the batch; the replies are as many as the
  addresses; and a reply carries a point of the Earth or says it has none.
\<close>

theorem geocode_batch_is_bounded:
  assumes "addresses_ok w" and "geocodeAddresses geo (Some addresses) w = (r, t)"
  shows "looked_up MAX_BATCH (asked_of addresses) w t \<and> addresses_ok t
     \<and> (case r of Inl e \<Rightarrow> True | Inr results \<Rightarrow> length results = length addresses \<and> list_all honest results)"
proof (cases "MAX_BATCH < length addresses")
  case True
  with assms show ?thesis by (auto simp: geocodeAddresses_def Let_def looked_up_refl honest_no_point list_all_iff)
next
  case False
  with assms geocode_each_costs [OF assms(1), of geo addresses r t "asked_of addresses"]
  show ?thesis by (auto simp: geocodeAddresses_def Let_def looked_up_def list_all_iff split: sum.split)
qed

definition sample_wire_address :: "string \<Rightarrow> GeoAddressWire" where
  "sample_wire_address street =
     \<lparr>gw_street_address = None, gw_streetAddress = Some street, gw_city = Some ''Jakarta'', gw_postal_code = None, gw_postalCode = None\<rparr>"

definition sample_batch :: "GeoAddressWire list" where
  "sample_batch = [sample_wire_address ''Jl. 1'', sample_wire_address ''  JL. 1'']"

theorem geocode_batch_is_bounded_witness:
  "\<exists>results t. geocodeAddresses sample_geo (Some sample_batch) empty_world = (Inr results, t)
     \<and> looked_up MAX_BATCH (asked_of sample_batch) empty_world t \<and> length results = 2
     \<and> outbox t = [GeocoderLookup ''jl. 1, jakarta'']"
proof -
  obtain r t where run: "geocodeAddresses sample_geo (Some sample_batch) empty_world = (r, t)" by fastforce
  have "addresses_ok empty_world" by (simp add: addresses_ok_def empty_world_def)
  note bounded = geocode_batch_is_bounded [OF this run]
  have "(case fst (geocodeAddresses sample_geo (Some sample_batch) empty_world) of Inl e \<Rightarrow> False | Inr l \<Rightarrow> True)" by code_simp
  moreover have "outbox (snd (geocodeAddresses sample_geo (Some sample_batch) empty_world)) = [GeocoderLookup ''jl. 1, jakarta'']"
    by code_simp
  ultimately show ?thesis using bounded run by (cases r) (auto simp: sample_batch_def)
qed

end
