(* ===== verification/Gateway.thy ===== *)
theory Gateway
  imports Geocoding "HOL-Library.Word"
begin

text \<open>
  Whose word the process takes for a caller's address (\<^verbatim>\<open>infrastructure/http/gateway_hop.ts\<close>): the first hop, when it
  is an address of an internal network. Addresses are words of their own width. What the source uses of \<^verbatim>\<open>node:net\<close>
  is here too: the text forms \<^verbatim>\<open>isIP\<close> accepts and the rules of a \<^verbatim>\<open>BlockList\<close>, which take an IPv6 address that carries an
  IPv4 one for the IPv4 address it carries.
\<close>

section \<open>Addresses\<close>

datatype IpAddress = Ip4 "32 word" | Ip6 "128 word"

definition octet :: "string \<Rightarrow> nat option" where
  "octet s = (if s \<noteq> [] \<and> list_all is_digit s \<and> s = decimal (digits_value s) \<and> digits_value s < 256 then Some (digits_value s) else None)"

definition ipv4 :: "string \<Rightarrow> 32 word option" where
  "ipv4 s =
     (case map octet (js_split (CHR ''.'') s) of
        [Some a, Some b, Some c, Some d] \<Rightarrow> Some (word_of_nat (((a * 256 + b) * 256 + c) * 256 + d))
      | _ \<Rightarrow> None)"

definition hex_group :: "string \<Rightarrow> nat list option" where
  "hex_group s = (if s \<noteq> [] \<and> length s \<le> 4 then map_option (\<lambda>n. [n]) (radix_digits 16 0 s) else None)"

text \<open>The groups of one side of an IPv6 address; the last group of all may be written as an IPv4 address.\<close>

fun groups :: "bool \<Rightarrow> string list \<Rightarrow> nat list option" where
  "groups tail [] = Some []"
| "groups tail [s] =
     (case (if tail then ipv4 s else None) of
        Some a \<Rightarrow> Some [unat a div 65536, unat a mod 65536]
      | None \<Rightarrow> hex_group s)"
| "groups tail (s # rest) = Option.bind (hex_group s) (\<lambda>g. map_option (\<lambda>gs. g @ gs) (groups tail rest))"

definition side :: "bool \<Rightarrow> string \<Rightarrow> nat list option" where
  "side tail s = (if s = [] then Some [] else groups tail (js_split (CHR '':'') s))"

text \<open>The text around the first \<^verbatim>\<open>::\<close>, when there is one.\<close>

fun around_gap :: "string \<Rightarrow> (string \<times> string) option" where
  "around_gap (a # b # s) =
     (if a = CHR '':'' \<and> b = CHR '':'' then Some ([], s)
      else map_option (\<lambda>(l, r). (a # l, r)) (around_gap (b # s)))"
| "around_gap _ = None"

definition ipv6_value :: "nat list \<Rightarrow> 128 word" where
  "ipv6_value gs = foldl (\<lambda>a g. push_bit 16 a + word_of_nat g) 0 gs"

definition zone_char :: "char \<Rightarrow> bool" where
  "zone_char c \<longleftrightarrow> is_digit c \<or> is_upper c \<or> is_lower c \<or> c \<in> {CHR ''-'', CHR ''.'', CHR '':''}"

definition ipv6 :: "string \<Rightarrow> 128 word option" where
  "ipv6 s =
     (let body = takeWhile (\<lambda>c. c \<noteq> CHR ''%'') s;
          zone = dropWhile (\<lambda>c. c \<noteq> CHR ''%'') s
      in if zone \<noteq> [] \<and> (tl zone = [] \<or> \<not> list_all zone_char (tl zone)) then None
         else (case around_gap body of
                 None \<Rightarrow> Option.bind (side True body) (\<lambda>gs. if length gs = 8 then Some (ipv6_value gs) else None)
               | Some (l, r) \<Rightarrow>
                   Option.bind (side False l) (\<lambda>ls. Option.bind (side True r) (\<lambda>rs.
                     if length ls + length rs \<le> 7
                     then Some (ipv6_value (ls @ replicate (8 - length ls - length rs) 0 @ rs)) else None))))"

definition isIP :: "string \<Rightarrow> IpAddress option" where
  "isIP s = (case ipv4 s of Some a \<Rightarrow> Some (Ip4 a) | None \<Rightarrow> map_option Ip6 (ipv6 s))"

section \<open>The internal networks\<close>

datatype BlockRule = Subnet4 "32 word" nat | Subnet6 "128 word" nat | Address6 "128 word"

definition carried4 :: "128 word \<Rightarrow> 32 word option" where
  "carried4 a = (if drop_bit 32 a = 0xFFFF then Some (ucast a) else None)"

fun rule_applies :: "IpAddress \<Rightarrow> BlockRule \<Rightarrow> bool" where
  "rule_applies (Ip4 a) (Subnet4 net n) \<longleftrightarrow> drop_bit (32 - n) a = drop_bit (32 - n) net"
| "rule_applies (Ip6 a) (Subnet4 net n) \<longleftrightarrow>
     (case carried4 a of None \<Rightarrow> False | Some b \<Rightarrow> drop_bit (32 - n) b = drop_bit (32 - n) net)"
| "rule_applies (Ip6 a) (Subnet6 net n) \<longleftrightarrow> drop_bit (128 - n) a = drop_bit (128 - n) net"
| "rule_applies (Ip6 a) (Address6 b) \<longleftrightarrow> a = b"
| "rule_applies (Ip4 a) _ \<longleftrightarrow> False"

definition INTERNAL_NETWORKS :: "BlockRule list" where
  "INTERNAL_NETWORKS =
     [Subnet4 0x7F000000 8, Subnet4 0x0A000000 8, Subnet4 0xAC100000 12, Subnet4 0xC0A80000 16,
      Address6 1, Subnet6 0xFC000000000000000000000000000000 7]"

definition isGatewayHop :: "string \<Rightarrow> nat \<Rightarrow> bool" where
  "isGatewayHop address hop \<longleftrightarrow>
     (if hop \<noteq> 0 then False
      else (case isIP address of
              None \<Rightarrow> False
            | Some ip \<Rightarrow> list_ex (rule_applies ip) INTERNAL_NETWORKS))"

section \<open>Which callers are believed\<close>

definition dotted :: "nat \<Rightarrow> nat \<Rightarrow> nat \<Rightarrow> nat \<Rightarrow> string" where
  "dotted a b c d = js_join ''.'' [decimal a, decimal b, decimal c, decimal d]"

lemma octet_decimal: "n < 256 \<Longrightarrow> octet (decimal n) = Some n"
  by (simp add: octet_def decimal_digits)

lemma js_split_app: "c \<notin> set s \<Longrightarrow> js_split c (s @ c # t) = s # js_split c t"
  by (induction s) auto

lemma js_split_whole: "c \<notin> set s \<Longrightarrow> js_split c s = [s]"
  by (induction s) auto

lemma no_dot: "CHR ''.'' \<notin> set (decimal n)"
  using decimal_digits [of n] by (auto simp: list_all_iff is_digit_def)

text \<open>An IPv4 address is read back from its dotted form.\<close>

lemma ipv4_dotted:
  assumes "a < 256" "b < 256" "c < 256" "d < 256"
  shows "ipv4 (dotted a b c d) = Some (word_of_nat (((a * 256 + b) * 256 + c) * 256 + d))"
  using assms by (simp add: ipv4_def dotted_def js_split_app js_split_whole no_dot octet_decimal)

lemma prefix_is_quotient:
  fixes a b :: "'a::len word"
  shows "drop_bit k a = b \<longleftrightarrow> unat a div 2 ^ k = unat b"
  unfolding word_unat_eq_iff unsigned_drop_bit_eq by (simp add: drop_bit_eq_div take_bit_nat_eq_self)

lemma digits_of_sum: "q < k \<Longrightarrow> a * k + q = m \<longleftrightarrow> a = m div k \<and> q = m mod (k :: nat)"
  by auto

lemma octet_quotients:
  assumes "b < 256" "c < 256" "d < (256 :: nat)"
  shows "(((a * 256 + b) * 256 + c) * 256 + d) div 65536 = a * 256 + b" (is "?n div _ = _")
    and "(((a * 256 + b) * 256 + c) * 256 + d) div 16777216 = a"
    and "(((a * 256 + b) * 256 + c) * 256 + d) div 1048576 = a * 16 + b div 16"
proof -
  have drop: "(k * 256 + r) div 256 = k" if "r < 256" for k r :: nat using that by simp
  have "?n div 65536 = ?n div 256 div 256" unfolding div_mult2_eq [symmetric] by simp
  then show pair: "?n div 65536 = a * 256 + b" by (simp only: drop assms)
  have "?n div 16777216 = ?n div 65536 div 256" "?n div 1048576 = ?n div 65536 div 16"
    unfolding div_mult2_eq [symmetric] by simp_all
  with pair assms(1) show "?n div 16777216 = a" "?n div 1048576 = a * 16 + b div 16" by simp_all
qed

text \<open>
  A caller's own claim about its address is believed only behind the gateway. The forwarded address is taken from
  the hop that connected to the process and from no other, and only when that hop's IPv4 address lies in
  127.0.0.0/8, 10.0.0.0/8, 172.16.0.0/12 or 192.168.0.0/16: a caller that reaches the process from a public
  address cannot name another address for itself.
\<close>

theorem gateway_hops_are_internal:
  assumes "a < 256" "b < 256" "c < 256" "d < 256"
  shows "isGatewayHop (dotted a b c d) hop \<longleftrightarrow>
     hop = 0 \<and> (a = 127 \<or> a = 10 \<or> a = 172 \<and> 16 \<le> b \<and> b \<le> 31 \<or> a = 192 \<and> b = 168)"
proof -
  define n where "n = ((a * 256 + b) * 256 + c) * 256 + d"
  have "n < 2 ^ 32" using assms by (simp add: n_def)
  then have "unat (word_of_nat n :: 32 word) = n" by (simp add: unsigned_of_nat take_bit_nat_eq_self)
  moreover have "isIP (dotted a b c d) = Some (Ip4 (word_of_nat n))" using ipv4_dotted [OF assms] by (simp add: isIP_def n_def)
  ultimately have "isGatewayHop (dotted a b c d) hop \<longleftrightarrow>
      hop = 0 \<and> (n div 16777216 = 127 \<or> n div 16777216 = 10 \<or> n div 1048576 = 2753 \<or> n div 65536 = 49320)"
    by (simp add: isGatewayHop_def INTERNAL_NETWORKS_def prefix_is_quotient)
  moreover have "n div 16777216 = a" "n div 1048576 = a * 16 + b div 16" "n div 65536 = a * 256 + b"
    using octet_quotients [OF assms(2-4), of a] by (simp_all add: n_def)
  moreover have "a * 16 + b div 16 = 2753 \<longleftrightarrow> a = 172 \<and> 16 \<le> b \<and> b \<le> 31"
  proof -
    have "b div 16 < 16" using assms(2) by (simp add: div_less_iff_less_mult)
    then have "a * 16 + b div 16 = 2753 \<longleftrightarrow> a = 172 \<and> b div 16 = 1" by (simp add: digits_of_sum)
    moreover have "b div 16 = 1 \<longleftrightarrow> 16 \<le> b \<and> b \<le> 31" by linarith
    ultimately show ?thesis by simp
  qed
  moreover have "a * 256 + b = 49320 \<longleftrightarrow> a = 192 \<and> b = 168" using assms(2) by (simp add: digits_of_sum)
  ultimately show ?thesis by simp
qed

theorem gateway_hops_are_internal_witness:
  "isGatewayHop ''172.31.0.9'' 0 \<and> \<not> isGatewayHop ''172.32.0.9'' 0 \<and> \<not> isGatewayHop ''10.0.0.1'' 1"
proof -
  have "dotted 172 31 0 9 = ''172.31.0.9''" "dotted 172 32 0 9 = ''172.32.0.9''" "dotted 10 0 0 1 = ''10.0.0.1''" by code_simp+
  with gateway_hops_are_internal [of 172 31 0 9 0] gateway_hops_are_internal [of 172 32 0 9 0] gateway_hops_are_internal [of 10 0 0 1 1]
  show ?thesis by simp
qed

text \<open>
  The same over IPv6: the loopback address, the unique local addresses (those whose first seven bits are 1111110), and an
  internal IPv4 address in IPv6 form.
\<close>

lemma ipv6_gateway_hops:
  assumes "isIP s = Some (Ip6 a)"
  shows "isGatewayHop s hop \<longleftrightarrow>
     hop = 0 \<and> (a = 1 \<or> unat a div 2 ^ 121 = 126 \<or> (\<exists>b. carried4 a = Some b \<and> list_ex (rule_applies (Ip4 b)) INTERNAL_NETWORKS))"
  using assms by (auto simp: isGatewayHop_def INTERNAL_NETWORKS_def prefix_is_quotient split: option.splits)

end
