(* ===== verification/Shutdown.thy ===== *)
theory Shutdown
  imports Geocoding
begin

text \<open>
  How the process stops: \<^verbatim>\<open>infrastructure/observability/shutdown_drain.ts\<close>. A signal starts a drain of the gRPC
  server and the HTTP listener; when both have finished the application is torn down; a timer bounds the whole.
  The callbacks of the runtime are the events of a state machine, in whatever order they come.
\<close>

section \<open>The grace period\<close>

definition DEFAULT_GRACE_SECONDS :: rat where
  "DEFAULT_GRACE_SECONDS = 25"

definition graceSecondsFrom :: "string option \<Rightarrow> failure + rat" where
  "graceSecondsFrom v =
     (case v of
        None \<Rightarrow> Inr DEFAULT_GRACE_SECONDS
      | Some text \<Rightarrow>
          if js_trim text = [] then Inr DEFAULT_GRACE_SECONDS
          else (case js_text_number (js_trim text) of
                  None \<Rightarrow> Inl (PlainError ''SHUTDOWN_GRACE_SECONDS is not a positive number of seconds.'')
                | Some seconds \<Rightarrow>
                    if seconds \<le> 0 then Inl (PlainError ''SHUTDOWN_GRACE_SECONDS is not a positive number of seconds.'')
                    else Inr seconds))"

lemma grace_positive: "graceSecondsFrom v = Inr seconds \<Longrightarrow> 0 < seconds"
  by (auto simp: graceSecondsFrom_def DEFAULT_GRACE_SECONDS_def split: option.splits if_splits)

section \<open>The drain\<close>

datatype Surface = Serving | Draining | Closed | CloseFailed

text \<open>
  The state of a drain: the two surfaces, the teardown of the application, the two flags of the closure, whether
  the timer is running, whether calls were cancelled by force, and the exit codes asked for, first to last. The
  process ends with the first of them.
\<close>

record Drain =
  dr_draining :: bool
  dr_grpc :: Surface
  dr_http :: Surface
  dr_app :: Surface
  dr_finished :: bool
  dr_timer :: bool
  dr_forced :: bool
  dr_exits :: "nat list"

definition serving :: Drain where
  "serving = \<lparr>dr_draining = False, dr_grpc = Serving, dr_http = Serving, dr_app = Serving, dr_finished = False, dr_timer = False,
     dr_forced = False, dr_exits = []\<rparr>"

datatype DrainEvent =
    SignalArrived
  | GrpcDrained
  | HttpClosed
  | HttpCloseRejected
  | AppClosed
  | AppCloseRejected
  | GraceOver

definition exitAfterFlush :: "nat \<Rightarrow> Drain \<Rightarrow> Drain" where
  "exitAfterFlush code d = d\<lparr>dr_exits := dr_exits d @ [code]\<rparr>"

text \<open>Without a captured gRPC server its side of the drain is over at once.\<close>

definition drainGrpc :: "bool \<Rightarrow> Surface" where
  "drainGrpc has_server = (if has_server then Draining else Closed)"

definition forceShutdown :: "bool \<Rightarrow> Drain \<Rightarrow> Drain" where
  "forceShutdown has_server d = (if has_server then d\<lparr>dr_forced := True\<rparr> else d)"

definition close_app_when_drained :: "Drain \<Rightarrow> Drain" where
  "close_app_when_drained d = (if dr_grpc d = Closed \<and> dr_http d = Closed \<and> dr_app d = Serving then d\<lparr>dr_app := Draining\<rparr> else d)"

fun drain_event :: "bool \<Rightarrow> DrainEvent \<Rightarrow> Drain \<Rightarrow> Drain" where
  "drain_event has_server SignalArrived d =
     (if dr_draining d then d
      else d\<lparr>dr_draining := True, dr_timer := True, dr_grpc := drainGrpc has_server, dr_http := Draining\<rparr>)"
| "drain_event has_server GrpcDrained d =
     (if dr_grpc d = Draining then close_app_when_drained (d\<lparr>dr_grpc := Closed\<rparr>) else d)"
| "drain_event has_server HttpClosed d =
     (if dr_http d = Draining then close_app_when_drained (d\<lparr>dr_http := Closed\<rparr>) else d)"
| "drain_event has_server HttpCloseRejected d =
     (if dr_http d = Draining then exitAfterFlush 1 (d\<lparr>dr_http := CloseFailed\<rparr>) else d)"
| "drain_event has_server AppClosed d =
     (if dr_app d = Draining then d\<lparr>dr_app := Closed, dr_finished := True\<rparr> else d)"
| "drain_event has_server AppCloseRejected d =
     (if dr_app d = Draining then d\<lparr>dr_app := CloseFailed, dr_finished := True\<rparr> else d)"
| "drain_event has_server GraceOver d =
     (if dr_timer d
      then (if dr_finished d then exitAfterFlush 0 (d\<lparr>dr_timer := False\<rparr>)
            else exitAfterFlush 1 (forceShutdown has_server (d\<lparr>dr_timer := False\<rparr>)))
      else d)"

definition drained :: "bool \<Rightarrow> DrainEvent list \<Rightarrow> Drain" where
  "drained has_server = foldl (\<lambda>d e. drain_event has_server e d) serving"

section \<open>What an exit code says\<close>

text \<open>What holds after any events: the order of the stages, and what each exit code stands for.\<close>

definition orderly :: "Drain \<Rightarrow> bool" where
  "orderly d \<longleftrightarrow> (dr_app d \<noteq> Serving \<longrightarrow> dr_grpc d = Closed \<and> dr_http d = Closed)
     \<and> (dr_finished d \<longleftrightarrow> dr_app d = Closed \<or> dr_app d = CloseFailed)
     \<and> (0 \<in> set (dr_exits d) \<longrightarrow> dr_finished d \<and> \<not> dr_timer d)
     \<and> (1 \<in> set (dr_exits d) \<longrightarrow> \<not> dr_timer d \<and> 0 \<notin> set (dr_exits d) \<or> dr_http d = CloseFailed)
     \<and> (dr_forced d \<longrightarrow> 0 \<notin> set (dr_exits d) \<and> \<not> dr_timer d)
     \<and> (dr_draining d \<longrightarrow> dr_timer d \<or> dr_exits d \<noteq> [])
     \<and> (\<not> dr_draining d \<longrightarrow> \<not> dr_timer d \<and> dr_grpc d = Serving \<and> dr_http d = Serving \<and> dr_exits d = [] \<and> \<not> dr_forced d)"

lemma orderly_serving: "orderly serving"
  by (simp add: orderly_def serving_def)

lemmas drain_simps = exitAfterFlush_def forceShutdown_def close_app_when_drained_def drainGrpc_def

lemma orderly_event: "orderly d \<Longrightarrow> orderly (drain_event has_server e d)"
proof (cases d)
  case (fields a b c p q r s x)
  assume "orderly d"
  then show ?thesis unfolding fields by (cases e) (auto simp: orderly_def drain_simps)
qed

interpretation shutdown: invariant_machine "\<lambda>d. d = serving" "\<lambda>d d'. \<exists>e. d' = drain_event has_server e d" orderly for has_server
  by unfold_locales (auto simp: orderly_serving orderly_event)

lemma drained_snoc: "drained has_server (es @ [e]) = drain_event has_server e (drained has_server es)"
  by (simp add: drained_def)

lemma drained_reaches: "reaches (\<lambda>d. d = serving) (\<lambda>d d'. \<exists>e. d' = drain_event has_server e d) (drained has_server es)"
proof (induction es rule: rev_induct)
  case (snoc e es)
  then show ?case unfolding drained_snoc by (rule by_step) blast
qed (simp add: drained_def at_start)

lemma drain_event_goes_on:
  "dr_draining d \<Longrightarrow> dr_draining (drain_event has_server e d)"
  "dr_exits d \<noteq> [] \<Longrightarrow> dr_exits (drain_event has_server e d) \<noteq> []"
  by (cases e; simp add: drain_simps)+

lemma drained_goes_on:
  "dr_draining (drained has_server es) \<Longrightarrow> dr_draining (drained has_server (es @ fs))"
  "dr_exits (drained has_server es) \<noteq> [] \<Longrightarrow> dr_exits (drained has_server (es @ fs)) \<noteq> []"
  by (induction fs rule: rev_induct) (simp_all add: drain_event_goes_on drained_snoc flip: append_assoc)

text \<open>
  What the exit code of a drained process says. After any callbacks in any order: an exit with code 0 was only
  asked for when every call and request had finished and nothing was cancelled by force, and then no other code
  was asked for; and once a signal has come and the grace period after it is over, an exit has been asked for.
\<close>

theorem clean_exit_means_drained:
  "(0 \<in> set (dr_exits (drained has_server es)) \<longrightarrow>
      dr_grpc (drained has_server es) = Closed \<and> dr_http (drained has_server es) = Closed \<and> \<not> dr_forced (drained has_server es)
      \<and> 1 \<notin> set (dr_exits (drained has_server es)))
   \<and> dr_exits (drained has_server (before @ [SignalArrived] @ during @ [GraceOver] @ after)) \<noteq> []"
proof
  have ok: "orderly (drained has_server fs)" for fs by (rule shutdown.inv_reaches [OF drained_reaches])
  show "0 \<in> set (dr_exits (drained has_server es)) \<longrightarrow>
      dr_grpc (drained has_server es) = Closed \<and> dr_http (drained has_server es) = Closed \<and> \<not> dr_forced (drained has_server es)
      \<and> 1 \<notin> set (dr_exits (drained has_server es))"
    using ok [of es] by (auto simp: orderly_def)
  let ?x = "drained has_server (before @ [SignalArrived] @ during)"
  have "dr_draining (drained has_server (before @ [SignalArrived]))" by (simp add: drained_snoc)
  then have "dr_draining ?x" using drained_goes_on(1) [of has_server "before @ [SignalArrived]" during] by simp
  then have "dr_timer ?x \<or> dr_exits ?x \<noteq> []" using ok [of "before @ [SignalArrived] @ during"] by (simp add: orderly_def)
  then have "dr_exits (drain_event has_server GraceOver ?x) \<noteq> []" by (auto simp: drain_simps)
  then have "dr_exits (drained has_server ((before @ [SignalArrived] @ during) @ [GraceOver])) \<noteq> []" unfolding drained_snoc .
  from drained_goes_on(2) [OF this, of after] show "dr_exits (drained has_server (before @ [SignalArrived] @ during @ [GraceOver] @ after)) \<noteq> []"
    by simp
qed

end
