(* ===== verification/Observability.thy ===== *)
theory Observability
  imports Client_Gate
begin

text \<open>
  What the process says about itself: its log lines (\<^verbatim>\<open>json_logger.ts\<close>, \<^verbatim>\<open>log_levels.ts\<close>) and its metrics
  (\<^verbatim>\<open>metrics_registry.ts\<close>, \<^verbatim>\<open>grpc_metrics_interceptor.ts\<close>, \<^verbatim>\<open>route_template.ts\<close>, \<^verbatim>\<open>admin_actions.ts\<close>, all under
  \<^verbatim>\<open>infrastructure/observability\<close>). A log record is the object that is serialised, member by member; a counter is
  the map from its labels to its value.
\<close>

section \<open>Log levels\<close>

datatype LogLevel = LVerbose | LDebug | LLog | LWarn | LError | LFatal

definition LEVELS :: "(string \<times> LogLevel list) list" where
  "LEVELS =
     [(''error'', [LError, LFatal]), (''warn'', [LWarn, LError, LFatal]), (''warning'', [LWarn, LError, LFatal]),
      (''info'', [LLog, LWarn, LError, LFatal]), (''log'', [LLog, LWarn, LError, LFatal]),
      (''debug'', [LDebug, LLog, LWarn, LError, LFatal]), (''verbose'', [LVerbose, LDebug, LLog, LWarn, LError, LFatal]),
      (''trace'', [LVerbose, LDebug, LLog, LWarn, LError, LFatal])]"

definition DEFAULT_LEVELS :: "LogLevel list" where
  "DEFAULT_LEVELS = [LLog, LWarn, LError, LFatal]"

text \<open>
  The lower-case names every object inherits: a look-up of one finds a value that is no list of levels, which the
  logger's constructor refuses.
\<close>

definition inherited_names :: "string list" where
  "inherited_names = [''constructor'', ''__proto__'']"

text \<open>\<^verbatim>\<open>logLevelsFrom\<close> and the constructor of the logger.\<close>

definition logLevelsFrom :: "string option \<Rightarrow> failure + LogLevel list" where
  "logLevelsFrom v =
     (case v of
        None \<Rightarrow> Inr DEFAULT_LEVELS
      | Some text \<Rightarrow>
          if js_trim text = [] then Inr DEFAULT_LEVELS
          else if js_toLowerCase (js_trim text) \<in> set inherited_names then Inl (PlainError ''object is not iterable'')
          else (case map_of LEVELS (js_toLowerCase (js_trim text)) of
                  None \<Rightarrow> Inl (PlainError ''LOG_LEVEL is not a level.'')
                | Some levels \<Rightarrow> Inr levels))"

text \<open>Whatever the setting says, errors are logged.\<close>

lemma errors_always_logged: "logLevelsFrom v = Inr levels \<Longrightarrow> LError \<in> set levels \<and> LFatal \<in> set levels"
  by (auto simp: logLevelsFrom_def DEFAULT_LEVELS_def LEVELS_def split: option.splits if_splits)

section \<open>Log records\<close>

fun SEVERITY :: "LogLevel \<Rightarrow> string" where
  "SEVERITY LVerbose = ''trace''"
| "SEVERITY LDebug = ''debug''"
| "SEVERITY LLog = ''info''"
| "SEVERITY LWarn = ''warn''"
| "SEVERITY LError = ''error''"
| "SEVERITY LFatal = ''fatal''"

definition RESERVED :: "string list" where
  "RESERVED = [''timestamp'', ''level'', ''message'', ''logger'', ''request_id'', ''stack'', ''details'']"

definition UNNAMED_LOGGER :: string where
  "UNNAMED_LOGGER = ''application''"

datatype LogValue = LogText string | LogNumber string | LogBool bool | LogNull

record LogEvent =
  le_message :: string
  le_requestId :: "string option"
  le_fields :: "(string \<times> LogValue) list"

text \<open>What a caller passes as message, by what \<^verbatim>\<open>eventOf\<close> tells apart; of any other value, its text.\<close>

datatype LogMessage = TextMessage string | ErrorMessage string string | EventMessage LogEvent | OtherMessage string

datatype LogParam = TextParam string | ErrorParam "string option" string string | OtherParam

fun eventOf :: "LogMessage \<Rightarrow> LogEvent" where
  "eventOf (TextMessage m) = \<lparr>le_message = m, le_requestId = None, le_fields = []\<rparr>"
| "eventOf (ErrorMessage name m) = \<lparr>le_message = m, le_requestId = None, le_fields = [(''error'', LogText name)]\<rparr>"
| "eventOf (EventMessage e) = e"
| "eventOf (OtherMessage text) = \<lparr>le_message = text, le_requestId = None, le_fields = []\<rparr>"

fun param_part :: "LogParam \<Rightarrow> string list" where
  "param_part (ErrorParam stack name m) = [case stack of None \<Rightarrow> name @ '': '' @ m | Some s \<Rightarrow> s]"
| "param_part (TextParam s) = (if s \<noteq> [] then [s] else [])"
| "param_part OtherParam = []"

definition remainderOf :: "LogParam list \<Rightarrow> string option" where
  "remainderOf params = (let parts = concat (map param_part params) in if parts = [] then None else Some (js_join [CHR 0x0A] parts))"

definition split_context :: "LogParam list \<Rightarrow> string option \<times> LogParam list" where
  "split_context params =
     (if params = [] then (None, [])
      else (case last params of TextParam s \<Rightarrow> (Some s, butlast params) | _ \<Rightarrow> (None, params)))"

definition field_key :: "string \<Rightarrow> string" where
  "field_key k = (if k \<in> set RESERVED then ''field_'' @ k else k)"

text \<open>The assignment of a field; one to \<^verbatim>\<open>__proto__\<close> of a value that is no object sets nothing.\<close>

definition with_fields :: "(string \<times> LogValue) list \<Rightarrow> (string \<times> LogValue) list \<Rightarrow> (string \<times> LogValue) list" where
  "with_fields = foldl (\<lambda>r (k, v). if k = ''__proto__'' then r else map_set (field_key k) v r)"

definition emit :: "LogLevel list \<Rightarrow> string \<Rightarrow> LogLevel \<Rightarrow> LogMessage \<Rightarrow> LogParam list \<Rightarrow> (string \<times> LogValue) list option" where
  "emit levels timestamp level message params =
     (if level \<notin> set levels then None
      else
        (let (context, rest) = split_context params;
             event = eventOf message;
             start = [(''timestamp'', LogText timestamp), (''level'', LogText (SEVERITY level)), (''message'', LogText (le_message event)),
               (''logger'', LogText (case context of None \<Rightarrow> UNNAMED_LOGGER | Some c \<Rightarrow> c)),
               (''request_id'', (case le_requestId event of None \<Rightarrow> LogNull | Some i \<Rightarrow> LogText i))];
             row = with_fields start (le_fields event)
         in Some (case remainderOf rest of
              None \<Rightarrow> row
            | Some text \<Rightarrow> map_set (if level = LError \<or> level = LFatal then ''stack'' else ''details'') (LogText text) row)))"

lemma field_key_free: "field_key k \<notin> set RESERVED"
  by (auto simp: field_key_def RESERVED_def)

lemma with_fields_reserved: "k \<in> set RESERVED \<Longrightarrow> map_of (with_fields row fs) k = map_of row k"
  using field_key_free by (induction fs arbitrary: row) (force simp: with_fields_def map_of_map_set)+

text \<open>
  Fields cannot forge a record. Whatever fields and parameters a caller passes, the time, the severity, the
  message, the logger and the request id of a line are those of the call, and a line is written exactly when its
  level is on.
\<close>

theorem log_fields_cannot_forge:
  "emit levels timestamp level message params \<noteq> None \<longleftrightarrow> level \<in> set levels"
  "emit levels timestamp level message params = Some row \<Longrightarrow>
     map_of row ''timestamp'' = Some (LogText timestamp) \<and> map_of row ''level'' = Some (LogText (SEVERITY level))
     \<and> map_of row ''message'' = Some (LogText (le_message (eventOf message)))
     \<and> map_of row ''logger'' = Some (LogText (case fst (split_context params) of None \<Rightarrow> UNNAMED_LOGGER | Some c \<Rightarrow> c))
     \<and> map_of row ''request_id'' = Some (case le_requestId (eventOf message) of None \<Rightarrow> LogNull | Some i \<Rightarrow> LogText i)"
  by (auto simp: emit_def Let_def map_of_map_set with_fields_reserved RESERVED_def split: prod.splits option.splits if_splits)

section \<open>Log lines\<close>

text \<open>
  \<^verbatim>\<open>lineOf\<close>: a record as \<^verbatim>\<open>JSON.stringify\<close> writes it, and a line feed. The text of a number is given with the number, and
  no field is named like an array index, which would come first. Every value a record can hold here is one that can be
  written, so the fallback for one that cannot is not reached.
\<close>

definition json_escape :: "char \<Rightarrow> string" where
  "json_escape c =
     (let n = code_of c in
      if c = CHR 0x22 \<or> c = CHR 0x5C then [CHR 0x5C, c]
      else if n = 8 then [CHR 0x5C, CHR ''b'']
      else if n = 9 then [CHR 0x5C, CHR ''t'']
      else if n = 10 then [CHR 0x5C, CHR ''n'']
      else if n = 12 then [CHR 0x5C, CHR ''f'']
      else if n = 13 then [CHR 0x5C, CHR ''r'']
      else if n < 32 then CHR 0x5C # ''u00'' @ [''01'' ! (n div 16), ''0123456789abcdef'' ! (n mod 16)]
      else [c])"

definition json_string :: "string \<Rightarrow> string" where
  "json_string s = CHR 0x22 # concat (map json_escape s) @ [CHR 0x22]"

fun value_text :: "LogValue \<Rightarrow> string" where
  "value_text (LogText s) = json_string s"
| "value_text (LogNumber t) = t"
| "value_text (LogBool b) = (if b then ''true'' else ''false'')"
| "value_text LogNull = ''null''"

definition lineOf :: "(string \<times> LogValue) list \<Rightarrow> string" where
  "lineOf row =
     CHR ''{'' # js_join '','' (map (\<lambda>(k, v). json_string k @ CHR '':'' # value_text v) row) @ [CHR ''}'', CHR 0x0A]"

definition printable :: "string \<Rightarrow> bool" where
  "printable s \<longleftrightarrow> list_all (\<lambda>c. 32 \<le> code_of c) s"

lemma printable_simps [simp]:
  "printable []" "printable (c # s) \<longleftrightarrow> 32 \<le> code_of c \<and> printable s" "printable (s @ t) \<longleftrightarrow> printable s \<and> printable t"
  by (simp_all add: printable_def)

lemma printable_nth: "printable s \<Longrightarrow> i < length s \<Longrightarrow> 32 \<le> code_of (s ! i)"
  by (simp add: printable_def list_all_length)

lemma printable_escape: "printable (json_escape c)"
proof (cases "code_of c < 32")
  case True
  have "32 \<le> code_of (''01'' ! (code_of c div 16))" using True by (intro printable_nth) simp_all
  moreover have "32 \<le> code_of (''0123456789abcdef'' ! (code_of c mod 16))" by (intro printable_nth) simp_all
  ultimately show ?thesis by (auto simp: json_escape_def Let_def)
qed (auto simp: json_escape_def Let_def)

lemma printable_string: "printable (json_string s)"
proof -
  have "printable (concat (map json_escape s))" by (induction s) (simp_all add: printable_escape)
  then show ?thesis by (simp add: json_string_def)
qed

definition number_ok :: "LogValue \<Rightarrow> bool" where
  "number_ok v = (case v of LogNumber t \<Rightarrow> printable t | _ \<Rightarrow> True)"

lemma printable_value: "number_ok v \<Longrightarrow> printable (value_text v)"
  by (cases v) (auto simp: number_ok_def printable_string)

lemma printable_join: "printable sep \<Longrightarrow> \<forall>x \<in> set xs. printable x \<Longrightarrow> printable (js_join sep xs)"
  by (induction sep xs rule: js_join.induct) simp_all

lemma values_with_fields: "(k, v) \<in> set (with_fields row fs) \<Longrightarrow> v \<in> snd ` set row \<or> v \<in> snd ` set fs"
proof (induction fs arbitrary: row)
  case Nil
  then show ?case by (force simp: with_fields_def)
next
  case (Cons x fs)
  obtain j u where x: "x = (j, u)" by fastforce
  have "(k, v) \<in> set (with_fields (if j = ''__proto__'' then row else map_set (field_key j) u row) fs)"
    using Cons.prems by (simp add: with_fields_def x)
  from Cons.IH [OF this] show ?case by (auto simp: x dest!: map_set_mem split: if_splits)
qed

text \<open>
  One record, one line. Whatever texts a caller logs, line feeds included, a record is one line: it ends with a line
  feed and has no other control character, so no text can start a record of its own.
\<close>

theorem one_record_one_line:
  assumes "emit levels timestamp level message params = Some row" and "\<forall>(k, v) \<in> set (le_fields (eventOf message)). number_ok v"
  shows "\<exists>body. lineOf row = body @ [CHR 0x0A] \<and> printable body"
proof -
  have "number_ok v" if "(k, v) \<in> set row" for k v
    using assms that by (auto simp: emit_def Let_def number_ok_def dest!: map_set_mem values_with_fields
        split: prod.splits option.splits if_splits LogValue.splits)
  then have "\<forall>x \<in> set (map (\<lambda>(k, v). json_string k @ CHR '':'' # value_text v) row). printable x"
    by (auto simp: printable_string printable_value)
  then have "printable (js_join '','' (map (\<lambda>(k, v). json_string k @ CHR '':'' # value_text v) row))"
    by (rule printable_join [rotated]) simp
  then show ?thesis by (auto simp: lineOf_def)
qed

section \<open>Metrics\<close>

type_synonym counter = "string list \<rightharpoonup> nat"

definition inc :: "string list \<Rightarrow> nat \<Rightarrow> counter \<Rightarrow> counter" where
  "inc labels n c = c(labels \<mapsto> (case c labels of None \<Rightarrow> n | Some k \<Rightarrow> k + n))"

record Metrics =
  mt_httpRequests :: counter
  mt_httpDurations :: "(string list \<times> rat) list"
  mt_grpcServerCalls :: counter
  mt_buildInfo :: "string list \<rightharpoonup> nat"
  mt_signInFailures :: counter
  mt_adminActions :: counter
  mt_clientProofRefusals :: counter

definition ADMIN_ACTIONS :: "string list" where
  "ADMIN_ACTIONS =
     [''identity.seller_applications_list'', ''identity.seller_applications_tally'', ''identity.seller_application_read'',
      ''identity.seller_onboard'', ''identity.seller_verify'', ''identity.seller_reject'',
      ''identity.courier_applications_list'', ''identity.courier_applications_tally'', ''identity.courier_approve'', ''identity.courier_reject'',
      ''identity.profile_read'', ''identity.profile_update'',
      ''identity.passkeys_list'', ''identity.passkey_options'', ''identity.passkey_add'', ''identity.passkey_remove'']"

fun outcome_text :: "AdminActionOutcome \<Rightarrow> string" where
  "outcome_text ActionDone = ''done''"
| "outcome_text ActionRefused = ''refused''"
| "outcome_text ActionFailed = ''failed''"

definition ADMIN_ACTION_OUTCOMES :: "AdminActionOutcome list" where
  "ADMIN_ACTION_OUTCOMES = [ActionDone, ActionRefused, ActionFailed]"

definition declared :: "string list list \<Rightarrow> counter" where
  "declared series = foldl (\<lambda>c labels. inc labels 0 c) Map.empty series"

definition SIGN_IN_STAGES :: "string list" where "SIGN_IN_STAGES = [''password'', ''two_factor'', ''passkey'']"
definition SIGN_IN_ROLES :: "string list" where "SIGN_IN_ROLES = [''admin'', ''other'']"

definition metricsRegistry :: "string \<Rightarrow> string \<Rightarrow> Metrics" where
  "metricsRegistry serviceName serviceVersion =
     \<lparr>mt_httpRequests = Map.empty, mt_httpDurations = [], mt_grpcServerCalls = Map.empty,
      mt_buildInfo = [[serviceName, serviceVersion] \<mapsto> 1],
      mt_signInFailures = declared (concat (map (\<lambda>stage. map (\<lambda>role. [stage, role]) SIGN_IN_ROLES) SIGN_IN_STAGES)),
      mt_adminActions = declared (concat (map (\<lambda>action. map (\<lambda>outcome. [action, outcome_text outcome]) ADMIN_ACTION_OUTCOMES) ADMIN_ACTIONS)),
      mt_clientProofRefusals = Map.empty\<rparr>"

definition recordHttpRequest :: "string \<Rightarrow> string \<Rightarrow> nat \<Rightarrow> rat \<Rightarrow> Metrics \<Rightarrow> Metrics" where
  "recordHttpRequest verb route status seconds m =
     m\<lparr>mt_httpRequests := inc [verb, route, decimal status] 1 (mt_httpRequests m),
       mt_httpDurations := mt_httpDurations m @ [([verb, route], seconds)]\<rparr>"

definition recordGrpcServerCall :: "string \<Rightarrow> string \<Rightarrow> Metrics \<Rightarrow> Metrics" where
  "recordGrpcServerCall grpcMethod grpcCode m = m\<lparr>mt_grpcServerCalls := inc [grpcMethod, grpcCode] 1 (mt_grpcServerCalls m)\<rparr>"

definition declareGrpcMethod :: "string \<Rightarrow> Metrics \<Rightarrow> Metrics" where
  "declareGrpcMethod grpcMethod m = m\<lparr>mt_grpcServerCalls := inc [grpcMethod, ''OK''] 0 (mt_grpcServerCalls m)\<rparr>"

definition recordSignInFailure :: "string \<Rightarrow> string \<Rightarrow> Metrics \<Rightarrow> Metrics" where
  "recordSignInFailure stage role m = m\<lparr>mt_signInFailures := inc [stage, role] 1 (mt_signInFailures m)\<rparr>"

definition recordAdminAction :: "string \<Rightarrow> AdminActionOutcome \<Rightarrow> Metrics \<Rightarrow> Metrics" where
  "recordAdminAction action outcome m = m\<lparr>mt_adminActions := inc [action, outcome_text outcome] 1 (mt_adminActions m)\<rparr>"

definition declareClientRefusals :: "string list list \<Rightarrow> Metrics \<Rightarrow> Metrics" where
  "declareClientRefusals series m =
     m\<lparr>mt_clientProofRefusals := foldl (\<lambda>c labels. inc labels 0 c) (mt_clientProofRefusals m) series\<rparr>"

definition recordClientRefusal :: "string \<Rightarrow> string \<Rightarrow> Metrics \<Rightarrow> Metrics" where
  "recordClientRefusal client reason m = m\<lparr>mt_clientProofRefusals := inc [client, reason] 1 (mt_clientProofRefusals m)\<rparr>"

lemma dom_inc: "dom (inc labels n c) = insert labels (dom c)"
  by (auto simp: inc_def)

lemma dom_declared: "dom (foldl (\<lambda>c labels. inc labels 0 c) c series) = dom c \<union> set series"
  by (induction series arbitrary: c) (auto simp: dom_inc)

lemma inc_counts: "foldl (\<lambda>c labels. inc labels 1 c) c seen l =
    (if l \<in> set seen \<or> c l \<noteq> None then Some ((case c l of None \<Rightarrow> 0 | Some k \<Rightarrow> k) + length (filter (\<lambda>x. x = l) seen)) else None)"
proof (induction seen arbitrary: c)
  case (Cons x seen)
  show ?case unfolding foldl_Cons Cons.IH by (auto simp: inc_def split: option.split)
qed (auto split: option.split)

section \<open>Counting gRPC calls\<close>

definition GRPC_STATUS :: "string list" where
  "GRPC_STATUS = [''OK'', ''CANCELLED'', ''UNKNOWN'', ''INVALID_ARGUMENT'', ''DEADLINE_EXCEEDED'', ''NOT_FOUND'', ''ALREADY_EXISTS'',
     ''PERMISSION_DENIED'', ''RESOURCE_EXHAUSTED'', ''FAILED_PRECONDITION'', ''ABORTED'', ''OUT_OF_RANGE'', ''UNIMPLEMENTED'', ''INTERNAL'',
     ''UNAVAILABLE'', ''DATA_LOSS'', ''UNAUTHENTICATED'']"

definition codeNameOf :: "nat \<Rightarrow> string" where
  "codeNameOf code = (if code < length GRPC_STATUS then GRPC_STATUS ! code else ''UNKNOWN_CODE'')"

datatype GrpcCallEvent = OnCancel | SendStatus nat

text \<open>The interceptor of one call: whether it has been counted, and the registry.\<close>

fun grpcMetricsInterceptor :: "string \<Rightarrow> GrpcCallEvent \<Rightarrow> bool \<times> Metrics \<Rightarrow> bool \<times> Metrics" where
  "grpcMetricsInterceptor path e (counted, m) =
     (if counted then (counted, m)
      else (True, recordGrpcServerCall path (codeNameOf (case e of OnCancel \<Rightarrow> 1 | SendStatus code \<Rightarrow> code)) m))"

lemma counted_stays: "foldl (\<lambda>s e. grpcMetricsInterceptor path e s) (True, m) es = (True, m)"
  by (induction es) simp_all

text \<open>A call is counted once, with the status of whatever ended it first, however many endings are reported.\<close>

lemma grpc_call_counted_once:
  "foldl (\<lambda>s e. grpcMetricsInterceptor path e s) (False, m) (e # es) =
     (True, recordGrpcServerCall path (codeNameOf (case e of OnCancel \<Rightarrow> 1 | SendStatus code \<Rightarrow> code)) m)"
  by (simp add: counted_stays)

section \<open>Route templates\<close>

definition UNMATCHED_ROUTE :: string where "UNMATCHED_ROUTE = ''unmatched''"

definition word_char :: "char \<Rightarrow> bool" where
  "word_char c \<longleftrightarrow> is_lower c \<or> is_upper c \<or> is_digit c \<or> c = CHR ''_''"

function with_braces :: "string \<Rightarrow> string" where
  "with_braces [] = []"
| "with_braces (c # cs) =
     (if c = CHR '':'' \<and> takeWhile word_char cs \<noteq> []
      then CHR ''{'' # takeWhile word_char cs @ CHR ''}'' # with_braces (dropWhile word_char cs)
      else c # with_braces cs)"
  by pat_completeness auto
termination
  by (relation "measure length") (auto simp: length_dropWhile_le le_imp_less_Suc)

definition routeTemplateOf :: "string option \<Rightarrow> string" where
  "routeTemplateOf matched =
     (case matched of None \<Rightarrow> UNMATCHED_ROUTE | Some s \<Rightarrow> if s = [] then UNMATCHED_ROUTE else with_braces s)"

section \<open>Counting HTTP requests\<close>

record HttpExchange =
  he_method :: string
  he_url :: string
  he_matched :: "string option"
  he_requestId :: "string option"
  he_status :: nat
  he_elapsedMs :: rat

text \<open>The hook after a response, and the log line and header before the request is handled.\<close>

definition onResponse :: "HttpExchange \<Rightarrow> Metrics \<Rightarrow> Metrics" where
  "onResponse x = recordHttpRequest (he_method x) (routeTemplateOf (he_matched x)) (he_status x) (he_elapsedMs x / 1000)"

definition requestIdMiddleware :: "HttpExchange \<Rightarrow> string option \<times> LogEvent" where
  "requestIdMiddleware x =
     (case he_requestId x of None \<Rightarrow> None | Some i \<Rightarrow> if i = [] then None else Some i,
      \<lparr>le_message = he_method x @ '' '' @ he_url x, le_requestId = he_requestId x,
       le_fields = [(''method'', LogText (he_method x)), (''path'', LogText (he_url x))]\<rparr>)"

definition requestIdInterceptor :: "string \<Rightarrow> string list \<Rightarrow> LogEvent" where
  "requestIdInterceptor grpcMethod values =
     \<lparr>le_message = ''gRPC '' @ grpcMethod,
      le_requestId = (case values of [] \<Rightarrow> None | v # _ \<Rightarrow> if v = [] then None else Some v),
      le_fields = [(''grpc_method'', LogText grpcMethod)]\<rparr>"

text \<open>The requests a registry has counted, over all its series.\<close>

lemma http_requests_counted:
  "mt_httpRequests (foldl (\<lambda>m x. onResponse x m) m xs) =
     foldl (\<lambda>c labels. inc labels 1 c) (mt_httpRequests m) (map (\<lambda>x. [he_method x, routeTemplateOf (he_matched x), decimal (he_status x)]) xs)"
  by (induction xs arbitrary: m) (simp_all add: onResponse_def recordHttpRequest_def)

text \<open>
  A parameter of a route does not reach the metrics: a template holds no value a caller chose, since it is computed
  from the matched route alone, and every counted series is one of the routes served.
\<close>

lemma http_series_are_routes:
  "dom (mt_httpRequests (foldl (\<lambda>m x. onResponse x m) m xs)) =
     dom (mt_httpRequests m) \<union> (\<lambda>x. [he_method x, routeTemplateOf (he_matched x), decimal (he_status x)]) ` set xs"
proof -
  have "dom (foldl (\<lambda>c labels. inc labels 1 c) c ls) = dom c \<union> set ls" for c :: counter and ls
    by (induction ls arbitrary: c) (auto simp: dom_inc)
  then show ?thesis by (simp add: http_requests_counted)
qed

end
