(* ===== verification/Mesh.thy ===== *)
theory Mesh
  imports Fleet
begin

text \<open>
  Who may call the gRPC surface: \<^verbatim>\<open>infrastructure/mesh/spiffe.ts\<close> reads the peer's name from its certificate,
  \<^verbatim>\<open>peer_allow_list.ts\<close> reads the setting \<^verbatim>\<open>GRPC_ALLOWED_CALLERS\<close>, and
  \<^verbatim>\<open>peer_authorization_interceptor.ts\<close> refuses or passes each call.
\<close>

section \<open>The allow list\<close>

text \<open>A peer's grant is \<open>None\<close> for every method (\<^verbatim>\<open>null\<close>), or the set of its scopes.\<close>

type_synonym PeerAllowList = "string \<rightharpoonup> string set option"

definition SCHEMA_SERVICES :: "string list" where
  "SCHEMA_SERVICES = [''grpc.reflection.v1.ServerReflection'', ''grpc.reflection.v1alpha.ServerReflection'']"

definition is_slash :: "char \<Rightarrow> bool" where
  "is_slash c \<longleftrightarrow> c = CHR ''/''"

text \<open>An entry: a bare peer, or what stands before and after the first at sign.\<close>

definition scoped_entry :: "string \<Rightarrow> (string \<times> string) option" where
  "scoped_entry entry =
     (if CHR ''@'' \<in> set entry
      then Some (takeWhile (\<lambda>c. c \<noteq> CHR ''@'') entry, dropWhile is_slash (tl (dropWhile (\<lambda>c. c \<noteq> CHR ''@'') entry)))
      else None)"

fun grant_entries :: "string list \<Rightarrow> PeerAllowList \<Rightarrow> failure + PeerAllowList" where
  "grant_entries [] grants = Inr grants"
| "grant_entries (entry # rest) grants =
     (case scoped_entry entry of
        None \<Rightarrow> grant_entries rest (grants(entry \<mapsto> None))
      | Some (peer, scope) \<Rightarrow>
          if peer = [] \<or> scope = [] then Inl (PlainError ''GRPC_ALLOWED_CALLERS names no peer or no scope'')
          else grant_entries rest (grants(peer \<mapsto>
            (case grants peer of
               None \<Rightarrow> Some {scope}
             | Some None \<Rightarrow> None
             | Some (Some scopes) \<Rightarrow> Some (insert scope scopes)))))"

definition allow_entries :: "string \<Rightarrow> string list" where
  "allow_entries raw = filter (\<lambda>e. e \<noteq> []) (map js_trim (js_split (CHR '','') raw))"

definition parsePeerAllowList :: "string \<Rightarrow> failure + PeerAllowList" where
  "parsePeerAllowList raw = grant_entries (allow_entries raw) Map.empty"

definition names_peer :: "PeerAllowList \<Rightarrow> string \<Rightarrow> bool" where
  "names_peer allowed peer \<longleftrightarrow> allowed peer \<noteq> None"

definition called_method :: "string \<Rightarrow> string" where
  "called_method method = dropWhile is_slash method"

definition called_service :: "string \<Rightarrow> string" where
  "called_service method = takeWhile (\<lambda>c. \<not> is_slash c) (called_method method)"

definition permits :: "PeerAllowList \<Rightarrow> string \<Rightarrow> string \<Rightarrow> bool" where
  "permits allowed peer method =
     (case allowed peer of
        None \<Rightarrow> False
      | Some None \<Rightarrow> True
      | Some (Some scopes) \<Rightarrow>
          called_method method \<in> scopes \<or> called_service method \<in> scopes \<or> called_service method \<in> set SCHEMA_SERVICES)"

text \<open>The map is empty exactly when the setting has no entry.\<close>

definition allowedCallers :: "string option \<Rightarrow> failure + PeerAllowList" where
  "allowedCallers setting =
     (let raw = (case setting of None \<Rightarrow> [] | Some s \<Rightarrow> s) in
      case parsePeerAllowList raw of
        Inl e \<Rightarrow> Inl e
      | Inr allowed \<Rightarrow> if allow_entries raw = [] then Inl (PlainError ''GRPC_ALLOWED_CALLERS is empty'') else Inr allowed)"

section \<open>The peer's name\<close>

definition DEFAULT_TRUST_DOMAIN :: string where "DEFAULT_TRUST_DOMAIN = ''kinetix.local''"

definition trustDomains :: "string option \<Rightarrow> string list" where
  "trustDomains setting =
     (let configured = allow_entries (case setting of None \<Rightarrow> [] | Some s \<Rightarrow> s)
      in if configured \<noteq> [] then configured else [DEFAULT_TRUST_DOMAIN])"

definition trust_prefix :: "string \<Rightarrow> string" where
  "trust_prefix domain = ''spiffe://'' @ domain @ ''/service/''"

definition serviceOf :: "string \<Rightarrow> string \<Rightarrow> string option" where
  "serviceOf i prefix =
     (if \<not> js_startsWith i prefix then None
      else (let service = drop (length prefix) i in if service = [] \<or> CHR ''/'' \<in> set service then None else Some service))"

text \<open>
  \<^verbatim>\<open>new URL\<close> is a parameter: the protocol, host and path of a text that is a URL. The certificate's names come
  as one text.
\<close>

type_synonym url_parser = "string \<Rightarrow> (string \<times> string \<times> string) option"

definition uri_service :: "url_parser \<Rightarrow> string list \<Rightarrow> string \<Rightarrow> string option" where
  "uri_service parse domains entry =
     (let trimmed = js_trim entry in
      if \<not> js_startsWith trimmed ''URI:'' then None
      else (case parse (drop (length ''URI:'') trimmed) of
              None \<Rightarrow> None
            | Some (protocol, host, pathname) \<Rightarrow>
                (let normalised = protocol @ ''//'' @ host @ pathname
                 in Option.bind (find (\<lambda>p. serviceOf normalised p \<noteq> None) (map trust_prefix domains)) (serviceOf normalised))))"

definition peerService :: "url_parser \<Rightarrow> string list \<Rightarrow> string option \<Rightarrow> string option" where
  "peerService parse domains subjectAltName =
     (case subjectAltName of
        None \<Rightarrow> None
      | Some san \<Rightarrow>
          if san = [] then None
          else Option.bind (find (\<lambda>e. uri_service parse domains e \<noteq> None) (js_split (CHR '','') san)) (uri_service parse domains))"

section \<open>The interceptor\<close>

datatype PeerVerdict = PassCall | RefuseCall GrpcStatus string

definition peerAuthorizationInterceptor ::
    "url_parser \<Rightarrow> string list \<Rightarrow> PeerAllowList \<Rightarrow> string option \<Rightarrow> string \<Rightarrow> PeerVerdict" where
  "peerAuthorizationInterceptor parse domains allowed subjectAltName method =
     (case peerService parse domains subjectAltName of
        None \<Rightarrow> RefuseCall UNAUTHENTICATED ''a client certificate carrying a SPIFFE id is required''
      | Some service \<Rightarrow>
          if \<not> names_peer allowed service then RefuseCall PERMISSION_DENIED ''this service may not call this server''
          else if \<not> permits allowed service method then RefuseCall PERMISSION_DENIED ''this service may not call that method''
          else PassCall)"

section \<open>Whom a certificate names\<close>

text \<open>
  A name of the certificate identifies a service when it is a URI whose normal form is
  \<^verbatim>\<open>spiffe://<a trusted domain>/service/<the service>\<close>; the certificate names the service of the first
  name that identifies one.
\<close>

definition identifies :: "url_parser \<Rightarrow> string list \<Rightarrow> string \<Rightarrow> string \<Rightarrow> bool" where
  "identifies parse domains entry service \<longleftrightarrow>
     (\<exists>url protocol host pathname domain. js_trim entry = ''URI:'' @ url \<and> parse url = Some (protocol, host, pathname)
        \<and> domain \<in> set domains \<and> protocol @ ''//'' @ host @ pathname = ''spiffe://'' @ domain @ ''/service/'' @ service
        \<and> service \<noteq> [] \<and> CHR ''/'' \<notin> set service)"

definition names_service :: "url_parser \<Rightarrow> string list \<Rightarrow> string option \<Rightarrow> string \<Rightarrow> bool" where
  "names_service parse domains certificate service \<longleftrightarrow>
     (\<exists>san before entry rest. certificate = Some san \<and> js_split (CHR '','') san = before @ entry # rest
        \<and> identifies parse domains entry service \<and> (\<forall>e \<in> set before. \<forall>other. \<not> identifies parse domains e other))"

lemma js_startsWith_append: "js_startsWith s p \<longleftrightarrow> (\<exists>rest. s = p @ rest)"
  by (auto simp: js_startsWith_def) (metis append_take_drop_id)

lemma serviceOf_iff: "serviceOf i prefix = Some x \<longleftrightarrow> i = prefix @ x \<and> x \<noteq> [] \<and> CHR ''/'' \<notin> set x"
  by (auto simp: serviceOf_def js_startsWith_append Let_def)

text \<open>The service is what follows the last slash, so it does not matter which trusted domain matched.\<close>

lemma suffix_unique:
  assumes "xs @ c # u = ys @ c # v" and "c \<notin> set u" and "c \<notin> set v"
  shows "u = v"
proof -
  have last: "takeWhile (\<lambda>x. x \<noteq> c) (rev (zs @ c # r)) = rev r" if "c \<notin> set r" for zs r
  proof -
    have "\<forall>x \<in> set (rev r). x \<noteq> c" using that by auto
    then show ?thesis by (simp, subst takeWhile_append2) auto
  qed
  from last [OF assms(2), of xs] last [OF assms(3), of ys] assms(1) show ?thesis by simp
qed

lemma serviceOf_unique:
  assumes "serviceOf i (trust_prefix d) = Some x" and "serviceOf i (trust_prefix e) = Some y"
  shows "x = y"
proof -
  have "(''spiffe://'' @ d @ ''/service'') @ CHR ''/'' # x = (''spiffe://'' @ e @ ''/service'') @ CHR ''/'' # y"
    using assms by (auto simp: serviceOf_iff trust_prefix_def)
  then show ?thesis by (rule suffix_unique) (use assms in \<open>simp_all add: serviceOf_iff\<close>)
qed

lemma find_service:
  "Option.bind (find (\<lambda>p. serviceOf i p \<noteq> None) (map trust_prefix domains)) (serviceOf i) = Some x
   \<longleftrightarrow> (\<exists>d \<in> set domains. serviceOf i (trust_prefix d) = Some x)"
proof (induction domains)
  case (Cons d ds)
  then show ?case by (cases "serviceOf i (trust_prefix d)") (auto dest: serviceOf_unique)
qed simp

lemma uri_service_iff: "uri_service parse domains entry = Some x \<longleftrightarrow> identifies parse domains entry x"
proof (cases "js_startsWith (js_trim entry) ''URI:''")
  case False
  then have "js_trim entry \<noteq> ''URI:'' @ url" for url by (auto simp: js_startsWith_append)
  with False show ?thesis by (simp add: uri_service_def identifies_def)
next
  case True
  then obtain url where url: "js_trim entry = ''URI:'' @ url" by (auto simp: js_startsWith_append)
  show ?thesis
  proof (cases "parse url")
    case None
    with url True show ?thesis by (simp add: uri_service_def identifies_def)
  next
    case (Some t)
    obtain protocol host pathname where t: "t = (protocol, host, pathname)" by (cases t)
    let ?i = "protocol @ ''//'' @ host @ pathname"
    have "uri_service parse domains entry = Some x \<longleftrightarrow> (\<exists>d \<in> set domains. serviceOf ?i (trust_prefix d) = Some x)"
      unfolding uri_service_def using True url Some t by (simp add: Let_def find_service [symmetric])
    also have "\<dots> \<longleftrightarrow> identifies parse domains entry x"
      unfolding identifies_def serviceOf_iff trust_prefix_def using url Some t by auto
    finally show ?thesis .
  qed
qed

lemma find_bind:
  "Option.bind (find (\<lambda>e. f e \<noteq> None) xs) f = Some y \<longleftrightarrow>
   (\<exists>before x rest. xs = before @ x # rest \<and> f x = Some y \<and> (\<forall>e \<in> set before. f e = None))"
proof (induction xs)
  case (Cons x xs)
  show ?case
  proof (cases "f x")
    case None
    with Cons have "Option.bind (find (\<lambda>e. f e \<noteq> None) (x # xs)) f = Some y \<longleftrightarrow>
        (\<exists>before z rest. xs = before @ z # rest \<and> f z = Some y \<and> (\<forall>e \<in> set before. f e = None))" by simp
    also have "\<dots> \<longleftrightarrow> (\<exists>before z rest. x # xs = before @ z # rest \<and> f z = Some y \<and> (\<forall>e \<in> set before. f e = None))"
      (is "?l \<longleftrightarrow> ?r")
    proof
      assume ?l
      then obtain before z rest where "xs = before @ z # rest" "f z = Some y" "\<forall>e \<in> set before. f e = None" by blast
      with None show ?r by (intro exI [of _ "x # before"] exI [of _ z] exI [of _ rest]) simp
    next
      assume ?r
      then obtain before z rest where split: "x # xs = before @ z # rest" "f z = Some y" "\<forall>e \<in> set before. f e = None" by blast
      with None show ?l by (cases before) auto
    qed
    finally show ?thesis .
  next
    case (Some v)
    have "v = y" if "x # xs = before @ z # rest" "f z = Some y" "\<forall>e \<in> set before. f e = None" for before z rest
      using that Some by (cases before) auto
    moreover have "\<exists>before z rest. x # xs = before @ z # rest \<and> f z = Some v \<and> (\<forall>e \<in> set before. f e = None)"
      using Some by (intro exI [of _ "[]"]) simp
    ultimately show ?thesis using Some by auto
  qed
qed simp

lemma peerService_iff: "peerService parse domains certificate = Some x \<longleftrightarrow> names_service parse domains certificate x"
proof (cases certificate)
  case None
  then show ?thesis by (simp add: peerService_def names_service_def)
next
  case (Some san)
  have none: "uri_service parse domains e = None \<longleftrightarrow> (\<forall>other. \<not> identifies parse domains e other)" for e
    by (metis not_None_eq uri_service_iff)
  have first: "Option.bind (find (\<lambda>e. uri_service parse domains e \<noteq> None) (js_split (CHR '','') san)) (uri_service parse domains) = Some x
      \<longleftrightarrow> names_service parse domains certificate x"
    by (subst find_bind) (simp add: uri_service_iff none names_service_def Some)
  have "\<not> names_service parse domains certificate x" if "san = []"
  proof -
    have "uri_service parse domains [] = None" by (simp add: uri_service_def js_trim_def js_startsWith_def)
    moreover have "js_split (CHR '','') [] = [[]]" by simp
    ultimately show ?thesis unfolding first [symmetric] that by simp
  qed
  with first Some show ?thesis by (auto simp: peerService_def)
qed

section \<open>What the list grants\<close>

text \<open>
  A bare entry for a peer is the peer's name; a scoped one is the peer, an at sign, any slashes, and the scope.
\<close>

definition bare :: "string list \<Rightarrow> string \<Rightarrow> bool" where
  "bare entries peer \<longleftrightarrow> peer \<in> set entries \<and> CHR ''@'' \<notin> set peer"

definition scopes_for :: "string list \<Rightarrow> string \<Rightarrow> string set" where
  "scopes_for entries peer = {scope. CHR ''@'' \<notin> set peer \<and> (scope = [] \<or> hd scope \<noteq> CHR ''/'') \<and>
     (\<exists>n. peer @ ''@'' @ replicate n (CHR ''/'') @ scope \<in> set entries)}"

lemma dropWhile_slash: "\<exists>n. xs = replicate n (CHR ''/'') @ dropWhile is_slash xs"
proof (induction xs)
  case (Cons x xs)
  then obtain n where n: "xs = replicate n (CHR ''/'') @ dropWhile is_slash xs" ..
  show ?case
  proof (cases "is_slash x")
    case True
    with n have "x # xs = replicate (Suc n) (CHR ''/'') @ dropWhile is_slash (x # xs)" by (simp add: is_slash_def)
    then show ?thesis ..
  next
    case False
    then have "x # xs = replicate 0 (CHR ''/'') @ dropWhile is_slash (x # xs)" by simp
    then show ?thesis ..
  qed
qed simp

lemma dropWhile_slashes: "s = [] \<or> hd s \<noteq> CHR ''/'' \<Longrightarrow> dropWhile is_slash (replicate n (CHR ''/'') @ s) = s"
  by (induction n) (cases s; simp add: is_slash_def)+

lemma scoped_entry_iff:
  "scoped_entry e = Some (peer, scope) \<longleftrightarrow>
   CHR ''@'' \<notin> set peer \<and> (scope = [] \<or> hd scope \<noteq> CHR ''/'') \<and> (\<exists>n. e = peer @ ''@'' @ replicate n (CHR ''/'') @ scope)"
  (is "?l \<longleftrightarrow> ?r")
proof
  assume ?l
  then have at: "CHR ''@'' \<in> set e" and p: "peer = takeWhile (\<lambda>c. c \<noteq> CHR ''@'') e"
    and s: "scope = dropWhile is_slash (tl (dropWhile (\<lambda>c. c \<noteq> CHR ''@'') e))"
    by (auto simp: scoped_entry_def split: if_splits)
  from split_list_first [OF at] obtain a r where "e = a @ CHR ''@'' # r" and a: "CHR ''@'' \<notin> set a" by blast
  moreover have "x \<noteq> CHR ''@''" if "x \<in> set a" for x using that a by auto
  ultimately have r: "dropWhile (\<lambda>c. c \<noteq> CHR ''@'') e = CHR ''@'' # r" by (simp add: dropWhile_append2)
  then have "e = peer @ CHR ''@'' # r" using p takeWhile_dropWhile_id [of "\<lambda>c. c \<noteq> CHR ''@''" e] by simp
  moreover obtain n where "r = replicate n (CHR ''/'') @ scope" using dropWhile_slash [of r] s r by auto
  moreover have "CHR ''@'' \<notin> set peer" using p by (auto dest: set_takeWhileD)
  moreover have "scope = [] \<or> hd scope \<noteq> CHR ''/''" using s hd_dropWhile [of is_slash] by (auto simp: is_slash_def)
  ultimately show ?r by auto
next
  assume ?r
  then obtain n where peer: "CHR ''@'' \<notin> set peer" and scope: "scope = [] \<or> hd scope \<noteq> CHR ''/''"
    and e: "e = peer @ ''@'' @ replicate n (CHR ''/'') @ scope" by blast
  have ne: "x \<noteq> CHR ''@''" if "x \<in> set peer" for x using that peer by auto
  have "takeWhile (\<lambda>c. c \<noteq> CHR ''@'') e = peer"
    and "dropWhile (\<lambda>c. c \<noteq> CHR ''@'') e = CHR ''@'' # replicate n (CHR ''/'') @ scope"
    unfolding e by (simp_all add: takeWhile_append2 dropWhile_append2 ne)
  with e scope show ?l by (simp add: scoped_entry_def dropWhile_slashes)
qed

lemma bare_scoped: "bare entries peer \<longleftrightarrow> (\<exists>e \<in> set entries. scoped_entry e = None \<and> e = peer)"
  by (auto simp: bare_def scoped_entry_def)

lemma scopes_for_scoped: "scopes_for entries peer = {scope. \<exists>e \<in> set entries. scoped_entry e = Some (peer, scope)}"
  unfolding scopes_for_def scoped_entry_iff by blast

definition added :: "string set option option \<Rightarrow> bool \<Rightarrow> string set \<Rightarrow> string set option option" where
  "added before anything scopes =
     (if anything \<or> before = Some None then Some None
      else if scopes = {} then before
      else Some (Some ((case before of Some (Some s) \<Rightarrow> s | _ \<Rightarrow> {}) \<union> scopes)))"

lemma grant_entries_spec:
  "grant_entries entries grants = Inr g \<Longrightarrow> g peer = added (grants peer) (bare entries peer) (scopes_for entries peer)"
proof (induction entries arbitrary: grants)
  case Nil
  then show ?case by (simp add: added_def bare_scoped scopes_for_scoped)
next
  case (Cons e es)
  show ?case
  proof (cases "scoped_entry e")
    case None
    with Cons.prems have run: "grant_entries es (grants(e \<mapsto> None)) = Inr g" by simp
    have "bare (e # es) peer \<longleftrightarrow> e = peer \<or> bare es peer" "scopes_for (e # es) peer = scopes_for es peer"
      using None by (auto simp: bare_scoped scopes_for_scoped)
    with Cons.IH [OF run] show ?thesis by (auto simp: added_def)
  next
    case (Some ps)
    obtain p s where ps: "ps = (p, s)" by fastforce
    let ?g = "grants(p \<mapsto> (case grants p of None \<Rightarrow> Some {s} | Some None \<Rightarrow> None | Some (Some scopes) \<Rightarrow> Some (insert s scopes)))"
    from Cons.prems Some ps have run: "grant_entries es ?g = Inr g" by (simp split: if_splits)
    have "bare (e # es) peer \<longleftrightarrow> bare es peer" "scopes_for (e # es) peer = (if p = peer then {s} else {}) \<union> scopes_for es peer"
      using Some ps by (auto simp: bare_scoped scopes_for_scoped)
    with Cons.IH [OF run] show ?thesis by (auto simp: added_def split: option.splits)
  qed
qed

text \<open>
  C32. The allow list grants what its entries say, in whatever order they stand. When the setting parses, a call
  passes the interceptor exactly if the first name of the certificate that is a URI
  \<^verbatim>\<open>spiffe://<domain>/service/<service>\<close> of a trusted domain names a service for which the setting has a bare
  entry, or an entry scoped to the method or to its gRPC service, or any scoped entry at all when the call is to
  the reflection service.
\<close>

theorem mesh_call_needs_a_grant:
  assumes "parsePeerAllowList setting = Inr allowed"
  shows "peerAuthorizationInterceptor parse domains allowed certificate method = PassCall \<longleftrightarrow>
    (\<exists>peer. names_service parse domains certificate peer \<and>
       (bare (allow_entries setting) peer
        \<or> called_method method \<in> scopes_for (allow_entries setting) peer
        \<or> called_service method \<in> scopes_for (allow_entries setting) peer
        \<or> called_service method \<in> set SCHEMA_SERVICES \<and> scopes_for (allow_entries setting) peer \<noteq> {}))"
proof -
  have g: "allowed peer = (if bare (allow_entries setting) peer then Some None
      else if scopes_for (allow_entries setting) peer = {} then None else Some (Some (scopes_for (allow_entries setting) peer)))" for peer
    using grant_entries_spec [of "allow_entries setting" Map.empty allowed peer] assms by (simp add: parsePeerAllowList_def added_def)
  show ?thesis
    unfolding peerService_iff [symmetric]
    by (auto simp: peerAuthorizationInterceptor_def names_peer_def permits_def g split: option.splits if_splits)
qed

theorem mesh_call_needs_a_grant_witness:
  "peerAuthorizationInterceptor (\<lambda>u. Some (''spiffe:'', ''kinetix.local'', ''/service/order'')) [''kinetix.local'']
     (the (map_option id (case parsePeerAllowList ''order@identity.v1.IdentityService'' of Inr g \<Rightarrow> Some g | Inl _ \<Rightarrow> None)))
     (Some ''URI:spiffe://kinetix.local/service/order'') ''/identity.v1.IdentityService/ValidateToken'' = PassCall"
proof -
  let ?parse = "\<lambda>u::string. Some (''spiffe:'', ''kinetix.local'', ''/service/order'')"
  let ?s = "''order@identity.v1.IdentityService''" and ?m = "''/identity.v1.IdentityService/ValidateToken''"
  have entries: "allow_entries ?s = [?s]" "scoped_entry ?s = Some (''order'', ''identity.v1.IdentityService'')" by code_simp+
  then have parsed: "parsePeerAllowList ?s = Inr [''order'' \<mapsto> Some {''identity.v1.IdentityService''}]"
    by (simp add: parsePeerAllowList_def)
  have "peerService ?parse [''kinetix.local''] (Some ''URI:spiffe://kinetix.local/service/order'') = Some ''order''" by code_simp
  then have who: "names_service ?parse [''kinetix.local''] (Some ''URI:spiffe://kinetix.local/service/order'') ''order''"
    by (simp only: peerService_iff)
  have "called_service ?m = ''identity.v1.IdentityService''" by code_simp
  then have "called_service ?m \<in> scopes_for (allow_entries ?s) ''order''" using entries by (simp add: scopes_for_scoped)
  with mesh_call_needs_a_grant [OF parsed, of ?parse "[''kinetix.local'']" "Some ''URI:spiffe://kinetix.local/service/order''" ?m] who
  have "peerAuthorizationInterceptor ?parse [''kinetix.local''] [''order'' \<mapsto> Some {''identity.v1.IdentityService''}]
      (Some ''URI:spiffe://kinetix.local/service/order'') ?m = PassCall" by blast
  then show ?thesis by (simp add: parsed)
qed

end
