(* ===== verification/Startup.thy ===== *)
theory Startup
  imports Shutdown Observability Mesh
begin

text \<open>
  How the process starts (\<^verbatim>\<open>main.ts\<close>, the database settings of \<^verbatim>\<open>app.module.ts\<close> and \<^verbatim>\<open>data-source.ts\<close>, the files of
  \<^verbatim>\<open>infrastructure/mesh/service_identity.ts\<close>, the version of \<^verbatim>\<open>build_identity.ts\<close>) and what it answers about its health
  (\<^verbatim>\<open>health.controller.ts\<close>). The environment is a function from names to values, the file system a function from
  paths to contents; a path is the list of its segments. Creating the application (dependency injection) and opening
  the sockets belong to the framework.
\<close>

section \<open>The version of the build\<close>

definition SERVICE_NAME :: string where "SERVICE_NAME = ''kinetix-identity-service''"
definition UNKNOWN_VERSION :: string where "UNKNOWN_VERSION = ''unknown''"
definition MAX_ASCENT :: nat where "MAX_ASCENT = 6"

text \<open>A manifest as parsed: \<^const>\<open>None\<close> when it cannot be read or parsed.\<close>

definition versionOfManifest :: "json option \<Rightarrow> string option" where
  "versionOfManifest parsed =
     (case parsed of
        Some (JObj members) \<Rightarrow>
          if map_of members ''name'' \<noteq> Some (JStr SERVICE_NAME) then None
          else (case map_of members ''version'' of
                  Some (JStr v) \<Rightarrow> if v = [] then None else Some v
                | _ \<Rightarrow> None)
      | _ \<Rightarrow> None)"

fun ascend :: "(string list \<Rightarrow> json option) \<Rightarrow> nat \<Rightarrow> string list \<Rightarrow> string option" where
  "ascend manifest 0 directory = None"
| "ascend manifest (Suc n) directory =
     (case versionOfManifest (manifest directory) of
        Some version \<Rightarrow> Some version
      | None \<Rightarrow> if directory = [] then None else ascend manifest n (butlast directory))"

definition resolveVersion :: "string option \<Rightarrow> (string list \<Rightarrow> json option) \<Rightarrow> string list \<Rightarrow> string" where
  "resolveVersion declared_version manifest start =
     (case map_option js_trim declared_version of
        Some v \<Rightarrow>
          if v \<noteq> [] then v
          else (case ascend manifest MAX_ASCENT start of Some version \<Rightarrow> version | None \<Rightarrow> UNKNOWN_VERSION)
      | None \<Rightarrow> (case ascend manifest MAX_ASCENT start of Some version \<Rightarrow> version | None \<Rightarrow> UNKNOWN_VERSION))"

lemma versionOfManifest_Some: "versionOfManifest p = Some v \<Longrightarrow> v \<noteq> []"
  by (auto simp: versionOfManifest_def split: option.splits json.splits if_splits)

lemma ascend_Some: "ascend manifest n d = Some v \<Longrightarrow> v \<noteq> []"
  by (induction n arbitrary: d) (auto dest: versionOfManifest_Some split: option.splits if_splits)

lemma version_never_empty: "resolveVersion declared_version manifest start \<noteq> []"
  by (auto simp: resolveVersion_def UNKNOWN_VERSION_def dest: ascend_Some split: option.split)

section \<open>The files of the service identity\<close>

record ServiceIdentityFiles =
  si_cert :: string
  si_key :: string
  si_ca :: string

definition DEFAULT_PKI_DIR :: string where "DEFAULT_PKI_DIR = ''/pki''"

definition loadServiceIdentity ::
    "(string \<Rightarrow> string \<Rightarrow> string option) \<Rightarrow> string option \<Rightarrow> string option \<Rightarrow> failure + ServiceIdentityFiles" where
  "loadServiceIdentity files directory pki_dir =
     (let dir = (case directory of Some d \<Rightarrow> d | None \<Rightarrow> (case pki_dir of Some d \<Rightarrow> d | None \<Rightarrow> DEFAULT_PKI_DIR));
          missing = (\<lambda>name. Inl (PlainError (name @ '' is missing from '' @ dir)))
      in case files dir ''tls.crt'' of None \<Rightarrow> missing ''tls.crt'' | Some cert \<Rightarrow>
        (case files dir ''tls.key'' of None \<Rightarrow> missing ''tls.key'' | Some key \<Rightarrow>
        (case files dir ''ca.pem'' of None \<Rightarrow> missing ''ca.pem'' | Some ca \<Rightarrow>
           Inr \<lparr>si_cert = cert, si_key = key, si_ca = ca\<rparr>)))"

section \<open>The database settings\<close>

record DatabaseSettings =
  db_host :: string
  db_port :: nat
  db_username :: string
  db_password :: string
  db_database :: string

definition databaseSettings :: "(string \<Rightarrow> string option) \<Rightarrow> failure + DatabaseSettings" where
  "databaseSettings env =
     (case requiredSetting ''DB_HOST'' (env ''DB_HOST'') of Inl e \<Rightarrow> Inl e | Inr host \<Rightarrow>
     (case positiveIntegerSetting ''DB_PORT'' (env ''DB_PORT'') of Inl e \<Rightarrow> Inl e | Inr port \<Rightarrow>
     (case requiredSetting ''DB_USERNAME'' (env ''DB_USERNAME'') of Inl e \<Rightarrow> Inl e | Inr username \<Rightarrow>
     (case requiredSetting ''DB_PASSWORD'' (env ''DB_PASSWORD'') of Inl e \<Rightarrow> Inl e | Inr password \<Rightarrow>
     (case requiredSetting ''DB_DATABASE'' (env ''DB_DATABASE'') of Inl e \<Rightarrow> Inl e | Inr database \<Rightarrow>
        Inr \<lparr>db_host = host, db_port = port, db_username = username, db_password = password, db_database = database\<rparr>)))))"

section \<open>Starting\<close>

record Started =
  st_graceSeconds :: rat
  st_port :: nat
  st_levels :: "LogLevel list"
  st_grpcPort :: string
  st_identity :: ServiceIdentityFiles
  st_allowed :: PeerAllowList

text \<open>
  \<^verbatim>\<open>bootstrap\<close> up to the two sockets. \<^term>\<open>create\<close> is what building the application gives, which fails when a
  provider's settings do (the database's, the signing keys', the client registry's).
\<close>

definition bootstrap ::
    "(string \<Rightarrow> string option) \<Rightarrow> (string \<Rightarrow> string \<Rightarrow> string option) \<Rightarrow> (failure + unit) \<Rightarrow> failure + Started" where
  "bootstrap env files create =
     (case graceSecondsFrom (env ''SHUTDOWN_GRACE_SECONDS'') of Inl e \<Rightarrow> Inl e | Inr graceSeconds \<Rightarrow>
     (case positiveIntegerSetting ''PORT'' (env ''PORT'') of Inl e \<Rightarrow> Inl e | Inr port \<Rightarrow>
     (case logLevelsFrom (env ''LOG_LEVEL'') of Inl e \<Rightarrow> Inl e | Inr levels \<Rightarrow>
     (case create of Inl e \<Rightarrow> Inl e | Inr _ \<Rightarrow>
       (let grpcPort = (case env ''GRPC_PORT'' of None \<Rightarrow> [] | Some p \<Rightarrow> p) in
        if grpcPort = [] then Inl (PlainError ''GRPC_PORT must be set'')
        else
     (case loadServiceIdentity files None (env ''KINETIX_PKI_DIR'') of Inl e \<Rightarrow> Inl e | Inr identity \<Rightarrow>
     (case allowedCallers (env ''GRPC_ALLOWED_CALLERS'') of Inl e \<Rightarrow> Inl e | Inr allowed \<Rightarrow>
        Inr \<lparr>st_graceSeconds = graceSeconds, st_port = port, st_levels = levels, st_grpcPort = grpcPort, st_identity = identity,
             st_allowed = allowed\<rparr>)))))))"

lemma positive_setting: "positiveIntegerSetting name v = Inr n \<Longrightarrow> 0 < n"
  by (auto simp: positiveIntegerSetting_def Let_def split: sum.splits if_splits)

text \<open>
  A process that starts has a positive grace period and port, logs errors, and answers only the callers of an allow
  list that is there.
\<close>

theorem started_process_is_configured:
  assumes "bootstrap env files create = Inr s"
  shows "0 < st_graceSeconds s \<and> 0 < st_port s \<and> LError \<in> set (st_levels s) \<and> st_grpcPort s \<noteq> []
     \<and> allowedCallers (env ''GRPC_ALLOWED_CALLERS'') = Inr (st_allowed s)
     \<and> (\<exists>dir. files dir ''tls.crt'' = Some (si_cert (st_identity s)) \<and> files dir ''tls.key'' = Some (si_key (st_identity s))
         \<and> files dir ''ca.pem'' = Some (si_ca (st_identity s)))"
  using assms
  by (auto simp: bootstrap_def loadServiceIdentity_def Let_def dest: positive_setting grace_positive errors_always_logged
      split: sum.splits if_splits option.splits)

section \<open>Health\<close>

datatype HealthReport = AliveReport | ReadyReport | UnavailableReport

definition health_live :: HealthReport where
  "health_live = AliveReport"

definition health_ready :: "(failure + unit) \<Rightarrow> HealthReport" where
  "health_ready query = (case query of Inl e \<Rightarrow> UnavailableReport | Inr _ \<Rightarrow> ReadyReport)"

section \<open>The methods of a contract\<close>

fun object_values :: "json \<Rightarrow> json list" where
  "object_values (JObj members) = map snd members"
| "object_values (JArr items) = items"
| "object_values _ = []"

fun path_of :: "json \<Rightarrow> string list" where
  "path_of (JObj members) =
     (case map_of members ''path'' of
        Some (JStr path) \<Rightarrow> if js_startsWith path ''/'' then [path] else []
      | _ \<Rightarrow> [])"
| "path_of _ = []"

definition grpcMethodPathsOf :: "json \<Rightarrow> string list" where
  "grpcMethodPathsOf packageDefinition =
     concat (map (\<lambda>definition. concat (map path_of (object_values definition))) (object_values packageDefinition))"

definition onLoadPackageDefinition :: "json \<Rightarrow> Metrics \<Rightarrow> Metrics" where
  "onLoadPackageDefinition pkg m = foldl (\<lambda>m path. declareGrpcMethod path m) m (grpcMethodPathsOf pkg)"

lemma declared_methods:
  "dom (mt_grpcServerCalls (foldl (\<lambda>m path. declareGrpcMethod path m) m paths)) =
     dom (mt_grpcServerCalls m) \<union> (\<lambda>path. [path, ''OK'']) ` set paths"
  by (induction paths arbitrary: m) (auto simp: declareGrpcMethod_def dom_inc)

text \<open>Every method of the contract has a series from the start, before any call.\<close>

lemma methods_have_series:
  "path \<in> set (grpcMethodPathsOf pkg) \<Longrightarrow> mt_grpcServerCalls (onLoadPackageDefinition pkg m) [path, ''OK''] \<noteq> None"
  using declared_methods [of m "grpcMethodPathsOf pkg"] by (auto simp: onLoadPackageDefinition_def)

end
