(* ===== verification/Request_Bodies.thy ===== *)
theory Request_Bodies
  imports Access_Control
begin

text \<open>
  What a caller may send: the request classes (\<^verbatim>\<open>application/dto/*.dto.ts\<close>) as lists of members with the rules their
  decorators declare, the pipe that checks a body against its class (\<^verbatim>\<open>infrastructure/http/http_pipeline.ts\<close>:
  whitelist, unknown members forbidden), and the call a checked body becomes. The rules themselves are class-validator's:
  \<open>library\<close> says which hold of a value, and \<open>documented\<close> is what its documentation promises of those used here. The
  regular expressions are the repository's own and are written out. A body is an object, given by its members.
\<close>

section \<open>Rules and members\<close>

datatype Pattern = PhonePattern | CodePattern | NotBlankPattern | InstantPattern

datatype Rule =
    IsString | IsNotEmpty | MinLength nat | MaxLength nat | IsByteLength nat nat | IsEmail | IsInt | Min int | Max int
  | IsIn "string list" | IsUUID | IsObject | IsISO8601 | IsUrl | Matches Pattern

text \<open>What a member can be when its rules are checked: not sent, not a number, or a value.\<close>

datatype member = Undefined | NotANumber | Sent json

datatype Presence = Always | WhenSent | WhenPresent

datatype Transform = AsSent | DecimalInteger

record Field =
  fd_name :: string
  fd_presence :: Presence
  fd_transform :: Transform
  fd_rules :: "Rule list"

definition field :: "string \<Rightarrow> Rule list \<Rightarrow> Field" where
  "field name rules = \<lparr>fd_name = name, fd_presence = Always, fd_transform = AsSent, fd_rules = rules\<rparr>"

text \<open>\<^verbatim>\<open>@ValidateIf(isSent)\<close> and \<^verbatim>\<open>@IsOptional()\<close>.\<close>

definition if_sent :: "string \<Rightarrow> Rule list \<Rightarrow> Field" where
  "if_sent name rules = (field name rules)\<lparr>fd_presence := WhenSent\<rparr>"

definition optional :: "string \<Rightarrow> Rule list \<Rightarrow> Field" where
  "optional name rules = (field name rules)\<lparr>fd_presence := WhenPresent\<rparr>"

definition optional_integer :: "string \<Rightarrow> Rule list \<Rightarrow> Field" where
  "optional_integer name rules = (optional name rules)\<lparr>fd_transform := DecimalInteger\<rparr>"

section \<open>The regular expressions\<close>

definition digits_then :: "nat \<Rightarrow> string \<Rightarrow> (nat \<times> string) option" where
  "digits_then n s =
     (if length (take n s) = n \<and> list_all is_digit (take n s) then Some (digits_value (take n s), drop n s) else None)"

fun char_then :: "char \<Rightarrow> string \<Rightarrow> string option" where
  "char_then c (x # s) = (if x = c then Some s else None)"
| "char_then c [] = None"

text \<open>An instant: its date, its time of day in milliseconds and its offset from UTC in minutes.\<close>

record Instant =
  in_year :: nat
  in_month :: nat
  in_day :: nat
  in_ms :: int
  in_offset :: int

fun zone_of :: "string \<Rightarrow> int option" where
  "zone_of (c # s) =
     (if c = CHR ''Z'' then (if s = [] then Some 0 else None)
      else if c = CHR ''+'' \<or> c = CHR ''-'' then
        Option.bind (digits_then 2 s) (\<lambda>(hours, r). Option.bind (char_then (CHR '':'') r) (\<lambda>r.
        Option.bind (digits_then 2 r) (\<lambda>(minutes, r).
          if r = [] then Some ((if c = CHR ''-'' then -1 else 1) * int (hours * 60 + minutes)) else None)))
      else None)"
| "zone_of [] = None"

text \<open>The optional seconds with their optional fraction: milliseconds, and the text after them.\<close>

definition seconds_of :: "string \<Rightarrow> int \<times> string" where
  "seconds_of s =
     (case Option.bind (char_then (CHR '':'') s) (digits_then 2) of
        None \<Rightarrow> (0, s)
      | Some (seconds, r) \<Rightarrow>
          (case char_then (CHR ''.'') r of
             None \<Rightarrow> (int (seconds * 1000), r)
           | Some f \<Rightarrow>
               (let frac = takeWhile is_digit f in
                if frac = [] \<or> 3 < length frac then (int (seconds * 1000), r)
                else (int (seconds * 1000 + digits_value frac * 10 ^ (3 - length frac)), drop (length frac) f))))"

definition instant_of :: "string \<Rightarrow> Instant option" where
  "instant_of s =
     Option.bind (digits_then 4 s) (\<lambda>(year, r). Option.bind (char_then (CHR ''-'') r) (\<lambda>r.
     Option.bind (digits_then 2 r) (\<lambda>(month, r). Option.bind (char_then (CHR ''-'') r) (\<lambda>r.
     Option.bind (digits_then 2 r) (\<lambda>(day, r). Option.bind (char_then (CHR ''T'') r) (\<lambda>r.
     Option.bind (digits_then 2 r) (\<lambda>(hour, r). Option.bind (char_then (CHR '':'') r) (\<lambda>r.
     Option.bind (digits_then 2 r) (\<lambda>(minute, r).
       (case seconds_of r of (ms, r) \<Rightarrow>
          map_option (\<lambda>offset. \<lparr>in_year = year, in_month = month, in_day = day,
            in_ms = int ((hour * 60 + minute) * 60000) + ms, in_offset = offset\<rparr>) (zone_of r)))))))))))"

fun matches :: "Pattern \<Rightarrow> string \<Rightarrow> bool" where
  "matches PhonePattern s \<longleftrightarrow>
     (let t = (case char_then (CHR ''+'') s of None \<Rightarrow> s | Some r \<Rightarrow> r) in list_all is_digit t \<and> 8 \<le> length t \<and> length t \<le> 15)"
| "matches CodePattern s \<longleftrightarrow>
     (let t = dropWhile js_space s in length (take 6 t) = 6 \<and> list_all is_digit (take 6 t) \<and> list_all js_space (drop 6 t))"
| "matches NotBlankPattern s \<longleftrightarrow> list_ex (\<lambda>c. \<not> js_space c) s"
| "matches InstantPattern s \<longleftrightarrow> instant_of s \<noteq> None"

section \<open>The request classes\<close>

definition LONGEST_PASSKEY_NAME :: nat where "LONGEST_PASSKEY_NAME = 64"

definition LoginInputDto :: "Field list" where
  "LoginInputDto =
     [field ''email'' [IsEmail, IsNotEmpty, MaxLength 254], field ''password'' [IsString, IsNotEmpty, MinLength 6, MaxLength 1024]]"

definition RegisterUserInputDto :: "Field list" where
  "RegisterUserInputDto =
     [field ''email'' [IsEmail, IsNotEmpty, MaxLength 254],
      field ''password'' [IsString, IsNotEmpty, MinLength 12, IsByteLength 0 72]]"

definition TwoFactorVerifyInputDto :: "Field list" where
  "TwoFactorVerifyInputDto =
     [field ''challengeToken'' [IsString, IsNotEmpty, MaxLength 4096], field ''code'' [IsString, IsNotEmpty, Matches CodePattern]]"

definition RefreshInputDto :: "Field list" where
  "RefreshInputDto = [field ''refreshToken'' [IsString, IsNotEmpty, MaxLength 4096]]"

definition LogoutInputDto :: "Field list" where
  "LogoutInputDto = [if_sent ''refreshToken'' [IsString, IsNotEmpty, MaxLength 4096]]"

definition TwoFactorSetupInputDto :: "Field list" where
  "TwoFactorSetupInputDto = [if_sent ''password'' [IsString, IsNotEmpty, MaxLength 1024]]"

definition TwoFactorEnableInputDto :: "Field list" where
  "TwoFactorEnableInputDto =
     [field ''code'' [IsString, IsNotEmpty, Matches CodePattern], if_sent ''password'' [IsString, IsNotEmpty, MaxLength 1024]]"

definition TwoFactorDisableInputDto :: "Field list" where
  "TwoFactorDisableInputDto =
     [field ''code'' [IsString, IsNotEmpty, Matches CodePattern], field ''password'' [IsString, IsNotEmpty, MaxLength 1024]]"

definition PasskeyOptionsInputDto :: "Field list" where
  "PasskeyOptionsInputDto = [field ''challengeToken'' [IsString, IsNotEmpty, MaxLength 4096]]"

definition PasskeyVerifyInputDto :: "Field list" where
  "PasskeyVerifyInputDto =
     [field ''challengeToken'' [IsString, IsNotEmpty, MaxLength 4096], field ''credential'' [IsObject]]"

definition PasskeyRegistrationOptionsInputDto :: "Field list" where
  "PasskeyRegistrationOptionsInputDto = [field ''password'' [IsString, IsNotEmpty, MaxLength 1024]]"

definition PasskeyRegistrationInputDto :: "Field list" where
  "PasskeyRegistrationInputDto =
     [field ''challengeId'' [IsUUID], field ''name'' [IsString, Matches NotBlankPattern, MaxLength LONGEST_PASSKEY_NAME],
      field ''credential'' [IsObject]]"

definition PasskeyRemovalInputDto :: "Field list" where
  "PasskeyRemovalInputDto = [field ''password'' [IsString, IsNotEmpty, MaxLength 1024]]"

definition RegisterCourierInputDto :: "Field list" where
  "RegisterCourierInputDto =
     [field ''email'' [IsEmail, IsNotEmpty, MaxLength 254],
      field ''password'' [IsString, IsNotEmpty, MinLength 12, IsByteLength 0 72],
      field ''fullName'' [IsString, IsNotEmpty, MinLength 2, MaxLength 120],
      field ''phoneNumber'' [IsString, Matches PhonePattern],
      field ''vehiclePlate'' [IsString, IsNotEmpty, MaxLength 20],
      field ''capacityKg'' [IsInt, Min 1, Max 5000]]"

definition ListCourierApplicationsQueryDto :: "Field list" where
  "ListCourierApplicationsQueryDto =
     [optional ''status'' [IsIn [''pending'', ''approved'', ''rejected'']],
      optional_integer ''limit'' [IsInt, Min 1, Max 200], optional_integer ''after'' [IsInt, Min 0, Max 2147483647]]"

definition ListSellerApplicationsQueryDto :: "Field list" where
  "ListSellerApplicationsQueryDto =
     [optional ''status'' [IsIn [''pending'', ''verified'', ''rejected'']],
      optional_integer ''limit'' [IsInt, Min 1, Max 200], optional_integer ''after'' [IsInt, Min 0, Max 2147483647]]"

definition ApplicationTallyQueryDto :: "Field list" where
  "ApplicationTallyQueryDto = [field ''since'' [IsString, IsNotEmpty, Matches InstantPattern, IsISO8601]]"

definition OnboardSellerInputDto :: "Field list" where
  "OnboardSellerInputDto =
     [field ''storeName'' [IsString, IsNotEmpty, MaxLength 120],
      field ''businessRegistrationNumber'' [IsString, IsNotEmpty, MaxLength 64],
      field ''taxId'' [IsString, IsNotEmpty, MaxLength 32],
      field ''streetAddress'' [IsString, IsNotEmpty, MaxLength 255],
      field ''city'' [IsString, IsNotEmpty, MaxLength 100],
      field ''postalCode'' [IsString, IsNotEmpty, MaxLength 16]]"

definition UpdateProfileInputDto :: "Field list" where
  "UpdateProfileInputDto =
     [if_sent ''fullName'' [IsString, MaxLength 120],
      if_sent ''phoneNumber'' [IsString, Matches PhonePattern],
      if_sent ''streetAddress'' [IsString, MaxLength 255],
      if_sent ''city'' [IsString, MaxLength 100],
      if_sent ''postalCode'' [IsString, MaxLength 16],
      optional ''avatarUrl'' [IsUrl, MaxLength 2048]]"

section \<open>The pipe\<close>

definition member_of :: "(string \<times> json) list \<Rightarrow> string \<Rightarrow> member" where
  "member_of body name = (case map_of body name of None \<Rightarrow> Undefined | Some v \<Rightarrow> Sent v)"

fun transformed :: "Transform \<Rightarrow> member \<Rightarrow> member" where
  "transformed DecimalInteger (Sent (JStr s)) =
     (case decimalInteger s of None \<Rightarrow> NotANumber | Some n \<Rightarrow> Sent (JNum (of_nat n)))"
| "transformed _ v = v"

definition skipped :: "Presence \<Rightarrow> member \<Rightarrow> bool" where
  "skipped p v \<longleftrightarrow> (case p of Always \<Rightarrow> False | WhenSent \<Rightarrow> v = Undefined | WhenPresent \<Rightarrow> v = Undefined \<or> v = Sent JNull)"

definition value_of :: "(string \<times> json) list \<Rightarrow> Field \<Rightarrow> member" where
  "value_of body f = transformed (fd_transform f) (member_of body (fd_name f))"

definition field_ok :: "(Rule \<Rightarrow> member \<Rightarrow> bool) \<Rightarrow> (string \<times> json) list \<Rightarrow> Field \<Rightarrow> bool" where
  "field_ok library body f \<longleftrightarrow>
     skipped (fd_presence f) (value_of body f) \<or> list_all (\<lambda>rule. library rule (value_of body f)) (fd_rules f)"

definition validationPipe :: "(Rule \<Rightarrow> member \<Rightarrow> bool) \<Rightarrow> Field list \<Rightarrow> (string \<times> json) list \<Rightarrow> failure + unit" where
  "validationPipe library dto body =
     (if list_all (\<lambda>(name, _). name \<in> set (map fd_name dto)) body \<and> list_all (field_ok library body) dto then Inr ()
      else Inl (BadRequestException ''Bad Request Exception''))"

text \<open>The length of a text in bytes of UTF-8.\<close>

definition byte_length :: "string \<Rightarrow> nat" where
  "byte_length s = sum_list (map (\<lambda>c. if code_of c < 128 then 1 else 2) s)"

definition documented :: "(Rule \<Rightarrow> member \<Rightarrow> bool) \<Rightarrow> bool" where
  "documented library \<longleftrightarrow>
     (\<forall>v. library IsString v \<longleftrightarrow> (\<exists>s. v = Sent (JStr s)))
   \<and> (\<forall>v. library IsNotEmpty v \<longleftrightarrow> v \<noteq> Undefined \<and> v \<noteq> Sent JNull \<and> v \<noteq> Sent (JStr []))
   \<and> (\<forall>n v. library (MinLength n) v \<longleftrightarrow> (\<exists>s. v = Sent (JStr s) \<and> n \<le> length s))
   \<and> (\<forall>n v. library (MaxLength n) v \<longleftrightarrow> (\<exists>s. v = Sent (JStr s) \<and> length s \<le> n))
   \<and> (\<forall>a b v. library (IsByteLength a b) v \<longleftrightarrow> (\<exists>s. v = Sent (JStr s) \<and> a \<le> byte_length s \<and> byte_length s \<le> b))
   \<and> (\<forall>p v. library (Matches p) v \<longleftrightarrow> (\<exists>s. v = Sent (JStr s) \<and> matches p s))
   \<and> (\<forall>xs v. library (IsIn xs) v \<longleftrightarrow> (\<exists>s \<in> set xs. v = Sent (JStr s)))
   \<and> (\<forall>v. library IsInt v \<longleftrightarrow> (\<exists>n. v = Sent (JNum (of_int n))))
   \<and> (\<forall>n v. library (Min n) v \<longleftrightarrow> (\<exists>q. v = Sent (JNum q) \<and> of_int n \<le> q))
   \<and> (\<forall>n v. library (Max n) v \<longleftrightarrow> (\<exists>q. v = Sent (JNum q) \<and> q \<le> of_int n))
   \<and> (\<forall>v. library IsObject v \<longleftrightarrow> (\<exists>members. v = Sent (JObj members)))
   \<and> (\<forall>rule v. rule \<in> {IsEmail, IsUUID, IsISO8601, IsUrl} \<longrightarrow> library rule v \<longrightarrow> (\<exists>s. v = Sent (JStr s)))"

section \<open>From a body to a call\<close>

definition text_of :: "(string \<times> json) list \<Rightarrow> string \<Rightarrow> string option" where
  "text_of body name = (case map_of body name of Some (JStr s) \<Rightarrow> Some s | _ \<Rightarrow> None)"

definition text_at :: "(string \<times> json) list \<Rightarrow> string \<Rightarrow> string" where
  "text_at body name = (case text_of body name of None \<Rightarrow> [] | Some s \<Rightarrow> s)"

definition json_of :: "(string \<times> json) list \<Rightarrow> string \<Rightarrow> json" where
  "json_of body name = (case map_of body name of None \<Rightarrow> JNull | Some v \<Rightarrow> v)"

definition integer_of :: "(string \<times> json) list \<Rightarrow> string \<Rightarrow> nat option" where
  "integer_of body name = (case transformed DecimalInteger (member_of body name) of Sent (JNum q) \<Rightarrow> Some (nat \<lfloor>q\<rfloor>) | _ \<Rightarrow> None)"

text \<open>\<^verbatim>\<open>new Date(since)\<close>: days of the Gregorian calendar since 1970-01-01, in milliseconds.\<close>

definition days_of_civil :: "int \<Rightarrow> int \<Rightarrow> int \<Rightarrow> int" where
  "days_of_civil year month day =
     (let y = (if month \<le> 2 then year - 1 else year); era = y div 400; yoe = y mod 400;
          doy = (153 * ((month + 9) mod 12) + 2) div 5 + day - 1
      in era * 146097 + yoe * 365 + yoe div 4 - yoe div 100 + doy - 719468)"

definition epoch_ms :: "Instant \<Rightarrow> int" where
  "epoch_ms i = days_of_civil (int (in_year i)) (int (in_month i)) (int (in_day i)) * 86400000 + in_ms i - in_offset i * 60000"

definition since_of :: "(string \<times> json) list \<Rightarrow> int" where
  "since_of body = (case instant_of (text_at body ''since'') of None \<Rightarrow> 0 | Some i \<Rightarrow> epoch_ms i)"

definition courier_status_of :: "(string \<times> json) list \<Rightarrow> CourierApplicationStatus option" where
  "courier_status_of body =
     (case text_of body ''status'' of
        None \<Rightarrow> None
      | Some s \<Rightarrow> Some (if s = ''pending'' then CPending else if s = ''approved'' then CApproved else CRejected))"

definition seller_status_of :: "(string \<times> json) list \<Rightarrow> SellerApplicationStatus option" where
  "seller_status_of body =
     (case text_of body ''status'' of
        None \<Rightarrow> None
      | Some s \<Rightarrow> Some (if s = ''pending'' then SPending else if s = ''verified'' then SVerified else SRejected))"

datatype Endpoint =
    PostLogin | PostTwoFactorVerify | PostRegister | PostRefresh | PostLogout | PostTwoFactorSetup | PostTwoFactorEnable
  | PostTwoFactorDisable | PostPasskeyOptions | PostPasskeyVerify | PostPasskeyRegistrationOptions | PostPasskey | DeletePasskey
  | PostCourier | GetCourierApplications | GetCourierTally | GetSellerApplications | GetSellerTally | PostSeller | PutProfile

fun dto_of :: "Endpoint \<Rightarrow> Field list" where
  "dto_of PostLogin = LoginInputDto"
| "dto_of PostTwoFactorVerify = TwoFactorVerifyInputDto"
| "dto_of PostRegister = RegisterUserInputDto"
| "dto_of PostRefresh = RefreshInputDto"
| "dto_of PostLogout = LogoutInputDto"
| "dto_of PostTwoFactorSetup = TwoFactorSetupInputDto"
| "dto_of PostTwoFactorEnable = TwoFactorEnableInputDto"
| "dto_of PostTwoFactorDisable = TwoFactorDisableInputDto"
| "dto_of PostPasskeyOptions = PasskeyOptionsInputDto"
| "dto_of PostPasskeyVerify = PasskeyVerifyInputDto"
| "dto_of PostPasskeyRegistrationOptions = PasskeyRegistrationOptionsInputDto"
| "dto_of PostPasskey = PasskeyRegistrationInputDto"
| "dto_of DeletePasskey = PasskeyRemovalInputDto"
| "dto_of PostCourier = RegisterCourierInputDto"
| "dto_of GetCourierApplications = ListCourierApplicationsQueryDto"
| "dto_of GetCourierTally = ApplicationTallyQueryDto"
| "dto_of GetSellerApplications = ListSellerApplicationsQueryDto"
| "dto_of GetSellerTally = ApplicationTallyQueryDto"
| "dto_of PostSeller = OnboardSellerInputDto"
| "dto_of PutProfile = UpdateProfileInputDto"

definition courier_input :: "(string \<times> json) list \<Rightarrow> RegisterCourierInput" where
  "courier_input body =
     \<lparr>rc_email = text_at body ''email'', rc_password = text_at body ''password'', rc_fullName = text_at body ''fullName'',
      rc_phoneNumber = text_at body ''phoneNumber'', rc_vehiclePlate = text_at body ''vehiclePlate'',
      rc_capacityKg = (case map_of body ''capacityKg'' of Some (JNum q) \<Rightarrow> q | _ \<Rightarrow> 0)\<rparr>"

definition seller_input :: "(string \<times> json) list \<Rightarrow> OnboardSellerInput" where
  "seller_input body =
     \<lparr>os_storeName = text_at body ''storeName'', os_businessRegistrationNumber = text_at body ''businessRegistrationNumber'',
      os_taxId = text_at body ''taxId'', os_streetAddress = text_at body ''streetAddress'', os_city = text_at body ''city'',
      os_postalCode = text_at body ''postalCode''\<rparr>"

definition profile_input :: "(string \<times> json) list \<Rightarrow> UpdateProfileInput" where
  "profile_input body =
     \<lparr>up_fullName = text_of body ''fullName'', up_phoneNumber = text_of body ''phoneNumber'',
      up_streetAddress = text_of body ''streetAddress'', up_city = text_of body ''city'', up_postalCode = text_of body ''postalCode'',
      up_avatarUrl = (case map_of body ''avatarUrl'' of None \<Rightarrow> None | Some (JStr s) \<Rightarrow> Some (Some s) | Some _ \<Rightarrow> Some None)\<rparr>"

fun call_of :: "(string \<Rightarrow> 'tok) \<Rightarrow> (json \<Rightarrow> 'cred) \<Rightarrow> Endpoint \<Rightarrow> (string \<times> json) list \<Rightarrow> ('tok, 'cred) HttpCall" where
  "call_of tok cred PostLogin body = ToAuth (Login (text_at body ''email'') (text_at body ''password''))"
| "call_of tok cred PostTwoFactorVerify body = ToAuth (VerifyTwoFactor (tok (text_at body ''challengeToken'')) (text_at body ''code''))"
| "call_of tok cred PostRegister body = ToAuth (Register (text_at body ''email'') (text_at body ''password''))"
| "call_of tok cred PostRefresh body = ToAuth (Refresh (tok (text_at body ''refreshToken'')))"
| "call_of tok cred PostLogout body = ToAuth (Logout (map_option tok (text_of body ''refreshToken'')))"
| "call_of tok cred PostTwoFactorSetup body = ToAuth (SetupTwoFactor (text_of body ''password''))"
| "call_of tok cred PostTwoFactorEnable body = ToAuth (EnableTwoFactor (text_of body ''password'') (text_at body ''code''))"
| "call_of tok cred PostTwoFactorDisable body = ToAuth (DisableTwoFactor (text_at body ''password'') (text_at body ''code''))"
| "call_of tok cred PostPasskeyOptions body = ToPasskeys (SignInOptions (tok (text_at body ''challengeToken'')))"
| "call_of tok cred PostPasskeyVerify body =
     ToPasskeys (VerifySignIn (tok (text_at body ''challengeToken'')) (cred (json_of body ''credential'')))"
| "call_of tok cred PostPasskeyRegistrationOptions body = ToPasskeys (RegistrationOptions (text_at body ''password''))"
| "call_of tok cred PostPasskey body =
     ToPasskeys (RegisterPasskey (text_at body ''challengeId'') (cred (json_of body ''credential'')) (text_at body ''name''))"
| "call_of tok cred DeletePasskey body = ToPasskeys (RemovePasskey (text_at body ''password''))"
| "call_of tok cred PostCourier body = ToCouriers (RegisterCourier (courier_input body))"
| "call_of tok cred GetCourierApplications body =
     ToCouriers (ListCourierApplications (courier_status_of body) (integer_of body ''limit'') (integer_of body ''after''))"
| "call_of tok cred GetCourierTally body = ToCouriers (TallyCourierApplications (since_of body))"
| "call_of tok cred GetSellerApplications body =
     ToSellers (ListSellerApplications (seller_status_of body) (integer_of body ''limit'') (integer_of body ''after''))"
| "call_of tok cred GetSellerTally body = ToSellers (TallySellerApplications (since_of body))"
| "call_of tok cred PostSeller body = ToSellers (OnboardSeller (seller_input body))"
| "call_of tok cred PutProfile body = ToProfiles (UpdateProfile (profile_input body))"

text \<open>A request with its body, from the guards to the reply: the pipe runs where the handler takes its body.\<close>

definition serve_body ::
    "(Rule \<Rightarrow> member \<Rightarrow> bool) \<Rightarrow> ('tok, 'cred, 'opt) Service \<Rightarrow> (json \<Rightarrow> 'cred) \<Rightarrow> Endpoint \<Rightarrow> (string \<times> json) list \<Rightarrow> HttpRequest
      \<Rightarrow> ('tok, 'opt) Reply act" where
  "serve_body library sv cred endpoint body request =
     serve (sv\<lparr>sv_validate := (\<lambda>_. validationPipe library (dto_of endpoint) body)\<rparr>)
       (call_of (he_token (sv_http sv)) cred endpoint body) request"

section \<open>What an accepted body gives\<close>

text \<open>
  What each use case is promised of its input, independently of the request classes: lengths that fit the columns and
  libraries behind it, passwords that bcrypt reads to the end, codes in the form the authenticator gives, page sizes and
  cursors in range.
\<close>

definition sized :: "nat \<Rightarrow> nat \<Rightarrow> string \<Rightarrow> bool" where
  "sized a b s \<longleftrightarrow> a \<le> length s \<and> length s \<le> b"

definition new_password :: "string \<Rightarrow> bool" where
  "new_password s \<longleftrightarrow> 12 \<le> length s \<and> byte_length s \<le> 72"

definition absent_or :: "('a \<Rightarrow> bool) \<Rightarrow> 'a option \<Rightarrow> bool" where
  "absent_or P v \<longleftrightarrow> (case v of None \<Rightarrow> True | Some x \<Rightarrow> P x)"

definition page_in_range :: "nat option \<Rightarrow> nat option \<Rightarrow> bool" where
  "page_in_range limit after \<longleftrightarrow> absent_or (\<lambda>n. 1 \<le> n \<and> n \<le> 200) limit \<and> absent_or (\<lambda>n. n \<le> 2147483647) after"

fun promised :: "('tok, 'cred) HttpCall \<Rightarrow> bool" where
  "promised (ToAuth c) \<longleftrightarrow> (case c of
      Login email password \<Rightarrow> sized 1 254 email \<and> sized 6 1024 password
    | VerifyTwoFactor _ code \<Rightarrow> six_digits (js_trim code)
    | Register email password \<Rightarrow> sized 1 254 email \<and> new_password password
    | SetupTwoFactor password \<Rightarrow> absent_or (sized 1 1024) password
    | EnableTwoFactor password code \<Rightarrow> absent_or (sized 1 1024) password \<and> six_digits (js_trim code)
    | DisableTwoFactor password code \<Rightarrow> sized 1 1024 password \<and> six_digits (js_trim code)
    | _ \<Rightarrow> True)"
| "promised (ToPasskeys c) \<longleftrightarrow> (case c of
      RegistrationOptions password \<Rightarrow> sized 1 1024 password
    | RegisterPasskey _ _ name \<Rightarrow> js_trim name \<noteq> [] \<and> sized 1 64 name
    | RemovePasskey password \<Rightarrow> sized 1 1024 password
    | _ \<Rightarrow> True)"
| "promised (ToCouriers c) \<longleftrightarrow> (case c of
      RegisterCourier dto \<Rightarrow> sized 1 254 (rc_email dto) \<and> new_password (rc_password dto) \<and> sized 2 120 (rc_fullName dto)
        \<and> sized 8 16 (rc_phoneNumber dto) \<and> sized 1 20 (rc_vehiclePlate dto)
        \<and> (\<exists>n. rc_capacityKg dto = of_int n \<and> 1 \<le> n \<and> n \<le> 5000)
    | ListCourierApplications _ limit after \<Rightarrow> page_in_range limit after
    | _ \<Rightarrow> True)"
| "promised (ToSellers c) \<longleftrightarrow> (case c of
      ListSellerApplications _ limit after \<Rightarrow> page_in_range limit after
    | OnboardSeller dto \<Rightarrow> sized 1 120 (os_storeName dto) \<and> sized 1 64 (os_businessRegistrationNumber dto)
        \<and> sized 1 32 (os_taxId dto) \<and> sized 1 255 (os_streetAddress dto) \<and> sized 1 100 (os_city dto)
        \<and> sized 1 16 (os_postalCode dto)
    | _ \<Rightarrow> True)"
| "promised (ToProfiles c) \<longleftrightarrow> (case c of
      UpdateProfile dto \<Rightarrow> absent_or (sized 0 120) (up_fullName dto) \<and> absent_or (sized 8 16) (up_phoneNumber dto)
        \<and> absent_or (sized 0 255) (up_streetAddress dto) \<and> absent_or (sized 0 100) (up_city dto)
        \<and> absent_or (sized 0 16) (up_postalCode dto) \<and> absent_or (absent_or (sized 0 2048)) (up_avatarUrl dto)
    | _ \<Rightarrow> True)"

text \<open>A code the pattern accepts is six digits once it is trimmed, which is what the authenticator's check asks first.\<close>

lemma trimmed_code: "matches CodePattern s \<Longrightarrow> six_digits (js_trim s)"
proof -
  assume m: "matches CodePattern s"
  define t where "t = dropWhile js_space s"
  from m have six: "length (take 6 t) = 6" "list_all is_digit (take 6 t)" "list_all js_space (drop 6 t)"
    by (simp_all add: t_def Let_def)
  have "rev t = rev (drop 6 t) @ rev (take 6 t)" by (metis append_take_drop_id rev_append)
  moreover have "dropWhile js_space (rev (drop 6 t) @ rev (take 6 t)) = rev (take 6 t)"
  proof -
    have "dropWhile js_space (rev (drop 6 t) @ rev (take 6 t)) = dropWhile js_space (rev (take 6 t))"
      using six(3) by (intro dropWhile_append2) (simp add: list_all_iff)
    moreover have "\<forall>c \<in> set (rev (take 6 t)). \<not> js_space c" using six(2) digit_not_space by (auto simp: list_all_iff)
    then have "dropWhile js_space (rev (take 6 t)) = rev (take 6 t)" by (cases "rev (take 6 t)") simp_all
    ultimately show ?thesis by simp
  qed
  ultimately have "js_trim s = take 6 t" by (simp add: js_trim_def t_def)
  with six show ?thesis by (simp add: six_digits_def)
qed

lemma phone_length: "matches PhonePattern s \<Longrightarrow> sized 8 16 s"
  by (cases s) (auto simp: Let_def sized_def split: if_splits)

lemma not_blank: "matches NotBlankPattern s \<Longrightarrow> js_trim s \<noteq> [] \<and> s \<noteq> []"
proof -
  assume "matches NotBlankPattern s"
  then obtain c where c: "c \<in> set s" "\<not> js_space c" by (auto simp: list_ex_iff)
  let ?u = "dropWhile js_space s"
  have "?u \<noteq> []" using c by (auto simp: dropWhile_eq_Nil_conv)
  then have "hd ?u \<in> set (rev ?u)" "\<not> js_space (hd ?u)" by (simp_all add: hd_dropWhile)
  then have "dropWhile js_space (rev ?u) \<noteq> []" by (metis dropWhile_eq_Nil_conv)
  with c show ?thesis by (auto simp: js_trim_def)
qed

text \<open>The documented rules, in terms of the text a member holds.\<close>

lemma documentedD:
  assumes "documented library"
  shows "library IsString v \<longleftrightarrow> (\<exists>s. v = Sent (JStr s))"
    and "library IsNotEmpty v \<longleftrightarrow> v \<noteq> Undefined \<and> v \<noteq> Sent JNull \<and> v \<noteq> Sent (JStr [])"
    and "library (MinLength k) v \<longleftrightarrow> (\<exists>s. v = Sent (JStr s) \<and> k \<le> length s)"
    and "library (MaxLength k) v \<longleftrightarrow> (\<exists>s. v = Sent (JStr s) \<and> length s \<le> k)"
    and "library (IsByteLength a b) v \<longleftrightarrow> (\<exists>s. v = Sent (JStr s) \<and> a \<le> byte_length s \<and> byte_length s \<le> b)"
    and "library (Matches p) v \<longleftrightarrow> (\<exists>s. v = Sent (JStr s) \<and> matches p s)"
    and "library IsInt v \<longleftrightarrow> (\<exists>n. v = Sent (JNum (of_int n)))"
    and "library (Min m) v \<longleftrightarrow> (\<exists>q. v = Sent (JNum q) \<and> of_int m \<le> q)"
    and "library (Max m) v \<longleftrightarrow> (\<exists>q. v = Sent (JNum q) \<and> q \<le> of_int m)"
    and "r \<in> {IsEmail, IsUUID, IsISO8601, IsUrl} \<Longrightarrow> library r v \<Longrightarrow> \<exists>s. v = Sent (JStr s)"
  using assms unfolding documented_def by (elim conjE; simp only:)+

lemma member_of_text: "member_of body n = Sent (JStr s) \<longleftrightarrow> text_of body n = Some s"
  by (auto simp: member_of_def text_of_def split: option.splits json.splits)

lemma member_of_number: "member_of body n = Sent (JNum q) \<longleftrightarrow> map_of body n = Some (JNum q)"
  by (auto simp: member_of_def split: option.splits)

lemmas text_rules = documentedD(1,3-9) [where v = "member_of body n" for body n, unfolded member_of_text member_of_number]

lemma text_of_Some: "text_of body n = Some s \<longleftrightarrow> map_of body n = Some (JStr s)"
  by (auto simp: text_of_def split: option.splits json.splits)

lemma text_at_Some [simp]: "text_of body n = Some s \<Longrightarrow> text_at body n = s"
  by (simp add: text_at_def)

lemma field_ok_field: "field_ok library body (field n rules) \<longleftrightarrow> list_all (\<lambda>r. library r (member_of body n)) rules"
  by (simp add: field_ok_def field_def skipped_def value_of_def)

lemma field_ok_if_sent:
  "field_ok library body (if_sent n rules) \<longleftrightarrow> map_of body n = None \<or> list_all (\<lambda>r. library r (member_of body n)) rules"
  by (auto simp: field_ok_def if_sent_def field_def skipped_def value_of_def member_of_def split: option.split)

lemma field_ok_optional:
  "field_ok library body (optional n rules) \<longleftrightarrow>
     map_of body n = None \<or> map_of body n = Some JNull \<or> list_all (\<lambda>r. library r (member_of body n)) rules"
  by (auto simp: field_ok_def optional_def field_def skipped_def value_of_def member_of_def split: option.split)

text \<open>A member of each shape the classes use.\<close>

lemma field_rule: "field_ok library body (field n rules) \<Longrightarrow> r \<in> set rules \<Longrightarrow> library r (member_of body n)"
  by (simp add: field_ok_field list_all_iff)

lemma sent_rule: "field_ok library body (if_sent n rules) \<Longrightarrow> r \<in> set rules \<Longrightarrow> text_of body n = Some s \<Longrightarrow> library r (member_of body n)"
  by (auto simp: field_ok_if_sent list_all_iff text_of_Some)

lemma not_empty: "documented library \<Longrightarrow> library IsNotEmpty (member_of body n) \<Longrightarrow> text_of body n = Some s \<Longrightarrow> s \<noteq> []"
  by (auto simp: documentedD(2) member_of_text)

lemma required_text:
  assumes "documented library" and "field_ok library body (field n rules)" and "MaxLength b \<in> set rules" and "IsNotEmpty \<in> set rules"
  shows "sized 1 b (text_at body n)"
  using text_rules(3) [OF assms(1)] field_rule [OF assms(2,3)] not_empty [OF assms(1) field_rule [OF assms(2,4)]]
  by (fastforce simp: sized_def Suc_le_eq)

lemma required_code:
  assumes "documented library" and "field_ok library body (field n rules)" and "Matches CodePattern \<in> set rules"
  shows "six_digits (js_trim (text_at body n))"
  using text_rules(5) [OF assms(1)] field_rule [OF assms(2,3)] trimmed_code by fastforce

lemma required_password:
  assumes "documented library" and "field_ok library body (field n rules)" and "MinLength 12 \<in> set rules" and "IsByteLength 0 72 \<in> set rules"
  shows "new_password (text_at body n)"
  using text_rules(2,4) [OF assms(1)] field_rule [OF assms(2,3)] field_rule [OF assms(2,4)] by (fastforce simp: new_password_def)

lemma longer_text:
  assumes "documented library" and "field_ok library body (field n rules)" and "MinLength a \<in> set rules" and "MaxLength b \<in> set rules"
  shows "sized a b (text_at body n)"
  using text_rules(2,3) [OF assms(1)] field_rule [OF assms(2,3)] field_rule [OF assms(2,4)] by (fastforce simp: sized_def)

lemma required_phone:
  assumes "documented library" and "field_ok library body (field n rules)" and "Matches PhonePattern \<in> set rules"
  shows "sized 8 16 (text_at body n)"
  using text_rules(5) [OF assms(1)] field_rule [OF assms(2,3)] phone_length by fastforce

lemma required_name:
  assumes "documented library" and "field_ok library body (field n rules)" and "Matches NotBlankPattern \<in> set rules" and "MaxLength b \<in> set rules"
  shows "js_trim (text_at body n) \<noteq> [] \<and> sized 1 b (text_at body n)"
proof -
  from text_rules(5) [OF assms(1)] field_rule [OF assms(2,3)] obtain s where s: "text_of body n = Some s" "matches NotBlankPattern s" by blast
  moreover have "length s \<le> b" using text_rules(3) [OF assms(1)] field_rule [OF assms(2,4)] s(1) by fastforce
  ultimately show ?thesis using not_blank [OF s(2)] by (simp add: sized_def Suc_le_eq)
qed

lemma sent_text:
  assumes "documented library" and "field_ok library body (if_sent n rules)" and "MaxLength b \<in> set rules"
  shows "absent_or (sized 0 b) (text_of body n)" and "IsNotEmpty \<in> set rules \<Longrightarrow> absent_or (sized 1 b) (text_of body n)"
  using text_rules(3) [OF assms(1)] sent_rule [OF assms(2,3)] not_empty [OF assms(1)] sent_rule [OF assms(2), of IsNotEmpty]
  by (fastforce simp: absent_or_def sized_def Suc_le_eq split: option.split)+

lemma sent_phone:
  assumes "documented library" and "field_ok library body (if_sent n rules)" and "Matches PhonePattern \<in> set rules"
  shows "absent_or (sized 8 16) (text_of body n)"
  using text_rules(5) [OF assms(1)] sent_rule [OF assms(2,3)] phone_length by (fastforce simp: absent_or_def split: option.split)

lemma sent_integer:
  assumes "documented library" and "field_ok library body (optional_integer n [IsInt, Min (int a), Max (int b)])"
  shows "absent_or (\<lambda>k. a \<le> k \<and> k \<le> b) (integer_of body n)"
proof -
  let ?v = "transformed DecimalInteger (member_of body n)"
  have "?v = Undefined \<or> ?v = Sent JNull \<or> (\<exists>k. ?v = Sent (JNum (of_int k)) \<and> int a \<le> k \<and> k \<le> int b)"
    using assms(2) by (auto simp: field_ok_def optional_integer_def optional_def field_def skipped_def value_of_def documentedD [OF assms(1)])
  then show ?thesis by (auto simp: integer_of_def absent_or_def)
qed

lemma sent_avatar:
  assumes "documented library" and "field_ok library body (optional n rules)" and "MaxLength b \<in> set rules"
  shows "absent_or (absent_or (sized 0 b)) (case map_of body n of None \<Rightarrow> None | Some (JStr s) \<Rightarrow> Some (Some s) | Some _ \<Rightarrow> Some None)"
proof -
  have "map_of body n = None \<or> map_of body n = Some JNull \<or> library (MaxLength b) (member_of body n)"
    using assms(2,3) by (auto simp: field_ok_optional list_all_iff)
  then show ?thesis
    using text_rules(3) [OF assms(1)] by (auto simp: text_of_Some absent_or_def sized_def)
qed

lemma sent_capacity:
  assumes "documented library" and "field_ok library body (field n [IsInt, Min a, Max b])"
  shows "\<exists>k. (case map_of body n of Some (JNum q) \<Rightarrow> q | _ \<Rightarrow> 0) = of_int k \<and> a \<le> k \<and> k \<le> b"
  using assms(2) documentedD(7-9) [OF assms(1)] by (auto simp: field_ok_field member_of_number)

lemmas dto_defs = LoginInputDto_def RegisterUserInputDto_def TwoFactorVerifyInputDto_def RefreshInputDto_def LogoutInputDto_def
  TwoFactorSetupInputDto_def TwoFactorEnableInputDto_def TwoFactorDisableInputDto_def PasskeyOptionsInputDto_def PasskeyVerifyInputDto_def
  PasskeyRegistrationOptionsInputDto_def PasskeyRegistrationInputDto_def PasskeyRemovalInputDto_def RegisterCourierInputDto_def
  ListCourierApplicationsQueryDto_def ListSellerApplicationsQueryDto_def ApplicationTallyQueryDto_def OnboardSellerInputDto_def
  UpdateProfileInputDto_def

lemma accepted_promised:
  assumes "documented library" and "validationPipe library (dto_of endpoint) body = Inr ()"
  shows "promised (call_of tok cred endpoint body)"
proof -
  have ok: "list_all (field_ok library body) (dto_of endpoint)" using assms(2) by (simp add: validationPipe_def split: if_splits)
  note rules = required_text [OF assms(1)] required_code [OF assms(1)] required_password [OF assms(1)] longer_text [OF assms(1)]
    required_phone [OF assms(1)] required_name [OF assms(1)] sent_text [OF assms(1)] sent_phone [OF assms(1)]
  note integers = sent_integer [OF assms(1), of body _ 1 200, simplified] sent_integer [OF assms(1), of body _ 0 2147483647, simplified]
  show ?thesis
  proof (cases endpoint)
    case PostPasskey
    with ok show ?thesis by (auto simp: dto_defs simp del: One_nat_def simp: LONGEST_PASSKEY_NAME_def dest: required_name [OF assms(1)])
  next
    case PostCourier
    with ok show ?thesis
      by (auto simp: dto_defs simp del: One_nat_def simp: courier_input_def intro: rules sent_capacity [OF assms(1)])
  next
    case PutProfile
    with ok show ?thesis by (auto simp: dto_defs simp del: One_nat_def simp: profile_input_def intro: rules sent_avatar [OF assms(1)])
  next
    case GetCourierApplications
    with ok show ?thesis by (simp add: dto_defs page_in_range_def integers)
  next
    case GetSellerApplications
    with ok show ?thesis by (simp add: dto_defs page_in_range_def integers)
  qed (use ok in \<open>auto simp: dto_defs simp del: One_nat_def simp: seller_input_def intro: rules\<close>)
qed

text \<open>
  C37. An accepted body keeps what its use case is promised. Whatever a caller sends, once the pipe accepts the body of a
  route, the call it becomes has texts of the promised lengths, new passwords of at least 12 characters that bcrypt reads
  to the end (at most 72 bytes), codes of six digits, whole capacities, page sizes of 1 to 200 and cursors that fit
  their column.
\<close>

theorem accepted_bodies_keep_the_promises:
  assumes "documented library" and "validationPipe library (dto_of endpoint) body = Inr ()"
  shows "promised (call_of tok cred endpoint body)"
  by (rule accepted_promised [OF assms])

section \<open>What a rejected body leaves\<close>

text \<open>A predicate on the state that the guards of a route cannot touch.\<close>

locale gate_frame =
  fixes I :: "world \<Rightarrow> bool"
  assumes keys: "I (w\<lparr>app_check_keys := k\<rparr>) = I w"
    and events: "I (w\<lparr>events := es\<rparr>) = I w"
    and outbox: "I (w\<lparr>outbox := os\<rparr>) = I w"
begin

lemma recording: "keeps I (record_event e)"
  by (rule keepsI) (simp add: events)

lemma downloading: "keeps I (download ac)"
  unfolding download_def by (auto intro!: keeps_rules keeps_writes simp: outbox split: JwksAnswer.split)

lemma key_for: "keeps I (keyFor ac k)"
  unfolding keyFor_def refetch_def fetchKeys_def by (intro keeps_rules downloading keeps_writes) (simp_all add: keys)

lemma proving: "keeps I (verify_proof ac n p ids)"
  unfolding verify_proof_def
  by (auto intro!: keeps_rules key_for split: option.split SigningKeyLookup.split proof_payload.split proof_header.split)

lemma admitting_client: "keeps I (admit_client ac gate headers)"
  unfolding admit_client_def prove_def refuse_client_def Let_def
  by (auto intro!: keeps_rules recording proving split: option.split header_value.split RegisteredClient.split ProofVerdict.split)

lemma admitting: "keeps I (admitted_request he route request)"
proof -
  have "keeps I (canActivate he route g q)" for g q
    by (cases g) (auto simp: throttlerGuard_def clientProofGuard_def intro!: keeps_rules admitting_client)
  then have "keeps I (runGuards he route gs q)" for gs q
    by (induction gs arbitrary: q) (auto intro!: keeps_rules)
  then show ?thesis unfolding admitted_request_def jwtAuthGuard_def by (intro keeps_rules beside_read)
qed

lemma auditing: "keeps I m \<Longrightarrow> keeps I (audited route request m)"
  unfolding audited_def Let_def by (auto intro!: keeps_rules recording split: option.split)

end

text \<open>Everything of the state but the key cache, the events and the outbound calls: the tables, the sequences, the clock.\<close>

definition stored :: "world \<Rightarrow> world" where
  "stored w = w\<lparr>app_check_keys := app_check_keys empty_world, events := [], outbox := []\<rparr>"

interpretation stored_frame: gate_frame "\<lambda>t. stored t = s" for s
  by unfold_locales (simp_all add: stored_def)

lemma rejected_handler:
  "\<exists>e'. handler_of (sv\<lparr>sv_validate := (\<lambda>_. Inl e)\<rparr>) (call_of tok cred endpoint body) request w = (Inl e', w)"
  by (cases endpoint) (auto simp: for_account_def andThen_run split: sum.split)

lemma audited_Inl: "m w = (Inl e, t) \<Longrightarrow> \<exists>u. audited route request m w = (Inl e, u)"
  by (auto simp: audited_def Let_def andThen_run catches_run split: option.split)

lemma rejected_body:
  assumes "validationPipe library (dto_of endpoint) body = Inl e" and "serve_body library sv cred endpoint body request w = (r, t)"
  shows "(\<exists>problem. r = Inl problem) \<and> stored t = stored w"
proof -
  let ?sv = "sv\<lparr>sv_validate := (\<lambda>_. Inl e)\<rparr>" and ?call = "call_of (he_token (sv_http sv)) cred endpoint body"
  have run: "serve ?sv ?call request w = (r, t)" using assms by (simp add: serve_body_def)
  have "keeps (\<lambda>u. stored u = stored w) (handler_of ?sv ?call q)" for q
  proof (rule keepsI)
    fix u assume "stored u = stored w"
    moreover obtain e' where "handler_of ?sv ?call q u = (Inl e', u)" using rejected_handler by blast
    ultimately show "stored (snd (handler_of ?sv ?call q u)) = stored w" by simp
  qed
  then have "keeps (\<lambda>u. stored u = stored w) (serve ?sv ?call request)"
    unfolding serve_def by (intro keeps_andThen stored_frame.admitting stored_frame.auditing)
  then have "stored t = stored w" using keepsD [of "\<lambda>u. stored u = stored w" "serve ?sv ?call request" w] run by simp
  moreover have "\<exists>problem. r = Inl problem"
  proof (cases "admitted_request (sv_http sv) (route_of ?call) request w")
    case (Pair a u)
    show ?thesis
    proof (cases a)
      case (Inr q)
      obtain e' where "handler_of ?sv ?call q u = (Inl e', u)" using rejected_handler by blast
      with audited_Inl obtain v where "audited (route_of ?call) q (handler_of ?sv ?call q) u = (Inl e', v)" by blast
      with run Pair Inr show ?thesis by (auto simp: serve_def andThen_run)
    qed (use run Pair in \<open>auto simp: serve_def andThen_run\<close>)
  qed
  ultimately show ?thesis by blast
qed

text \<open>The members each route takes, and those of them a request must send as a text.\<close>

fun members_of :: "Endpoint \<Rightarrow> string list" where
  "members_of PostLogin = [''email'', ''password'']"
| "members_of PostTwoFactorVerify = [''challengeToken'', ''code'']"
| "members_of PostRegister = [''email'', ''password'']"
| "members_of PostRefresh = [''refreshToken'']"
| "members_of PostLogout = [''refreshToken'']"
| "members_of PostTwoFactorSetup = [''password'']"
| "members_of PostTwoFactorEnable = [''code'', ''password'']"
| "members_of PostTwoFactorDisable = [''code'', ''password'']"
| "members_of PostPasskeyOptions = [''challengeToken'']"
| "members_of PostPasskeyVerify = [''challengeToken'', ''credential'']"
| "members_of PostPasskeyRegistrationOptions = [''password'']"
| "members_of PostPasskey = [''challengeId'', ''name'', ''credential'']"
| "members_of DeletePasskey = [''password'']"
| "members_of PostCourier = [''email'', ''password'', ''fullName'', ''phoneNumber'', ''vehiclePlate'', ''capacityKg'']"
| "members_of GetCourierApplications = [''status'', ''limit'', ''after'']"
| "members_of GetCourierTally = [''since'']"
| "members_of GetSellerApplications = [''status'', ''limit'', ''after'']"
| "members_of GetSellerTally = [''since'']"
| "members_of PostSeller = [''storeName'', ''businessRegistrationNumber'', ''taxId'', ''streetAddress'', ''city'', ''postalCode'']"
| "members_of PutProfile = [''fullName'', ''phoneNumber'', ''streetAddress'', ''city'', ''postalCode'', ''avatarUrl'']"

fun required_texts :: "Endpoint \<Rightarrow> string list" where
  "required_texts PostLogout = []"
| "required_texts PostTwoFactorSetup = []"
| "required_texts PostTwoFactorEnable = [''code'']"
| "required_texts PostPasskeyVerify = [''challengeToken'']"
| "required_texts PostPasskey = [''challengeId'', ''name'']"
| "required_texts PostCourier = [''email'', ''password'', ''fullName'', ''phoneNumber'', ''vehiclePlate'']"
| "required_texts GetCourierApplications = []"
| "required_texts GetSellerApplications = []"
| "required_texts PutProfile = []"
| "required_texts endpoint = members_of endpoint"

lemma members_of_dto: "map fd_name (dto_of endpoint) = members_of endpoint"
  by (cases endpoint) (simp_all add: dto_defs field_def if_sent_def optional_def optional_integer_def)

lemma text_required:
  assumes "documented library" and "field_ok library body (field n rules)" and "r \<in> set rules" and "r \<in> {IsString, IsEmail, IsUUID}"
  shows "\<exists>s. text_of body n = Some s"
  using field_rule [OF assms(2,3)] assms(4) documentedD(1) [OF assms(1)] assms(1)
  by (auto simp: documented_def member_of_text [symmetric])

lemma accepted_texts:
  assumes "documented library" and "list_all (field_ok library body) (dto_of endpoint)" and "n \<in> set (required_texts endpoint)"
  shows "\<exists>s. text_of body n = Some s"
proof -
  have "\<exists>rules. field n rules \<in> set (dto_of endpoint) \<and> set rules \<inter> {IsString, IsEmail, IsUUID} \<noteq> {}"
    using assms(3) by (cases endpoint) (auto simp: dto_defs)
  then obtain rules r where "field n rules \<in> set (dto_of endpoint)" "r \<in> set rules" "r \<in> {IsString, IsEmail, IsUUID}" by blast
  with assms(1,2) show ?thesis by (intro text_required [of library body n rules r]) (auto simp: list_all_iff)
qed

text \<open>
  C38. A body a route does not take changes nothing. Whatever route it is sent to, a body with a member the route does not
  know, without one of the texts it requires, or that would become a call its use case was promised not to get (a password
  that is too short, a code that is no code, a page that is too large), is answered with an error, and the tables are as
  they were: the guards may refresh the key cache, and what they or the audit report is recorded, but no account, session,
  application, profile, attempt or challenge is written.
\<close>

theorem rejected_bodies_store_nothing:
  assumes "documented library"
    and "\<not> fst ` set body \<subseteq> set (members_of endpoint) \<or> (\<exists>n \<in> set (required_texts endpoint). text_of body n = None)
      \<or> \<not> promised (call_of (he_token (sv_http sv)) cred endpoint body)"
    and "serve_body library sv cred endpoint body request w = (r, t)"
  shows "(\<exists>problem. r = Inl problem) \<and> stored t = stored w"
proof (cases "validationPipe library (dto_of endpoint) body")
  case (Inl e)
  then show ?thesis using assms(3) by (rule rejected_body)
next
  case (Inr x)
  then have known: "fst ` set body \<subseteq> set (members_of endpoint)" and fields: "list_all (field_ok library body) (dto_of endpoint)"
    unfolding members_of_dto [symmetric] by (auto simp: validationPipe_def list_all_iff split: if_splits)
  moreover have "promised (call_of (he_token (sv_http sv)) cred endpoint body)"
    using Inr by (intro accepted_promised [OF assms(1)]) simp
  moreover have "\<not> (\<exists>n \<in> set (required_texts endpoint). text_of body n = None)"
    using accepted_texts [OF assms(1) fields] by force
  ultimately show ?thesis using assms(2) by blast
qed

section \<open>A library as documented\<close>

fun sample_rules :: "Rule \<Rightarrow> member \<Rightarrow> bool" where
  "sample_rules IsNotEmpty v \<longleftrightarrow> v \<noteq> Undefined \<and> v \<noteq> Sent JNull \<and> v \<noteq> Sent (JStr [])"
| "sample_rules IsInt (Sent (JNum q)) \<longleftrightarrow> of_int \<lfloor>q\<rfloor> = q"
| "sample_rules (Min n) (Sent (JNum q)) \<longleftrightarrow> of_int n \<le> q"
| "sample_rules (Max n) (Sent (JNum q)) \<longleftrightarrow> q \<le> of_int n"
| "sample_rules IsObject (Sent (JObj _)) \<longleftrightarrow> True"
| "sample_rules (MinLength n) (Sent (JStr s)) \<longleftrightarrow> n \<le> length s"
| "sample_rules (MaxLength n) (Sent (JStr s)) \<longleftrightarrow> length s \<le> n"
| "sample_rules (IsByteLength a b) (Sent (JStr s)) \<longleftrightarrow> a \<le> byte_length s \<and> byte_length s \<le> b"
| "sample_rules (Matches p) (Sent (JStr s)) \<longleftrightarrow> matches p s"
| "sample_rules (IsIn xs) (Sent (JStr s)) \<longleftrightarrow> s \<in> set xs"
| "sample_rules IsEmail (Sent (JStr s)) \<longleftrightarrow> CHR ''@'' \<in> set s"
| "sample_rules IsString (Sent (JStr s)) \<longleftrightarrow> True"
| "sample_rules IsUUID (Sent (JStr s)) \<longleftrightarrow> length s = 36"
| "sample_rules IsISO8601 (Sent (JStr s)) \<longleftrightarrow> instant_of s \<noteq> None"
| "sample_rules IsUrl (Sent (JStr s)) \<longleftrightarrow> js_startsWith s ''https://''"
| "sample_rules _ _ \<longleftrightarrow> False"

lemma member_shapes:
  obtains "v = Undefined" | "v = NotANumber" | "v = Sent JNull" | b where "v = Sent (JBool b)" | q where "v = Sent (JNum q)"
  | s where "v = Sent (JStr s)" | l where "v = Sent (JArr l)" | ms where "v = Sent (JObj ms)"
  by (metis json.exhaust member.exhaust)

lemma sample_rules_integer: "sample_rules IsInt v \<longleftrightarrow> (\<exists>n. v = Sent (JNum (of_int n)))"
proof (cases v rule: member_shapes)
  case (5 q)
  then show ?thesis by (auto intro!: exI [of _ "\<lfloor>q\<rfloor>"])
qed simp_all

lemma sample_rules_texts:
  "sample_rules IsString v \<longleftrightarrow> (\<exists>s. v = Sent (JStr s))"
  "sample_rules (MinLength n) v \<longleftrightarrow> (\<exists>s. v = Sent (JStr s) \<and> n \<le> length s)"
  "sample_rules (MaxLength n) v \<longleftrightarrow> (\<exists>s. v = Sent (JStr s) \<and> length s \<le> n)"
  "sample_rules (IsByteLength a b) v \<longleftrightarrow> (\<exists>s. v = Sent (JStr s) \<and> a \<le> byte_length s \<and> byte_length s \<le> b)"
  "sample_rules (Matches p) v \<longleftrightarrow> (\<exists>s. v = Sent (JStr s) \<and> matches p s)"
  "sample_rules (IsIn xs) v \<longleftrightarrow> (\<exists>s \<in> set xs. v = Sent (JStr s))"
  "rule \<in> {IsEmail, IsUUID, IsISO8601, IsUrl} \<Longrightarrow> sample_rules rule v \<Longrightarrow> \<exists>s. v = Sent (JStr s)"
  by (cases v rule: member_shapes; auto)+

lemma sample_rules_others:
  "sample_rules (Min m) v \<longleftrightarrow> (\<exists>q. v = Sent (JNum q) \<and> of_int m \<le> q)"
  "sample_rules (Max m) v \<longleftrightarrow> (\<exists>q. v = Sent (JNum q) \<and> q \<le> of_int m)"
  "sample_rules IsObject v \<longleftrightarrow> (\<exists>members. v = Sent (JObj members))"
  "sample_rules IsNotEmpty v \<longleftrightarrow> v \<noteq> Undefined \<and> v \<noteq> Sent JNull \<and> v \<noteq> Sent (JStr [])"
  by (cases v rule: member_shapes; auto)+

lemma sample_rules_documented: "documented sample_rules"
  unfolding documented_def by (intro conjI allI impI sample_rules_integer sample_rules_texts sample_rules_others)

definition sample_registration :: "(string \<times> json) list" where
  "sample_registration = [(''email'', JStr ''a@b.c''), (''password'', JStr ''a long enough password'')]"

theorem accepted_bodies_keep_the_promises_witness:
  "promised (call_of (\<lambda>s. s) (\<lambda>j. j) PostRegister sample_registration :: (string, json) HttpCall)"
proof -
  have "validationPipe sample_rules (dto_of PostRegister) sample_registration = Inr ()" by code_simp
  with sample_rules_documented show ?thesis by (rule accepted_bodies_keep_the_promises)
qed

theorem rejected_bodies_store_nothing_witness:
  "stored (snd (serve_body sample_rules sample_service json_word PostRegister ((''role'', JStr ''admin'') # sample_registration)
     (sample_request ''me'' ''1'') empty_world)) = stored empty_world"
proof -
  let ?body = "(''role'', JStr ''admin'') # sample_registration"
  have "\<not> fst ` set ?body \<subseteq> set (members_of PostRegister)" by simp
  then show ?thesis
    using rejected_bodies_store_nothing [OF sample_rules_documented, of ?body PostRegister sample_service json_word
        "sample_request ''me'' ''1''" empty_world]
    by (metis surjective_pairing)
qed

end
