(* ===== verification/Schema.thy ===== *)
theory Schema
  imports Prelude
begin

text \<open>
  The schema of the database: what the migrations (\<^verbatim>\<open>migrations/*.ts\<close>, run in the order of \<^verbatim>\<open>data-source.ts\<close>) make of an
  empty database, and what the entities (\<^verbatim>\<open>persistence/entities/*.ts\<close>) say of it. A migration is the list of its
  statements; \<open>execute\<close> is what PostgreSQL does with one, and \<^const>\<open>None\<close> where it refuses: a name that is taken or
  unknown, a column that must be set and has no value for the rows there are, an object another one still needs. That is as
  far as the schema decides it: whether the rows let a constraint or a unique index be added is \<open>rows_allow\<close>, and deploying asks both.
  Statements that only write rows are \<open>WriteRows\<close> here; what they write is in \<open>Data_Migrations\<close>, and what the trigger
  function writes is with the stores, in \<open>Seller_Onboarding\<close>.
\<close>

section \<open>Schemas\<close>

datatype SqlType =
    Integer | Bigint | Boolean | Double | Uuid | Bytea | SqlText | TextArray | Xid8
  | Varchar "nat option" | Timestamp "nat option" | Timestamptz

text \<open>
  \<open>Serial\<close> is the sequence of a \<^verbatim>\<open>SERIAL\<close> column, \<open>GenRandomUuid\<close> the \<^verbatim>\<open>gen_random_uuid()\<close> the migrations write, and \<open>DriverUuid\<close> what an
  entity asks for with \<^verbatim>\<open>@PrimaryGeneratedColumn("uuid")\<close>: some function of the database that makes a uuid, which TypeORM picks.
\<close>

datatype Default = NoDefault | Literal string | Now | Serial | GenRandomUuid | DriverUuid

record Column =
  cm_type :: SqlType
  cm_notNull :: bool
  cm_default :: Default

datatype CheckRule = OnEarth | OnEarthOrNowhere | OneOf string "string list" | SignInHasChallenge

text \<open>\<open>ForeignKey c t d\<close> is \<^verbatim>\<open>FOREIGN KEY (c) REFERENCES t (d) ON DELETE CASCADE\<close>; there are no foreign keys of another kind.\<close>

datatype ConstraintRule =
    PrimaryKey "string list"
  | Unique "string list"
  | ForeignKey string string string
  | CheckThat CheckRule

datatype IndexKey = OnColumn string | OnLower string

record Table =
  tb_columns :: "(string \<times> Column) list"
  tb_constraints :: "(string \<times> ConstraintRule) list"
  tb_indexes :: "(string \<times> bool \<times> IndexKey list) list"
  tb_triggers :: "(string \<times> string) list"

record SchemaState =
  sc_tables :: "(string \<times> Table) list"
  sc_functions :: "string list"
  sc_extensions :: "string list"

definition empty_schema :: SchemaState where
  "empty_schema = \<lparr>sc_tables = [], sc_functions = [], sc_extensions = []\<rparr>"

datatype Statement =
    CreateTable string "(string \<times> Column) list" "(string \<times> ConstraintRule) list"
  | DropTable string
  | AddColumn string string Column
  | DropColumn string string
  | AlterType string string SqlType
  | AddConstraint string string ConstraintRule
  | DropConstraint string string
  | CreateIndex string string bool "IndexKey list"
  | DropIndex string
  | CreateFunction string
  | DropFunction string
  | CreateTrigger string string string
  | DropTrigger string string
  | CreateExtension string
  | WriteRows string

fun check_columns :: "CheckRule \<Rightarrow> string list" where
  "check_columns OnEarth = [''latitude'', ''longitude'']"
| "check_columns OnEarthOrNowhere = [''latitude'', ''longitude'']"
| "check_columns (OneOf c _) = [c]"
| "check_columns SignInHasChallenge = [''purpose'', ''mfaJti'']"

fun rule_columns :: "ConstraintRule \<Rightarrow> string list" where
  "rule_columns (PrimaryKey cs) = cs"
| "rule_columns (Unique cs) = cs"
| "rule_columns (ForeignKey c _ _) = [c]"
| "rule_columns (CheckThat r) = check_columns r"

fun key_column :: "IndexKey \<Rightarrow> string" where
  "key_column (OnColumn c) = c"
| "key_column (OnLower c) = c"

fun target :: "ConstraintRule \<Rightarrow> string option" where
  "target (ForeignKey _ t _) = Some t"
| "target _ = None"

definition referenced :: "string \<Rightarrow> SchemaState \<Rightarrow> bool" where
  "referenced t s \<longleftrightarrow>
     list_ex (\<lambda>(u, table). u \<noteq> t \<and> list_ex (\<lambda>(_, rule). target rule = Some t) (tb_constraints table)) (sc_tables s)"

text \<open>A foreign key names a table that is there and a column that is its primary key or unique.\<close>

definition target_ok :: "SchemaState \<Rightarrow> ConstraintRule \<Rightarrow> bool" where
  "target_ok s rule =
     (case rule of
        ForeignKey _ t c \<Rightarrow>
          (case map_of (sc_tables s) t of
             None \<Rightarrow> False
           | Some table \<Rightarrow> list_ex (\<lambda>(_, r). r = PrimaryKey [c] \<or> r = Unique [c]) (tb_constraints table))
      | _ \<Rightarrow> True)"

definition index_taken :: "string \<Rightarrow> SchemaState \<Rightarrow> bool" where
  "index_taken n s \<longleftrightarrow> list_ex (\<lambda>(_, table). n \<in> set (map fst (tb_indexes table))) (sc_tables s)"

text \<open>Tables and indexes share one space of names, and a primary key or a unique constraint is backed by an index of its name.\<close>

fun backed :: "ConstraintRule \<Rightarrow> bool" where
  "backed (PrimaryKey _) = True"
| "backed (Unique _) = True"
| "backed _ = False"

definition relation_taken :: "string \<Rightarrow> SchemaState \<Rightarrow> bool" where
  "relation_taken n s \<longleftrightarrow>
     index_taken n s \<or>
     list_ex (\<lambda>(t, table). t = n \<or> list_ex (\<lambda>(c, rule). c = n \<and> backed rule) (tb_constraints table)) (sc_tables s)"

definition on_table :: "string \<Rightarrow> (Table \<Rightarrow> Table option) \<Rightarrow> SchemaState \<Rightarrow> SchemaState option" where
  "on_table t f s =
     (case map_of (sc_tables s) t of
        None \<Rightarrow> None
      | Some table \<Rightarrow> map_option (\<lambda>table'. s\<lparr>sc_tables := map_set t table' (sc_tables s)\<rparr>) (f table))"

definition without :: "string \<Rightarrow> (string \<times> 'a) list \<Rightarrow> (string \<times> 'a) list" where
  "without n xs = filter (\<lambda>(k, _). k \<noteq> n) xs"

definition has :: "string \<Rightarrow> (string \<times> 'a) list \<Rightarrow> bool" where
  "has n xs \<longleftrightarrow> map_of xs n \<noteq> None"

definition has_columns :: "Table \<Rightarrow> string list \<Rightarrow> bool" where
  "has_columns table cs \<longleftrightarrow> list_all (\<lambda>c. has c (tb_columns table)) cs"

fun execute :: "Statement \<Rightarrow> SchemaState \<Rightarrow> SchemaState option" where
  "execute (CreateTable t columns constraints) s =
     (let table = \<lparr>tb_columns = columns, tb_constraints = constraints, tb_indexes = [], tb_triggers = []\<rparr> in
      if relation_taken t s \<or> list_ex (\<lambda>(n, r). n = t \<or> backed r \<and> relation_taken n s) constraints
        \<or> \<not> distinct (map fst columns) \<or> \<not> distinct (map fst constraints)
        \<or> \<not> list_all (\<lambda>(_, r). has_columns table (rule_columns r) \<and> target_ok s r) constraints then None
      else Some (s\<lparr>sc_tables := sc_tables s @ [(t, table)]\<rparr>))"
| "execute (DropTable t) s =
     (if \<not> has t (sc_tables s) \<or> referenced t s then None else Some (s\<lparr>sc_tables := without t (sc_tables s)\<rparr>))"
| "execute (AddColumn t c column) s =
     on_table t (\<lambda>table. if has c (tb_columns table) \<or> cm_notNull column \<and> cm_default column = NoDefault then None
        else Some (table\<lparr>tb_columns := tb_columns table @ [(c, column)]\<rparr>)) s"
| "execute (DropColumn t c) s =
     on_table t (\<lambda>table. if \<not> has c (tb_columns table) then None
        else Some (table\<lparr>tb_columns := without c (tb_columns table),
               tb_constraints := filter (\<lambda>(_, r). c \<notin> set (rule_columns r)) (tb_constraints table),
               tb_indexes := filter (\<lambda>(_, _, keys). c \<notin> set (map key_column keys)) (tb_indexes table)\<rparr>)) s"
| "execute (AlterType t c ty) s =
     on_table t (\<lambda>table. map_option (\<lambda>column. table\<lparr>tb_columns := map_set c (column\<lparr>cm_type := ty\<rparr>) (tb_columns table)\<rparr>)
        (map_of (tb_columns table) c)) s"
| "execute (AddConstraint t n r) s =
     on_table t (\<lambda>table. if has n (tb_constraints table) \<or> backed r \<and> relation_taken n s \<or> \<not> has_columns table (rule_columns r) \<or> \<not> target_ok s r then None
        else Some (table\<lparr>tb_constraints := tb_constraints table @ [(n, r)]\<rparr>)) s"
| "execute (DropConstraint t n) s =
     on_table t (\<lambda>table. if \<not> has n (tb_constraints table) then None
        else Some (table\<lparr>tb_constraints := without n (tb_constraints table)\<rparr>)) s"
| "execute (CreateIndex n t unique keys) s =
     (if relation_taken n s then None
      else on_table t (\<lambda>table. if \<not> has_columns table (map key_column keys) then None
        else Some (table\<lparr>tb_indexes := tb_indexes table @ [(n, unique, keys)]\<rparr>)) s)"
| "execute (DropIndex n) s =
     (if \<not> index_taken n s then None
      else Some (s\<lparr>sc_tables := map (\<lambda>(t, table). (t, table\<lparr>tb_indexes := without n (tb_indexes table)\<rparr>)) (sc_tables s)\<rparr>))"
| "execute (CreateFunction f) s = (if f \<in> set (sc_functions s) then None else Some (s\<lparr>sc_functions := sc_functions s @ [f]\<rparr>))"
| "execute (DropFunction f) s =
     (if f \<notin> set (sc_functions s) \<or> list_ex (\<lambda>(_, table). f \<in> set (map snd (tb_triggers table))) (sc_tables s) then None
      else Some (s\<lparr>sc_functions := removeAll f (sc_functions s)\<rparr>))"
| "execute (CreateTrigger n t f) s =
     (if f \<notin> set (sc_functions s) then None
      else on_table t (\<lambda>table. if has n (tb_triggers table) then None
        else Some (table\<lparr>tb_triggers := tb_triggers table @ [(n, f)]\<rparr>)) s)"
| "execute (DropTrigger n t) s =
     on_table t (\<lambda>table. if \<not> has n (tb_triggers table) then None
        else Some (table\<lparr>tb_triggers := without n (tb_triggers table)\<rparr>)) s"
| "execute (CreateExtension e) s = Some (s\<lparr>sc_extensions := List.insert e (sc_extensions s)\<rparr>)"
| "execute (WriteRows t) s = (if has t (sc_tables s) then Some s else None)"

fun run_statements :: "Statement list \<Rightarrow> SchemaState \<Rightarrow> SchemaState option" where
  "run_statements [] s = Some s"
| "run_statements (x # xs) s = Option.bind (execute x s) (run_statements xs)"

record Migration =
  mg_name :: string
  mg_up :: "Statement list"
  mg_down :: "Statement list"

section \<open>The migrations\<close>

definition column :: "string \<Rightarrow> SqlType \<Rightarrow> string \<times> Column" where
  "column c ty = (c, \<lparr>cm_type = ty, cm_notNull = True, cm_default = NoDefault\<rparr>)"

definition nullable :: "string \<Rightarrow> SqlType \<Rightarrow> string \<times> Column" where
  "nullable c ty = (c, \<lparr>cm_type = ty, cm_notNull = False, cm_default = NoDefault\<rparr>)"

definition defaulted :: "string \<Rightarrow> SqlType \<Rightarrow> Default \<Rightarrow> string \<times> Column" where
  "defaulted c ty d = (c, \<lparr>cm_type = ty, cm_notNull = True, cm_default = d\<rparr>)"

definition serial_id :: "string \<times> Column" where "serial_id = defaulted ''id'' Integer Serial"
definition uuid_id :: "string \<times> Column" where "uuid_id = defaulted ''id'' Uuid GenRandomUuid"

definition InitialSchema :: Migration where
  "InitialSchema = \<lparr>mg_name = ''InitialSchema1788322826135'',
     mg_up =
       [CreateTable ''merchants''
          [serial_id, column ''userId'' Integer, column ''storeName'' (Varchar None), column ''slug'' (Varchar None),
           nullable ''description'' (Varchar None), column ''businessRegistrationNumber'' (Varchar None), column ''taxId'' (Varchar None),
           defaulted ''status'' (Varchar None) (Literal ''pending''), nullable ''verifiedAt'' (Timestamp None),
           defaulted ''createdAt'' (Timestamp None) Now, defaulted ''updatedAt'' (Timestamp None) Now]
          [(''UQ_c4199d0353747c821386791f813'', Unique [''userId'']), (''UQ_66b19d9a264ff84db8e799a398f'', Unique [''slug'']),
           (''PK_4fd312ef25f8e05ad47bfe7ed25'', PrimaryKey [''id''])],
        CreateTable ''merchant_verifications''
          [serial_id, column ''userId'' Integer, column ''storeName'' (Varchar None), column ''businessRegistrationNumber'' (Varchar None),
           column ''taxId'' (Varchar None), defaulted ''status'' (Varchar None) (Literal ''pending''), nullable ''verifiedAt'' (Timestamp None)]
          [(''UQ_9c8939f7dcc4c9644d2ba8faaa3'', Unique [''userId'']), (''PK_cffc68836615f18792b4cfbc321'', PrimaryKey [''id''])],
        CreateTable ''profiles''
          [serial_id, column ''userId'' Integer, defaulted ''fullName'' (Varchar None) (Literal []), defaulted ''phoneNumber'' (Varchar None) (Literal []),
           defaulted ''streetAddress'' (Varchar None) (Literal []), defaulted ''city'' (Varchar None) (Literal []),
           defaulted ''postalCode'' (Varchar None) (Literal []), nullable ''avatarUrl'' (Varchar None)]
          [(''UQ_315ecd98bd1a42dcf2ec4e2e985'', Unique [''userId'']), (''PK_8e520eb4da7dc01d0e190447c8e'', PrimaryKey [''id''])],
        CreateTable ''users''
          [serial_id, column ''email'' (Varchar None), column ''passwordHash'' (Varchar None),
           defaulted ''role'' (Varchar None) (Literal ''customer''), defaulted ''isTwoFactorEnabled'' Boolean (Literal ''false''),
           nullable ''twoFactorSecret'' (Varchar None), defaulted ''createdAt'' (Timestamp None) Now, defaulted ''updatedAt'' (Timestamp None) Now]
          [(''UQ_97672ac88f789774dd47f7c8be3'', Unique [''email'']), (''PK_a3ffb1c0c8416b9fc6f907b7433'', PrimaryKey [''id''])],
        AddConstraint ''profiles'' ''FK_315ecd98bd1a42dcf2ec4e2e985'' (ForeignKey ''userId'' ''users'' ''id''),
        AddConstraint ''merchants'' ''FK_c4199d0353747c821386791f813'' (ForeignKey ''userId'' ''users'' ''id''),
        AddConstraint ''merchant_verifications'' ''FK_9c8939f7dcc4c9644d2ba8faaa3'' (ForeignKey ''userId'' ''users'' ''id'')],
     mg_down =
       [DropConstraint ''merchant_verifications'' ''FK_9c8939f7dcc4c9644d2ba8faaa3'',
        DropConstraint ''merchants'' ''FK_c4199d0353747c821386791f813'',
        DropConstraint ''profiles'' ''FK_315ecd98bd1a42dcf2ec4e2e985'',
        DropTable ''users'', DropTable ''profiles'', DropTable ''merchant_verifications'', DropTable ''merchants'']\<rparr>"

definition Principals_migration :: Migration where
  "Principals_migration = \<lparr>mg_name = ''Principals1788512628577'',
     mg_up =
       [CreateExtension ''pgcrypto'',
        CreateTable ''principals''
          [uuid_id, column ''kind'' (Varchar (Some 32)), nullable ''displayName'' (Varchar (Some 255)),
           defaulted ''createdAt'' Timestamptz Now, defaulted ''updatedAt'' Timestamptz Now]
          [(''PK_principals'', PrimaryKey [''id''])],
        CreateTable ''principal_aliases''
          [serial_id, column ''principalId'' Uuid, column ''service'' (Varchar (Some 32)), column ''localId'' (Varchar (Some 128)),
           defaulted ''createdAt'' Timestamptz Now]
          [(''uq_principal_aliases_service_local_id'', Unique [''service'', ''localId'']), (''PK_principal_aliases'', PrimaryKey [''id''])],
        CreateIndex ''ix_principal_aliases_service_local_id'' ''principal_aliases'' False [OnColumn ''service'', OnColumn ''localId''],
        AddConstraint ''principal_aliases'' ''FK_principal_aliases_principal'' (ForeignKey ''principalId'' ''principals'' ''id'')],
     mg_down =
       [DropConstraint ''principal_aliases'' ''FK_principal_aliases_principal'',
        DropIndex ''ix_principal_aliases_service_local_id'', DropTable ''principal_aliases'', DropTable ''principals'']\<rparr>"

definition TokenLifecycle :: Migration where
  "TokenLifecycle = \<lparr>mg_name = ''TokenLifecycle1788900000000'',
     mg_up =
       [CreateTable ''refresh_tokens''
          [uuid_id, column ''jti'' Uuid, column ''familyId'' Uuid, column ''principalId'' Uuid, column ''userId'' Integer,
           column ''expiresAt'' Timestamptz, nullable ''usedAt'' Timestamptz, nullable ''revokedAt'' Timestamptz,
           nullable ''revokedReason'' (Varchar (Some 32)), nullable ''replacedByJti'' Uuid, defaulted ''createdAt'' Timestamptz Now]
          [(''uq_refresh_tokens_jti'', Unique [''jti'']), (''PK_refresh_tokens'', PrimaryKey [''id''])],
        CreateIndex ''ix_refresh_tokens_family'' ''refresh_tokens'' False [OnColumn ''familyId''],
        CreateIndex ''ix_refresh_tokens_principal'' ''refresh_tokens'' False [OnColumn ''principalId''],
        AddConstraint ''refresh_tokens'' ''FK_refresh_tokens_principal'' (ForeignKey ''principalId'' ''principals'' ''id''),
        CreateTable ''revoked_access_tokens''
          [uuid_id, column ''jti'' Uuid, column ''expiresAt'' Timestamptz, column ''reason'' (Varchar (Some 32)),
           defaulted ''createdAt'' Timestamptz Now]
          [(''uq_revoked_access_tokens_jti'', Unique [''jti'']), (''PK_revoked_access_tokens'', PrimaryKey [''id''])],
        CreateIndex ''ix_revoked_access_tokens_expires'' ''revoked_access_tokens'' False [OnColumn ''expiresAt'']],
     mg_down =
       [DropIndex ''ix_revoked_access_tokens_expires'', DropTable ''revoked_access_tokens'',
        DropConstraint ''refresh_tokens'' ''FK_refresh_tokens_principal'',
        DropIndex ''ix_refresh_tokens_principal'', DropIndex ''ix_refresh_tokens_family'', DropTable ''refresh_tokens'']\<rparr>"

definition ProfileProvenance :: Migration where
  "ProfileProvenance = \<lparr>mg_name = ''ProfileProvenance1788950000000'',
     mg_up =
       [AddColumn ''profiles'' ''createdAt'' (snd (defaulted [] Timestamptz Now)), AddColumn ''profiles'' ''updatedAt'' (snd (defaulted [] Timestamptz Now)),
        CreateIndex ''ix_profiles_created'' ''profiles'' False [OnColumn ''createdAt'']],
     mg_down = [DropIndex ''ix_profiles_created'', DropColumn ''profiles'' ''updatedAt'', DropColumn ''profiles'' ''createdAt'']\<rparr>"

text \<open>For every account with no alias a principal and an alias: no statement on the schema. Nothing takes them back.\<close>

definition PrincipalForEveryUser :: Migration where
  "PrincipalForEveryUser = \<lparr>mg_name = ''PrincipalForEveryUser1789000000000'',
     mg_up = [WriteRows ''principals'', WriteRows ''principal_aliases''], mg_down = []\<rparr>"

definition GeocodedAddresses :: Migration where
  "GeocodedAddresses = \<lparr>mg_name = ''GeocodedAddresses1789100000000'',
     mg_up =
       [CreateTable ''geocoded_addresses''
          [serial_id, column ''query'' SqlText, column ''latitude'' Double, column ''longitude'' Double, column ''provider'' (Varchar None),
           defaulted ''precision'' (Varchar None) (Literal ''UNSPECIFIED''), nullable ''displayName'' SqlText,
           defaulted ''createdAt'' Timestamptz Now, defaulted ''updatedAt'' Timestamptz Now]
          [(''PK_geocoded_addresses'', PrimaryKey [''id''])],
        CreateIndex ''UQ_geocoded_addresses_query'' ''geocoded_addresses'' True [OnColumn ''query''],
        AddConstraint ''geocoded_addresses'' ''CK_geocoded_addresses_on_earth'' (CheckThat OnEarth)],
     mg_down = [DropTable ''geocoded_addresses'']\<rparr>"

definition ProfileCoordinates :: Migration where
  "ProfileCoordinates = \<lparr>mg_name = ''ProfileCoordinates1789200000000'',
     mg_up =
       [AddColumn ''profiles'' ''latitude'' (snd (nullable [] Double)), AddColumn ''profiles'' ''longitude'' (snd (nullable [] Double)),
        AddColumn ''profiles'' ''geocodedAt'' (snd (nullable [] Timestamptz)),
        AddConstraint ''profiles'' ''CK_profiles_point_on_earth'' (CheckThat OnEarthOrNowhere)],
     mg_down =
       [DropConstraint ''profiles'' ''CK_profiles_point_on_earth'', DropColumn ''profiles'' ''geocodedAt'',
        DropColumn ''profiles'' ''longitude'', DropColumn ''profiles'' ''latitude'']\<rparr>"

definition MerchantStoreAddress :: Migration where
  "MerchantStoreAddress = \<lparr>mg_name = ''MerchantStoreAddress1789300000000'',
     mg_up =
       concat (map (\<lambda>table.
         [AddColumn table ''streetAddress'' (snd (defaulted [] (Varchar None) (Literal []))),
          AddColumn table ''city'' (snd (defaulted [] (Varchar None) (Literal []))),
          AddColumn table ''postalCode'' (snd (defaulted [] (Varchar None) (Literal [])))]) [''merchant_verifications'', ''merchants''])
       @ [AddColumn ''merchants'' ''latitude'' (snd (nullable [] Double)), AddColumn ''merchants'' ''longitude'' (snd (nullable [] Double)),
          AddColumn ''merchants'' ''geocodedAt'' (snd (nullable [] Timestamptz)),
          AddConstraint ''merchants'' ''CK_merchants_point_on_earth'' (CheckThat OnEarthOrNowhere)],
     mg_down =
       [DropConstraint ''merchants'' ''CK_merchants_point_on_earth'', DropColumn ''merchants'' ''geocodedAt'',
        DropColumn ''merchants'' ''longitude'', DropColumn ''merchants'' ''latitude'']
       @ concat (map (\<lambda>table. [DropColumn table ''postalCode'', DropColumn table ''city'', DropColumn table ''streetAddress''])
           [''merchants'', ''merchant_verifications''])\<rparr>"

definition MerchantCursorPrecision :: Migration where
  "MerchantCursorPrecision = \<lparr>mg_name = ''MerchantCursorPrecision1789400000000'',
     mg_up = [AlterType ''merchants'' ''updatedAt'' (Timestamp (Some 3))],
     mg_down = [AlterType ''merchants'' ''updatedAt'' (Timestamp None)]\<rparr>"

text \<open>The key and the reference of the feed have no names in the migration: these are the ones PostgreSQL gives them.\<close>

definition MerchantChangeTransaction :: Migration where
  "MerchantChangeTransaction = \<lparr>mg_name = ''MerchantChangeTransaction1789500000000'',
     mg_up =
       [CreateTable ''merchant_change_feed''
          [column ''merchant_id'' Integer, column ''change_transaction_id'' Xid8]
          [(''merchant_change_feed_pkey'', PrimaryKey [''merchant_id'']),
           (''merchant_change_feed_merchant_id_fkey'', ForeignKey ''merchant_id'' ''merchants'' ''id'')],
        WriteRows ''merchant_change_feed'',
        CreateFunction ''merchants_record_change_transaction'',
        CreateTrigger ''merchants_record_change_transaction'' ''merchants'' ''merchants_record_change_transaction'',
        CreateIndex ''merchant_change_feed_order_idx'' ''merchant_change_feed'' False
          [OnColumn ''change_transaction_id'', OnColumn ''merchant_id'']],
     mg_down =
       [DropTrigger ''merchants_record_change_transaction'' ''merchants'', DropFunction ''merchants_record_change_transaction'',
        DropTable ''merchant_change_feed'']\<rparr>"

definition CaseInsensitiveEmail :: Migration where
  "CaseInsensitiveEmail = \<lparr>mg_name = ''CaseInsensitiveEmail1789600000000'',
     mg_up = [CreateIndex ''UQ_users_email_lower'' ''users'' True [OnLower ''email'']],
     mg_down = [DropIndex ''UQ_users_email_lower'']\<rparr>"

definition TwoFactorLastStep :: Migration where
  "TwoFactorLastStep = \<lparr>mg_name = ''TwoFactorLastStep1789610000000'',
     mg_up = [AddColumn ''users'' ''twoFactorLastStep'' (snd (nullable [] Integer))],
     mg_down = [DropColumn ''users'' ''twoFactorLastStep'']\<rparr>"

definition CourierApplications :: Migration where
  "CourierApplications = \<lparr>mg_name = ''CourierApplications1789620000000'',
     mg_up =
       [CreateTable ''courier_applications''
          [serial_id, column ''userId'' Integer, column ''principalId'' Uuid, nullable ''driverId'' Bigint,
           defaulted ''status'' (Varchar (Some 16)) (Literal ''pending''), defaulted ''filedAt'' Timestamptz Now,
           nullable ''approvedAt'' Timestamptz]
          [(''UQ_courier_applications_user'', Unique [''userId'']),
           (''CK_courier_applications_status'', CheckThat (OneOf ''status'' [''pending'', ''approved''])),
           (''PK_courier_applications'', PrimaryKey [''id''])],
        AddConstraint ''courier_applications'' ''FK_courier_applications_user'' (ForeignKey ''userId'' ''users'' ''id''),
        AddConstraint ''courier_applications'' ''FK_courier_applications_principal'' (ForeignKey ''principalId'' ''principals'' ''id''),
        WriteRows ''courier_applications''],
     mg_down = [DropTable ''courier_applications'']\<rparr>"

definition NoPlaceholderStoreDescription :: Migration where
  "NoPlaceholderStoreDescription = \<lparr>mg_name = ''NoPlaceholderStoreDescription1789630000000'',
     mg_up = [WriteRows ''merchants''], mg_down = []\<rparr>"

definition SignInAttempts :: Migration where
  "SignInAttempts = \<lparr>mg_name = ''SignInAttempts1789640000000'',
     mg_up =
       [CreateTable ''account_sign_in_attempts''
          [column ''accountKey'' (Varchar (Some 64)), column ''attempts'' Integer, column ''lastAttemptAt'' Timestamptz,
           column ''delayedUntil'' Timestamptz]
          [(''PK_account_sign_in_attempts'', PrimaryKey [''accountKey''])],
        CreateIndex ''ix_account_sign_in_attempts_last_attempt'' ''account_sign_in_attempts'' False [OnColumn ''lastAttemptAt''],
        CreateTable ''two_factor_challenge_attempts''
          [column ''jti'' Uuid, column ''attempts'' Integer, column ''expiresAt'' Timestamptz]
          [(''PK_two_factor_challenge_attempts'', PrimaryKey [''jti''])],
        CreateIndex ''ix_two_factor_challenge_attempts_expires'' ''two_factor_challenge_attempts'' False [OnColumn ''expiresAt'']],
     mg_down = [DropTable ''two_factor_challenge_attempts'', DropTable ''account_sign_in_attempts'']\<rparr>"

definition RefreshTokenClient :: Migration where
  "RefreshTokenClient = \<lparr>mg_name = ''RefreshTokenClient1789650000000'',
     mg_up = [AddColumn ''refresh_tokens'' ''client'' (snd (nullable [] (Varchar (Some 64))))],
     mg_down = [DropColumn ''refresh_tokens'' ''client'']\<rparr>"

definition CourierApplicationRejection :: Migration where
  "CourierApplicationRejection = \<lparr>mg_name = ''CourierApplicationRejection1789660000000'',
     mg_up =
       [DropConstraint ''courier_applications'' ''CK_courier_applications_status'',
        AddConstraint ''courier_applications'' ''CK_courier_applications_status''
          (CheckThat (OneOf ''status'' [''pending'', ''approved'', ''rejected''])),
        AddColumn ''courier_applications'' ''rejectedAt'' (snd (nullable [] Timestamptz))],
     mg_down =
       [WriteRows ''courier_applications'',
        DropColumn ''courier_applications'' ''rejectedAt'',
        DropConstraint ''courier_applications'' ''CK_courier_applications_status'',
        AddConstraint ''courier_applications'' ''CK_courier_applications_status''
          (CheckThat (OneOf ''status'' [''pending'', ''approved'']))]\<rparr>"

definition SellerApplicationRejectedAt :: Migration where
  "SellerApplicationRejectedAt = \<lparr>mg_name = ''SellerApplicationRejectedAt1789670000000'',
     mg_up = [AddColumn ''merchant_verifications'' ''rejectedAt'' (snd (nullable [] Timestamptz))],
     mg_down = [DropColumn ''merchant_verifications'' ''rejectedAt'']\<rparr>"

definition Passkeys_migration :: Migration where
  "Passkeys_migration = \<lparr>mg_name = ''Passkeys1789680000000'',
     mg_up =
       [CreateTable ''passkeys''
          [uuid_id, column ''userId'' Integer, column ''credentialId'' SqlText, column ''publicKey'' Bytea, column ''signCount'' Bigint,
           column ''transports'' TextArray, column ''deviceType'' (Varchar (Some 32)), column ''backedUp'' Boolean,
           column ''name'' (Varchar (Some 64)), defaulted ''createdAt'' Timestamptz Now, nullable ''lastUsedAt'' Timestamptz]
          [(''UQ_passkeys_credential_id'', Unique [''credentialId'']),
           (''CK_passkeys_device_type'', CheckThat (OneOf ''deviceType'' [''singleDevice'', ''multiDevice''])),
           (''PK_passkeys'', PrimaryKey [''id''])],
        CreateIndex ''ix_passkeys_user'' ''passkeys'' False [OnColumn ''userId''],
        AddConstraint ''passkeys'' ''FK_passkeys_user'' (ForeignKey ''userId'' ''users'' ''id''),
        CreateTable ''passkey_challenges''
          [uuid_id, column ''userId'' Integer, column ''purpose'' (Varchar (Some 16)), column ''challenge'' SqlText,
           nullable ''mfaJti'' Uuid, column ''expiresAt'' Timestamptz, nullable ''usedAt'' Timestamptz]
          [(''UQ_passkey_challenges_mfa_jti'', Unique [''mfaJti'']),
           (''CK_passkey_challenges_purpose'', CheckThat (OneOf ''purpose'' [''register'', ''sign_in''])),
           (''CK_passkey_challenges_mfa_jti'', CheckThat SignInHasChallenge),
           (''PK_passkey_challenges'', PrimaryKey [''id''])],
        CreateIndex ''ix_passkey_challenges_expires'' ''passkey_challenges'' False [OnColumn ''expiresAt''],
        AddConstraint ''passkey_challenges'' ''FK_passkey_challenges_user'' (ForeignKey ''userId'' ''users'' ''id'')],
     mg_down = [DropTable ''passkey_challenges'', DropTable ''passkeys'']\<rparr>"

text \<open>The list of \<^verbatim>\<open>data-source.ts\<close>. TypeORM runs each migration once, in this order, and reverts the last one first.\<close>

definition MIGRATIONS :: "Migration list" where
  "MIGRATIONS =
     [InitialSchema, Principals_migration, TokenLifecycle, ProfileProvenance, PrincipalForEveryUser, GeocodedAddresses,
      ProfileCoordinates, MerchantStoreAddress, MerchantCursorPrecision, MerchantChangeTransaction, CaseInsensitiveEmail,
      TwoFactorLastStep, CourierApplications, NoPlaceholderStoreDescription, SignInAttempts, RefreshTokenClient,
      CourierApplicationRejection, SellerApplicationRejectedAt, Passkeys_migration]"

fun migrate :: "Migration list \<Rightarrow> SchemaState \<Rightarrow> SchemaState option" where
  "migrate [] s = Some s"
| "migrate (m # ms) s = Option.bind (run_statements (mg_up m) s) (migrate ms)"

fun revert :: "Migration list \<Rightarrow> SchemaState \<Rightarrow> SchemaState option" where
  "revert [] s = Some s"
| "revert (m # ms) s = Option.bind (run_statements (mg_down m) s) (revert ms)"

text \<open>Two schemas are the same when a client cannot tell them apart: the order of objects does not count, and an extension may stay.\<close>

definition table_same :: "Table \<Rightarrow> Table \<Rightarrow> bool" where
  "table_same a b \<longleftrightarrow>
     set (tb_columns a) = set (tb_columns b) \<and> set (tb_constraints a) = set (tb_constraints b)
     \<and> set (tb_indexes a) = set (tb_indexes b) \<and> set (tb_triggers a) = set (tb_triggers b)"

definition schema_same :: "SchemaState \<Rightarrow> SchemaState \<Rightarrow> bool" where
  "schema_same a b \<longleftrightarrow>
     list_all2 (\<lambda>(t, x) (u, y). t = u \<and> table_same x y) (sc_tables a) (sc_tables b)
     \<and> set (sc_functions a) = set (sc_functions b)"

section \<open>The entities\<close>

text \<open>
  What a decorated class tells TypeORM. A constraint has its name when the class gives one and \<^const>\<open>None\<close> when TypeORM would
  make one up; the one index with \<^verbatim>\<open>synchronize: false\<close> is only named. A property with no column type has the type of its
  TypeScript type: \<^verbatim>\<open>string\<close> is a \<^verbatim>\<open>varchar\<close>, \<^verbatim>\<open>number\<close> an \<^verbatim>\<open>integer\<close>, \<^verbatim>\<open>Date\<close> a \<^verbatim>\<open>timestamp\<close>.
\<close>

record Entity =
  en_table :: string
  en_columns :: "(string \<times> Column) list"
  en_constraints :: "(string option \<times> ConstraintRule) list"
  en_indexes :: "(string \<times> (bool \<times> IndexKey list) option) list"

definition entity_uuid_id :: "string \<times> Column" where "entity_uuid_id = defaulted ''id'' Uuid DriverUuid"

definition UserTypeormEntity :: Entity where
  "UserTypeormEntity = \<lparr>en_table = ''users'',
     en_columns =
       [serial_id, column ''email'' (Varchar None), column ''passwordHash'' (Varchar None),
        defaulted ''role'' (Varchar None) (Literal ''customer''), defaulted ''isTwoFactorEnabled'' Boolean (Literal ''false''),
        nullable ''twoFactorSecret'' (Varchar None), nullable ''twoFactorLastStep'' Integer,
        defaulted ''createdAt'' (Timestamp None) Now, defaulted ''updatedAt'' (Timestamp None) Now],
     en_constraints = [(None, PrimaryKey [''id'']), (None, Unique [''email''])],
     en_indexes = [(''UQ_users_email_lower'', None)]\<rparr>"

definition PrincipalTypeormEntity :: Entity where
  "PrincipalTypeormEntity = \<lparr>en_table = ''principals'',
     en_columns =
       [entity_uuid_id, column ''kind'' (Varchar (Some 32)), nullable ''displayName'' (Varchar (Some 255)),
        defaulted ''createdAt'' Timestamptz Now, defaulted ''updatedAt'' Timestamptz Now],
     en_constraints = [(None, PrimaryKey [''id''])], en_indexes = []\<rparr>"

definition PrincipalAliasTypeormEntity :: Entity where
  "PrincipalAliasTypeormEntity = \<lparr>en_table = ''principal_aliases'',
     en_columns =
       [serial_id, column ''principalId'' Uuid, column ''service'' (Varchar (Some 32)), column ''localId'' (Varchar (Some 128)),
        defaulted ''createdAt'' Timestamptz Now],
     en_constraints =
       [(Some ''uq_principal_aliases_service_local_id'', Unique [''service'', ''localId'']), (None, PrimaryKey [''id'']),
        (Some ''FK_principal_aliases_principal'', ForeignKey ''principalId'' ''principals'' ''id'')],
     en_indexes = [(''ix_principal_aliases_service_local_id'', Some (False, [OnColumn ''service'', OnColumn ''localId'']))]\<rparr>"

definition RefreshTokenTypeormEntity :: Entity where
  "RefreshTokenTypeormEntity = \<lparr>en_table = ''refresh_tokens'',
     en_columns =
       [entity_uuid_id, column ''jti'' Uuid, column ''familyId'' Uuid, column ''principalId'' Uuid, column ''userId'' Integer,
        nullable ''client'' (Varchar (Some 64)), column ''expiresAt'' Timestamptz, nullable ''usedAt'' Timestamptz,
        nullable ''revokedAt'' Timestamptz, nullable ''revokedReason'' (Varchar (Some 32)), nullable ''replacedByJti'' Uuid,
        defaulted ''createdAt'' Timestamptz Now],
     en_constraints =
       [(None, PrimaryKey [''id'']), (None, Unique [''jti'']),
        (Some ''FK_refresh_tokens_principal'', ForeignKey ''principalId'' ''principals'' ''id'')],
     en_indexes =
       [(''ix_refresh_tokens_family'', Some (False, [OnColumn ''familyId''])),
        (''ix_refresh_tokens_principal'', Some (False, [OnColumn ''principalId'']))]\<rparr>"

definition RevokedAccessTokenTypeormEntity :: Entity where
  "RevokedAccessTokenTypeormEntity = \<lparr>en_table = ''revoked_access_tokens'',
     en_columns =
       [entity_uuid_id, column ''jti'' Uuid, column ''expiresAt'' Timestamptz, column ''reason'' (Varchar (Some 32)),
        defaulted ''createdAt'' Timestamptz Now],
     en_constraints = [(None, PrimaryKey [''id'']), (None, Unique [''jti''])],
     en_indexes = [(''ix_revoked_access_tokens_expires'', Some (False, [OnColumn ''expiresAt'']))]\<rparr>"

definition ProfileTypeormEntity :: Entity where
  "ProfileTypeormEntity = \<lparr>en_table = ''profiles'',
     en_columns =
       [serial_id, column ''userId'' Integer, defaulted ''fullName'' (Varchar None) (Literal []), defaulted ''phoneNumber'' (Varchar None) (Literal []),
        defaulted ''streetAddress'' (Varchar None) (Literal []), defaulted ''city'' (Varchar None) (Literal []),
        defaulted ''postalCode'' (Varchar None) (Literal []), nullable ''avatarUrl'' (Varchar None),
        nullable ''latitude'' Double, nullable ''longitude'' Double, nullable ''geocodedAt'' Timestamptz,
        defaulted ''createdAt'' Timestamptz Now, defaulted ''updatedAt'' Timestamptz Now],
     en_constraints =
       [(None, PrimaryKey [''id'']), (None, Unique [''userId'']), (None, ForeignKey ''userId'' ''users'' ''id''),
        (Some ''CK_profiles_point_on_earth'', CheckThat OnEarthOrNowhere)],
     en_indexes = [(''ix_profiles_created'', Some (False, [OnColumn ''createdAt'']))]\<rparr>"

definition MerchantVerificationTypeormEntity :: Entity where
  "MerchantVerificationTypeormEntity = \<lparr>en_table = ''merchant_verifications'',
     en_columns =
       [serial_id, column ''userId'' Integer, column ''storeName'' (Varchar None), column ''businessRegistrationNumber'' (Varchar None),
        column ''taxId'' (Varchar None), defaulted ''streetAddress'' (Varchar None) (Literal []), defaulted ''city'' (Varchar None) (Literal []),
        defaulted ''postalCode'' (Varchar None) (Literal []), defaulted ''status'' (Varchar None) (Literal ''pending''),
        nullable ''verifiedAt'' (Timestamp None), nullable ''rejectedAt'' Timestamptz],
     en_constraints = [(None, PrimaryKey [''id'']), (None, Unique [''userId'']), (None, ForeignKey ''userId'' ''users'' ''id'')],
     en_indexes = []\<rparr>"

definition MerchantTypeormEntity :: Entity where
  "MerchantTypeormEntity = \<lparr>en_table = ''merchants'',
     en_columns =
       [serial_id, column ''userId'' Integer, column ''storeName'' (Varchar None), column ''slug'' (Varchar None),
        nullable ''description'' (Varchar None), column ''businessRegistrationNumber'' (Varchar None), column ''taxId'' (Varchar None),
        defaulted ''status'' (Varchar None) (Literal ''pending''), nullable ''verifiedAt'' (Timestamp None),
        defaulted ''streetAddress'' (Varchar None) (Literal []), defaulted ''city'' (Varchar None) (Literal []),
        defaulted ''postalCode'' (Varchar None) (Literal []), nullable ''latitude'' Double, nullable ''longitude'' Double,
        nullable ''geocodedAt'' Timestamptz, defaulted ''createdAt'' (Timestamp None) Now, defaulted ''updatedAt'' (Timestamp (Some 3)) Now],
     en_constraints =
       [(None, PrimaryKey [''id'']), (None, Unique [''userId'']), (None, Unique [''slug'']), (None, ForeignKey ''userId'' ''users'' ''id''),
        (Some ''CK_merchants_point_on_earth'', CheckThat OnEarthOrNowhere)],
     en_indexes = []\<rparr>"

definition GeocodedAddressTypeormEntity :: Entity where
  "GeocodedAddressTypeormEntity = \<lparr>en_table = ''geocoded_addresses'',
     en_columns =
       [serial_id, column ''query'' SqlText, column ''latitude'' Double, column ''longitude'' Double, column ''provider'' (Varchar None),
        defaulted ''precision'' (Varchar None) (Literal ''UNSPECIFIED''), nullable ''displayName'' SqlText,
        defaulted ''createdAt'' Timestamptz Now, defaulted ''updatedAt'' Timestamptz Now],
     en_constraints = [(None, PrimaryKey [''id'']), (Some ''CK_geocoded_addresses_on_earth'', CheckThat OnEarth)],
     en_indexes = [(''UQ_geocoded_addresses_query'', Some (True, [OnColumn ''query'']))]\<rparr>"

definition CourierApplicationTypeormEntity :: Entity where
  "CourierApplicationTypeormEntity = \<lparr>en_table = ''courier_applications'',
     en_columns =
       [serial_id, column ''userId'' Integer, column ''principalId'' Uuid, nullable ''driverId'' Bigint,
        defaulted ''status'' (Varchar (Some 16)) (Literal ''pending''), defaulted ''filedAt'' Timestamptz Now,
        nullable ''approvedAt'' Timestamptz, nullable ''rejectedAt'' Timestamptz],
     en_constraints =
       [(Some ''UQ_courier_applications_user'', Unique [''userId'']),
        (Some ''CK_courier_applications_status'', CheckThat (OneOf ''status'' [''pending'', ''approved'', ''rejected''])),
        (None, PrimaryKey [''id'']),
        (Some ''FK_courier_applications_user'', ForeignKey ''userId'' ''users'' ''id''),
        (Some ''FK_courier_applications_principal'', ForeignKey ''principalId'' ''principals'' ''id'')],
     en_indexes = []\<rparr>"

definition AccountSignInAttemptTypeormEntity :: Entity where
  "AccountSignInAttemptTypeormEntity = \<lparr>en_table = ''account_sign_in_attempts'',
     en_columns =
       [column ''accountKey'' (Varchar (Some 64)), column ''attempts'' Integer, column ''lastAttemptAt'' Timestamptz,
        column ''delayedUntil'' Timestamptz],
     en_constraints = [(Some ''PK_account_sign_in_attempts'', PrimaryKey [''accountKey''])],
     en_indexes = [(''ix_account_sign_in_attempts_last_attempt'', Some (False, [OnColumn ''lastAttemptAt'']))]\<rparr>"

definition TwoFactorChallengeAttemptTypeormEntity :: Entity where
  "TwoFactorChallengeAttemptTypeormEntity = \<lparr>en_table = ''two_factor_challenge_attempts'',
     en_columns = [column ''jti'' Uuid, column ''attempts'' Integer, column ''expiresAt'' Timestamptz],
     en_constraints = [(Some ''PK_two_factor_challenge_attempts'', PrimaryKey [''jti''])],
     en_indexes = [(''ix_two_factor_challenge_attempts_expires'', Some (False, [OnColumn ''expiresAt'']))]\<rparr>"

definition PasskeyTypeormEntity :: Entity where
  "PasskeyTypeormEntity = \<lparr>en_table = ''passkeys'',
     en_columns =
       [entity_uuid_id, column ''userId'' Integer, column ''credentialId'' SqlText, column ''publicKey'' Bytea, column ''signCount'' Bigint,
        column ''transports'' TextArray, column ''deviceType'' (Varchar (Some 32)), column ''backedUp'' Boolean,
        column ''name'' (Varchar (Some 64)), defaulted ''createdAt'' Timestamptz Now, nullable ''lastUsedAt'' Timestamptz],
     en_constraints =
       [(Some ''UQ_passkeys_credential_id'', Unique [''credentialId'']),
        (Some ''CK_passkeys_device_type'', CheckThat (OneOf ''deviceType'' [''singleDevice'', ''multiDevice''])),
        (Some ''PK_passkeys'', PrimaryKey [''id'']), (Some ''FK_passkeys_user'', ForeignKey ''userId'' ''users'' ''id'')],
     en_indexes = [(''ix_passkeys_user'', Some (False, [OnColumn ''userId'']))]\<rparr>"

definition PasskeyChallengeTypeormEntity :: Entity where
  "PasskeyChallengeTypeormEntity = \<lparr>en_table = ''passkey_challenges'',
     en_columns =
       [entity_uuid_id, column ''userId'' Integer, column ''purpose'' (Varchar (Some 16)), column ''challenge'' SqlText,
        nullable ''mfaJti'' Uuid, column ''expiresAt'' Timestamptz, nullable ''usedAt'' Timestamptz],
     en_constraints =
       [(Some ''UQ_passkey_challenges_mfa_jti'', Unique [''mfaJti'']),
        (Some ''CK_passkey_challenges_purpose'', CheckThat (OneOf ''purpose'' [''register'', ''sign_in''])),
        (Some ''CK_passkey_challenges_mfa_jti'', CheckThat SignInHasChallenge),
        (Some ''PK_passkey_challenges'', PrimaryKey [''id'']),
        (Some ''FK_passkey_challenges_user'', ForeignKey ''userId'' ''users'' ''id'')],
     en_indexes = [(''ix_passkey_challenges_expires'', Some (False, [OnColumn ''expiresAt'']))]\<rparr>"

definition ENTITIES :: "Entity list" where
  "ENTITIES =
     [PrincipalTypeormEntity, PrincipalAliasTypeormEntity, RefreshTokenTypeormEntity, RevokedAccessTokenTypeormEntity, UserTypeormEntity,
      ProfileTypeormEntity, MerchantVerificationTypeormEntity, MerchantTypeormEntity, GeocodedAddressTypeormEntity,
      CourierApplicationTypeormEntity, AccountSignInAttemptTypeormEntity, TwoFactorChallengeAttemptTypeormEntity,
      PasskeyTypeormEntity, PasskeyChallengeTypeormEntity]"

text \<open>
  An entity describes a table: every column, constraint and index of either is one of the other. The identifier an entity has
  TypeORM generate may be the one the migration generates; every other default is the same.
\<close>

definition same_default :: "Default \<Rightarrow> Default \<Rightarrow> bool" where
  "same_default a b \<longleftrightarrow> a = b \<or> a = DriverUuid \<and> b = GenRandomUuid"

fun same_column :: "string \<times> Column \<Rightarrow> string \<times> Column \<Rightarrow> bool" where
  "same_column (n, a) (m, b) \<longleftrightarrow>
     n = m \<and> cm_type a = cm_type b \<and> cm_notNull a = cm_notNull b \<and> same_default (cm_default a) (cm_default b)"

definition same_columns :: "(string \<times> Column) list \<Rightarrow> (string \<times> Column) list \<Rightarrow> bool" where
  "same_columns xs ys \<longleftrightarrow> list_all (\<lambda>x. list_ex (same_column x) ys) xs \<and> list_all (\<lambda>y. list_ex (\<lambda>x. same_column x y) xs) ys"

definition describes :: "Entity \<Rightarrow> Table \<Rightarrow> bool" where
  "describes e table \<longleftrightarrow>
     same_columns (en_columns e) (tb_columns table)
     \<and> list_all (\<lambda>(n, r). case n of None \<Rightarrow> r \<in> snd ` set (tb_constraints table) | Some m \<Rightarrow> (m, r) \<in> set (tb_constraints table)) (en_constraints e)
     \<and> snd ` set (tb_constraints table) \<subseteq> snd ` set (en_constraints e)
     \<and> list_all (\<lambda>(n, key). case key of None \<Rightarrow> n \<in> fst ` set (tb_indexes table) | Some k \<Rightarrow> (n, k) \<in> set (tb_indexes table)) (en_indexes e)
     \<and> fst ` set (tb_indexes table) \<subseteq> fst ` set (en_indexes e)"

text \<open>One table is of no entity: the change feed, which only SQL reads and writes.\<close>

definition all_described :: "SchemaState \<Rightarrow> bool" where
  "all_described s \<longleftrightarrow>
     set (map fst (sc_tables s)) = set (''merchant_change_feed'' # map en_table ENTITIES)
     \<and> list_all (\<lambda>e. case map_of (sc_tables s) (en_table e) of None \<Rightarrow> False | Some table \<Rightarrow> describes e table) ENTITIES"

section \<open>What the migrations make\<close>

text \<open>A migration is undone by its own \<^verbatim>\<open>down\<close>; \<open>undone_each\<close> asks this of a list of them, each where the ones before it leave the schema.\<close>

definition undone :: "Migration \<Rightarrow> SchemaState \<Rightarrow> SchemaState \<Rightarrow> bool" where
  "undone m s t \<longleftrightarrow> (case run_statements (mg_down m) t of None \<Rightarrow> False | Some u \<Rightarrow> schema_same u s)"

fun undone_each :: "Migration list \<Rightarrow> SchemaState \<Rightarrow> bool" where
  "undone_each [] s = True"
| "undone_each (m # ms) s = (case run_statements (mg_up m) s of None \<Rightarrow> False | Some t \<Rightarrow> undone m s t \<and> undone_each ms t)"

lemma undone_eachD:
  "undone_each ms s \<Longrightarrow> n < length ms \<Longrightarrow>
   \<exists>t u. migrate (take n ms) s = Some t \<and> migrate (take (Suc n) ms) s = Some u \<and> undone (ms ! n) t u"
proof (induction ms arbitrary: s n)
  case (Cons m ms)
  then obtain x where x: "run_statements (mg_up m) s = Some x" "undone m s x" "undone_each ms x"
    by (auto split: option.splits)
  show ?case
  proof (cases n)
    case 0
    with x show ?thesis by simp
  next
    case (Suc k)
    with Cons.IH [OF x(3), of k] Cons.prems(2) x(1) show ?thesis by simp
  qed
qed simp

lemma undone_each_append:
  "undone_each (xs @ ys) s \<longleftrightarrow> undone_each xs s \<and> (case migrate xs s of None \<Rightarrow> False | Some t \<Rightarrow> undone_each ys t)"
  by (induction xs arbitrary: s) (auto split: option.split)

lemma first_migrations_undone: "undone_each (take 12 MIGRATIONS) empty_schema"
  by code_simp

lemma last_migrations_undone: "(case migrate (take 12 MIGRATIONS) empty_schema of None \<Rightarrow> False | Some t \<Rightarrow> undone_each (drop 12 MIGRATIONS) t)"
  by code_simp

lemma all_migrations_undone: "undone_each MIGRATIONS empty_schema"
  using first_migrations_undone last_migrations_undone undone_each_append [of "take 12 MIGRATIONS" "drop 12 MIGRATIONS" empty_schema]
  by (simp only: append_take_drop_id simp_thms)

text \<open>
  C40. Every migration of \<^verbatim>\<open>data-source.ts\<close> runs on the schema the ones before it leave, starting from an empty database, and its
  \<^verbatim>\<open>down\<close> then runs too and gives back the tables, columns, constraints, indexes, triggers and functions there were; the extension
  \<^verbatim>\<open>pgcrypto\<close> stays. This is as far as the schema decides it, not the rows.
\<close>
theorem migrations_run_and_revert:
  assumes "n < length MIGRATIONS"
  shows "\<exists>s t u. migrate (take n MIGRATIONS) empty_schema = Some s \<and> migrate (take (Suc n) MIGRATIONS) empty_schema = Some t
    \<and> run_statements (mg_down (MIGRATIONS ! n)) t = Some u \<and> schema_same u s"
  using undone_eachD [OF all_migrations_undone assms] by (auto simp: undone_def split: option.splits)

text \<open>The migration that lets an application be rejected: going back leaves the check on the status as it was.\<close>
theorem migrations_run_and_revert_witness:
  "\<exists>s t u. migrate (take 16 MIGRATIONS) empty_schema = Some s \<and> migrate (take 17 MIGRATIONS) empty_schema = Some t
    \<and> run_statements (mg_down CourierApplicationRejection) t = Some u \<and> schema_same u s"
  using migrations_run_and_revert [of 16] by (simp add: MIGRATIONS_def)

section \<open>What the rows allow\<close>

text \<open>
  A schema does not tell whether \<^verbatim>\<open>ADD CONSTRAINT\<close> or \<^verbatim>\<open>CREATE UNIQUE INDEX\<close> finds rows that break the rule. While a migration runs,
  this much is known of them: the tables it has made and not written yet are empty, a column it has added with no default is
  null in every row, a rule it has dropped still holds. Of the accounts there are, two things matter: whether their addresses
  differ by more than case, and whether each fits the 255 characters of a principal's name. \<open>rows_allow\<close> is True where these
  facts say that the rows are as the statement needs them; for the index on \<^verbatim>\<open>lower(email)\<close> they decide it.
\<close>

record RowFacts =
  rf_apart :: bool
  rf_fit :: bool
  rf_empty :: "string list"
  rf_null :: "(string \<times> string) list"
  rf_held :: "(string \<times> ConstraintRule) list"

definition known :: "string list \<Rightarrow> RowFacts" where
  "known emails =
     \<lparr>rf_apart = distinct (map js_toLowerCase emails), rf_fit = list_all (\<lambda>e. length e \<le> 255) emails,
      rf_empty = [], rf_null = [], rf_held = []\<rparr>"

fun still_holds :: "ConstraintRule \<Rightarrow> ConstraintRule \<Rightarrow> bool" where
  "still_holds (CheckThat (OneOf c vs)) (CheckThat (OneOf d ws)) \<longleftrightarrow> c = d \<and> set ws \<subseteq> set vs"
| "still_holds r q \<longleftrightarrow> r = q"

definition rule_holds :: "RowFacts \<Rightarrow> string \<Rightarrow> ConstraintRule \<Rightarrow> bool" where
  "rule_holds f t r \<longleftrightarrow>
     t \<in> set (rf_empty f)
     \<or> r = CheckThat OnEarthOrNowhere \<and> (t, ''latitude'') \<in> set (rf_null f) \<and> (t, ''longitude'') \<in> set (rf_null f)
     \<or> list_ex (\<lambda>(u, q). u = t \<and> still_holds r q) (rf_held f)"

fun rows_allow :: "RowFacts \<Rightarrow> Statement \<Rightarrow> bool" where
  "rows_allow f (AddConstraint t _ r) = rule_holds f t r"
| "rows_allow f (CreateIndex _ t unique keys) =
     (unique \<longrightarrow> t \<in> set (rf_empty f) \<or> t = ''users'' \<and> keys = [OnLower ''email''] \<and> rf_apart f)"
| "rows_allow f (WriteRows t) = (t = ''principals'' \<longrightarrow> rf_fit f)"
| "rows_allow f _ = True"

definition forget :: "string \<Rightarrow> RowFacts \<Rightarrow> RowFacts" where
  "forget t f = f\<lparr>rf_empty := removeAll t (rf_empty f), rf_null := without t (rf_null f), rf_held := without t (rf_held f)\<rparr>"

fun rows_after :: "SchemaState \<Rightarrow> Statement \<Rightarrow> RowFacts \<Rightarrow> RowFacts" where
  "rows_after s (CreateTable t _ _) f = f\<lparr>rf_empty := t # rf_empty f\<rparr>"
| "rows_after s (AddColumn t c added) f = (if cm_default added = NoDefault then f\<lparr>rf_null := (t, c) # rf_null f\<rparr> else f)"
| "rows_after s (DropConstraint t n) f =
     (case Option.bind (map_of (sc_tables s) t) (\<lambda>table. map_of (tb_constraints table) n) of
        None \<Rightarrow> f | Some r \<Rightarrow> f\<lparr>rf_held := (t, r) # rf_held f\<rparr>)"
| "rows_after s (AlterType t _ _) f = forget t f"
| "rows_after s (WriteRows t) f = forget t f"
| "rows_after s (DropTable t) f = forget t f"
| "rows_after s (DropColumn t _) f = forget t f"
| "rows_after s _ f = f"

fun apply_up :: "RowFacts \<Rightarrow> Statement list \<Rightarrow> SchemaState \<Rightarrow> SchemaState option" where
  "apply_up f [] s = Some s"
| "apply_up f (x # xs) s = (if rows_allow f x then Option.bind (execute x s) (apply_up (rows_after s x f) xs) else None)"

fun deploy :: "RowFacts \<Rightarrow> Migration list \<Rightarrow> SchemaState \<Rightarrow> SchemaState option" where
  "deploy f [] s = Some s"
| "deploy f (m # ms) s = Option.bind (apply_up f (mg_up m) s) (deploy f ms)"

lemma apply_up_runs: "apply_up f xs s = Some t \<Longrightarrow> run_statements xs s = Some t"
  by (induction xs arbitrary: f s) (auto simp: bind_eq_Some_conv split: if_splits)

lemma deploy_migrates: "deploy f ms s = Some t \<Longrightarrow> migrate ms s = Some t"
  by (induction ms arbitrary: s) (auto simp: bind_eq_Some_conv dest: apply_up_runs)

lemma deploy_append: "deploy f (xs @ ys) s = Option.bind (deploy f xs s) (deploy f ys)"
proof (induction xs arbitrary: s)
  case (Cons m xs)
  then have "deploy f (xs @ ys) = (\<lambda>t. Option.bind (deploy f xs t) (deploy f ys))" by (intro ext)
  then show ?case by simp
qed simp

text \<open>Where a list of migrations can be deployed, so can what is left of it after its first ones.\<close>

lemma deploy_rest:
  assumes "deploy f (xs @ ys) s = Some t" and "migrate xs s = Some u"
  shows "deploy f ys u = Some t"
  using assms by (auto simp: deploy_append bind_eq_Some_conv dest: deploy_migrates)

lemma deploy_refused:
  assumes "\<And>u. apply_up f (mg_up m) u = None"
  shows "deploy f (xs @ m # ys) s = None"
  using assms by (simp add: deploy_append) (cases "deploy f xs s"; simp)

definition facts :: "bool \<Rightarrow> RowFacts" where
  "facts apart = \<lparr>rf_apart = apart, rf_fit = True, rf_empty = [], rf_null = [], rf_held = []\<rparr>"

lemma known_facts: "list_all (\<lambda>e. length e \<le> 255) emails \<Longrightarrow> known emails = facts (distinct (map js_toLowerCase emails))"
  by (simp add: known_def facts_def)

lemma deploy_apart: "(case deploy (facts True) MIGRATIONS empty_schema of None \<Rightarrow> False | Some s \<Rightarrow> all_described s)"
  by code_simp

lemma deploy_late:
  "(case migrate (take 11 MIGRATIONS) empty_schema of None \<Rightarrow> False | Some s \<Rightarrow> deploy (facts False) (drop 11 MIGRATIONS) s \<noteq> None)"
  by code_simp

lemma email_index_refused: "apply_up (facts False) (mg_up CaseInsensitiveEmail) s = None"
  by (simp add: CaseInsensitiveEmail_def facts_def)

section \<open>Deploying\<close>

text \<open>
  \<^verbatim>\<open>migrate.ts\<close>, which runs before the service starts: a database also knows the names of the migrations it has had, and those
  it has not had are run in one transaction, over the rows there are: of these \<open>dp_emails\<close>, the addresses of the accounts, is what
  can stop it. \<^const>\<open>None\<close> is the process that ends with an error.
\<close>

record Database =
  dp_schema :: SchemaState
  dp_applied :: "string list"
  dp_emails :: "string list"

definition pending :: "Migration list \<Rightarrow> Database \<Rightarrow> Migration list" where
  "pending ms d = filter (\<lambda>m. mg_name m \<notin> set (dp_applied d)) ms"

definition runMigrations :: "Migration list \<Rightarrow> Database \<Rightarrow> string list option \<times> Database" where
  "runMigrations ms d =
     (case deploy (known (dp_emails d)) (pending ms d) (dp_schema d) of
        None \<Rightarrow> (None, d)
      | Some s \<Rightarrow> (Some (map mg_name (pending ms d)), d\<lparr>dp_schema := s, dp_applied := dp_applied d @ map mg_name (pending ms d)\<rparr>))"

definition migrate_main :: "Database \<Rightarrow> string list option \<times> Database" where
  "migrate_main d = (if pending MIGRATIONS d = [] then (Some [], d) else runMigrations MIGRATIONS d)"

text \<open>A database that was deployed when the list was shorter.\<close>

definition deployed :: "nat \<Rightarrow> SchemaState \<Rightarrow> string list \<Rightarrow> Database" where
  "deployed n s emails = \<lparr>dp_schema = s, dp_applied = map mg_name (take n MIGRATIONS), dp_emails = emails\<rparr>"

lemma migrate_append: "migrate (xs @ ys) s = Option.bind (migrate xs s) (migrate ys)"
proof (induction xs arbitrary: s)
  case (Cons m xs)
  then have "migrate (xs @ ys) = (\<lambda>t. Option.bind (migrate xs t) (migrate ys))" by (intro ext)
  then show ?case by simp
qed simp

lemma migration_names: "distinct (map mg_name MIGRATIONS)"
  by code_simp

lemma filter_rest: "distinct (map f (xs @ ys)) \<Longrightarrow> filter (\<lambda>x. f x \<notin> set (map f xs)) (xs @ ys) = ys"
proof -
  assume "distinct (map f (xs @ ys))"
  then have "f y \<notin> f ` set xs" if "y \<in> set ys" for y using that by auto
  then have "filter (\<lambda>x. f x \<notin> set (map f xs)) ys = ys" by (simp add: filter_id_conv)
  moreover have "filter (\<lambda>x. f x \<notin> set (map f xs)) xs = []" by (simp add: filter_empty_conv)
  ultimately show ?thesis by simp
qed

lemma pending_deployed: "pending MIGRATIONS (deployed n s emails) = drop n MIGRATIONS"
  using filter_rest [of mg_name "take n MIGRATIONS" "drop n MIGRATIONS"] migration_names
  by (simp add: pending_def deployed_def)

lemma migrate_main_deployed:
  assumes "deploy (known emails) (drop n MIGRATIONS) s = Some t"
  shows "migrate_main (deployed n s emails) = (Some (map mg_name (drop n MIGRATIONS)), deployed (length MIGRATIONS) t emails)"
proof -
  have names: "map mg_name (take n MIGRATIONS) @ map mg_name (drop n MIGRATIONS) = map mg_name MIGRATIONS"
    by (simp flip: map_append)
  show ?thesis
  proof (cases "drop n MIGRATIONS = []")
    case True
    with assms show ?thesis by (simp add: migrate_main_def pending_deployed) (simp add: deployed_def)
  next
    case False
    then have "migrate_main (deployed n s emails) = runMigrations MIGRATIONS (deployed n s emails)"
      by (simp add: migrate_main_def pending_deployed)
    also have "\<dots> = (Some (map mg_name (drop n MIGRATIONS)), deployed (length MIGRATIONS) t emails)"
      unfolding runMigrations_def pending_deployed using assms names by (simp add: deployed_def)
    finally show ?thesis .
  qed
qed

lemma migrate_main_refused:
  assumes "deploy (known emails) (drop n MIGRATIONS) s = None"
  shows "migrate_main (deployed n s emails) = (None, deployed n s emails)"
proof -
  have "drop n MIGRATIONS \<noteq> []" using assms by (cases "drop n MIGRATIONS") simp_all
  moreover have "dp_emails (deployed n s emails) = emails" "dp_schema (deployed n s emails) = s" by (simp_all add: deployed_def)
  ultimately show ?thesis using assms by (simp add: migrate_main_def runMigrations_def pending_deployed)
qed

lemma migrations_split: "n \<le> 10 \<Longrightarrow> drop n MIGRATIONS = drop n (take 10 MIGRATIONS) @ CaseInsensitiveEmail # drop 11 MIGRATIONS"
proof -
  assume "n \<le> 10"
  have "MIGRATIONS = take 10 MIGRATIONS @ CaseInsensitiveEmail # drop 11 MIGRATIONS" by (simp add: MIGRATIONS_def)
  then have "drop n MIGRATIONS = drop n (take 10 MIGRATIONS @ CaseInsensitiveEmail # drop 11 MIGRATIONS)" by (rule arg_cong)
  moreover have "length (take 10 MIGRATIONS) = 10" by (simp add: MIGRATIONS_def)
  ultimately show ?thesis using \<open>n \<le> 10\<close> by simp
qed

lemma deploy_pending:
  assumes "migrate (take n MIGRATIONS) empty_schema = Some s" and "migrate MIGRATIONS empty_schema = Some t"
    and "10 < n \<or> apart"
  shows "deploy (facts apart) (drop n MIGRATIONS) s = Some t"
proof (cases apart)
  case True
  obtain u where "deploy (facts True) (take n MIGRATIONS @ drop n MIGRATIONS) empty_schema = Some u"
    using deploy_apart by (auto split: option.splits)
  from deploy_rest [OF this assms(1)] deploy_migrates [OF this] assms(2) True show ?thesis by simp
next
  case False
  with assms(3) have "n = 11 + (n - 11)" by simp
  then have late: "take n MIGRATIONS = take 11 MIGRATIONS @ take (n - 11) (drop 11 MIGRATIONS)"
      "drop n MIGRATIONS = drop (n - 11) (drop 11 MIGRATIONS)"
    by (metis take_add, metis add.commute drop_drop)
  obtain v u where v: "migrate (take 11 MIGRATIONS) empty_schema = Some v" "deploy (facts False) (drop 11 MIGRATIONS) v = Some u"
    using deploy_late by (auto split: option.splits)
  have "migrate (take (n - 11) (drop 11 MIGRATIONS)) v = Some s"
    using assms(1) v(1) late(1) by (simp add: migrate_append)
  then have "deploy (facts False) (drop n MIGRATIONS) s = Some u"
    using v(2) late(2) by (metis append_take_drop_id deploy_rest)
  moreover have "migrate (drop n MIGRATIONS) s = Some t"
    using assms(1,2) migrate_append [of "take n MIGRATIONS" "drop n MIGRATIONS" empty_schema] by simp
  ultimately show ?thesis using False deploy_migrates by fastforce
qed

text \<open>
  C39. Whichever of the migrations a database has had, none or the first ones or all, and whatever accounts it holds with addresses
  of at most 255 characters: deploying fails, and changes nothing, exactly if the index on \<^verbatim>\<open>lower(email)\<close> is still to be made and two
  addresses differ only in case. Otherwise it applies exactly the migrations the database has not had, in order, and a second run
  applies nothing and changes nothing. The database then has the table of each entity and, of no entity, the change feed; each
  entity's table has the same columns (type, nullability and default, where a generated uuid may come from any function), the
  same constraints and the same indexes. With \<^verbatim>\<open>synchronize: false\<close> nothing else keeps the two in step.
\<close>
theorem deploying_gives_the_described_schema:
  assumes "n \<le> length MIGRATIONS" and "n = 0 \<Longrightarrow> emails = []" and "\<And>e. e \<in> set emails \<Longrightarrow> length e \<le> 255"
  shows "\<exists>s. migrate (take n MIGRATIONS) empty_schema = Some s
    \<and> (if n \<le> 10 \<and> \<not> distinct (map js_toLowerCase emails)
       then migrate_main (deployed n s emails) = (None, deployed n s emails)
       else \<exists>d. migrate_main (deployed n s emails) = (Some (map mg_name (drop n MIGRATIONS)), d)
              \<and> dp_emails d = emails \<and> all_described (dp_schema d) \<and> migrate_main d = (Some [], d))"
proof -
  let ?apart = "distinct (map js_toLowerCase emails)"
  have known: "known emails = facts ?apart" using assms(3) by (intro known_facts) (simp add: list_all_iff)
  obtain t where "deploy (facts True) MIGRATIONS empty_schema = Some t" and described: "all_described t"
    using deploy_apart by (auto split: option.splits)
  then have t: "migrate MIGRATIONS empty_schema = Some t" by (intro deploy_migrates)
  then obtain s where s: "migrate (take n MIGRATIONS) empty_schema = Some s"
    using migrate_append [of "take n MIGRATIONS" "drop n MIGRATIONS" empty_schema]
    by (cases "migrate (take n MIGRATIONS) empty_schema") simp_all
  have again: "migrate_main (deployed (length MIGRATIONS) t emails) = (Some [], deployed (length MIGRATIONS) t emails)"
    using pending_deployed [of "length MIGRATIONS" t emails] by (simp add: migrate_main_def)
  show ?thesis
  proof (cases "n \<le> 10 \<and> \<not> ?apart")
    case True
    then have "deploy (known emails) (drop n MIGRATIONS) s = None"
      using deploy_refused [OF email_index_refused, of "drop n (take 10 MIGRATIONS)" "drop 11 MIGRATIONS" s]
        migrations_split [of n] known by simp
    with s True show ?thesis by (simp add: migrate_main_refused)
  next
    case False
    then have "deploy (known emails) (drop n MIGRATIONS) s = Some t"
      unfolding known by (intro deploy_pending [OF s t]) auto
    from migrate_main_deployed [OF this] s again described False show ?thesis by (auto simp: deployed_def)
  qed
qed

text \<open>A database one migration behind, and one from before the index with two addresses that differ in case.\<close>
theorem deploying_gives_the_described_schema_witness:
  "(\<exists>s d. migrate (take 18 MIGRATIONS) empty_schema = Some s
      \<and> migrate_main (deployed 18 s [''a@b.id'', ''c@b.id'']) = (Some [''Passkeys1789680000000''], d) \<and> all_described (dp_schema d))
   \<and> (\<exists>s. migrate (take 10 MIGRATIONS) empty_schema = Some s
      \<and> migrate_main (deployed 10 s [''a@b.id'', ''A@b.id'']) = (None, deployed 10 s [''a@b.id'', ''A@b.id'']))"
proof (intro conjI)
  have names: "18 \<le> length MIGRATIONS" "10 \<le> length MIGRATIONS" "map mg_name (drop 18 MIGRATIONS) = [''Passkeys1789680000000'']"
    by (simp_all add: MIGRATIONS_def Passkeys_migration_def)
  have brief: "length e \<le> 255" if "e \<in> set [''a@b.id'', ''c@b.id'']" for e using that by auto
  show "\<exists>s d. migrate (take 18 MIGRATIONS) empty_schema = Some s
      \<and> migrate_main (deployed 18 s [''a@b.id'', ''c@b.id'']) = (Some [''Passkeys1789680000000''], d) \<and> all_described (dp_schema d)"
    using deploying_gives_the_described_schema [OF names(1) _ brief] names(3) by fastforce
  have same: "\<not> distinct (map js_toLowerCase [''a@b.id'', ''A@b.id''])" by code_simp
  have short: "length e \<le> 255" if "e \<in> set [''a@b.id'', ''A@b.id'']" for e using that by auto
  have "\<exists>s. migrate (take 10 MIGRATIONS) empty_schema = Some s
      \<and> (if 10 \<le> (10 :: nat) \<and> \<not> distinct (map js_toLowerCase [''a@b.id'', ''A@b.id''])
         then migrate_main (deployed 10 s [''a@b.id'', ''A@b.id'']) = (None, deployed 10 s [''a@b.id'', ''A@b.id''])
         else \<exists>d. migrate_main (deployed 10 s [''a@b.id'', ''A@b.id'']) = (Some (map mg_name (drop 10 MIGRATIONS)), d)
           \<and> dp_emails d = [''a@b.id'', ''A@b.id''] \<and> all_described (dp_schema d) \<and> migrate_main d = (Some [], d))"
    by (rule deploying_gives_the_described_schema [OF names(2) _ short]) simp
  then show "\<exists>s. migrate (take 10 MIGRATIONS) empty_schema = Some s
      \<and> migrate_main (deployed 10 s [''a@b.id'', ''A@b.id'']) = (None, deployed 10 s [''a@b.id'', ''A@b.id''])"
    by (simp only: same order_refl not_False_eq_True simp_thms if_True)
qed

end
