(* ===== verification/Data_Migrations.thy ===== *)
theory Data_Migrations
  imports Operators Couriers
begin

text \<open>
  What the migrations do to rows (\<^verbatim>\<open>migrations/1789000000000-PrincipalForEveryUser.ts\<close>,
  \<^verbatim>\<open>1789500000000-MerchantChangeTransaction.ts\<close>, \<^verbatim>\<open>1789620000000-CourierApplications.ts\<close>,
  \<^verbatim>\<open>1789630000000-NoPlaceholderStoreDescription.ts\<close> and, on the way back, \<^verbatim>\<open>1789660000000-CourierApplicationRejection.ts\<close>):
  the directory and the courier queue are filled from the accounts there are. What a migration does to the schema is the
  subject of \<open>Schema\<close>. A migration runs in one transaction, so one that fails leaves the rows as they were.
\<close>

section \<open>The statements\<close>

definition unclaimed :: "world \<Rightarrow> UserRow list" where
  "unclaimed w = sort_key u_id (filter (\<lambda>u. alias_of ''identity'' (decimal (u_id u)) w = None) (users w))"

fun mint_each :: "'tok Env \<Rightarrow> UserRow list \<Rightarrow> nat act" where
  "mint_each env [] = returns 0"
| "mint_each env (user # rest) =
     andThen
       (andThen (insert_principal env (principalKindForRole (u_role user)) (u_email user))
        (\<lambda>created. insert_alias_if_free created ''identity'' (decimal (u_id user))))
     (\<lambda>_. andThen (mint_each env rest) (\<lambda>n. returns (Suc n)))"

definition principalForEveryUser :: "'tok Env \<Rightarrow> nat act" where
  "principalForEveryUser env = atomically (andThen (reads unclaimed) (mint_each env))"

text \<open>Every store there is counts as changed by the transaction that makes the feed.\<close>

definition feedEveryMerchant :: "unit act" where
  "feedEveryMerchant =
     writes (\<lambda>w. w\<lparr>merchants := map (\<lambda>m. m\<lparr>mr_changeTransaction := transactions w\<rparr>) (merchants w), transactions := Suc (transactions w)\<rparr>)"

definition courier_pairs :: "world \<Rightarrow> (nat \<times> string) list" where
  "courier_pairs w =
     concat (map (\<lambda>account. map (\<lambda>a. (u_id account, al_principalId a))
         (filter (\<lambda>a. al_service a = ''identity'' \<and> al_localId a = decimal (u_id account)) (aliases w)))
       (filter (\<lambda>account. u_role account = Courier) (users w)))"

definition approved_row :: "int \<Rightarrow> nat \<Rightarrow> nat \<times> string \<Rightarrow> CourierApplicationRow" where
  "approved_row now i pair =
     \<lparr>co_id = i, co_userId = fst pair, co_principalId = snd pair, co_driverId = None, co_status = CApproved,
      co_filedAt = now, co_approvedAt = None, co_rejectedAt = None\<rparr>"

definition fileEveryCourier :: "unit act" where
  "fileEveryCourier =
     (\<lambda>w. let pairs = courier_pairs w;
              rows = courier_applications w
                @ map2 (approved_row (clock w)) [courier_seq w ..< courier_seq w + length pairs] pairs
          in if \<not> distinct (map co_userId rows) then (Inl (QueryFailed ''23505''), w)
             else (Inr (), w\<lparr>courier_applications := rows, courier_seq := courier_seq w + length pairs\<rparr>))"

text \<open>The trigger of the feed sees the stores the statement writes; \<^verbatim>\<open>updatedAt\<close> is not among what it writes.\<close>

definition PLACEHOLDER_DESCRIPTION :: string where "PLACEHOLDER_DESCRIPTION = ''Official Merchant Store''"

definition noPlaceholderStoreDescription :: "unit act" where
  "noPlaceholderStoreDescription =
     writes (\<lambda>w. w\<lparr>merchants := map (\<lambda>m. if m_description m = Some PLACEHOLDER_DESCRIPTION
          then m\<lparr>m_description := None, mr_changeTransaction := transactions w\<rparr> else m) (merchants w),
        transactions := Suc (transactions w)\<rparr>)"

definition rejectedBackToPending :: "unit act" where
  "rejectedBackToPending =
     writes (\<lambda>w. w\<lparr>courier_applications := map (\<lambda>r. if co_status r = CRejected then r\<lparr>co_status := CPending\<rparr> else r) (courier_applications w)\<rparr>)"

section \<open>A principal for every account\<close>

definition unaliased :: "world \<Rightarrow> UserRow \<Rightarrow> bool" where
  "unaliased w u \<longleftrightarrow> alias_of ''identity'' (decimal (u_id u)) w = None"

lemma mint_missing_each:
  assumes "inj (uuid env)" and "principals_ok env w" and "distinct (map u_id us)"
  shows "mint_missing env True us w = mint_each env (filter (unaliased w) us) w"
  using assms(2,3)
proof (induction us arbitrary: w)
  case (Cons u us)
  show ?case
  proof (cases "alias_of ''identity'' (decimal (u_id u)) w")
    case (Some a)
    with Cons.IH [of w] Cons.prems show ?thesis by (simp add: andThen_run unaliased_def)
  next
    case None
    obtain x where x: "andThen (insert_principal env (principalKindForRole (u_role u)) (u_email u))
          (\<lambda>created. insert_alias_if_free created ''identity'' (decimal (u_id u))) w = (Inr (), x)" "extended env w x"
        "\<forall>j. j \<noteq> u_id u \<longrightarrow> look (''identity'', decimal j) x = look (''identity'', decimal j) w"
      using mint_one [OF None assms(1) Cons.prems(1)] by blast
    have same: "unaliased x v = unaliased w v" if "v \<in> set us" for v
    proof -
      have "u_id v \<noteq> u_id u" using that Cons.prems(2) by (metis distinct.simps(2) image_eqI list.simps(9) set_map)
      with x(3) have "look (''identity'', decimal (u_id v)) x = look (''identity'', decimal (u_id v)) w" by blast
      then show ?thesis by (cases "alias_of ''identity'' (decimal (u_id v)) x"; cases "alias_of ''identity'' (decimal (u_id v)) w")
        (simp_all add: unaliased_def look_def)
    qed
    have ok: "principals_ok env x" using x(2) by (simp add: extended_def)
    have "filter (unaliased x) us = filter (unaliased w) us" using same by (intro filter_cong refl)
    moreover have "unaliased w u" using None by (simp add: unaliased_def)
    ultimately show ?thesis using Cons.IH [OF ok] Cons.prems(2) None x(1) by (simp add: andThen_run)
  qed
qed simp

text \<open>The migration and the operators' backfill mint the same principals, one after the other in the order of the accounts.\<close>

lemma principalForEveryUser_mints:
  assumes "inj (uuid env)" and "principals_ok env w" and "distinct (map u_id (users w))"
  obtains n t where "mint_missing env True (sort_key u_id (users w)) w = (Inr n, t)" "principalForEveryUser env w = (Inr n, t)"
    "extended env w t" "\<forall>u \<in> set (users w). accounted w t u"
proof -
  have sorted_ids: "distinct (map u_id (sort_key u_id (users w)))"
    using assms(3) by (metis distinct_map distinct_sort set_sort)
  obtain n t where run: "mint_missing env True (sort_key u_id (users w)) w = (Inr n, t)" "extended env w t"
      "\<forall>u \<in> set (sort_key u_id (users w)). accounted w t u"
    using mint_missing_run [OF assms(1,2) sorted_ids] by blast
  have "unclaimed w = filter (unaliased w) (sort_key u_id (users w))"
    unfolding unclaimed_def unaliased_def by (simp add: filter_sort)
  then have "principalForEveryUser env w = (Inr n, t)"
    using run(1) mint_missing_each [OF assms(1,2) sorted_ids]
    by (simp add: principalForEveryUser_def atomically_run andThen_run)
  with run show thesis by (intro that) simp_all
qed
section \<open>The couriers there were\<close>

lemma alias_rows:
  assumes "distinct (map alias_key (aliases w))"
  shows "filter (\<lambda>a. al_service a = s \<and> al_localId a = l) (aliases w) = (case alias_of s l w of None \<Rightarrow> [] | Some a \<Rightarrow> [a])"
proof -
  have "filter (\<lambda>a. al_service a = s \<and> al_localId a = l) xs = (case find (\<lambda>a. al_service a = s \<and> al_localId a = l) xs of None \<Rightarrow> [] | Some a \<Rightarrow> [a])"
    if "distinct (map alias_key xs)" for xs
    using that
  proof (induction xs)
    case (Cons a xs)
    show ?case
    proof (cases "al_service a = s \<and> al_localId a = l")
      case True
      with Cons.prems have "filter (\<lambda>a. al_service a = s \<and> al_localId a = l) xs = []"
        by (auto simp: alias_key_def filter_empty_conv image_iff)
      with True show ?thesis by simp
    qed (use Cons in auto)
  qed simp
  from this [OF assms] show ?thesis by (simp add: alias_of_def)
qed

lemma courier_pairs_accounted:
  assumes "principals_ok env w" and "\<forall>u \<in> set (users w). look (''identity'', decimal (u_id u)) w \<noteq> None"
  shows "courier_pairs w =
    map (\<lambda>u. (u_id u, the (look (''identity'', decimal (u_id u)) w))) (filter (\<lambda>u. u_role u = Courier) (users w))"
proof -
  have keys: "distinct (map alias_key (aliases w))" using assms(1) by (simp add: principals_ok_def)
  have single: "concat (map (\<lambda>x. [f x]) ys) = map f ys" for f :: "UserRow \<Rightarrow> nat \<times> string" and ys by (induction ys) simp_all
  have "map (\<lambda>a. (u_id u, al_principalId a)) (filter (\<lambda>a. al_service a = ''identity'' \<and> al_localId a = decimal (u_id u)) (aliases w))
      = [(u_id u, the (look (''identity'', decimal (u_id u)) w))]" if "u \<in> set (users w)" for u
    unfolding alias_rows [OF keys] using assms(2) that by (auto simp: look_def split: option.split)
  then have "map (\<lambda>u. map (\<lambda>a. (u_id u, al_principalId a)) (filter (\<lambda>a. al_service a = ''identity'' \<and> al_localId a = decimal (u_id u)) (aliases w)))
      (filter (\<lambda>u. u_role u = Courier) (users w))
    = map (\<lambda>u. [(u_id u, the (look (''identity'', decimal (u_id u)) w))]) (filter (\<lambda>u. u_role u = Courier) (users w))"
    by (intro map_cong refl) (simp only: set_filter mem_Collect_eq)
  then show ?thesis unfolding courier_pairs_def by (simp only: single)
qed

lemma approved_rows:
  "map co_userId (map2 (approved_row now) [k ..< k + length ps] ps) = map fst ps"
  "map co_principalId (map2 (approved_row now) [k ..< k + length ps] ps) = map snd ps"
  by (rule nth_equalityI; simp add: approved_row_def)+

text \<open>\<open>queued w\<close>: the couriers of the directory, each with an approved application that names its principal, and nobody else.\<close>

definition queued :: "world \<Rightarrow> bool" where
  "queued w \<longleftrightarrow>
     co_userId ` set (courier_applications w) = u_id ` {u \<in> set (users w). u_role u = Courier}
     \<and> (\<forall>r \<in> set (courier_applications w). co_status r = CApproved
          \<and> look (''identity'', decimal (co_userId r)) w = Some (co_principalId r))"

lemma look_queue [simp]: "look k (w\<lparr>courier_applications := rows, courier_seq := n\<rparr>) = look k w"
  by (simp add: look_def alias_of_def)

lemma fileEveryCourier_run:
  assumes "principals_ok env w" and "distinct (map u_id (users w))" and "courier_applications w = []"
    and "\<forall>u \<in> set (users w). look (''identity'', decimal (u_id u)) w \<noteq> None"
  obtains rows where "fileEveryCourier w = (Inr (), w\<lparr>courier_applications := rows, courier_seq := courier_seq w + length rows\<rparr>)"
    "queued (w\<lparr>courier_applications := rows, courier_seq := courier_seq w + length rows\<rparr>)"
    "couriers_ok (w\<lparr>courier_applications := rows, courier_seq := courier_seq w + length rows\<rparr>)"
proof -
  let ?couriers = "filter (\<lambda>u. u_role u = Courier) (users w)"
  define rows where "rows = map2 (approved_row (clock w)) [courier_seq w ..< courier_seq w + length (courier_pairs w)] (courier_pairs w)"
  note pairs = courier_pairs_accounted [OF assms(1,4)]
  have len: "length rows = length (courier_pairs w)" by (simp add: rows_def)
  have ids: "map co_userId rows = map u_id ?couriers" unfolding rows_def approved_rows pairs by simp
  have names: "map co_principalId rows = map (\<lambda>u. the (look (''identity'', decimal (u_id u)) w)) ?couriers"
    unfolding rows_def approved_rows pairs by simp
  have dist: "distinct (map co_userId rows)" unfolding ids using assms(2) by (simp add: distinct_map_filter)
  have row: "co_status (rows ! i) = CApproved \<and> co_id (rows ! i) = courier_seq w + i" if "i < length rows" for i
    using that by (simp add: rows_def approved_row_def)
  have named: "look (''identity'', decimal (co_userId (rows ! i))) w = Some (co_principalId (rows ! i))" if i: "i < length rows" for i
  proof -
    have "length rows = length ?couriers" using ids by (metis length_map)
    with i have n: "i < length ?couriers" by simp
    have "co_userId (rows ! i) = u_id (?couriers ! i)" using ids i n by (metis nth_map)
    moreover have "co_principalId (rows ! i) = the (look (''identity'', decimal (u_id (?couriers ! i))) w)"
      using names i n by (metis (no_types, lifting) nth_map)
    moreover have "?couriers ! i \<in> set (users w)" using n by (metis filter_is_subset nth_mem subsetD)
    ultimately show ?thesis using assms(4) by auto
  qed
  let ?t = "w\<lparr>courier_applications := rows, courier_seq := courier_seq w + length rows\<rparr>"
  have "fileEveryCourier w = (Inr (), ?t)"
    using dist unfolding fileEveryCourier_def Let_def assms(3) append_Nil rows_def [symmetric] len by simp
  moreover have "queued ?t"
  proof -
    have "co_userId ` set rows = u_id ` {u \<in> set (users w). u_role u = Courier}" using arg_cong [OF ids, of set] by simp
    then show ?thesis using row named by (auto simp: queued_def all_set_conv_all_nth)
  qed
  moreover have "couriers_ok ?t" using dist row by (auto simp: couriers_ok_def all_set_conv_all_nth)
  ultimately show thesis by (rule that)
qed

lemma keeps_minting_queue: "keeps (\<lambda>t. courier_applications t = xs) (mint_each env us)"
proof (induction us)
  case (Cons u us)
  then show ?case unfolding mint_each.simps insert_principal_def insert_alias_if_free_def insert_alias_def
    by (intro keeps_rules) (auto simp: keeps_def)
qed (unfold mint_each.simps, rule keeps_returns)

text \<open>
  On a database that is in order and has no courier applications yet, the two migrations that fill the directory and the courier
  queue both succeed. The first mints exactly what the operators' backfill would mint, in the same order. After both, no account
  has changed; every account is named in the directory, by the principal it had or by a new one of the kind of its role; and
  the queue holds one approved application for each courier, naming that courier's principal, and no other.
\<close>
theorem migrations_fill_the_directory:
  assumes "inj (uuid env)" and "principals_ok env w" and "distinct (map u_id (users w))" and "courier_applications w = []"
  shows "\<exists>n s t. principalForEveryUser env w = (Inr n, s) \<and> mint_missing env True (sort_key u_id (users w)) w = (Inr n, s)
    \<and> fileEveryCourier s = (Inr (), t) \<and> users t = users w \<and> principals_ok env t \<and> (\<forall>u \<in> set (users t). accounted w t u)
    \<and> couriers_ok t \<and> queued t"
proof -
  obtain n s where s: "mint_missing env True (sort_key u_id (users w)) w = (Inr n, s)" "principalForEveryUser env w = (Inr n, s)"
      "extended env w s" "\<forall>u \<in> set (users w). accounted w s u"
    using principalForEveryUser_mints [OF assms(1-3)] .
  have "keeps (\<lambda>t. courier_applications t = []) (principalForEveryUser env)"
    unfolding principalForEveryUser_def by (intro keeps_rules keeps_minting_queue)
  from keepsD [OF this, of w] s(2) assms(4) have none: "courier_applications s = []" by simp
  from s(3) have ok: "principals_ok env s" "users s = users w" by (simp_all add: extended_def)
  have "\<forall>u \<in> set (users s). look (''identity'', decimal (u_id u)) s \<noteq> None"
    using s(4) ok(2) by (auto simp: accounted_def split: option.splits)
  then obtain rows where rows: "fileEveryCourier s = (Inr (), s\<lparr>courier_applications := rows, courier_seq := courier_seq s + length rows\<rparr>)"
      "queued (s\<lparr>courier_applications := rows, courier_seq := courier_seq s + length rows\<rparr>)"
      "couriers_ok (s\<lparr>courier_applications := rows, courier_seq := courier_seq s + length rows\<rparr>)"
    using fileEveryCourier_run [OF ok(1) _ none] assms(3) ok(2) by metis
  let ?t = "s\<lparr>courier_applications := rows, courier_seq := courier_seq s + length rows\<rparr>"
  have "principals_ok env ?t" using ok(1) by (simp add: principals_ok_def drawn_def)
  moreover have "accounted w ?t u" if "u \<in> set (users w)" for u
    using bspec [OF s(4) that] by (cases "look (''identity'', decimal (u_id u)) w") (simp_all add: accounted_def)
  ultimately show ?thesis using s(1,2) rows ok(2) by (intro exI [of _ n] exI [of _ s] exI [of _ ?t]) simp
qed

definition sample_couriers :: world where
  "sample_couriers = empty_world\<lparr>users := [sample_row\<lparr>u_id := 2, u_role := Courier\<rparr>, sample_row\<lparr>u_id := 1\<rparr>], user_seq := 3\<rparr>"

theorem migrations_fill_the_directory_witness:
  "\<exists>n s t. principalForEveryUser sample_env sample_couriers = (Inr n, s) \<and> fileEveryCourier s = (Inr (), t)
    \<and> couriers_ok t \<and> co_userId ` set (courier_applications t) = {2}"
proof -
  have "principals_ok sample_env sample_couriers" by (simp add: principals_ok_def sample_couriers_def empty_world_def)
  moreover have "distinct (map u_id (users sample_couriers))" by (simp add: sample_couriers_def)
  moreover have "courier_applications sample_couriers = []" by (simp add: sample_couriers_def empty_world_def)
  ultimately obtain n s t where run: "principalForEveryUser sample_env sample_couriers = (Inr n, s)" "fileEveryCourier s = (Inr (), t)"
      "users t = users sample_couriers" "couriers_ok t" "queued t"
    using migrations_fill_the_directory [OF sample_env_uuid, of sample_couriers] by blast
  moreover have "u_id ` {u \<in> set (users sample_couriers). u_role u = Courier} = {2}"
    by code_simp
  ultimately show ?thesis by (auto simp: queued_def)
qed

end
