(* ===== verification/Providers.thy ===== *)
theory Providers
  imports Startup Signing_Keys Passkeys Fleet
begin

text \<open>
  What building the application reads: the constructors and factories of the providers of \<^verbatim>\<open>app.module.ts\<close> that take
  settings. \<^verbatim>\<open>ConfigService\<close> and \<^verbatim>\<open>process.env\<close> are functions from names to values; the parser of addresses and the functions of
  \<^verbatim>\<open>node:crypto\<close> are parameters. Where several providers fail the framework reports one of them, here the first of the list.
\<close>

section \<open>The settings of the providers\<close>

record TokenSettings =
  ts_issuer :: string
  ts_audience :: string
  ts_accessTtlSeconds :: nat
  ts_refreshTtlSeconds :: nat

definition filled :: "string option \<Rightarrow> bool" where
  "filled v \<longleftrightarrow> v \<noteq> None \<and> v \<noteq> Some []"

definition tokenSettings :: "(string \<Rightarrow> string option) \<Rightarrow> (string \<Rightarrow> string option) \<Rightarrow> failure + TokenSettings" where
  "tokenSettings config env =
     (let iss = from_config config env ''JWT_ISSUER''; aud = from_config config env ''JWT_AUDIENCE'' in
      if \<not> filled iss then Inl (PlainError ''JWT_ISSUER is required and has no default.'')
      else if \<not> filled aud then Inl (PlainError ''JWT_AUDIENCE is required and has no default.'')
      else
     (case positiveIntegerSetting ''JWT_ACCESS_TTL_SECONDS'' (config ''JWT_ACCESS_TTL_SECONDS'') of Inl e \<Rightarrow> Inl e | Inr accessTtl \<Rightarrow>
     (case positiveIntegerSetting ''JWT_REFRESH_TTL_SECONDS'' (config ''JWT_REFRESH_TTL_SECONDS'') of Inl e \<Rightarrow> Inl e | Inr refreshTtl \<Rightarrow>
        if refreshTtl \<le> accessTtl
        then Inl (PlainError ''JWT_REFRESH_TTL_SECONDS must be a positive number greater than the access TTL.'')
        else Inr \<lparr>ts_issuer = the iss, ts_audience = the aud, ts_accessTtlSeconds = accessTtl, ts_refreshTtlSeconds = refreshTtl\<rparr>)))"

definition passkeyCeremonyFrom :: "(string \<Rightarrow> ParsedUrl option) \<Rightarrow> (string \<Rightarrow> string option) \<Rightarrow> failure + RelyingParty" where
  "passkeyCeremonyFrom parse config = relyingPartyFrom parse config"

definition fleetHost :: "(string \<Rightarrow> string option) \<Rightarrow> failure + string" where
  "fleetHost config = map_sum id js_trim (requiredSetting ''MATCHING_GRPC_HOST'' (config ''MATCHING_GRPC_HOST''))"

record GeocoderSettings =
  gs_baseUrl :: string
  gs_userAgent :: string

definition without_last_slashes :: "string \<Rightarrow> string" where
  "without_last_slashes s = rev (dropWhile (\<lambda>c. c = CHR ''/'') (rev s))"

definition geocoderSettings :: "(string \<Rightarrow> bool) \<Rightarrow> (string \<Rightarrow> string option) \<Rightarrow> failure + GeocoderSettings" where
  "geocoderSettings canParse config =
     (case requiredSetting ''GEOCODER_BASE_URL'' (config ''GEOCODER_BASE_URL'') of Inl e \<Rightarrow> Inl e | Inr raw \<Rightarrow>
       (let baseUrl = js_trim raw in
        if \<not> canParse baseUrl then Inl (PlainError (''GEOCODER_BASE_URL is \"'' @ baseUrl @ ''\", which is not a URL.''))
        else
     (case requiredSetting ''GEOCODER_USER_AGENT'' (config ''GEOCODER_USER_AGENT'') of Inl e \<Rightarrow> Inl e | Inr userAgent \<Rightarrow>
        Inr \<lparr>gs_baseUrl = without_last_slashes baseUrl, gs_userAgent = js_trim userAgent\<rparr>)))"

section \<open>Building the application\<close>

record Application =
  ap_database :: DatabaseSettings
  ap_keys :: KeyProvider
  ap_tokens :: TokenSettings
  ap_gate :: Gate
  ap_party :: RelyingParty
  ap_fleetHost :: string
  ap_geocoder :: GeocoderSettings

definition createApplication ::
    "KeyLibrary \<Rightarrow> (string \<Rightarrow> ParsedUrl option) \<Rightarrow> (string \<Rightarrow> string option) \<Rightarrow> (string \<Rightarrow> string option) \<Rightarrow> failure + Application" where
  "createApplication lib parse config env =
     (case databaseSettings config of Inl e \<Rightarrow> Inl e | Inr database \<Rightarrow>
     (case jwtKeyProvider lib config env of Inl e \<Rightarrow> Inl e | Inr keys \<Rightarrow>
     (case tokenSettings config env of Inl e \<Rightarrow> Inl e | Inr tokens \<Rightarrow>
     (case clientGateFrom config of Inl e \<Rightarrow> Inl e | Inr gate \<Rightarrow>
     (case passkeyCeremonyFrom parse config of Inl e \<Rightarrow> Inl e | Inr party \<Rightarrow>
     (case fleetHost config of Inl e \<Rightarrow> Inl e | Inr host \<Rightarrow>
     (case geocoderSettings (\<lambda>u. parse u \<noteq> None) config of Inl e \<Rightarrow> Inl e | Inr geocoder \<Rightarrow>
        Inr \<lparr>ap_database = database, ap_keys = keys, ap_tokens = tokens, ap_gate = gate, ap_party = party, ap_fleetHost = host,
             ap_geocoder = geocoder\<rparr>)))))))"

definition start ::
    "KeyLibrary \<Rightarrow> (string \<Rightarrow> ParsedUrl option) \<Rightarrow> (string \<Rightarrow> string option) \<Rightarrow> (string \<Rightarrow> string option)
     \<Rightarrow> (string \<Rightarrow> string \<Rightarrow> string option) \<Rightarrow> failure + Started \<times> Application" where
  "start lib parse config env files =
     (let app = createApplication lib parse config env in
      case bootstrap env files (map_sum id (\<lambda>_. ()) app) of Inl e \<Rightarrow> Inl e | Inr s \<Rightarrow> Inr (s, projr app))"

text \<open>The environment the token service works in is the one the settings give.\<close>

definition configured :: "'tok Env \<Rightarrow> Application \<Rightarrow> bool" where
  "configured e app \<longleftrightarrow> keyed_by e (ap_keys app)
     \<and> issuer e = ts_issuer (ap_tokens app) \<and> audience e = ts_audience (ap_tokens app)
     \<and> accessTtlSeconds e = int (ts_accessTtlSeconds (ap_tokens app)) \<and> refreshTtlSeconds e = int (ts_refreshTtlSeconds (ap_tokens app))"

lemma tokenSettings_ok:
  "tokenSettings config env = Inr t \<Longrightarrow>
   ts_issuer t \<noteq> [] \<and> ts_audience t \<noteq> [] \<and> 0 < ts_accessTtlSeconds t \<and> ts_accessTtlSeconds t < ts_refreshTtlSeconds t"
  by (auto simp: tokenSettings_def filled_def Let_def dest: positive_setting split: if_splits sum.splits)

lemma provider_key: "jwtKeyProvider lib config env = Inr p \<Longrightarrow> kp_keyId p = thumbprint lib (kp_publicKey p)"
  by (auto simp: jwtKeyProvider_def Let_def split: option.splits if_splits sum.splits)

lemma gate_verifier: "clientGateFrom config = Inr g \<Longrightarrow> gt_verifier g = cr_firebaseProjectNumber (gt_registry g)"
  by (auto simp: clientGateFrom_def split: sum.splits if_splits)

lemma createApplication_parts:
  assumes "createApplication lib parse config env = Inr app"
  shows "databaseSettings config = Inr (ap_database app)" "jwtKeyProvider lib config env = Inr (ap_keys app)"
    "tokenSettings config env = Inr (ap_tokens app)" "clientGateFrom config = Inr (ap_gate app)"
    "relyingPartyFrom parse config = Inr (ap_party app)" "fleetHost config = Inr (ap_fleetHost app)"
    "geocoderSettings (\<lambda>u. parse u \<noteq> None) config = Inr (ap_geocoder app)"
  using assms by (auto simp: createApplication_def passkeyCeremonyFrom_def split: sum.splits)

lemma start_parts: "start lib parse config env files = Inr (s, app) \<Longrightarrow> createApplication lib parse config env = Inr app \<and> bootstrap env files (Inr ()) = Inr s"
  by (cases "createApplication lib parse config env") (auto simp: start_def Let_def bootstrap_def split: sum.splits if_splits)

section \<open>The connection to the fleet\<close>

text \<open>
  The first call to the fleet loads the contract and the identity of the mesh and keeps the client it makes; \<open>contract\<close> is
  whether the installed package has the contract, or why not.
\<close>

record FleetChannel =
  fc_host :: string
  fc_identity :: ServiceIdentityFiles

definition fleet_connect ::
    "string \<Rightarrow> string option \<Rightarrow> failure + ServiceIdentityFiles \<Rightarrow> FleetChannel option \<Rightarrow> (failure + FleetChannel) \<times> FleetChannel option" where
  "fleet_connect host contract identity client =
     (case client of
        Some c \<Rightarrow> (Inr c, client)
      | None \<Rightarrow>
          (case contract of
             Some cause \<Rightarrow> (Inl (FleetRegistryError \<lparr>ff_kind = Fault, ff_code = ''FLEET_CONTRACT_MISSING'',
               ff_message = ''fleet/v1/registry.proto is not in the installed kinetix-contracts''\<rparr>), None)
           | None \<Rightarrow>
               (case identity of
                  Inl e \<Rightarrow> (Inl e, None)
                | Inr files \<Rightarrow> (let c = \<lparr>fc_host = host, fc_identity = files\<rparr> in (Inr c, Some c)))))"

text \<open>
  What a call meets: a connection that cannot be made decides it, and \<open>reached\<close> is what it meets otherwise. An attempt that
  fails leaves nothing behind, so that the next call tries again; one that succeeds is the last to read anything.
\<close>

definition answer_over :: "(failure + FleetChannel) \<Rightarrow> FleetAnswer \<Rightarrow> FleetAnswer" where
  "answer_over channel reached =
     (case channel of
        Inl (FleetRegistryError _) \<Rightarrow> NoContract
      | Inl (PlainError message) \<Rightarrow> NoIdentity message
      | _ \<Rightarrow> reached)"

lemma unconnected_call:
  assumes "fleet_connect host contract (loadServiceIdentity files directory pki) None = (Inl e, client)"
  shows "call (answer_over (Inl e) reached) = Inl e \<and> client = None"
  using assms
  by (auto simp: fleet_connect_def answer_over_def call_def loadServiceIdentity_def Let_def split: option.splits sum.splits)

lemma connected_stays:
  assumes "fleet_connect host contract identity client = (Inr c, kept)"
  shows "kept = Some c \<and> fleet_connect h other i kept = (Inr c, kept)"
  using assms by (auto simp: fleet_connect_def Let_def split: option.splits sum.splits)

section \<open>What a started process has checked\<close>

text \<open>
  A process that starts has checked every setting its sessions rest on: the tokens it signs name an issuer and an audience, an
  access token has a lifetime and the refresh token that goes with it has a longer one, the signing key is published under its
  thumbprint, and a client that must prove itself is registered only together with the project its proofs are checked for.
\<close>
theorem started_process_issues_bounded_sessions:
  assumes "start lib parse config env files = Inr (s, app)" and "configured e app"
  shows "issuer e \<noteq> [] \<and> audience e \<noteq> []
    \<and> n < cl_exp (access_claims e u p f c j n) \<and> cl_exp (access_claims e u p f c j n) < cl_exp (refresh_claims e u p f c k n)
    \<and> keyId e = thumbprint lib (publicKey e)
    \<and> gt_verifier (ap_gate app) = cr_firebaseProjectNumber (gt_registry (ap_gate app))"
proof -
  from start_parts [OF assms(1)] have app: "createApplication lib parse config env = Inr app" by simp
  note parts = createApplication_parts [OF app]
  from tokenSettings_ok [OF parts(3)] assms(2) provider_key [OF parts(2)] gate_verifier [OF parts(4)] show ?thesis
    by (auto simp: configured_def keyed_by_def)
qed

definition sample_process_settings :: "(string \<times> string) list" where
  "sample_process_settings =
     [(''DB_HOST'', ''db''), (''DB_PORT'', ''1''), (''DB_USERNAME'', ''u''), (''DB_PASSWORD'', ''p''), (''DB_DATABASE'', ''d''),
      (''KINETIX_IDENTITY_JWT_PRIVATE_KEY_B64'', ''PRIVATE KEY''), (''JWT_ISSUER'', ''i''), (''JWT_AUDIENCE'', ''a''),
      (''JWT_ACCESS_TTL_SECONDS'', ''1''), (''JWT_REFRESH_TTL_SECONDS'', ''2''),
      (''IDENTITY_UNNAMED_CLIENTS'', ''allow''), (''IDENTITY_CLIENTS'', ''web:none''), (''IDENTITY_WEBAUTHN_RP_ID'', ''k.id''),
      (''IDENTITY_WEBAUTHN_ORIGIN'', ''https://k.id''), (''IDENTITY_WEBAUTHN_RP_NAME'', ''K''), (''MATCHING_GRPC_HOST'', ''m''),
      (''GEOCODER_BASE_URL'', ''https://g/''), (''GEOCODER_USER_AGENT'', ''k''), (''PORT'', ''1''), (''GRPC_PORT'', ''5000''),
      (''GRPC_ALLOWED_CALLERS'', ''gateway'')]"

definition sample_config :: "string \<Rightarrow> string option" where
  "sample_config = map_of sample_process_settings"

definition sample_parse :: "string \<Rightarrow> ParsedUrl option" where
  "sample_parse s = Some \<lparr>url_protocol = ''https:'', url_origin = s, url_hostname = ''k.id''\<rparr>"

lemma number_setting:
  "js_trim s = s \<Longrightarrow> s \<noteq> [] \<Longrightarrow> list_all is_digit s \<Longrightarrow> digits_value s = k \<Longrightarrow> 0 < k \<Longrightarrow> k \<le> 9007199254740991 \<Longrightarrow>
   positiveIntegerSetting n (Some s) = Inr k"
  by (simp add: positiveIntegerSetting_def requiredSetting_def)

lemma sample_numbers [simp]:
  "positiveIntegerSetting n (Some ''1'') = Inr 1" "positiveIntegerSetting n (Some ''2'') = Inr 2"
  by (rule number_setting; simp add: js_trim_def js_space_def is_digit_def digits_value_def)+

lemma sample_database: "\<exists>d. databaseSettings sample_config = Inr d"
  by (simp add: databaseSettings_def sample_config_def sample_process_settings_def requiredSetting_def js_trim_def js_space_def)

lemma sample_tokens: "tokenSettings sample_config sample_config = Inr \<lparr>ts_issuer = ''i'', ts_audience = ''a'', ts_accessTtlSeconds = 1, ts_refreshTtlSeconds = 2\<rparr>"
  by (simp add: tokenSettings_def filled_def from_config_def sample_config_def sample_process_settings_def)

lemma sample_parts:
  "\<not> isl (jwtKeyProvider sample_library sample_config sample_config)" "\<not> isl (clientGateFrom sample_config)"
  "\<not> isl (passkeyCeremonyFrom sample_parse sample_config)" "\<not> isl (fleetHost sample_config)"
  "\<not> isl (geocoderSettings (\<lambda>u. sample_parse u \<noteq> None) sample_config)"
  by code_simp+

lemma sample_application: "\<exists>app. createApplication sample_library sample_parse sample_config sample_config = Inr app"
  using sample_database sample_parts unfolding createApplication_def sample_tokens by (auto split: sum.split)

definition sample_pki :: "string \<Rightarrow> string \<Rightarrow> string option" where
  "sample_pki directory name = Some name"

lemma sample_bootstrap: "\<exists>s. bootstrap sample_config sample_pki (Inr ()) = Inr s"
proof -
  have parts: "graceSecondsFrom (sample_config ''SHUTDOWN_GRACE_SECONDS'') = Inr DEFAULT_GRACE_SECONDS"
      "positiveIntegerSetting ''PORT'' (sample_config ''PORT'') = Inr 1" "sample_config ''GRPC_PORT'' = Some ''5000''"
    by (simp_all add: graceSecondsFrom_def sample_config_def sample_process_settings_def)
  have "\<not> isl (logLevelsFrom (sample_config ''LOG_LEVEL''))" "\<not> isl (allowedCallers (sample_config ''GRPC_ALLOWED_CALLERS''))"
    by code_simp+
  then show ?thesis unfolding bootstrap_def parts by (auto simp: loadServiceIdentity_def sample_pki_def Let_def split: sum.split)
qed

theorem started_process_issues_bounded_sessions_witness:
  "\<exists>s app e. start sample_library sample_parse sample_config sample_config sample_pki = Inr (s, app) \<and> configured e app
    \<and> cl_exp (access_claims (e :: (Claims \<times> KeyObject \<times> string) Env) sample_subject ''p'' ''f'' None ''j'' 0) < cl_exp (refresh_claims e sample_subject ''p'' ''f'' None ''k'' 0)"
proof -
  obtain app s where app: "createApplication sample_library sample_parse sample_config sample_config = Inr app"
      and s: "bootstrap sample_config sample_pki (Inr ()) = Inr s"
    using sample_application sample_bootstrap by blast
  then have run: "start sample_library sample_parse sample_config sample_config sample_pki = Inr (s, app)"
    by (simp add: start_def Let_def)
  let ?keys = "ap_keys app" and ?tokens = "ap_tokens app"
  let ?e = "sample_env\<lparr>issuer := ts_issuer ?tokens, audience := ts_audience ?tokens, accessTtlSeconds := int (ts_accessTtlSeconds ?tokens),
      refreshTtlSeconds := int (ts_refreshTtlSeconds ?tokens), privateKey := kp_privateKey ?keys, publicKey := kp_publicKey ?keys,
      keyId := kp_keyId ?keys, previousKeys := kp_previousKeys ?keys\<rparr>"
  have "configured ?e app" by (simp add: configured_def keyed_by_def)
  with run started_process_issues_bounded_sessions [OF run this] show ?thesis by blast
qed

end
