(* ===== verification/Spec2Isabelle.thy ===== *)
theory Spec2Isabelle
  imports Passkeys Couriers Directory_Api Access_Control Operators Signing_Keys Geo_Api Gateway Startup Request_Bodies Schema Data_Migrations Providers
begin

text \<open>
  \<^bold>\<open>The Kinetix identity service.\<close> The service keeps accounts, their sessions and second factors, the
  principals other services know them by, their profiles, and the applications by which an account
  becomes a seller or a courier. It is called over HTTP by people and over gRPC by other services, and it
  calls a geocoder and the fleet service. The sources are under \<^verbatim>\<open>src/src\<close>: rules in \<^verbatim>\<open>domain\<close>, use
  cases in \<^verbatim>\<open>application/services\<close>, PostgreSQL, crypto and mesh adapters in \<^verbatim>\<open>infrastructure\<close>, controllers,
  guards and mappers in \<^verbatim>\<open>adapters\<close>.

  \<^bold>\<open>How the code is modelled.\<close> An asynchronous method is a function from the state to its outcome, a
  value or a thrown error, and the state it leaves (\<open>io\<close> in \<open>Prelude\<close>, \<open>act\<close> in \<open>World\<close>); a throw keeps the
  writes made before it, as in the code, and only a database transaction (\<open>atomically\<close>) undoes them. The
  state (\<open>world\<close>) holds one list of rows per table, the sequences, the clock in milliseconds, the number
  of random draws, the App Check key cache, the security events logged and the outbound calls made.
  Exceptions are the constructors of \<open>failure\<close> (\<open>Domain\<close>), without the texts the code interpolates.
  Libraries that are not in the repository are parameters: \<open>Env\<close> (bcrypt, SHA-256, HMAC, UUIDs,
  jsonwebtoken), \<open>AppCheckEnv\<close>, \<open>WebAuthn\<close>, \<open>GeoEnv\<close>, \<open>FleetEnv\<close> and the URL parser; what a theorem needs
  of them is a hypothesis that names it (\<open>inj (uuid env)\<close>, \<open>jwt_ok env\<close>), and the witnesses meet them with
  concrete functions. A text is a list of code points up to \<^verbatim>\<open>U+00FF\<close>.

  \<^bold>\<open>The theories.\<close>
  \<^item> \<open>Prelude\<close>: the effect type and its rules, \<open>keeps\<close> (a computation keeps a predicate), JavaScript's text
    functions, decimals, tables, and the locales of state machines (\<open>reaches\<close>) and of things spent once.
  \<^item> \<open>Domain\<close> (\<^verbatim>\<open>domain/*.ts\<close>, \<^verbatim>\<open>sql_state.ts\<close>), \<open>World\<close> (the entities and tables), \<open>Saved_Rows\<close>
    (TypeORM's \<^verbatim>\<open>save\<close> on a table with a generated id).
  \<^item> \<open>Totp\<close> (\<^verbatim>\<open>crypto/totp.ts\<close>): base32 round trip and length, six-digit codes, the accepted step.
  \<^item> \<open>Sign_In_Attempts\<close> (policy, repository and service): the delay schedule; over any run of the service's calls the
    rate bound for one account, which allows for completed sign-ins, and at most five answers per challenge; sweeping
    changes no decision.
  \<^item> \<open>Users\<close>, \<open>Principals\<close> (repository adapter and resolver): accepted steps go up, aliases are never
    repointed, every account resolves to one principal.
  \<^item> \<open>Token_Service\<close> (\<^verbatim>\<open>token.service.ts\<close>) and \<open>Sessions\<close> (its state machines): at most one live refresh
    token per session, a replay ends the session, sign-out and single use of challenges.
  \<^item> \<open>Client_Gate\<close> (\<^verbatim>\<open>client_registry.ts\<close>, \<^verbatim>\<open>client_gate.service.ts\<close>, the App Check verifier and key set):
    only registered clients with a valid proof, signed by a key the key server listed, are admitted; keys are fresh,
    downloads are spaced.
  \<^item> \<open>Passkey_Store\<close> (both repositories), \<open>Auth_Usecase\<close>, \<open>Two_Factor\<close> (\<^verbatim>\<open>auth_usecase.service.ts\<close>) and
    \<open>Passkeys\<close> (\<^verbatim>\<open>passkey_usecase.service.ts\<close>, the ceremony adapter, the relying party): what each way to a
    session proves, that refused ones open none, and the invariant of the account tables.
  \<^item> \<open>Geocoding\<close>, \<open>Profiles\<close>: canonical cache keys, placed addresses stay placed, a profile is saved whatever
    the geocoder does.
  \<^item> \<open>Paging\<close> (the application queues): the locale \<open>keyset_pages\<close>, proved for any keyed list and interpreted
    on both queues and on both feeds; a reader reaches the end and sees every row once.
  \<^item> \<open>Seller_Onboarding\<close>, \<open>Fleet\<close>, \<open>Couriers\<close>: what an approval has done when it returns, what it leaves
    alone, its compensation when the fleet refuses and how an unknown outcome is finished.
  \<^item> \<open>Merchant_Feed\<close>, \<open>Wire\<close>, \<open>Directory_Api\<close> (\<^verbatim>\<open>identity_grpc.controller.ts\<close> and the mappers): the change
    feed as a machine of concurrent transactions and polls loses no change, and the gRPC method refines it.
  \<^item> \<open>Mesh\<close> (the allow list, SPIFFE names and the interceptor): a call passes exactly on a grant.
  \<^item> \<open>Geo_Api\<close> (\<^verbatim>\<open>geo_grpc.controller.ts\<close>): a batch asks the outside geocoder at most 25 times and is answered
    address by address.
  \<^item> \<open>Signing_Keys\<close> (\<^verbatim>\<open>jwt_key_provider.ts\<close>): the keys the process publishes are the keys it verifies with.
  \<^item> \<open>Http_Access\<close> (guards, decorators, the audit interceptor, the exception filter) and \<open>Service\<close> (the five
    HTTP controllers, each route with its decorators and its handler, and the sweeper of expired records):
    \<open>serve\<close> is a request from its guards to its reply.
  \<^item> \<open>Frames\<close>: what serving a request leaves alone, as the locales \<open>account_frame\<close>, \<open>courier_frame\<close> and
    \<open>seller_frame\<close>, interpreted for the stores, the roles and the consistency of the account tables.
  \<^item> \<open>Access_Control\<close>: who may call what, stated without guards; that the routes enforce it, that admin access
    is recorded, that roles and stores change only by an admin's approval, that no reply hands an admin without a
    second factor a session, and that the service, over any run of requests and sweeps, keeps the account tables
    consistent.
  \<^item> \<open>Request_Bodies\<close> (\<^verbatim>\<open>application/dto\<close>, \<^verbatim>\<open>http_pipeline.ts\<close>): the request classes as lists of decorated members, the validation
    pipe, and how a body becomes the call of a handler; an accepted body keeps what the use cases are promised, one
    with unknown members, without a required text or against those promises changes no table.
  \<^item> \<open>Operators\<close> (\<^verbatim>\<open>src/scripts\<close> and \<^verbatim>\<open>bootstrap-admin.ts\<close>): the reports write nothing, the backfill names every
    account, the first admin is made once, what a purge and a promotion leave.
  \<^item> \<open>Gateway\<close> (\<^verbatim>\<open>gateway_hop.ts\<close>), \<open>Shutdown\<close> (\<^verbatim>\<open>shutdown_drain.ts\<close>), \<open>Observability\<close> (logger, metrics, route
    templates) and \<open>Startup\<close> (\<^verbatim>\<open>main.ts\<close>, settings, health): whose forwarded address is believed, that a clean
    exit means a drained process, that log fields cannot forge a record and a record is one line, that a call is
    counted once.
  \<^item> \<open>Providers\<close> (the providers of \<^verbatim>\<open>app.module.ts\<close> that read settings, the connection to the fleet): a process that
    starts has checked every setting its sessions rest on.
  \<^item> \<open>Schema\<close> (\<^verbatim>\<open>migrations/*.ts\<close>, \<^verbatim>\<open>data-source.ts\<close>, \<^verbatim>\<open>migrate.ts\<close> and what \<^verbatim>\<open>persistence/entities/*.ts\<close> declare) and
    \<open>Data_Migrations\<close> (the rows the migrations write): every migration runs and is undone by its \<^verbatim>\<open>down\<close>; over the
    rows there are, deploying fails only on addresses that differ in case, and else gives the schema the entities
    describe; the directory and the courier queue are filled from the accounts.

  \<^bold>\<open>Bounds and fuel.\<close> No operation of the model has fuel: every loop of the code is over a list. Only the
  readers of pages are unbounded; \<open>read_pages\<close> takes the number of pages it may read, and the property of
  the queues shows that one more than the number of full pages is enough, that of the feed that as many
  polls as there are stores are. Numbers are \<open>nat\<close> or \<open>int\<close>, coordinates \<open>rat\<close>; the 32- and 64-bit arithmetic
  of TOTP uses words and written-out remainders, and transaction ids carry their 64-bit check.

  \<^bold>\<open>Not modelled.\<close> Sockets, files, timers and the framework's wiring;
  what PostgreSQL does with a statement of a migration beyond names, columns, constraints, indexes and triggers, and
  beyond the facts on rows that \<open>Schema\<close> tracks (the write operations enforce the constraints on rows); the rules of class-validator, which are a parameter with its documented behaviour as
  a hypothesis; the request counting of the rate
  limiter, of which a guard takes the outcome; PEM parsing and other node:crypto functions, which are parameters;
  the deadline of \<^verbatim>\<open>with_timeout.ts\<close>. Reads of one request are not interleaved with other requests, except where a
  machine of this development says so (refresh tokens, challenges, steps, passkeys, the change feed, application
  rows).
\<close>

section \<open>The audit and its metric\<close>

lemma audited_actions_declared:
  "rm_audit (auth_route a) = None"
  "rm_audit (passkey_route p) = Some point \<Longrightarrow> ap_action point \<in> set ADMIN_ACTIONS"
  "rm_audit (courier_route c) = Some point \<Longrightarrow> ap_action point \<in> set ADMIN_ACTIONS"
  "rm_audit (seller_route s) = Some point \<Longrightarrow> ap_action point \<in> set ADMIN_ACTIONS"
  "rm_audit (profile_route f) = Some point \<Longrightarrow> ap_action point \<in> set ADMIN_ACTIONS"
  by ((cases a; simp add: route_simps), (cases p; auto simp: route_simps ADMIN_ACTIONS_def),
      (cases c; auto simp: route_simps ADMIN_ACTIONS_def), (cases s; auto simp: route_simps ADMIN_ACTIONS_def),
      (cases f; auto simp: route_simps ADMIN_ACTIONS_def))

text \<open>
  Every action the audit records is counted. The action of an audited route, with any outcome, has a series in the
  metrics from the start, so that a dashboard sees zero before the first and no admin action is counted under a
  series it does not know.
\<close>

theorem audited_actions_are_counted:
  assumes "rm_audit (route_of action) = Some point"
  shows "mt_adminActions (metricsRegistry name version) [ap_action point, outcome_text outcome] \<noteq> None"
proof -
  have "ap_action point \<in> set ADMIN_ACTIONS" using assms by (cases action) (auto simp: audited_actions_declared)
  moreover have "outcome \<in> set ADMIN_ACTION_OUTCOMES" by (cases outcome) (simp_all add: ADMIN_ACTION_OUTCOMES_def)
  ultimately have "[ap_action point, outcome_text outcome] \<in> dom (mt_adminActions (metricsRegistry name version))"
    unfolding metricsRegistry_def declared_def Metrics.simps dom_declared by auto
  then show ?thesis by blast
qed

theorem audited_actions_are_counted_witness:
  "mt_adminActions (metricsRegistry ''identity'' ''1'') [''identity.courier_approve'', ''refused''] \<noteq> None"
proof -
  have "rm_audit (route_of (ToCouriers ApproveCourier)) = Some \<lparr>ap_action = ''identity.courier_approve'', ap_targetParam = Some ''principalId''\<rparr>"
    by (simp add: route_simps)
  from audited_actions_are_counted [OF this, of "''identity''" "''1''" ActionRefused] show ?thesis by simp
qed

end
